(* ===== verification/Prelude.thy ===== *)
theory Prelude
  imports Main "HOL-Library.Word" "HOL-Library.Signed_Division" "HOL-Library.Log_Nat"
begin

text \<open>
  Shared ground of the development: fallible computations as sums, Go's fixed-width
  \<open>int64\<close> arithmetic, and the list and map idioms that several packages of RemnaCore use
  (deleting the first match of a slice, filtering a slice through a \<open>seen\<close> set, indexing a
  slice by a key into a Go map). Nothing here is specific to one component.
\<close>

section \<open>Collections of facts\<close>

named_theorems op_defs \<open>definitions of aggregate operations, unfolded to inspect a single step\<close>
named_theorems frame_simps \<open>fields that an operation leaves alone\<close>

section \<open>Fallible computations\<close>

text \<open>
  A Go function that returns \<open>(T, error)\<close> is a function into \<open>'e + 'a\<close>: \<open>Inl e\<close> is the
  early return with an error, \<open>Inr a\<close> the normal result.
\<close>

definition rbind :: "'e + 'a \<Rightarrow> ('a \<Rightarrow> 'e + 'b) \<Rightarrow> 'e + 'b" where
  "rbind m f = (case m of Inl e \<Rightarrow> Inl e | Inr a \<Rightarrow> f a)"

definition require :: "bool \<Rightarrow> 'e \<Rightarrow> 'e + unit" where
  "require b e = (if b then Inr () else Inl e)"

definition is_ok :: "'e + 'a \<Rightarrow> bool" where
  "is_ok r = (case r of Inl _ \<Rightarrow> False | Inr _ \<Rightarrow> True)"

lemma rbind_simps [simp]:
  "rbind (Inl e) f = Inl e"
  "rbind (Inr a) f = f a"
  by (simp_all add: rbind_def)

lemma is_ok_simps [simp]: "is_ok (Inl e) = False" "is_ok (Inr a) = True"
  by (simp_all add: is_ok_def)

lemma is_ok_iff: "is_ok r \<longleftrightarrow> (\<exists>a. r = Inr a)"
  by (cases r) simp_all

lemma rbind_Inr_iff [simp]: "rbind m f = Inr y \<longleftrightarrow> (\<exists>a. m = Inr a \<and> f a = Inr y)"
  by (cases m) simp_all

lemma rbind_Inl_iff: "rbind m f = Inl e \<longleftrightarrow> m = Inl e \<or> (\<exists>a. m = Inr a \<and> f a = Inl e)"
  by (cases m) simp_all

lemma rbind_assoc: "rbind (rbind m f) g = rbind m (\<lambda>x. rbind (f x) g)"
  by (cases m) simp_all

lemma rbind_cong [fundef_cong]:
  "m = m' \<Longrightarrow> (\<And>a. m' = Inr a \<Longrightarrow> f a = g a) \<Longrightarrow> rbind m f = rbind m' g"
  by (cases m') simp_all

lemma require_Inr_iff [simp]: "require b e = Inr u \<longleftrightarrow> b"
  by (simp add: require_def)

lemma require_Inl_iff [simp]: "require b e = Inl e' \<longleftrightarrow> \<not> b \<and> e = e'"
  by (auto simp: require_def)

lemma require_True [simp]: "require True e = Inr ()"
  by (simp add: require_def)

lemma require_False [simp]: "require False e = Inl e"
  by (simp add: require_def)

section \<open>Go's int64\<close>

text \<open>
  A Go \<open>int64\<close> is a 64-bit word read as two's complement by \<open>sint\<close>. Addition, subtraction
  and multiplication wrap; \<open>a <s b\<close> and \<open>a \<le>s b\<close> are the signed comparisons;
  \<open>a sdiv b\<close> and \<open>a smod b\<close> truncate towards zero, as Go's \<open>/\<close> and \<open>%\<close> do.
\<close>

type_synonym int64 = "64 word"

definition in_int64 :: "int \<Rightarrow> bool" where
  "in_int64 i \<longleftrightarrow> - (2 ^ 63) \<le> i \<and> i < 2 ^ 63"

definition MinInt64 :: int64 where "MinInt64 = word_of_int (- (2 ^ 63))"
definition MaxInt64 :: int64 where "MaxInt64 = word_of_int (2 ^ 63 - 1)"

lemma sint64_lower: "- (2 ^ 63) \<le> sint (w :: int64)"
  using sint_ge [of w] by simp

lemma sint64_upper: "sint (w :: int64) < 2 ^ 63"
  using sint_lt [of w] by simp

lemma in_int64_sint [simp, intro]: "in_int64 (sint (w :: int64))"
  using sint64_lower [of w] sint64_upper [of w] by (simp add: in_int64_def)

lemma sint_word_of_int64: "in_int64 i \<Longrightarrow> sint (word_of_int i :: int64) = i"
  by (simp add: sint_sbintrunc' signed_take_bit_int_eq_self in_int64_def)

lemma sint_MinInt64: "sint MinInt64 = - (2 ^ 63)"
  by (simp add: MinInt64_def sint_word_of_int64 in_int64_def)

lemma sint_MaxInt64: "sint MaxInt64 = 2 ^ 63 - 1"
  unfolding MaxInt64_def by (rule sint_word_of_int64) (simp add: in_int64_def)

lemma sint_add64: "in_int64 (sint a + sint b) \<Longrightarrow> sint (a + b :: int64) = sint a + sint b"
  using sint_word_of_int64 [of "sint a + sint b"] by simp

lemma sint_sub64: "in_int64 (sint a - sint b) \<Longrightarrow> sint (a - b :: int64) = sint a - sint b"
  using sint_word_of_int64 [of "sint a - sint b"] by simp

lemma sint_mult64: "in_int64 (sint a * sint b) \<Longrightarrow> sint (a * b :: int64) = sint a * sint b"
  using sint_word_of_int64 [of "sint a * sint b"] by simp

lemma sint_minus64: "in_int64 (- sint a) \<Longrightarrow> sint (- a :: int64) = - sint a"
  using sint_word_of_int64 [of "- sint a"] by simp

text \<open>A sum that leaves the range comes back shifted by exactly one period.\<close>

lemma sint_unique64: "in_int64 i \<Longrightarrow> (of_int i :: int64) = w \<Longrightarrow> sint w = i"
  using sint_word_of_int64 [of i] by simp

lemma period64 [simp]: "(18446744073709551616 :: int64) = 0"
  using word_exp_length_eq_0 [where 'a = 64] by simp

lemma sint_add64_over: "2 ^ 63 \<le> sint a + sint b \<Longrightarrow> sint (a + b :: int64) = sint a + sint b - 2 ^ 64"
  using sint64_upper [of a] sint64_upper [of b]
  by (intro sint_unique64) (simp_all add: in_int64_def)

lemma sint_add64_under: "sint a + sint b < - (2 ^ 63) \<Longrightarrow> sint (a + b :: int64) = sint a + sint b + 2 ^ 64"
  using sint64_lower [of a] sint64_lower [of b]
  by (intro sint_unique64) (simp_all add: in_int64_def)

lemma sint_sub64_over: "2 ^ 63 \<le> sint a - sint b \<Longrightarrow> sint (a - b :: int64) = sint a - sint b - 2 ^ 64"
  using sint64_upper [of a] sint64_lower [of b]
  by (intro sint_unique64) (simp_all add: in_int64_def)

lemma sint_sub64_under: "sint a - sint b < - (2 ^ 63) \<Longrightarrow> sint (a - b :: int64) = sint a - sint b + 2 ^ 64"
  using sint64_lower [of a] sint64_upper [of b]
  by (intro sint_unique64) (simp_all add: in_int64_def)

text \<open>
  Go's \<open>/\<close> and \<open>%\<close> on \<open>int64\<close> (a zero divisor panics; every divisor in the modelled code is
  a non-zero constant or has just been compared with zero).
\<close>

definition go_div :: "int64 \<Rightarrow> int64 \<Rightarrow> int64" where
  "go_div a b = word_of_int (sint a sdiv sint b)"

definition go_mod :: "int64 \<Rightarrow> int64 \<Rightarrow> int64" where
  "go_mod a b = word_of_int (sint a smod sint b)"

lemma sdiv_pos: "0 < (f::int) \<Longrightarrow> a sdiv f = (if 0 \<le> a then a div f else - ((- a) div f))"
  by (auto simp: signed_divide_int_def sgn_if)

lemma sdiv_neg: "(f::int) < 0 \<Longrightarrow> a sdiv f = (if 0 \<le> a then - (a div (- f)) else (- a) div (- f))"
  by (auto simp: signed_divide_int_def sgn_if)

lemma zdiv_le_self: "0 \<le> (a::int) \<Longrightarrow> 0 \<le> b \<Longrightarrow> a div b \<le> a"
  by (cases "b = 0 \<or> b = 1 \<or> a = 0") (auto simp: int_div_less_self less_imp_le)

lemma abs_sdiv_le: "\<bar>(a::int) sdiv b\<bar> \<le> \<bar>a\<bar>"
proof -
  have "\<bar>a sdiv b\<bar> \<le> \<bar>a\<bar> div \<bar>b\<bar>"
    by (auto simp: signed_divide_int_def abs_mult sgn_if pos_imp_zdiv_nonneg_iff)
  also have "\<dots> \<le> \<bar>a\<bar>"
    by (rule zdiv_le_self) simp_all
  finally show ?thesis .
qed

lemma sint_go_div: "0 < sint b \<Longrightarrow> sint (go_div a b) = sint a sdiv sint b"
proof -
  assume b: "0 < sint b"
  have "in_int64 (sint a sdiv sint b)"
  proof (cases "0 \<le> sint a")
    case True
    with b have "0 \<le> sint a sdiv sint b" "sint a sdiv sint b \<le> sint a"
      by (simp_all add: sdiv_pos pos_imp_zdiv_nonneg_iff zdiv_le_self)
    with sint64_upper [of a] show ?thesis by (simp add: in_int64_def)
  next
    case False
    with b have "sint a \<le> sint a sdiv sint b" "sint a sdiv sint b \<le> 0"
      using zdiv_le_self [of "- sint a" "sint b"]
      by (simp_all add: sdiv_pos pos_imp_zdiv_nonneg_iff)
    with sint64_lower [of a] show ?thesis by (simp add: in_int64_def)
  qed
  then show ?thesis
    unfolding go_div_def by (rule sint_word_of_int64)
qed

text \<open>Comparing a factor with a quotient is comparing the product (no overflow on \<open>int\<close>).\<close>

lemma less_div_mult: "0 < (f::int) \<Longrightarrow> c div f < a \<longleftrightarrow> c < a * f"
proof
  assume f: "0 < f" and "c div f < a"
  then have "(c div f + 1) * f \<le> a * f" by (intro mult_right_mono) auto
  moreover have "c < (c div f + 1) * f"
    using pos_mod_bound [OF f, of c] div_mult_mod_eq [of c f] by (simp only: distrib_right)
  ultimately show "c < a * f" by simp
next
  assume f: "0 < f" and c: "c < a * f"
  show "c div f < a"
  proof (rule ccontr)
    assume "\<not> c div f < a"
    then have "a * f \<le> (c div f) * f" using f by (intro mult_right_mono) simp_all
    moreover have "(c div f) * f \<le> c"
      using f pos_mod_sign [of f c] div_mult_mod_eq [of c f] by linarith
    ultimately show False using c by simp
  qed
qed

section \<open>Slices and maps\<close>

text \<open>\<open>slices.IndexFunc\<close> followed by \<open>slices.Delete(xs, i, i+1)\<close>: drop the first match.\<close>

fun delete_first :: "('a \<Rightarrow> bool) \<Rightarrow> 'a list \<Rightarrow> 'a list" where
  "delete_first P [] = []"
| "delete_first P (x # xs) = (if P x then xs else x # delete_first P xs)"

lemma set_delete_first: "set (delete_first P xs) \<subseteq> set xs"
  by (induction xs) auto

lemma delete_first_keeps: "x \<in> set xs \<Longrightarrow> \<not> P x \<Longrightarrow> x \<in> set (delete_first P xs)"
  by (induction xs) auto

lemma length_delete_first:
  "length (delete_first P xs) = (if \<exists>x \<in> set xs. P x then length xs - 1 else length xs)"
  by (induction xs) (auto simp: Suc_diff_le dest: length_pos_if_in_set)

lemma distinct_map_delete_first: "distinct (map f xs) \<Longrightarrow> distinct (map f (delete_first P xs))"
  by (induction xs) (use set_delete_first in fastforce)+

lemma delete_first_key:
  "distinct (map f xs) \<Longrightarrow> set (delete_first (\<lambda>x. f x = k) xs) = {x \<in> set xs. f x \<noteq> k}"
  by (induction xs) (auto simp: image_iff)

text \<open>The loop that keeps the first occurrence of every non-empty identifier.\<close>

fun clean_ids :: "string set \<Rightarrow> string list \<Rightarrow> string list" where
  "clean_ids seen [] = []"
| "clean_ids seen (x # xs) =
     (if x = [] then clean_ids seen xs
      else if x \<in> seen then clean_ids seen xs
      else x # clean_ids (insert x seen) xs)"

lemma set_clean_ids: "set (clean_ids seen xs) = set xs - seen - {[]}"
  by (induction seen xs rule: clean_ids.induct) auto

lemma distinct_clean_ids: "distinct (clean_ids seen xs)"
  by (induction seen xs rule: clean_ids.induct) (auto simp: set_clean_ids)

lemma clean_ids_ident: "distinct xs \<Longrightarrow> [] \<notin> set xs \<Longrightarrow> seen \<inter> set xs = {} \<Longrightarrow> clean_ids seen xs = xs"
  by (induction xs arbitrary: seen) auto

text \<open>
  Filling a Go map from a slice, keyed by a field: a later element overwrites an earlier one
  with the same key.
\<close>

definition index_by :: "('a \<Rightarrow> 'k) \<Rightarrow> 'a list \<Rightarrow> ('k \<rightharpoonup> 'a)" where
  "index_by key xs = fold (\<lambda>x m. m(key x \<mapsto> x)) xs Map.empty"

lemma index_by_Nil [simp]: "index_by key [] = Map.empty"
  by (simp add: index_by_def)

lemma index_by_snoc: "index_by key (xs @ [x]) = (index_by key xs)(key x \<mapsto> x)"
  by (simp add: index_by_def)

lemma index_by_Some: "index_by key xs k = Some x \<Longrightarrow> x \<in> set xs \<and> key x = k"
  by (induction xs rule: rev_induct) (auto simp: index_by_snoc split: if_splits)

lemma index_by_None: "index_by key xs k = None \<longleftrightarrow> (\<forall>x \<in> set xs. key x \<noteq> k)"
  by (induction xs rule: rev_induct) (auto simp: index_by_snoc)

lemma index_by_distinct: "distinct (map key xs) \<Longrightarrow> x \<in> set xs \<Longrightarrow> index_by key xs (key x) = Some x"
  by (induction xs rule: rev_induct) (auto simp: index_by_snoc rev_image_eqI)

end
