(* ===== verification/GoTime.thy ===== *)
theory GoTime
  imports Prelude
begin

text \<open>
  What the program uses of Go's \<open>time\<close> package. An instant is its number of nanoseconds since
  the Unix epoch, read in UTC (the containers run in UTC; a zone with daylight saving would
  shift \<open>AddDate\<close> by the zone's offset changes). \<open>AddDate\<close> takes the civil date apart, adds to its
  components and normalises, so the 31st of January plus one month is the 3rd (or 2nd) of
  March. \<open>Sub\<close> saturates at the range of a \<open>Duration\<close>, and \<open>Hours\<close> is a \<open>float64\<close>: its
  rounding (to nearest, ties to even, 53 significant bits) is modelled, because the code
  truncates \<open>Hours() / 24\<close> to a number of days.
\<close>

type_synonym time = int
type_synonym duration = int

definition ns_per_day :: int where "ns_per_day = 86400 * 10 ^ 9"
definition ns_per_hour :: int where "ns_per_hour = 3600 * 10 ^ 9"

section \<open>The civil calendar\<close>

text \<open>
  Days and months are counted from the 1st of March of year 0, so that the leap day is the
  last day of a year: month \<open>n\<close> is month \<open>n mod 12\<close> (0 is March) of year \<open>n div 12\<close>.
\<close>

definition year_start :: "int \<Rightarrow> int" where
  "year_start y = 365 * y + y div 4 - y div 100 + y div 400"

definition month_start :: "int \<Rightarrow> int" where
  "month_start n = year_start (n div 12) + (153 * (n mod 12) + 2) div 5"

definition year_of_day :: "int \<Rightarrow> int" where
  "year_of_day d =
     (let y = (400 * d) div 146097 in
        if d < year_start y then y - 1 else if year_start (y + 1) \<le> d then y + 1 else y)"

definition month_of_day :: "int \<Rightarrow> int" where
  "month_of_day d = (let y = year_of_day d in 12 * y + (5 * (d - year_start y) + 2) div 153)"

definition epoch_day :: int where "epoch_day = 719468"

text \<open>\<open>t.AddDate(years, months, days)\<close>.\<close>

definition AddDate :: "int \<Rightarrow> int \<Rightarrow> int \<Rightarrow> time \<Rightarrow> time" where
  "AddDate years months days t =
     (let d = t div ns_per_day + epoch_day; n = month_of_day d
      in (month_start (n + 12 * years + months) + (d - month_start n) + days - epoch_day) * ns_per_day
         + t mod ns_per_day)"

definition Before :: "time \<Rightarrow> time \<Rightarrow> bool" where "Before t u \<longleftrightarrow> t < u"
definition After :: "time \<Rightarrow> time \<Rightarrow> bool" where "After t u \<longleftrightarrow> u < t"

text \<open>The zero \<open>time.Time\<close> is the 1st of January of year 1.\<close>

definition zero_time :: time where "zero_time = - 62135596800 * 10 ^ 9"

lemmas time_order [simp] = Before_def After_def

subsection \<open>The calendar is a calendar\<close>

lemma div_bounds: "0 < (k::int) \<Longrightarrow> k * (y div k) \<le> y \<and> y < k * (y div k) + k"
  using pos_mod_sign [of k y] pos_mod_bound [of k y] mult_div_mod_eq [of k y] by linarith

lemma year_start_step: "year_start y + 364 \<le> year_start (y + 1)"
proof -
  have "y div 4 \<le> (y + 1) div 4" "y div 400 \<le> (y + 1) div 400"
    by (simp_all add: zdiv_mono1)
  moreover have "(y + 1) div 100 \<le> (y + 100) div 100"
    by (rule zdiv_mono1) simp_all
  then have "(y + 1) div 100 \<le> y div 100 + 1"
    by simp
  ultimately show ?thesis by (simp add: year_start_def)
qed

lemma year_start_leap: "year_start (y + 1) \<le> year_start y + 366"
proof -
  have "(y + 1) div 4 \<le> (y + 4) div 4" by (rule zdiv_mono1) simp_all
  moreover have "y div 100 \<le> (y + 1) div 100" by (simp add: zdiv_mono1)
  moreover have "(y + 1) div 400 \<le> y div 400 + ((y + 1) div 100 - y div 100)"
  proof (cases "400 dvd y + 1")
    case True
    then obtain k where k: "y + 1 = 400 * k" by (elim dvdE)
    then have "y = 400 * (k - 1) + 399" "y = 100 * (4 * k - 1) + 99" by simp_all
    then have "y div 400 = k - 1" "y div 100 = 4 * k - 1"
      by (auto intro!: int_div_pos_eq [of _ _ _ 399] int_div_pos_eq [of _ _ _ 99])
    with k show ?thesis by simp
  next
    case False
    then have "(y + 1) mod 400 \<noteq> 0" by (simp add: dvd_eq_mod_eq_0)
    then have "(y + 1) div 400 = y div 400"
      using mult_div_mod_eq [of 400 "y + 1"] pos_mod_sign [of 400 "y + 1"] pos_mod_bound [of 400 "y + 1"]
      by (intro int_div_pos_eq [of _ _ _ "(y + 1) mod 400 - 1", symmetric]) linarith+
    then show ?thesis by (simp add: zdiv_mono1)
  qed
  ultimately show ?thesis by (simp add: year_start_def)
qed

lemma year_start_bounds:
  "146097 * y \<le> 400 * year_start y + 700" "400 * year_start y < 146097 * y + 400"
proof -
  have ys: "year_start y = 365 * y + y div 4 - y div 100 + y div 400"
    by (simp add: year_start_def)
  note b = div_bounds [of 4 y, simplified] div_bounds [of 100 y, simplified]
    div_bounds [of 400 y, simplified]
  define a where "a = y div 4"
  define c where "c = y div 100"
  define e where "e = y div 400"
  have "400 * year_start y = 146000 * y + 400 * a - 400 * c + 400 * e"
    by (simp add: ys a_def c_def e_def)
  moreover from b have "4 * a \<le> y" "y < 4 * a + 4" "100 * c \<le> y" "y < 100 * c + 100"
    "400 * e \<le> y" "y < 400 * e + 400" by (simp_all add: a_def c_def e_def)
  ultimately show "146097 * y \<le> 400 * year_start y + 700" "400 * year_start y < 146097 * y + 400"
    by linarith+
qed

lemma year_of_day_correct: "year_start (year_of_day d) \<le> d \<and> d < year_start (year_of_day d + 1)"
proof -
  define y where "y = (400 * d) div 146097"
  have y: "146097 * y \<le> 400 * d" "400 * d < 146097 * y + 146097"
    unfolding y_def using div_bounds [of 146097 "400 * d"] by simp_all
  have "year_start (y - 1) \<le> d" "d < year_start (2 + y)"
    using y year_start_bounds [of "y - 1"] year_start_bounds [of "2 + y"]
    by (simp_all add: algebra_simps)
  then show ?thesis
    by (auto simp: year_of_day_def Let_def simp flip: y_def)
qed

lemma month_start_split:
  "0 \<le> m \<Longrightarrow> m < 12 \<Longrightarrow> month_start (12 * y + m) = year_start y + (153 * m + 2) div 5"
  by (simp add: month_start_def)

lemma month_start_year: "month_start (12 * y) = year_start y"
  by (simp add: month_start_def)

lemma month_start_step: "month_start n + 27 \<le> month_start (n + 1)"
proof -
  define y where "y = n div 12"
  define m where "m = n mod 12"
  have n: "n = 12 * y + m" by (simp add: y_def m_def)
  have m: "0 \<le> m" "m < 12" by (simp_all add: m_def)
  show ?thesis
  proof (cases "m = 11")
    case True
    then have "n + 1 = 12 * (y + 1)" by (simp add: n)
    then have "month_start (n + 1) = year_start (y + 1)" by (metis month_start_year)
    with True year_start_step [of y] show ?thesis by (simp add: n month_start_split)
  next
    case False
    have "month_start (n + 1) = year_start y + (153 * (m + 1) + 2) div 5"
      using month_start_split [of "m + 1" y] m False by (simp add: n add.assoc)
    moreover have "(153 * m + 2) div 5 + 27 \<le> (153 * (m + 1) + 2) div 5"
      using zdiv_mono1 [of "153 * m + 2 + 5 * 27" "153 * (m + 1) + 2" 5] by simp
    ultimately show ?thesis using m by (simp add: n month_start_split)
  qed
qed

lemma month_start_mono: "month_start n + 27 * int k \<le> month_start (n + int k)"
proof (induction k)
  case 0
  show ?case by simp
next
  case (Suc k)
  with month_start_step [of "n + int k"] show ?case by (simp add: algebra_simps)
qed

lemma month_of_day_correct:
  "month_start (month_of_day d) \<le> d \<and> d < month_start (month_of_day d + 1)"
proof -
  define y where "y = year_of_day d"
  define doy where "doy = d - year_start y"
  define m where "m = (5 * doy + 2) div 153"
  have yc: "year_start y \<le> d" "d < year_start (y + 1)"
    using year_of_day_correct [of d] by (simp_all add: y_def)
  have leap: "year_start (y + 1) \<le> year_start y + 366"
    by (rule year_start_leap)
  with yc have doy: "0 \<le> doy" "doy \<le> 365" by (simp_all add: doy_def)
  have m: "153 * m \<le> 5 * doy + 2" "5 * doy + 2 < 153 * m + 153"
    unfolding m_def using div_bounds [of 153 "5 * doy + 2"] by linarith+
  with doy have m12: "0 \<le> m" "m < 12" by linarith+
  have mo: "month_of_day d = 12 * y + m"
    by (simp add: month_of_day_def Let_def m_def doy_def y_def)
  have low: "(153 * m + 2) div 5 \<le> doy"
    using m(1) div_bounds [of 5 "153 * m + 2"] by linarith
  show ?thesis
  proof
    show "month_start (month_of_day d) \<le> d"
      using low m12 by (simp add: mo month_start_split doy_def)
    show "d < month_start (month_of_day d + 1)"
    proof (cases "m = 11")
      case True
      then have "month_of_day d + 1 = 12 * (y + 1)" by (simp add: mo)
      with yc(2) show ?thesis by (metis month_start_year)
    next
      case False
      with m12 have "month_start (12 * y + m + 1) = year_start y + (153 * (m + 1) + 2) div 5"
        using month_start_split [of "m + 1" y] by (simp add: add.assoc)
      moreover have "doy < (153 * (m + 1) + 2) div 5"
        using m(2) div_bounds [of 5 "153 * (m + 1) + 2"] by simp
      ultimately show ?thesis by (simp add: mo doy_def)
    qed
  qed
qed

subsection \<open>Adding to a date\<close>

lemma ns_per_day_pos [simp]: "0 < ns_per_day"
  by (simp add: ns_per_day_def)

lemma AddDate_days: "AddDate 0 0 days t = t + days * ns_per_day"
proof -
  have "AddDate 0 0 days t = (t div ns_per_day + days) * ns_per_day + t mod ns_per_day"
    by (simp add: AddDate_def Let_def)
  then show ?thesis
    using div_mult_mod_eq [of t ns_per_day] by (simp add: algebra_simps)
qed

text \<open>Moving \<open>k\<close> months forward moves the instant by at least \<open>27 k\<close> days.\<close>

lemma AddDate_months_ge: "t + 27 * int k * ns_per_day \<le> AddDate 0 (int k) 0 t"
proof -
  define d where "d = t div ns_per_day + epoch_day"
  define n where "n = month_of_day d"
  have "AddDate 0 (int k) 0 t =
      (month_start (n + int k) + (d - month_start n) - epoch_day) * ns_per_day + t mod ns_per_day"
    by (simp add: AddDate_def Let_def d_def n_def)
  moreover have "(d + 27 * int k - epoch_day) * ns_per_day
      \<le> (month_start (n + int k) + (d - month_start n) - epoch_day) * ns_per_day"
    using month_start_mono [of n k] less_imp_le [OF ns_per_day_pos]
    by (intro mult_right_mono) simp_all
  moreover have "(d + 27 * int k - epoch_day) * ns_per_day + t mod ns_per_day
      = t + 27 * int k * ns_per_day"
    using div_mult_mod_eq [of t ns_per_day] by (simp add: d_def algebra_simps)
  ultimately show ?thesis by linarith
qed

lemma AddDate_months_after: "0 < k \<Longrightarrow> t < AddDate 0 (int k) 0 t"
proof -
  assume "0 < k"
  then have "0 < 27 * int k * ns_per_day" by simp
  then show ?thesis using AddDate_months_ge [of t k] by linarith
qed

text \<open>The 31st of January 2024, 12:00 UTC, plus one month is the 2nd of March 2024, 12:00 UTC.\<close>

lemma AddDate_january_31: "AddDate 0 1 0 (1706702400 * 10 ^ 9) = 1709380800 * 10 ^ 9"
  by code_simp

section \<open>Durations as float64 hours\<close>

lemma floorlog_eval [simp]:
  "floorlog 2 (Suc 0) = 1" "floorlog 2 0 = 0"
  "floorlog 2 (numeral w) = floorlog 2 (numeral w div 2) + 1"
  by (simp_all only: compute_floorlog [of 2 "Suc 0"] compute_floorlog [of 2 0]
      compute_floorlog [of 2 "numeral w"] zero_less_numeral) (simp_all add: floorlog_eq_zero_iff)

definition Sub :: "time \<Rightarrow> time \<Rightarrow> duration" where
  "Sub t u = max (- (2 ^ 63)) (min (2 ^ 63 - 1) (t - u))"

text \<open>
  A non-negative \<open>float64\<close> is kept as an integer number of units of \<open>2 ^ (-128)\<close>, finer than the
  last place of every value that occurs here (the least is one nanosecond in days, above
  \<open>2 ^ (-47)\<close>). \<open>f64_round n b\<close> is the float nearest to the real number \<open>n / b\<close> units: the
  quotient is rounded to 53 significant bits, ties to even.
\<close>

definition f64_one :: nat where "f64_one = 2 ^ 128"

definition rne_div :: "nat \<Rightarrow> nat \<Rightarrow> nat" where
  "rne_div a b =
     (let q = a div b; r = a mod b
      in if 2 * r < b then q else if b < 2 * r then q + 1 else if even q then q else q + 1)"

definition f64_round :: "nat \<Rightarrow> nat \<Rightarrow> nat" where
  "f64_round n b = (let u = 2 ^ (floorlog 2 (n div b) - 53) in rne_div n (b * u) * u)"

text \<open>\<open>d.Hours()\<close> of a non-negative duration: \<open>float64(d / Hour) + float64(d % Hour) / 3.6e12\<close>.\<close>

definition f64_hours :: "nat \<Rightarrow> nat" where
  "f64_hours d =
     (let h = nat ns_per_hour
      in f64_round ((d div h) * f64_one + f64_round ((d mod h) * f64_one) h) 1)"

text \<open>\<open>int(d.Hours() / 24)\<close>; a negative duration gives the negated value of its opposite.\<close>

definition whole_days_nat :: "nat \<Rightarrow> nat" where
  "whole_days_nat d = f64_round (f64_hours d) 24 div f64_one"

definition whole_days :: "duration \<Rightarrow> int" where
  "whole_days d = (if d < 0 then - int (whole_days_nat (nat (- d))) else int (whole_days_nat (nat d)))"

subsection \<open>Rounding is monotone\<close>

lemma rne_div_le: "0 < b \<Longrightarrow> a \<le> b * c \<Longrightarrow> rne_div a b \<le> c"
proof -
  assume b: "0 < b" and a: "a \<le> b * c"
  then have q: "a div b \<le> c" by (metis div_le_mono nonzero_mult_div_cancel_left less_numeral_extra(3))
  show ?thesis
  proof (cases "a div b = c")
    case True
    with a b have "a mod b = 0"
      by (metis add_diff_cancel_left' diff_is_0_eq' mult_div_mod_eq)
    with b True show ?thesis by (simp add: rne_div_def Let_def)
  next
    case False
    with q have "a div b + 1 \<le> c" by simp
    then show ?thesis by (simp add: rne_div_def Let_def)
  qed
qed

lemma rne_div_ge: "0 < b \<Longrightarrow> b * c \<le> a \<Longrightarrow> c \<le> rne_div a b"
proof -
  assume b: "0 < b" and a: "b * c \<le> a"
  then have "c \<le> a div b" by (simp add: less_eq_div_iff_mult_less_eq mult.commute)
  then show ?thesis by (auto simp: rne_div_def Let_def)
qed

lemma rne_div_mono: "0 < b \<Longrightarrow> a \<le> a' \<Longrightarrow> rne_div a b \<le> rne_div a' b"
proof -
  assume b: "0 < b" and le: "a \<le> a'"
  then have q: "a div b \<le> a' div b" by (simp add: div_le_mono)
  show ?thesis
  proof (cases "a div b = a' div b")
    case True
    have "a mod b \<le> a' mod b"
      using le True by (metis add_le_cancel_left mult_div_mod_eq)
    with True show ?thesis by (auto simp: rne_div_def Let_def)
  next
    case False
    with q have "a div b + 1 \<le> a' div b" by simp
    then have "b * (a div b + 1) \<le> a'"
      by (metis b less_eq_div_iff_mult_less_eq mult.commute)
    then have "a div b + 1 \<le> rne_div a' b" by (rule rne_div_ge [OF b])
    moreover have "rne_div a b \<le> a div b + 1" by (simp add: rne_div_def Let_def)
    ultimately show ?thesis by simp
  qed
qed

lemma f64_round_le_pow: "0 < b \<Longrightarrow> f64_round n b \<le> 2 ^ floorlog 2 (n div b)"
proof -
  assume b: "0 < b"
  define l where "l = floorlog 2 (n div b)"
  define u where "u = (2::nat) ^ (l - 53)"
  have "n div b < 2 ^ l" using floorlog_le_iff [of 2 "n div b" l] by (simp add: l_def)
  then have "n \<le> b * 2 ^ l"
    using b by (simp add: div_less_iff_less_mult mult.commute less_imp_le)
  moreover have "l = (l - 53) + min l 53" by simp
  then have "b * 2 ^ l = b * u * 2 ^ min l 53"
    by (metis power_add u_def mult.assoc)
  ultimately have "rne_div n (b * u) \<le> 2 ^ min l 53"
    using b by (intro rne_div_le) (simp_all add: u_def)
  then have "rne_div n (b * u) * u \<le> 2 ^ min l 53 * u" by (rule mult_right_mono) simp
  also have "\<dots> = 2 ^ l" by (simp add: u_def flip: power_add)
  finally show ?thesis by (simp add: f64_round_def Let_def l_def u_def)
qed

lemma f64_round_ge_pow: "0 < b \<Longrightarrow> 2 ^ k \<le> n div b \<Longrightarrow> 2 ^ k \<le> f64_round n b"
proof -
  assume b: "0 < b" and k: "2 ^ k \<le> n div b"
  define l where "l = floorlog 2 (n div b)"
  define u where "u = (2::nat) ^ (l - 53)"
  have kl: "k < l" using k floorlog_ge_SucI [of 2 k "n div b"] by (simp add: l_def)
  have pl: "2 ^ (l - 1) \<le> n div b" using kl floorlog_geD [of l 2 "n div b"] by (simp add: l_def)
  have split: "2 ^ (l - 1) = 2 ^ (l - 1 - (l - 53)) * u"
    using kl by (simp add: u_def flip: power_add)
  from pl b have "b * 2 ^ (l - 1) \<le> n"
    by (metis less_eq_div_iff_mult_less_eq mult.commute)
  then have "2 ^ (l - 1 - (l - 53)) \<le> rne_div n (b * u)"
    using b split by (intro rne_div_ge) (simp_all add: u_def ac_simps)
  then have "2 ^ (l - 1) \<le> rne_div n (b * u) * u"
    unfolding split by (rule mult_right_mono) simp
  moreover have "(2::nat) ^ k \<le> 2 ^ (l - 1)" using kl by simp
  ultimately have "2 ^ k \<le> rne_div n (b * u) * u" by linarith
  then show ?thesis by (simp add: f64_round_def Let_def l_def u_def)
qed

lemma f64_round_mono: "0 < b \<Longrightarrow> n \<le> m \<Longrightarrow> f64_round n b \<le> f64_round m b"
proof -
  assume b: "0 < b" and le: "n \<le> m"
  let ?l = "floorlog 2 (n div b)" and ?l' = "floorlog 2 (m div b)"
  have "?l \<le> ?l'" using le by (intro floorlog_mono div_le_mono)
  then consider "?l = ?l'" | "?l < ?l'" by linarith
  then show ?thesis
  proof cases
    case 1
    with b le show ?thesis by (auto simp: f64_round_def Let_def intro: rne_div_mono)
  next
    case 2
    then have "2 ^ (?l' - 1) \<le> m div b" using floorlog_geD [of ?l' 2 "m div b"] by simp
    then have "2 ^ (?l' - 1) \<le> f64_round m b" by (rule f64_round_ge_pow [OF b])
    moreover have "(2::nat) ^ ?l \<le> 2 ^ (?l' - 1)" using 2 by simp
    ultimately show ?thesis using f64_round_le_pow [OF b, of n] by linarith
  qed
qed

lemma f64_hours_mono: "d \<le> d' \<Longrightarrow> f64_hours d \<le> f64_hours d'"
proof -
  assume le: "d \<le> d'"
  define h where "h = nat ns_per_hour"
  have h: "0 < h" by (simp add: h_def ns_per_hour_def)
  have part: "f64_round ((e mod h) * f64_one) h \<le> f64_one" for e
  proof -
    have "f64_round ((e mod h) * f64_one) h \<le> f64_round (h * f64_one) h"
      using h by (intro f64_round_mono) (simp_all add: mult_right_mono less_imp_le)
    also have "\<dots> \<le> f64_one"
    proof -
      have "floorlog 2 f64_one = 129"
        using floorlog_power [of 1 2 128] by (simp add: f64_one_def floorlog_def)
      moreover have "h * f64_one div h = f64_one" using h by simp
      ultimately have eq: "f64_round (h * f64_one) h = rne_div (h * f64_one) (h * 2 ^ 76) * 2 ^ 76"
        by (simp add: f64_round_def Let_def)
      have "rne_div (h * f64_one) (h * 2 ^ 76) \<le> 2 ^ 52"
        using h by (intro rne_div_le) (simp_all add: f64_one_def)
      then have "rne_div (h * f64_one) (h * 2 ^ 76) * 2 ^ 76 \<le> 2 ^ 52 * 2 ^ 76"
        by (rule mult_right_mono) simp
      then show ?thesis unfolding eq by (simp add: f64_one_def)
    qed
    finally show ?thesis .
  qed
  have "(d div h) * f64_one + f64_round ((d mod h) * f64_one) h
      \<le> (d' div h) * f64_one + f64_round ((d' mod h) * f64_one) h"
  proof (cases "d div h = d' div h")
    case True
    then have "d mod h \<le> d' mod h" using le by (metis add_le_cancel_left mult_div_mod_eq)
    with True h show ?thesis by (simp add: f64_round_mono mult_right_mono)
  next
    case False
    then have "d div h + 1 \<le> d' div h"
      using div_le_mono [OF le, of h] by simp
    then have "(d div h + 1) * f64_one \<le> (d' div h) * f64_one" by (rule mult_right_mono) simp
    with part [of d] show ?thesis by (simp add: algebra_simps)
  qed
  then show ?thesis
    unfolding f64_hours_def Let_def h_def [symmetric] by (rule f64_round_mono [OF zero_less_one])
qed

lemma whole_days_nat_mono: "d \<le> d' \<Longrightarrow> whole_days_nat d \<le> whole_days_nat d'"
  unfolding whole_days_nat_def by (intro div_le_mono f64_round_mono f64_hours_mono) simp_all

lemma whole_days_mono: "d \<le> d' \<Longrightarrow> whole_days d \<le> whole_days d'"
  using whole_days_nat_mono [of "nat (- d')" "nat (- d)"] whole_days_nat_mono [of "nat d" "nat d'"]
  by (auto simp: whole_days_def)

lemma whole_days_nonneg: "0 \<le> d \<Longrightarrow> 0 \<le> whole_days d"
  by (simp add: whole_days_def)

lemma Sub_mono: "t \<le> t' \<Longrightarrow> u' \<le> u \<Longrightarrow> Sub t u \<le> Sub t' u'"
  by (simp add: Sub_def)


subsection \<open>Evaluation\<close>

lemma f64_hours_eval:
  "f64_hours d = f64_round (d div 3600000000000 * 340282366920938463463374607431768211456
     + f64_round (d mod 3600000000000 * 340282366920938463463374607431768211456) 3600000000000) 1"
  by (simp add: f64_hours_def ns_per_hour_def f64_one_def)

lemmas whole_days_eval = whole_days_def whole_days_nat_def f64_hours_eval ns_per_day_def
  f64_round_def rne_div_def f64_one_def

text \<open>
  Thirty days are 30, and one nanosecond less is 29; but a year less one nanosecond is rounded
  to 8760 hours and counts 365 whole days.
\<close>

lemma whole_days_30: "whole_days (30 * ns_per_day) = 30"
  by (simp add: whole_days_eval)

lemma whole_days_29: "whole_days (30 * ns_per_day - 1) = 29"
  by (simp add: whole_days_eval)

lemma whole_days_365: "whole_days (365 * ns_per_day - 1) = 365"
  by (simp add: whole_days_eval)

section \<open>Dates\<close>

text \<open>
  \<open>t.Format("2006-01-02")\<close> for the years 0 to 9999: the civil year, month (1 to 12) and day.
\<close>

definition civil_year :: "time \<Rightarrow> int" where
  "civil_year t = (let n = month_of_day (t div ns_per_day + epoch_day)
     in n div 12 + (if n mod 12 < 10 then 0 else 1))"

definition civil_month :: "time \<Rightarrow> int" where
  "civil_month t = (let m = month_of_day (t div ns_per_day + epoch_day) mod 12
     in if m < 10 then m + 3 else m - 9)"

definition civil_day :: "time \<Rightarrow> int" where
  "civil_day t = (let d = t div ns_per_day + epoch_day in d - month_start (month_of_day d) + 1)"

definition pad_digits :: "nat \<Rightarrow> int \<Rightarrow> string" where
  "pad_digits w i = map (\<lambda>k. char_of (48 + nat (i div 10 ^ k mod 10))) (rev [0..<w])"

definition format_day :: "time \<Rightarrow> string" where
  "format_day t = pad_digits 4 (civil_year t) @ ''-'' @ pad_digits 2 (civil_month t) @ ''-''
     @ pad_digits 2 (civil_day t)"

lemma civil_month_range: "1 \<le> civil_month t \<and> civil_month t \<le> 12"
  by (auto simp: civil_month_def Let_def)

section \<open>Evaluation on integers\<close>

text \<open>
  The same float computation on integers, whose binary arithmetic makes it fast to evaluate
  (naturals evaluate in unary).
\<close>

definition rne_divi :: "int \<Rightarrow> int \<Rightarrow> int" where
  "rne_divi a b =
     (let q = a div b; r = a mod b
      in if 2 * r < b then q else if b < 2 * r then q + 1 else if even q then q else q + 1)"

definition f64_roundi :: "int \<Rightarrow> int \<Rightarrow> int" where
  "f64_roundi n b = (let u = 2 ^ nat (bitlen (n div b) - 53) in rne_divi n (b * u) * u)"

definition whole_daysi :: "int \<Rightarrow> int" where
  "whole_daysi d =
     (let h = 3600000000000; one = 340282366920938463463374607431768211456
      in f64_roundi (f64_roundi ((d div h) * one + f64_roundi ((d mod h) * one) h) 1) 24 div one)"

lemma rne_divi_int: "rne_divi (int a) (int b) = int (rne_div a b)"
  unfolding rne_divi_def rne_div_def Let_def zdiv_int [symmetric] zmod_int [symmetric]
  by auto

lemma f64_roundi_int: "f64_roundi (int n) (int b) = int (f64_round n b)"
proof -
  have "nat (bitlen (int n div int b) - 53) = floorlog 2 (n div b) - 53"
    by (simp add: bitlen_def zdiv_int [symmetric])
  then have "f64_roundi (int n) (int b) =
      rne_divi (int n) (int b * 2 ^ (floorlog 2 (n div b) - 53)) * 2 ^ (floorlog 2 (n div b) - 53)"
    by (simp add: f64_roundi_def Let_def)
  also have "\<dots> = rne_divi (int n) (int (b * 2 ^ (floorlog 2 (n div b) - 53))) * int (2 ^ (floorlog 2 (n div b) - 53))"
    by simp
  finally show ?thesis
    unfolding rne_divi_int by (simp add: f64_round_def Let_def)
qed

lemma whole_daysi_int: "whole_daysi (int d) = int (whole_days_nat d)"
proof -
  let ?h = "3600000000000 :: nat" and ?one = "340282366920938463463374607431768211456 :: nat"
  have one: "f64_one = ?one" by (simp add: f64_one_def)
  have h: "nat ns_per_hour = ?h" by (simp add: ns_per_hour_def)
  have "f64_hours d = f64_round ((d div ?h) * ?one + f64_round ((d mod ?h) * ?one) ?h) 1"
    by (simp only: f64_hours_def Let_def one h)
  then show ?thesis
    by (simp only: whole_days_nat_def one zdiv_int zmod_int f64_roundi_int [symmetric] of_nat_mult of_nat_add
        of_nat_numeral of_nat_1 whole_daysi_def Let_def)
qed

lemma whole_days_code [code]:
  "whole_days d = (if d < 0 then - whole_daysi (- d) else whole_daysi d)"
  using whole_daysi_int [of "nat d"] whole_daysi_int [of "nat (- d)"]
  by (cases "d < 0") (simp_all add: whole_days_def)

end
