(* ===== verification/DomainEvent.thy ===== *)
theory DomainEvent
  imports GoTime
begin

text \<open>
  \<open>pkg/domainevent\<close>: events, the recorder that every aggregate root embeds, and the two
  contracts that all aggregates of the domain share, stated as locales. An embedded
  \<open>EventRecorder\<close> is the parent record of the aggregate's record, so that \<open>RecordEvent\<close> works
  on any aggregate. Identifiers made by the external \<open>uuid\<close> package are arguments.
\<close>

type_synonym uuid = string

section \<open>Events and the recorder\<close>

record 'd event =
  ev_ID :: uuid
  ev_Type :: string
  ev_Version :: int
  ev_Timestamp :: time
  ev_Data :: 'd
  ev_EntityID :: string
  ev_TraceParent :: string

definition DefaultEventVersion :: int where "DefaultEventVersion = 1"

text \<open>\<open>NewTyped\<close>; the first argument is the payload type's \<open>EventType()\<close> method.\<close>

definition NewTyped :: "('d \<Rightarrow> string) \<Rightarrow> uuid \<Rightarrow> 'd \<Rightarrow> time \<Rightarrow> string \<Rightarrow> 'd event" where
  "NewTyped etype eid payload ts entity =
     \<lparr>ev_ID = eid, ev_Type = etype payload, ev_Version = DefaultEventVersion,
      ev_Timestamp = ts, ev_Data = payload, ev_EntityID = entity, ev_TraceParent = []\<rparr>"

record 'd event_recorder =
  rec_events :: "'d event list"
  rec_flushed :: bool

definition RecordEvent :: "'d event \<Rightarrow> ('d, 'z) event_recorder_scheme \<Rightarrow> ('d, 'z) event_recorder_scheme" where
  "RecordEvent e r = r\<lparr>rec_events := rec_events r @ [e], rec_flushed := False\<rparr>"

definition DomainEvents ::
    "('d, 'z) event_recorder_scheme \<Rightarrow> 'd event list \<times> ('d, 'z) event_recorder_scheme" where
  "DomainEvents r =
     (if rec_flushed r \<and> rec_events r = [] then ([], r)
      else (rec_events r, r\<lparr>rec_events := [], rec_flushed := True\<rparr>))"

definition HasEvents :: "('d, 'z) event_recorder_scheme \<Rightarrow> bool" where
  "HasEvents r \<longleftrightarrow> rec_events r \<noteq> []"

text \<open>\<open>PublishAll\<close>, over any publisher \<open>pub\<close> that appends a batch to a state or fails.\<close>

definition PublishAll ::
    "('d event list \<Rightarrow> 's \<Rightarrow> 'e + 's) \<Rightarrow> ('d, 'z) event_recorder_scheme \<Rightarrow> 's
     \<Rightarrow> 'e + (('d, 'z) event_recorder_scheme \<times> 's)" where
  "PublishAll pub src s =
     (let (events, src') = DomainEvents src
      in if events = [] then Inr (src', s) else rbind (pub events s) (\<lambda>s'. Inr (src', s')))"

lemma RecordEvent_fields [simp]:
  "rec_events (RecordEvent e r) = rec_events r @ [e]"
  "rec_flushed (RecordEvent e r) = False"
  by (simp_all add: RecordEvent_def)

lemma RecordEvent_more [simp]: "event_recorder.more (RecordEvent e r) = event_recorder.more r"
  by (simp add: RecordEvent_def)

lemma NewTyped_fields [simp]:
  "ev_EntityID (NewTyped ty eid p ts ent) = ent"
  "ev_Data (NewTyped ty eid p ts ent) = p"
  "ev_Type (NewTyped ty eid p ts ent) = ty p"
  "ev_Timestamp (NewTyped ty eid p ts ent) = ts"
  "ev_ID (NewTyped ty eid p ts ent) = eid"
  by (simp_all add: NewTyped_def)

lemma DomainEvents_events [simp]: "fst (DomainEvents r) = rec_events r"
  by (simp add: DomainEvents_def)

lemma DomainEvents_clears: "rec_events (snd (DomainEvents r)) = []"
  by (simp add: DomainEvents_def)

text \<open>Flushing twice loses nothing and repeats nothing.\<close>

lemma DomainEvents_twice: "fst (DomainEvents (snd (DomainEvents r))) = []"
  by (simp add: DomainEvents_clears)

lemma DomainEvents_after_record:
  "fst (DomainEvents (RecordEvent e (snd (DomainEvents r)))) = [e]"
  by (simp add: DomainEvents_clears)

lemma PublishAll_ok:
  "PublishAll pub src s = Inr (src', s') \<Longrightarrow>
     src' = snd (DomainEvents src) \<and>
     (if rec_events src = [] then s' = s else pub (rec_events src) s = Inr s')"
  by (auto simp: PublishAll_def DomainEvents_def Let_def split: if_splits)

section \<open>Histories of an aggregate\<close>

text \<open>
  A client history attempts operations one after another; a rejected attempt leaves the
  aggregate as it was, since every operation checks before it writes.
\<close>

fun attempt :: "('op \<Rightarrow> 'a \<Rightarrow> 'e + 'a) \<Rightarrow> 'op list \<Rightarrow> 'a \<Rightarrow> 'a" where
  "attempt step [] a = a"
| "attempt step (x # xs) a = attempt step xs (case step x a of Inl _ \<Rightarrow> a | Inr b \<Rightarrow> b)"

lemma attempt_append: "attempt step (xs @ ys) a = attempt step ys (attempt step xs a)"
  by (induction xs arbitrary: a) simp_all

lemma attempt_invariant:
  assumes step: "\<And>x a b. P a \<Longrightarrow> step x a = Inr b \<Longrightarrow> P b"
    and init: "P a"
  shows "P (attempt step xs a)"
  using init by (induction xs arbitrary: a) (auto dest: step split: sum.split)

section \<open>The status machine contract\<close>

text \<open>
  What a transition table promises of the operations built on it: an operation that succeeds
  keeps the status or moves it along one edge of the table.
\<close>

locale status_machine =
  fixes step :: "'op \<Rightarrow> 'a \<Rightarrow> 'e + 'a"
    and status :: "'a \<Rightarrow> 's"
    and allowed :: "'s \<Rightarrow> 's list"
  assumes step_status: "step x a = Inr b \<Longrightarrow> status b = status a \<or> status b \<in> set (allowed (status a))"
begin

inductive reach :: "'s \<Rightarrow> 's \<Rightarrow> bool" where
  refl: "reach s s"
| edge: "reach s t \<Longrightarrow> u \<in> set (allowed t) \<Longrightarrow> reach s u"

lemma attempt_reach: "reach (status a) (status (attempt step xs a))"
proof (rule attempt_invariant [where P = "\<lambda>b. reach (status a) (status b)"])
  fix x b c
  assume "reach (status a) (status b)" "step x b = Inr c"
  then show "reach (status a) (status c)"
    using step_status [of x b c] by (auto intro: reach.edge)
next
  show "reach (status a) (status a)" by (rule reach.refl)
qed

lemma closed_set:
  assumes closed: "\<And>s t. s \<in> S \<Longrightarrow> t \<in> set (allowed s) \<Longrightarrow> t \<in> S"
    and init: "status a \<in> S"
  shows "status (attempt step xs a) \<in> S"
  using attempt_reach [of a xs] init by (induction rule: reach.induct) (auto intro: closed)

lemma terminal_absorbing:
  assumes "allowed (status a) = []"
  shows "status (attempt step xs a) = status a"
  using closed_set [of "{status a}" a xs] assms by auto

end

section \<open>The event source contract\<close>

text \<open>
  An operation that succeeds appends to the aggregate's pending events, never drops or
  reorders one, and tags what it appends with the aggregate's identifier, which stays.
\<close>

locale event_source =
  fixes step :: "'op \<Rightarrow> 'a \<Rightarrow> 'e + 'a"
    and ident :: "'a \<Rightarrow> string"
    and events :: "'a \<Rightarrow> 'd event list"
  assumes step_ident: "step x a = Inr b \<Longrightarrow> ident b = ident a"
    and step_events: "step x a = Inr b \<Longrightarrow>
      \<exists>es. events b = events a @ es \<and> (\<forall>e \<in> set es. ev_EntityID e = ident a)"
begin

lemma attempt_ident: "ident (attempt step xs a) = ident a"
  by (rule attempt_invariant [where P = "\<lambda>b. ident b = ident a"]) (auto simp: step_ident)

lemma attempt_events:
  "\<exists>es. events (attempt step xs a) = events a @ es \<and> (\<forall>e \<in> set es. ev_EntityID e = ident a)"
proof -
  let ?P = "\<lambda>b. ident b = ident a \<and>
    (\<exists>es. events b = events a @ es \<and> (\<forall>e \<in> set es. ev_EntityID e = ident a))"
  have "?P (attempt step xs a)"
  proof (rule attempt_invariant [where P = ?P])
    fix x b c
    assume P: "?P b" and st: "step x b = Inr c"
    from P obtain es where es: "events b = events a @ es" "\<forall>e \<in> set es. ev_EntityID e = ident a"
      by blast
    from step_events [OF st] P obtain fs where
      fs: "events c = events b @ fs" "\<forall>e \<in> set fs. ev_EntityID e = ident a" by auto
    have "events c = events a @ (es @ fs)" "\<forall>e \<in> set (es @ fs). ev_EntityID e = ident a"
      using es fs by auto
    with step_ident [OF st] P show "?P c" by metis
  qed simp
  then show ?thesis by blast
qed

end

text \<open>An aggregate root honours both.\<close>

locale aggregate_root = status_machine step status allowed + event_source step ident events
  for step :: "'op \<Rightarrow> 'a \<Rightarrow> 'e + 'a"
    and status :: "'a \<Rightarrow> 's"
    and allowed :: "'s \<Rightarrow> 's list"
    and ident :: "'a \<Rightarrow> string"
    and events :: "'a \<Rightarrow> 'd event list"
begin

text \<open>Whatever is attempted, the history stays within the table and only grows the log.\<close>

lemma history:
  "reach (status a) (status (attempt step xs a)) \<and> ident (attempt step xs a) = ident a
   \<and> (\<exists>es. events (attempt step xs a) = events a @ es \<and> (\<forall>e \<in> set es. ev_EntityID e = ident a))"
  using attempt_reach attempt_ident attempt_events by blast

end

end
