(* ===== verification/Tx.thy ===== *)
theory Tx
  imports DomainEvent
begin

text \<open>
  Transactions and tables: \<open>internal/adapter/postgres/txmanager.go\<close>, the error mapping of
  \<open>pkg/pgutil\<close>, and the reading of the SQL statements that the repositories issue. The body
  of \<open>RunInTx\<close> is a function from a database state to an error or a result with a new state;
  the database itself, the clock, the \<open>uuid\<close> package and the infrastructure that may fail are
  the fields of an environment. A table is the list of its rows in insertion order.
\<close>

section \<open>The environment of a request\<close>

text \<open>
  \<open>env_fault l\<close> says whether the database refuses the call with label \<open>l\<close> (a lost connection,
  a violated constraint of the schema): every call may be refused, and no claim assumes which.
  \<open>env_uuid k\<close> is the \<open>k\<close>-th identifier drawn in the request, \<open>env_now\<close> the reading of the
  injected clock and \<open>env_dbnow\<close> the time the \<open>updated_at\<close> trigger writes.
\<close>

record tx_env =
  env_now :: time
  env_dbnow :: time
  env_uuid :: "nat \<Rightarrow> uuid"
  env_trace :: string
  env_fault :: "string \<Rightarrow> bool"

section \<open>Transaction bodies\<close>

type_synonym ('s, 'e, 'a) tx = "'s \<Rightarrow> 'e + ('a \<times> 's)"

definition tx_return :: "'a \<Rightarrow> ('s, 'e, 'a) tx" where
  "tx_return a = (\<lambda>s. Inr (a, s))"

definition tx_bind :: "('s, 'e, 'a) tx \<Rightarrow> ('a \<Rightarrow> ('s, 'e, 'b) tx) \<Rightarrow> ('s, 'e, 'b) tx" where
  "tx_bind m f = (\<lambda>s. rbind (m s) (\<lambda>(a, s'). f a s'))"

definition tx_lift :: "'e + 'a \<Rightarrow> ('s, 'e, 'a) tx" where
  "tx_lift r = (\<lambda>s. rbind r (\<lambda>a. Inr (a, s)))"

definition tx_read :: "('s \<Rightarrow> 'e + 'a) \<Rightarrow> ('s, 'e, 'a) tx" where
  "tx_read f = (\<lambda>s. rbind (f s) (\<lambda>a. Inr (a, s)))"

definition tx_write :: "('s \<Rightarrow> 'e + 's) \<Rightarrow> ('s, 'e, unit) tx" where
  "tx_write f = (\<lambda>s. rbind (f s) (\<lambda>s'. Inr ((), s')))"

text \<open>A call to the database, refused with a storage error when the environment says so.\<close>

definition tx_call :: "(string \<Rightarrow> 'e) \<Rightarrow> ('z tx_env_scheme) \<Rightarrow> string \<Rightarrow> ('s, 'e, 'a) tx \<Rightarrow> ('s, 'e, 'a) tx" where
  "tx_call mk env label m = (\<lambda>s. if env_fault env label then Inl (mk label) else m s)"

text \<open>
  \<open>TxManager.RunInTx\<close>: begin, run the body, roll back on an error, commit otherwise. A call
  made while a transaction is active joins it, that is, it is the body alone. Under \<open>''begin tx''\<close> fall
  the two calls before the body, the beginning of the transaction and the statement that sets its tenant:
  when either fails the body does not run and nothing is written. A commit that returns an error is
  taken to have been rolled back: that is an assumption about the database, since a connection that is
  lost during the commit can hide one that succeeded.
\<close>

definition RunInTx ::
    "(string \<Rightarrow> 'e) \<Rightarrow> ('z tx_env_scheme) \<Rightarrow> ('s, 'e, 'a) tx \<Rightarrow> 's \<Rightarrow> ('e + 'a) \<times> 's" where
  "RunInTx mk env fn s =
     (if env_fault env ''begin tx'' then (Inl (mk ''begin tx''), s)
      else case fn s of
        Inl e \<Rightarrow> (Inl e, s)
      | Inr (a, s') \<Rightarrow>
          if env_fault env ''commit tx'' then (Inl (mk ''commit tx''), s) else (Inr a, s'))"

lemma tx_return_iff [simp]: "tx_return a s = Inr (b, s') \<longleftrightarrow> b = a \<and> s' = s"
  by (auto simp: tx_return_def)

lemma tx_bind_iff [simp]:
  "tx_bind m f s = Inr (b, s') \<longleftrightarrow> (\<exists>a s1. m s = Inr (a, s1) \<and> f a s1 = Inr (b, s'))"
  by (auto simp: tx_bind_def)

lemma tx_lift_iff [simp]: "tx_lift r s = Inr (b, s') \<longleftrightarrow> r = Inr b \<and> s' = s"
  by (auto simp: tx_lift_def)

lemma tx_read_iff [simp]: "tx_read f s = Inr (b, s') \<longleftrightarrow> f s = Inr b \<and> s' = s"
  by (auto simp: tx_read_def)

lemma tx_write_iff [simp]: "tx_write f s = Inr (u, s') \<longleftrightarrow> f s = Inr s'"
  by (auto simp: tx_write_def)

lemma tx_call_iff [simp]:
  "tx_call mk env l m s = Inr p \<longleftrightarrow> \<not> env_fault env l \<and> m s = Inr p"
  by (auto simp: tx_call_def)

text \<open>Evaluation rules, for running a body on a concrete state.\<close>

lemmas tx_eval = tx_return_def tx_bind_def tx_lift_def tx_read_def tx_write_def tx_call_def RunInTx_def

lemma RunInTx_ok_iff:
  "RunInTx mk env fn s = (Inr a, s') \<longleftrightarrow>
     \<not> env_fault env ''begin tx'' \<and> \<not> env_fault env ''commit tx'' \<and> fn s = Inr (a, s')"
  by (auto simp: RunInTx_def split: sum.splits)

lemma RunInTx_error: "RunInTx mk env fn s = (Inl e, s') \<Longrightarrow> s' = s"
  by (auto simp: RunInTx_def split: sum.splits if_splits)

text \<open>What a transaction keeps, whether it commits or not.\<close>

lemma RunInTx_keeps:
  assumes "I s" "\<And>a s'. fn s = Inr (a, s') \<Longrightarrow> I s'"
  shows "I (snd (RunInTx mk env fn s))"
  using assms by (auto simp: RunInTx_def split: sum.split)

section \<open>What a body keeps\<close>

text \<open>
  \<open>tx_post I m Q\<close>: a run of \<open>m\<close> that does not fail keeps the state property \<open>I\<close> and returns
  a value with \<open>Q\<close>.
\<close>

definition tx_post :: "('s \<Rightarrow> bool) \<Rightarrow> ('s, 'e, 'a) tx \<Rightarrow> ('a \<Rightarrow> bool) \<Rightarrow> bool" where
  "tx_post I m Q \<longleftrightarrow> (\<forall>s a s'. I s \<longrightarrow> m s = Inr (a, s') \<longrightarrow> I s' \<and> Q a)"

lemma tx_postI: "(\<And>s a s'. I s \<Longrightarrow> m s = Inr (a, s') \<Longrightarrow> I s' \<and> Q a) \<Longrightarrow> tx_post I m Q"
  by (simp add: tx_post_def)

lemma tx_postD: "tx_post I m Q \<Longrightarrow> I s \<Longrightarrow> m s = Inr (a, s') \<Longrightarrow> I s' \<and> Q a"
  by (simp add: tx_post_def)

lemma post_bind:
  assumes "tx_post I m Q" "\<And>a. Q a \<Longrightarrow> tx_post I (f a) R"
  shows "tx_post I (tx_bind m f) R"
proof (rule tx_postI)
  fix s b s'
  assume "I s" and "tx_bind m f s = Inr (b, s')"
  then obtain a s1 where "m s = Inr (a, s1)" "f a s1 = Inr (b, s')" by auto
  with assms \<open>I s\<close> show "I s' \<and> R b" by (meson tx_postD)
qed

lemma post_bind_any:
  assumes "tx_post I m (\<lambda>_. True)" "\<And>a. tx_post I (f a) R"
  shows "tx_post I (tx_bind m f) R"
  using assms by (rule post_bind)

lemma post_return: "Q a \<Longrightarrow> tx_post I (tx_return a) Q"
  by (simp add: tx_post_def)

lemma post_lift: "(\<And>a. r = Inr a \<Longrightarrow> Q a) \<Longrightarrow> tx_post I (tx_lift r) Q"
  by (simp add: tx_post_def)

lemma post_lift_any: "tx_post I (tx_lift r) (\<lambda>_. True)"
  by (simp add: tx_post_def)

lemma post_read: "(\<And>s a. I s \<Longrightarrow> f s = Inr a \<Longrightarrow> Q a) \<Longrightarrow> tx_post I (tx_read f) Q"
  by (simp add: tx_post_def)

lemma post_write: "(\<And>s s'. I s \<Longrightarrow> f s = Inr s' \<Longrightarrow> I s') \<Longrightarrow> tx_post I (tx_write f) (\<lambda>_. True)"
  by (simp add: tx_post_def)

lemma post_call: "tx_post I m Q \<Longrightarrow> tx_post I (tx_call mk env l m) Q"
  by (simp add: tx_post_def)

lemma post_if: "(b \<Longrightarrow> tx_post I m Q) \<Longrightarrow> (\<not> b \<Longrightarrow> tx_post I m' Q) \<Longrightarrow> tx_post I (if b then m else m') Q"
  by simp

lemma RunInTx_post: "tx_post I fn Q \<Longrightarrow> I s \<Longrightarrow> I (snd (RunInTx mk env fn s))"
  by (rule RunInTx_keeps) (auto dest: tx_postD)

section \<open>Tables\<close>

definition select_by :: "('r \<Rightarrow> 'k) \<Rightarrow> 'k \<Rightarrow> 'r list \<Rightarrow> 'r option" where
  "select_by key k t = find (\<lambda>r. key r = k) t"

definition update_by :: "('r \<Rightarrow> 'k) \<Rightarrow> 'k \<Rightarrow> ('r \<Rightarrow> 'r) \<Rightarrow> 'r list \<Rightarrow> 'r list" where
  "update_by key k f t = map (\<lambda>r. if key r = k then f r else r) t"

definition insert_unique :: "('r \<Rightarrow> 'k) \<Rightarrow> 'e \<Rightarrow> 'r \<Rightarrow> 'r list \<Rightarrow> 'e + 'r list" where
  "insert_unique key e r t = (if key r \<in> key ` set t then Inl e else Inr (t @ [r]))"

text \<open>\<open>pgutil.MapErr\<close>: no row is the caller's own not-found error.\<close>

definition MapErr :: "'e \<Rightarrow> 'a option \<Rightarrow> 'e + 'a" where
  "MapErr notFound r = (case r of None \<Rightarrow> Inl notFound | Some a \<Rightarrow> Inr a)"

lemma MapErr_Inr [simp]: "MapErr e r = Inr a \<longleftrightarrow> r = Some a"
  by (cases r) (simp_all add: MapErr_def)

lemma MapErr_simps [simp]: "MapErr e None = Inl e" "MapErr e (Some a) = Inr a"
  by (simp_all add: MapErr_def)

lemma select_by_Some: "select_by key k t = Some r \<Longrightarrow> r \<in> set t \<and> key r = k"
  by (auto simp: select_by_def find_Some_iff)

lemma select_by_None: "select_by key k t = None \<longleftrightarrow> k \<notin> key ` set t"
  by (auto simp: select_by_def find_None_iff)

lemma select_by_Nil [simp]: "select_by key k [] = None"
  by (simp add: select_by_def)

lemma select_by_append:
  "select_by key k (t @ u) = (case select_by key k t of None \<Rightarrow> select_by key k u | Some r \<Rightarrow> Some r)"
  unfolding select_by_def by (induction t) auto

lemma select_by_Cons: "select_by key k (r # t) = (if key r = k then Some r else select_by key k t)"
  by (simp add: select_by_def)

lemma select_insert:
  "insert_unique key e r t = Inr t' \<Longrightarrow>
     select_by key k t' = (if k = key r then Some r else select_by key k t)"
  using select_by_None [of key k t]
  by (auto simp: insert_unique_def select_by_append select_by_Cons image_iff
      split: if_splits option.splits)

lemma select_update:
  assumes "\<And>r. key (f r) = key r"
  shows "select_by key k (update_by key k' f t) =
    (if k = k' then map_option f (select_by key k t) else select_by key k t)"
  using assms by (induction t) (auto simp: select_by_def update_by_def)

lemma update_by_absent: "select_by key k t = None \<Longrightarrow> update_by key k f t = t"
  unfolding select_by_None update_by_def by (rule map_idI) auto

lemma keys_update:
  assumes "\<And>r. key (f r) = key r"
  shows "map key (update_by key k f t) = map key t"
  using assms by (simp add: update_by_def)

lemma keys_insert:
  "insert_unique key e r t = Inr t' \<Longrightarrow> map key t' = map key t @ [key r] \<and> key r \<notin> set (map key t)"
  by (auto simp: insert_unique_def split: if_splits)

lemma insert_unique_set: "insert_unique key e r t = Inr t' \<Longrightarrow> t' = t @ [r]"
  by (auto simp: insert_unique_def split: if_splits)

lemma set_update_by: "r \<in> set (update_by key k f t) \<Longrightarrow> r \<in> set t \<or> (\<exists>r' \<in> set t. key r' = k \<and> r = f r')"
  by (auto simp: update_by_def split: if_splits)

lemma distinct_select: "distinct (map key t) \<Longrightarrow> r \<in> set t \<Longrightarrow> select_by key (key r) t = Some r"
  by (induction t) (auto simp: select_by_Cons image_iff)

section \<open>The repository contract\<close>

text \<open>
  What a service relies on when it reads an aggregate, changes it and writes it back. A
  repository keeps \<open>stored a\<close> of a new aggregate, and \<open>merge old a\<close> when \<open>a\<close> is written over
  a stored \<open>old\<close> (a repository need not write every field). An update of an absent key is no
  error and changes nothing, as with an SQL \<open>UPDATE\<close>. The laws hold in the states \<open>wf\<close>
  that the operations keep.
\<close>

locale repository =
  fixes wf :: "'s \<Rightarrow> bool"
    and get :: "'k \<Rightarrow> 's \<Rightarrow> 'e + 'a"
    and create :: "'a \<Rightarrow> 's \<Rightarrow> 'e + 's"
    and update :: "'a \<Rightarrow> 's \<Rightarrow> 's"
    and key :: "'a \<Rightarrow> 'k"
    and stored :: "'a \<Rightarrow> 'a"
    and merge :: "'a \<Rightarrow> 'a \<Rightarrow> 'a"
  assumes get_key: "get k s = Inr a \<Longrightarrow> key a = k"
    and wf_create: "wf s \<Longrightarrow> create a s = Inr s' \<Longrightarrow> wf s'"
    and wf_update: "wf s \<Longrightarrow> wf (update a s)"
    and get_create: "wf s \<Longrightarrow> create a s = Inr s' \<Longrightarrow> get (key a) s' = Inr (stored a)"
    and get_create_other: "create a s = Inr s' \<Longrightarrow> k \<noteq> key a \<Longrightarrow> get k s' = get k s"
    and get_update: "get (key a) s = Inr old \<Longrightarrow> get (key a) (update a s) = Inr (merge old a)"
    and get_update_other: "k \<noteq> key a \<Longrightarrow> get k (update a s) = get k s"
    and update_absent: "get (key a) s = Inl e \<Longrightarrow> update a s = s"
begin

text \<open>One cycle of reading, changing and writing back.\<close>

lemma read_modify_write:
  assumes "get k s = Inr a" "key b = key a"
  shows "get k (update b s) = Inr (merge a b)"
  using get_update [of b s a] get_key [OF assms(1)] assms by simp

text \<open>A property of every stored aggregate survives the cycle if the merge has it.\<close>

lemma update_all:
  assumes all: "\<And>k a. get k s = Inr a \<Longrightarrow> P a"
    and b: "get (key b) s = Inr a" "P (merge a b)"
    and c: "get k (update b s) = Inr c"
  shows "P c"
proof (cases "k = key b")
  case True
  with c get_update [OF b(1)] b(2) show ?thesis by simp
next
  case False
  with c get_update_other [of k b s] all show ?thesis by simp
qed

lemma create_all:
  assumes all: "\<And>k a. get k s = Inr a \<Longrightarrow> P a"
    and b: "wf s" "create b s = Inr s'" "P (stored b)"
    and c: "get k s' = Inr c"
  shows "P c"
proof (cases "k = key b")
  case True
  with c get_create [OF b(1,2)] b(3) show ?thesis by simp
next
  case False
  with c get_create_other [OF b(2)] all show ?thesis by simp
qed

text \<open>The second of two writes in a row is the one that is read.\<close>

lemma update_twice:
  assumes "get (key b) s = Inr a" "key c = key b"
  shows "get (key b) (update c (update b s)) = Inr (merge (merge a b) c)"
  using get_update [OF assms(1)] get_update [of c "update b s" "merge a b"] assms(2) by simp

end

section \<open>Conversions of pkg/pgutil\<close>

definition StrPtrOrNil :: "string \<Rightarrow> string option" where
  "StrPtrOrNil s = (if s = [] then None else Some s)"

definition DerefStr :: "string option \<Rightarrow> string" where
  "DerefStr s = (case s of None \<Rightarrow> [] | Some x \<Rightarrow> x)"

definition PgtypeToUUID :: "string option \<Rightarrow> string" where
  "PgtypeToUUID u = (case u of None \<Rightarrow> [] | Some x \<Rightarrow> x)"

definition PgtypeToTime :: "time option \<Rightarrow> time" where
  "PgtypeToTime t = (case t of None \<Rightarrow> zero_time | Some x \<Rightarrow> x)"

lemma DerefStr_StrPtrOrNil [simp]: "DerefStr (StrPtrOrNil s) = s"
  by (simp add: DerefStr_def StrPtrOrNil_def)

section \<open>The outbox (outbox_publisher.go)\<close>

text \<open>
  \<open>PublishBatch\<close> fills in a missing trace parent and inserts the batch; within a transaction
  the insert belongs to it.
\<close>

definition with_trace :: "string \<Rightarrow> 'd event \<Rightarrow> 'd event" where
  "with_trace tp e = (if ev_TraceParent e = [] then e\<lparr>ev_TraceParent := tp\<rparr> else e)"

definition PublishBatch :: "string \<Rightarrow> 'd event list \<Rightarrow> 'd event list \<Rightarrow> 'd event list" where
  "PublishBatch tp events outbox = outbox @ map (with_trace tp) events"

lemma with_trace_fields [simp]:
  "ev_ID (with_trace tp e) = ev_ID e" "ev_Type (with_trace tp e) = ev_Type e"
  "ev_Data (with_trace tp e) = ev_Data e" "ev_EntityID (with_trace tp e) = ev_EntityID e"
  by (simp_all add: with_trace_def)

end
