(* ===== verification/Money.thy ===== *)
theory Money
  imports Prelude
begin

text \<open>
  The shared-kernel value object \<open>pkg/money/money.go\<close>: an \<open>int64\<close> amount of minor units and a
  currency code. Arithmetic checks the currency and the overflow of the wrapped result;
  \<open>PercentOf\<close> does not check overflow. The lemmas say that the overflow tests of \<open>Add\<close>,
  \<open>Subtract\<close> and \<open>Multiply\<close> are exact: they fail precisely when the mathematical result does
  not fit an \<open>int64\<close>, and otherwise the amount is that result.
\<close>

type_synonym currency = string

definition CurrencyUSD :: currency where "CurrencyUSD = ''usd''"
definition CurrencyEUR :: currency where "CurrencyEUR = ''eur''"
definition CurrencyRUB :: currency where "CurrencyRUB = ''rub''"
definition CurrencyGBP :: currency where "CurrencyGBP = ''gbp''"

definition ValidCurrencies :: "currency set" where
  "ValidCurrencies = {CurrencyUSD, CurrencyEUR, CurrencyRUB, CurrencyGBP}"

datatype money_error = ErrCurrencyMismatch | ErrMoneyOverflow | ErrInvalidCurrency

record money =
  Amount :: int64
  Currency :: currency

definition NewMoney :: "int64 \<Rightarrow> currency \<Rightarrow> money" where
  "NewMoney amount cur = \<lparr>Amount = amount, Currency = cur\<rparr>"

definition Zero :: "currency \<Rightarrow> money" where
  "Zero cur = \<lparr>Amount = 0, Currency = cur\<rparr>"

definition ValidateCurrency :: "currency \<Rightarrow> money_error + unit" where
  "ValidateCurrency c = require (c \<in> ValidCurrencies) ErrInvalidCurrency"

definition Validate :: "money \<Rightarrow> money_error + unit" where
  "Validate m = ValidateCurrency (Currency m)"

definition Add :: "money \<Rightarrow> money \<Rightarrow> money_error + money" where
  "Add m other =
     (if Currency m \<noteq> Currency other then Inl ErrCurrencyMismatch
      else let sum = Amount m + Amount other in
        if (0 <s Amount other \<and> sum <s Amount m) \<or> (Amount other <s 0 \<and> Amount m <s sum)
        then Inl ErrMoneyOverflow
        else Inr \<lparr>Amount = sum, Currency = Currency m\<rparr>)"

definition Subtract :: "money \<Rightarrow> money \<Rightarrow> money_error + money" where
  "Subtract m other =
     (if Currency m \<noteq> Currency other then Inl ErrCurrencyMismatch
      else let diff = Amount m - Amount other in
        if (Amount other <s 0 \<and> diff <s Amount m) \<or> (0 <s Amount other \<and> Amount m <s diff)
        then Inl ErrMoneyOverflow
        else Inr \<lparr>Amount = diff, Currency = Currency m\<rparr>)"

definition Multiply :: "money \<Rightarrow> int64 \<Rightarrow> money_error + money" where
  "Multiply m factor =
     (if Amount m = 0 \<or> factor = 0 then Inr \<lparr>Amount = 0, Currency = Currency m\<rparr>
      else if factor = - 1 then
        (if Amount m = MinInt64 then Inl ErrMoneyOverflow
         else Inr \<lparr>Amount = - Amount m, Currency = Currency m\<rparr>)
      else if Amount m = - 1 then
        (if factor = MinInt64 then Inl ErrMoneyOverflow
         else Inr \<lparr>Amount = - factor, Currency = Currency m\<rparr>)
      else if 0 <s factor \<and> (go_div MaxInt64 factor <s Amount m \<or> Amount m <s go_div MinInt64 factor)
        then Inl ErrMoneyOverflow
      else if \<not> 0 <s factor \<and> (Amount m <s go_div MaxInt64 factor \<or> go_div MinInt64 factor <s Amount m)
        then Inl ErrMoneyOverflow
      else Inr \<lparr>Amount = Amount m * factor, Currency = Currency m\<rparr>)"

definition IsZero :: "money \<Rightarrow> bool" where "IsZero m \<longleftrightarrow> Amount m = 0"
definition IsPositive :: "money \<Rightarrow> bool" where "IsPositive m \<longleftrightarrow> 0 <s Amount m"
definition IsNegative :: "money \<Rightarrow> bool" where "IsNegative m \<longleftrightarrow> Amount m <s 0"

definition Equal :: "money \<Rightarrow> money \<Rightarrow> bool" where
  "Equal m other \<longleftrightarrow> Amount m = Amount other \<and> Currency m = Currency other"

definition GreaterThan :: "money \<Rightarrow> money \<Rightarrow> money_error + bool" where
  "GreaterThan m other =
     (if Currency m \<noteq> Currency other then Inl ErrCurrencyMismatch else Inr (Amount other <s Amount m))"

definition LessThan :: "money \<Rightarrow> money \<Rightarrow> money_error + bool" where
  "LessThan m other =
     (if Currency m \<noteq> Currency other then Inl ErrCurrencyMismatch else Inr (Amount m <s Amount other))"

definition GreaterThanOrEqual :: "money \<Rightarrow> money \<Rightarrow> money_error + bool" where
  "GreaterThanOrEqual m other =
     (if Currency m \<noteq> Currency other then Inl ErrCurrencyMismatch else Inr (Amount other \<le>s Amount m))"

definition LessThanOrEqual :: "money \<Rightarrow> money \<Rightarrow> money_error + bool" where
  "LessThanOrEqual m other =
     (if Currency m \<noteq> Currency other then Inl ErrCurrencyMismatch else Inr (Amount m \<le>s Amount other))"

datatype rounding_mode = RoundFloor | RoundHalfUp

definition PercentBase :: int64 where "PercentBase = 10000"

fun PercentOf :: "money \<Rightarrow> int64 \<Rightarrow> rounding_mode \<Rightarrow> money" where
  "PercentOf m pct RoundHalfUp =
     \<lparr>Amount = go_div (Amount m * pct + go_div PercentBase 2) PercentBase, Currency = Currency m\<rparr>"
| "PercentOf m pct RoundFloor =
     \<lparr>Amount = go_div (Amount m * pct) PercentBase, Currency = Currency m\<rparr>"

section \<open>Exactness of the checked operations\<close>

lemmas s_order = word_sless_alt word_sle_eq

lemma Add_exact:
  "Add m other =
     (if Currency m \<noteq> Currency other then Inl ErrCurrencyMismatch
      else if in_int64 (sint (Amount m) + sint (Amount other))
      then Inr \<lparr>Amount = Amount m + Amount other, Currency = Currency m\<rparr>
      else Inl ErrMoneyOverflow)"
proof -
  let ?a = "Amount m" and ?b = "Amount other"
  have bnd: "- (2 ^ 63) \<le> sint ?a" "sint ?a < 2 ^ 63" "- (2 ^ 63) \<le> sint ?b" "sint ?b < 2 ^ 63"
    by (rule sint64_lower sint64_upper)+
  have "(0 <s ?b \<and> ?a + ?b <s ?a) \<or> (?b <s 0 \<and> ?a <s ?a + ?b) \<longleftrightarrow> \<not> in_int64 (sint ?a + sint ?b)"
  proof (cases "in_int64 (sint ?a + sint ?b)")
    case True
    then show ?thesis by (simp add: s_order sint_add64)
  next
    case False
    then consider "2 ^ 63 \<le> sint ?a + sint ?b" | "sint ?a + sint ?b < - (2 ^ 63)"
      unfolding in_int64_def by linarith
    then show ?thesis
      using False bnd by cases (auto simp: s_order sint_add64_over sint_add64_under)
  qed
  then show ?thesis by (simp add: Add_def Let_def)
qed

lemma Subtract_exact:
  "Subtract m other =
     (if Currency m \<noteq> Currency other then Inl ErrCurrencyMismatch
      else if in_int64 (sint (Amount m) - sint (Amount other))
      then Inr \<lparr>Amount = Amount m - Amount other, Currency = Currency m\<rparr>
      else Inl ErrMoneyOverflow)"
proof -
  let ?a = "Amount m" and ?b = "Amount other"
  have bnd: "- (2 ^ 63) \<le> sint ?a" "sint ?a < 2 ^ 63" "- (2 ^ 63) \<le> sint ?b" "sint ?b < 2 ^ 63"
    by (rule sint64_lower sint64_upper)+
  have "(?b <s 0 \<and> ?a - ?b <s ?a) \<or> (0 <s ?b \<and> ?a <s ?a - ?b) \<longleftrightarrow> \<not> in_int64 (sint ?a - sint ?b)"
  proof (cases "in_int64 (sint ?a - sint ?b)")
    case True
    then show ?thesis by (simp add: s_order sint_sub64)
  next
    case False
    then consider "2 ^ 63 \<le> sint ?a - sint ?b" | "sint ?a - sint ?b < - (2 ^ 63)"
      unfolding in_int64_def by linarith
    then show ?thesis
      using False bnd by cases (auto simp: s_order sint_sub64_over sint_sub64_under)
  qed
  then show ?thesis by (simp add: Subtract_def Let_def)
qed

lemma sint_eq_iff64: "(a :: int64) = b \<longleftrightarrow> sint a = sint b"
  by (rule word_eq_iff_signed)

lemma Multiply_mid:
  assumes "sint f \<noteq> 0" "sint f \<noteq> - 1"
  shows "(0 <s f \<and> (go_div MaxInt64 f <s a \<or> a <s go_div MinInt64 f))
       \<or> (\<not> 0 <s f \<and> (a <s go_div MaxInt64 f \<or> go_div MinInt64 f <s a))
     \<longleftrightarrow> \<not> in_int64 (sint a * sint f)"
proof (cases "0 < sint f")
  case True
  then have "sint (go_div MaxInt64 f) = (2 ^ 63 - 1) div sint f"
    and "sint (go_div MinInt64 f) = - (2 ^ 63 div sint f)"
    by (simp_all add: sint_go_div sdiv_pos sint_MaxInt64 sint_MinInt64)
  moreover have "(2 ^ 63 - 1) div sint f < sint a \<longleftrightarrow> 2 ^ 63 - 1 < sint a * sint f"
    using True by (rule less_div_mult)
  moreover have "sint a < - (2 ^ 63 div sint f) \<longleftrightarrow> 2 ^ 63 < - sint a * sint f"
    using less_div_mult [OF True, of "2 ^ 63" "- sint a"] by linarith
  ultimately show ?thesis using True by (auto simp: s_order in_int64_def)
next
  case False
  with assms have neg: "sint f < 0" and nf: "0 < - sint f" by simp_all
  have quot: "in_int64 (- ((2 ^ 63 - 1) div (- sint f)))" "in_int64 (2 ^ 63 div (- sint f))"
    using nf assms zdiv_le_self [of "2 ^ 63 - 1" "- sint f"]
      less_div_mult [OF nf, of "2 ^ 63" "2 ^ 63"] pos_imp_zdiv_nonneg_iff [OF nf, of "2 ^ 63"]
      pos_imp_zdiv_nonneg_iff [OF nf, of "2 ^ 63 - 1"]
    by (simp_all add: in_int64_def)
  then have "sint (go_div MaxInt64 f) = - ((2 ^ 63 - 1) div (- sint f))"
    and "sint (go_div MinInt64 f) = 2 ^ 63 div (- sint f)"
    using neg
    by (simp_all add: go_div_def sint_word_of_int64 sdiv_neg sint_MaxInt64 sint_MinInt64
        del: of_int_minus)
  moreover have "sint a < - ((2 ^ 63 - 1) div (- sint f)) \<longleftrightarrow> 2 ^ 63 - 1 < sint a * sint f"
    using less_div_mult [OF nf, of "2 ^ 63 - 1" "- sint a"] by (simp only: minus_mult_minus) linarith
  moreover have "2 ^ 63 div (- sint f) < sint a \<longleftrightarrow> 2 ^ 63 < sint a * (- sint f)"
    using nf by (rule less_div_mult)
  ultimately show ?thesis using neg by (auto simp: s_order in_int64_def)
qed

text \<open>\<open>Multiply\<close> succeeds exactly when the product fits, and then returns the product.\<close>

lemma Multiply_exact:
  "Multiply m f =
     (if in_int64 (sint (Amount m) * sint f)
      then Inr \<lparr>Amount = Amount m * f, Currency = Currency m\<rparr>
      else Inl ErrMoneyOverflow)"
proof -
  let ?a = "Amount m"
  consider (zero) "?a = 0 \<or> f = 0"
    | (neg_f) "?a \<noteq> 0" "f = - 1"
    | (neg_a) "?a = - 1" "f \<noteq> 0" "f \<noteq> - 1"
    | (mid) "?a \<noteq> 0" "?a \<noteq> - 1" "f \<noteq> 0" "f \<noteq> - 1"
    by blast
  then show ?thesis
  proof cases
    case zero
    then show ?thesis by (auto simp: Multiply_def in_int64_def)
  next
    case neg_f
    have "?a \<noteq> MinInt64 \<Longrightarrow> sint ?a \<noteq> - (2 ^ 63)"
      by (simp add: sint_eq_iff64 sint_MinInt64)
    then show ?thesis
      using sint64_lower [of ?a] sint64_upper [of ?a] neg_f(1)
      by (auto simp: Multiply_def in_int64_def sint_MinInt64 neg_f(2))
  next
    case neg_a
    have "f \<noteq> MinInt64 \<Longrightarrow> sint f \<noteq> - (2 ^ 63)"
      by (simp add: sint_eq_iff64 sint_MinInt64)
    then show ?thesis
      using sint64_lower [of f] sint64_upper [of f] neg_a(2,3)
      by (auto simp: Multiply_def in_int64_def sint_MinInt64 neg_a(1))
  next
    case mid
    then have "sint f \<noteq> 0" "sint f \<noteq> - 1"
      by (simp_all add: sint_eq_iff64)
    from Multiply_mid [OF this, of ?a] mid show ?thesis
      by (auto simp: Multiply_def)
  qed
qed

lemma Add_ok: "Add m other = Inr r \<Longrightarrow>
  Currency r = Currency m \<and> Currency other = Currency m
  \<and> sint (Amount r) = sint (Amount m) + sint (Amount other)"
  by (auto simp: Add_exact sint_add64 split: if_splits)

lemma Subtract_ok: "Subtract m other = Inr r \<Longrightarrow>
  Currency r = Currency m \<and> Currency other = Currency m
  \<and> sint (Amount r) = sint (Amount m) - sint (Amount other)"
  by (auto simp: Subtract_exact sint_sub64 split: if_splits)

lemma Multiply_ok: "Multiply m f = Inr r \<Longrightarrow>
  Currency r = Currency m \<and> sint (Amount r) = sint (Amount m) * sint f"
  by (auto simp: Multiply_exact sint_mult64 split: if_splits)

section \<open>Percentages\<close>

lemma Currency_PercentOf [simp]: "Currency (PercentOf m pct r) = Currency m"
  by (cases r) simp_all

lemma sint_PercentBase [simp]: "sint PercentBase = 10000"
  by (simp add: PercentBase_def)

text \<open>Within range, \<open>RoundFloor\<close> is the truncated quotient.\<close>

lemma PercentOf_floor:
  "in_int64 (sint (Amount m) * sint pct) \<Longrightarrow>
     sint (Amount (PercentOf m pct RoundFloor)) = (sint (Amount m) * sint pct) sdiv 10000"
  by (simp add: sint_go_div sint_mult64)

lemma PercentOf_floor_nonneg:
  assumes "0 \<le> sint (Amount m)" "0 \<le> sint pct" "sint (Amount m) * sint pct < 2 ^ 63"
  shows "sint (Amount (PercentOf m pct RoundFloor)) = sint (Amount m) * sint pct div 10000"
proof -
  have nn: "0 \<le> sint (Amount m) * sint pct" using assms by simp
  then have "in_int64 (sint (Amount m) * sint pct)" using assms(3) by (simp add: in_int64_def)
  from PercentOf_floor [OF this] nn show ?thesis by (simp del: PercentOf.simps add: sdiv_pos)
qed

section \<open>Printing\<close>

text \<open>
  \<open>String()\<close>: \<open>fmt.Sprintf("%s%d.%02d %s", sign, major, minor, currency)\<close>. \<open>dec\<close> prints a
  natural number in decimal, \<open>dec_int\<close> is \<open>%d\<close>, \<open>dec2\<close> is \<open>%02d\<close> of a value below 100.
\<close>

definition digit :: "nat \<Rightarrow> char" where
  "digit d = char_of (48 + d)"

fun dec :: "nat \<Rightarrow> string" where
  "dec n = (if n < 10 then [digit n] else dec (n div 10) @ [digit (n mod 10)])"

declare dec.simps [simp del]

definition dec_int :: "int \<Rightarrow> string" where
  "dec_int i = (if i < 0 then ''-'' @ dec (nat (- i)) else dec (nat i))"

definition dec2 :: "int \<Rightarrow> string" where
  "dec2 i = (if 0 \<le> i \<and> i < 10 then ''0'' @ dec_int i else dec_int i)"

definition CentsPerUnit :: int64 where "CentsPerUnit = 100"

definition money_String :: "money \<Rightarrow> string" where
  "money_String m =
     (let major = go_div (Amount m) CentsPerUnit;
          minor0 = go_mod (Amount m) CentsPerUnit;
          minor = (if minor0 <s 0 then - minor0 else minor0);
          sign = (if Amount m <s 0 \<and> major = 0 then ''-'' else [])
      in sign @ dec_int (sint major) @ ''.'' @ dec2 (sint minor) @ '' '' @ Currency m)"

end
