(* ===== verification/BillingVO.thy ===== *)
theory BillingVO
  imports DomainEvent Money
begin

text \<open>
  The value objects, sentinel errors and event payloads of the billing context:
  \<open>internal/domain/billing/vo\<close>, \<open>billing/errors.go\<close>, \<open>billing/aggregate/errors.go\<close> (and the
  error variables that the aggregates declare next to themselves) and
  \<open>billing/aggregate/event_types.go\<close>. A wrapped error (\<open>fmt.Errorf("...: %w", err)\<close>) is the
  sentinel it wraps, which is what \<open>errors.Is\<close> sees.
\<close>

section \<open>Sentinel errors\<close>

datatype billing_error =
    ErrFamilyNotEnabled | ErrPlanNotActive | ErrNoPriceConfigured
  | ErrAddonAlreadyOnSubscription | ErrAddonNotOnSubscription | ErrPeriodNotElapsed
  | ErrInvoiceNotDraft | ErrNegativeTotal | ErrSamePlan | ErrPendingPlanInactive
  | ErrSubscriptionNotActiveForInvoicing | ErrEmptyAddonID | ErrAddonNotAvailableOnPlan
  | ErrMaxAddonsExceeded | ErrSubscriptionNotActiveForAddon | ErrAlreadySubscribed
  | ErrCountryNotAllowed
  | ErrInvalidTransition | ErrSubscriptionNotActiveForRenewal | ErrEmptyUserID | ErrEmptyPlanID
  | ErrInvoiceRequiresLineItems | ErrInvoiceMustBeDraftForPending | ErrInvoiceMustBePendingForPaid
  | ErrInvoiceMustBePendingForFailed | ErrInvoiceMustBePaidForRefund
  | ErrEmptyPlanName | ErrBasePriceNotPositive | ErrNoCountriesAllowed | ErrFamilyDisabledWithMembers
  | ErrNegativeTrafficLimit | ErrAddonAlreadyExists | ErrAddonNotFound | ErrPlanAlreadyActive
  | ErrPlanAlreadyInactive | ErrAddonNotOnPlan
  | ErrMaxFamilyExceeded | ErrAlreadyMember | ErrCannotRemoveOwner | ErrMemberNotFound
  | ErrEmptyOwnerID | ErrMaxMembersTooLow | ErrMaxMembersTooHigh
  | ErrPlanNotFound | ErrSubscriptionNotFound | ErrSubscriptionAlreadyExists | ErrInvoiceNotFound
  | ErrInvoiceAlreadyExists | ErrFamilyGroupNotFound | ErrFamilyGroupAlreadyExists
  | ErrInvoiceAlreadyPaid | ErrInsufficientFunds | ErrBillingCurrencyMismatch | ErrAddonNotAvailable
  | ErrSubscriptionNotActive | ErrNotTrialStatus | ErrCheckoutRateLimited
  | ErrEmptyInvoiceID | ErrCancellationBlocked | ErrCheckoutBlocked
  | MoneyError money_error
  | DiscountPercentRange | DiscountAmountNotPositive
  | ErrStorage string | ErrPayment string

definition of_money :: "money_error + 'a \<Rightarrow> billing_error + 'a" where
  "of_money r = (case r of Inl e \<Rightarrow> Inl (MoneyError e) | Inr a \<Rightarrow> Inr a)"

lemma of_money_Inr [simp]: "of_money r = Inr a \<longleftrightarrow> r = Inr a"
  by (cases r) (simp_all add: of_money_def)

lemma of_money_Inl: "of_money r = Inl e \<longleftrightarrow> (\<exists>m. r = Inl m \<and> e = MoneyError m)"
  by (cases r) (auto simp: of_money_def)

lemma of_money_simps [simp]: "of_money (Inl m) = Inl (MoneyError m)" "of_money (Inr a) = Inr a"
  by (simp_all add: of_money_def)

section \<open>Billing periods (vo/billing_period.go)\<close>

datatype billing_interval =
  IntervalMonth | IntervalQuarter | IntervalYear | IntervalUnknown string

definition monthsMonth :: int where "monthsMonth = 1"
definition monthsQuarter :: int where "monthsQuarter = 3"
definition monthsYear :: int where "monthsYear = 12"

record billing_period =
  bp_Start :: time
  bp_End :: time
  bp_Interval :: billing_interval

fun addInterval :: "time \<Rightarrow> billing_interval \<Rightarrow> time" where
  "addInterval t IntervalMonth = AddDate 0 monthsMonth 0 t"
| "addInterval t IntervalQuarter = AddDate 0 monthsQuarter 0 t"
| "addInterval t IntervalYear = AddDate 0 monthsYear 0 t"
| "addInterval t (IntervalUnknown _) = AddDate 0 monthsMonth 0 t"

definition NewBillingPeriod :: "time \<Rightarrow> billing_interval \<Rightarrow> billing_period" where
  "NewBillingPeriod start interval =
     \<lparr>bp_Start = start, bp_End = addInterval start interval, bp_Interval = interval\<rparr>"

definition Contains :: "billing_period \<Rightarrow> time \<Rightarrow> bool" where
  "Contains bp t \<longleftrightarrow> \<not> Before t (bp_Start bp) \<and> Before t (bp_End bp)"

text \<open>
  \<open>remaining := bp.End.Sub(now).Hours(); if remaining <= 0 { return 0 }; return int(remaining/24)\<close>.
  The hours of a duration have its sign.
\<close>

definition DaysRemaining :: "billing_period \<Rightarrow> time \<Rightarrow> int" where
  "DaysRemaining bp now =
     (let remaining = Sub (bp_End bp) now in if remaining \<le> 0 then 0 else whole_days remaining)"

definition Next :: "billing_period \<Rightarrow> billing_period" where
  "Next bp = NewBillingPeriod (bp_End bp) (bp_Interval bp)"

lemma addInterval_after: "t < addInterval t i"
  using AddDate_months_after [of 1 t] AddDate_months_after [of 3 t] AddDate_months_after [of 12 t]
  by (cases i) (simp_all add: monthsMonth_def monthsQuarter_def monthsYear_def)

lemma NewBillingPeriod_fields [simp]:
  "bp_Start (NewBillingPeriod s i) = s"
  "bp_End (NewBillingPeriod s i) = addInterval s i"
  "bp_Interval (NewBillingPeriod s i) = i"
  by (simp_all add: NewBillingPeriod_def)

lemma Next_fields [simp]:
  "bp_Start (Next bp) = bp_End bp" "bp_Interval (Next bp) = bp_Interval bp"
  "bp_End (Next bp) = addInterval (bp_End bp) (bp_Interval bp)"
  by (simp_all add: Next_def)

lemma DaysRemaining_nonneg: "0 \<le> DaysRemaining bp now"
  by (simp add: DaysRemaining_def Let_def whole_days_nonneg)

lemma DaysRemaining_antimono: "t \<le> t' \<Longrightarrow> DaysRemaining bp t' \<le> DaysRemaining bp t"
  using Sub_mono [of "bp_End bp" "bp_End bp" t t'] whole_days_mono [of "Sub (bp_End bp) t'" "Sub (bp_End bp) t"]
  by (auto simp: DaysRemaining_def Let_def whole_days_nonneg)

section \<open>Discounts (vo/discount.go)\<close>

datatype discount_type = DiscountPercent | DiscountFixed | DiscountUnknown string

record discount =
  d_Type :: discount_type
  d_Value :: int64
  d_Currency :: currency
  d_Code :: string
  d_ExpiresAt :: "time option"

definition minPercent :: int64 where "minPercent = 1"
definition maxPercent :: int64 where "maxPercent = PercentBase"

definition NewPercentDiscount :: "int64 \<Rightarrow> string \<Rightarrow> time option \<Rightarrow> billing_error + discount" where
  "NewPercentDiscount percent code expiresAt =
     (if percent <s minPercent \<or> maxPercent <s percent then Inl DiscountPercentRange
      else Inr \<lparr>d_Type = DiscountPercent, d_Value = percent, d_Currency = [], d_Code = code,
                d_ExpiresAt = expiresAt\<rparr>)"

definition NewFixedDiscount :: "int64 \<Rightarrow> currency \<Rightarrow> string \<Rightarrow> time option \<Rightarrow> billing_error + discount" where
  "NewFixedDiscount amount cur code expiresAt =
     (if amount \<le>s 0 then Inl DiscountAmountNotPositive
      else Inr \<lparr>d_Type = DiscountFixed, d_Value = amount, d_Currency = cur, d_Code = code,
                d_ExpiresAt = expiresAt\<rparr>)"

definition IsExpiredAt :: "discount \<Rightarrow> time \<Rightarrow> bool" where
  "IsExpiredAt d now = (case d_ExpiresAt d of None \<Rightarrow> False | Some x \<Rightarrow> After now x)"

definition smax :: "int64 \<Rightarrow> int64 \<Rightarrow> int64" where
  "smax a b = (if a <s b then b else a)"

definition Apply :: "discount \<Rightarrow> money \<Rightarrow> time \<Rightarrow> billing_error + money" where
  "Apply d price now =
     (if IsExpiredAt d now then Inr price
      else case d_Type d of
        DiscountPercent \<Rightarrow> Inr (PercentOf price (maxPercent - d_Value d) RoundFloor)
      | DiscountFixed \<Rightarrow>
          (if d_Currency d \<noteq> [] \<and> d_Currency d \<noteq> Currency price then Inl (MoneyError ErrCurrencyMismatch)
           else Inr (NewMoney (smax (Amount price - d_Value d) 0) (Currency price)))
      | DiscountUnknown _ \<Rightarrow> Inr price)"

record discount_result =
  dr_Applied :: bool
  dr_OriginalPrice :: money
  dr_DiscountedPrice :: money
  dr_SavedAmount :: money
  dr_Code :: string

definition ApplyWithResult :: "discount \<Rightarrow> money \<Rightarrow> time \<Rightarrow> billing_error + discount_result" where
  "ApplyWithResult d price now =
     (if IsExpiredAt d now then
        Inr \<lparr>dr_Applied = False, dr_OriginalPrice = price, dr_DiscountedPrice = price,
             dr_SavedAmount = Zero (Currency price), dr_Code = d_Code d\<rparr>
      else rbind (Apply d price now) (\<lambda>discounted.
        let saved = NewMoney (Amount price - Amount discounted) (Currency price)
        in Inr \<lparr>dr_Applied = 0 <s Amount saved, dr_OriginalPrice = price,
                dr_DiscountedPrice = discounted, dr_SavedAmount = saved, dr_Code = d_Code d\<rparr>))"

lemma NewMoney_fields [simp]: "Amount (NewMoney a c) = a" "Currency (NewMoney a c) = c"
  by (simp_all add: NewMoney_def)

lemma Zero_fields [simp]: "Amount (Zero c) = 0" "Currency (Zero c) = c"
  by (simp_all add: Zero_def)

lemma Apply_currency: "Apply d price now = Inr r \<Longrightarrow> Currency r = Currency price"
  by (auto simp: Apply_def simp del: PercentOf.simps split: if_splits discount_type.splits)

lemma NewPercentDiscount_range:
  "NewPercentDiscount p c x = Inr d \<Longrightarrow>
     d_Type d = DiscountPercent \<and> d_Value d = p \<and> 1 \<le> sint p \<and> sint p \<le> 10000 \<and> d_ExpiresAt d = x"
  by (auto simp: NewPercentDiscount_def minPercent_def maxPercent_def PercentBase_def s_order
      split: if_splits)

lemma sint_maxPercent_minus: "1 \<le> sint p \<Longrightarrow> sint p \<le> 10000 \<Longrightarrow> sint (maxPercent - p) = 10000 - sint p"
  using sint_sub64 [of maxPercent p] by (simp add: maxPercent_def in_int64_def)

lemma sint_smax0: "sint (smax a 0) = max (sint a) 0"
  by (auto simp: smax_def s_order)

section \<open>Line items (vo/line_item.go)\<close>

datatype line_item_type = LineItemPlan | LineItemAddon | LineItemCredit

record line_item =
  li_Description :: string
  li_Type :: line_item_type
  li_Amount :: money
  li_Quantity :: int64

definition NewLineItem :: "string \<Rightarrow> line_item_type \<Rightarrow> money \<Rightarrow> int64 \<Rightarrow> line_item" where
  "NewLineItem desc itemType amount quantity =
     \<lparr>li_Description = desc, li_Type = itemType, li_Amount = amount, li_Quantity = quantity\<rparr>"

definition Total :: "line_item \<Rightarrow> billing_error + money" where
  "Total li = of_money (Multiply (li_Amount li) (li_Quantity li))"

section \<open>Pending plan changes (vo/pending_plan_change.go)\<close>

record pending_plan_change =
  pc_PlanID :: string
  pc_OriginalPlanID :: string
  pc_RequestedAt :: time

definition no_change :: pending_plan_change where
  "no_change = \<lparr>pc_PlanID = [], pc_OriginalPlanID = [], pc_RequestedAt = zero_time\<rparr>"

definition pc_IsZero :: "pending_plan_change \<Rightarrow> bool" where
  "pc_IsZero p \<longleftrightarrow> pc_PlanID p = []"

lemma no_change_IsZero [simp]: "pc_IsZero no_change"
  by (simp add: pc_IsZero_def no_change_def)

section \<open>Event payloads (aggregate/event_types.go)\<close>

datatype billing_payload =
    SubCreated string string string
  | SubActivated string string
  | SubCancelled string string string
  | SubRenewed string string
  | SubPaused string string
  | SubResumed string string
  | SubExpired string string
  | SubPastDue string string
  | SubUpgraded string string string string
  | SubDowngraded string string string string
  | SubTrialStarted string string string
  | SubTrialEnding string string int
  | SubUpdated string string
  | InvCreated string string string int64
  | InvPaid string string string int64
  | InvFailed string string string string
  | InvRefunded string string string int64
  | InvDiscountApplied string string int64
  | InvTotalOverridden string int64 int64 string
  | FamilyCreated string string int
  | FamilyMemberAdded string string string
  | FamilyMemberRemoved string string string
  | PlanCreated string string string
  | PlanUpdated string string
  | PlanDeactivated string

fun EventType :: "billing_payload \<Rightarrow> string" where
  "EventType (SubCreated _ _ _) = ''subscription.created''"
| "EventType (SubActivated _ _) = ''subscription.activated''"
| "EventType (SubCancelled _ _ _) = ''subscription.cancelled''"
| "EventType (SubRenewed _ _) = ''subscription.renewed''"
| "EventType (SubPaused _ _) = ''subscription.paused''"
| "EventType (SubResumed _ _) = ''subscription.resumed''"
| "EventType (SubExpired _ _) = ''subscription.expired''"
| "EventType (SubPastDue _ _) = ''subscription.past_due''"
| "EventType (SubUpgraded _ _ _ _) = ''subscription.upgraded''"
| "EventType (SubDowngraded _ _ _ _) = ''subscription.downgraded''"
| "EventType (SubTrialStarted _ _ _) = ''subscription.trial_started''"
| "EventType (SubTrialEnding _ _ _) = ''subscription.trial_ending''"
| "EventType (SubUpdated _ _) = ''subscription.updated''"
| "EventType (InvCreated _ _ _ _) = ''invoice.created''"
| "EventType (InvPaid _ _ _ _) = ''invoice.paid''"
| "EventType (InvFailed _ _ _ _) = ''invoice.failed''"
| "EventType (InvRefunded _ _ _ _) = ''invoice.refunded''"
| "EventType (InvDiscountApplied _ _ _) = ''invoice.discount_applied''"
| "EventType (InvTotalOverridden _ _ _ _) = ''invoice.total_overridden''"
| "EventType (FamilyCreated _ _ _) = ''family.created''"
| "EventType (FamilyMemberAdded _ _ _) = ''family.member_added''"
| "EventType (FamilyMemberRemoved _ _ _) = ''family.member_removed''"
| "EventType (PlanCreated _ _ _) = ''plan.created''"
| "EventType (PlanUpdated _ _) = ''plan.updated''"
| "EventType (PlanDeactivated _) = ''plan.deactivated''"

type_synonym billing_event = "billing_payload event"

definition new_event :: "uuid \<Rightarrow> billing_payload \<Rightarrow> time \<Rightarrow> string \<Rightarrow> billing_event" where
  "new_event = NewTyped EventType"

lemma new_event_fields [simp]:
  "ev_EntityID (new_event eid p ts ent) = ent"
  "ev_Data (new_event eid p ts ent) = p"
  "ev_Type (new_event eid p ts ent) = EventType p"
  "ev_ID (new_event eid p ts ent) = eid"
  by (simp_all add: new_event_def)

end
