(* ===== verification/Plan.thy ===== *)
theory Plan
  imports BillingVO
begin

text \<open>
  \<open>billing/aggregate/plan.go\<close>: the plan aggregate, its addons and its constructor, and the
  price of a selection of addons. The invariant is what \<open>NewPlan\<close> checks together with the
  uniqueness of addon identifiers, which \<open>AddAddon\<close> maintains (the constructor takes its
  addons as they come).
\<close>

datatype plan_tier = TierBasic | TierPremium | TierUltra | TierOther string

fun tier_string :: "plan_tier \<Rightarrow> string" where
  "tier_string TierBasic = ''basic''"
| "tier_string TierPremium = ''premium''"
| "tier_string TierUltra = ''ultra''"
| "tier_string (TierOther s) = s"

datatype addon_type = AddonTraffic | AddonNodes | AddonFeature | AddonOther string

record addon =
  ad_ID :: string
  ad_Name :: string
  ad_Price :: money
  ad_Type :: addon_type
  ad_ExtraTrafficBytes :: int64
  ad_ExtraNodes :: "string list"
  ad_ExtraFeatureFlags :: "string list"

record plan = "billing_payload event_recorder" +
  plan_ID :: string
  plan_Name :: string
  plan_Description :: string
  plan_BasePrice :: money
  plan_Interval :: billing_interval
  plan_TrafficLimitBytes :: int64
  plan_DeviceLimit :: int
  plan_AllowedCountries :: "string list"
  plan_AllowedProtocols :: "string list"
  plan_Tier :: plan_tier
  plan_MaxRemnawaveBindings :: int
  plan_FamilyEnabled :: bool
  plan_MaxFamilyMembers :: int
  plan_MaxAddons :: int
  plan_AvailableAddons :: "addon list"
  plan_IsActive :: bool
  plan_CreatedAt :: time
  plan_UpdatedAt :: time

section \<open>Operations\<close>

text \<open>\<open>pid\<close> and \<open>eid\<close> are the two UUIDs the constructor draws.\<close>

definition NewPlan ::
    "uuid \<Rightarrow> uuid \<Rightarrow> string \<Rightarrow> string \<Rightarrow> money \<Rightarrow> billing_interval \<Rightarrow> int64 \<Rightarrow> int \<Rightarrow> string list
     \<Rightarrow> string list \<Rightarrow> plan_tier \<Rightarrow> int \<Rightarrow> bool \<Rightarrow> int \<Rightarrow> addon list \<Rightarrow> time \<Rightarrow> billing_error + plan" where
  "NewPlan pid eid name description basePrice interval trafficLimitBytes deviceLimit allowedCountries
     allowedProtocols tier maxRemnawaveBindings familyEnabled maxFamilyMembers addons now =
   (if name = [] then Inl ErrEmptyPlanName
    else if \<not> IsPositive basePrice then Inl ErrBasePriceNotPositive
    else if length allowedCountries = 0 then Inl ErrNoCountriesAllowed
    else if \<not> familyEnabled \<and> maxFamilyMembers > 0 then Inl ErrFamilyDisabledWithMembers
    else if trafficLimitBytes <s 0 then Inl ErrNegativeTrafficLimit
    else Inr (RecordEvent (new_event eid (PlanCreated pid name (tier_string tier)) now pid)
      \<lparr>rec_events = [], rec_flushed = False,
       plan_ID = pid, plan_Name = name, plan_Description = description, plan_BasePrice = basePrice,
       plan_Interval = interval, plan_TrafficLimitBytes = trafficLimitBytes,
       plan_DeviceLimit = deviceLimit, plan_AllowedCountries = allowedCountries,
       plan_AllowedProtocols = allowedProtocols, plan_Tier = tier,
       plan_MaxRemnawaveBindings = maxRemnawaveBindings, plan_FamilyEnabled = familyEnabled,
       plan_MaxFamilyMembers = maxFamilyMembers, plan_MaxAddons = 0,
       plan_AvailableAddons = addons, plan_IsActive = True,
       plan_CreatedAt = now, plan_UpdatedAt = now\<rparr>))"

definition plan_updated :: "uuid \<Rightarrow> time \<Rightarrow> plan \<Rightarrow> plan" where
  "plan_updated eid now p = RecordEvent (new_event eid (PlanUpdated (plan_ID p) (plan_Name p)) now (plan_ID p)) p"

definition Deactivate :: "uuid \<Rightarrow> time \<Rightarrow> plan \<Rightarrow> billing_error + plan" where
  "Deactivate eid now p =
     (if \<not> plan_IsActive p then Inl ErrPlanAlreadyInactive
      else Inr (RecordEvent (new_event eid (PlanDeactivated (plan_ID p)) now (plan_ID p))
                 (p\<lparr>plan_IsActive := False, plan_UpdatedAt := now\<rparr>)))"

definition Reactivate :: "uuid \<Rightarrow> time \<Rightarrow> plan \<Rightarrow> billing_error + plan" where
  "Reactivate eid now p =
     (if plan_IsActive p then Inl ErrPlanAlreadyActive
      else Inr (plan_updated eid now (p\<lparr>plan_IsActive := True, plan_UpdatedAt := now\<rparr>)))"

definition plan_RemoveAddon :: "uuid \<Rightarrow> string \<Rightarrow> time \<Rightarrow> plan \<Rightarrow> billing_error + plan" where
  "plan_RemoveAddon eid addonID now p =
     (if \<not> (\<exists>a \<in> set (plan_AvailableAddons p). ad_ID a = addonID) then Inl ErrAddonNotOnPlan
      else Inr (plan_updated eid now
        (p\<lparr>plan_AvailableAddons := delete_first (\<lambda>a. ad_ID a = addonID) (plan_AvailableAddons p),
           plan_UpdatedAt := now\<rparr>)))"

definition UpdateBasePrice :: "uuid \<Rightarrow> money \<Rightarrow> time \<Rightarrow> plan \<Rightarrow> billing_error + plan" where
  "UpdateBasePrice eid newPrice now p =
     (if \<not> IsPositive newPrice then Inl ErrBasePriceNotPositive
      else if Currency newPrice \<noteq> Currency (plan_BasePrice p) then Inl (MoneyError ErrCurrencyMismatch)
      else Inr (plan_updated eid now (p\<lparr>plan_BasePrice := newPrice, plan_UpdatedAt := now\<rparr>)))"

fun has_addon :: "addon list \<Rightarrow> string \<Rightarrow> bool" where
  "has_addon [] addonID = False"
| "has_addon (a # as) addonID = (if ad_ID a = addonID then True else has_addon as addonID)"

definition HasAddon :: "plan \<Rightarrow> string \<Rightarrow> bool" where
  "HasAddon p addonID = has_addon (plan_AvailableAddons p) addonID"

definition plan_AddAddon :: "uuid \<Rightarrow> addon \<Rightarrow> time \<Rightarrow> plan \<Rightarrow> billing_error + plan" where
  "plan_AddAddon eid addon now p =
     (if HasAddon p (ad_ID addon) then Inl ErrAddonAlreadyExists
      else Inr (plan_updated eid now
        (p\<lparr>plan_AvailableAddons := plan_AvailableAddons p @ [addon], plan_UpdatedAt := now\<rparr>)))"

definition AvailableAddonIDs :: "plan \<Rightarrow> string list" where
  "AvailableAddonIDs p = map ad_ID (plan_AvailableAddons p)"

definition addonMap :: "plan \<Rightarrow> (string \<rightharpoonup> addon)" where
  "addonMap p = index_by ad_ID (plan_AvailableAddons p)"

fun add_addons :: "(string \<rightharpoonup> addon) \<Rightarrow> money \<Rightarrow> string list \<Rightarrow> billing_error + money" where
  "add_addons m tot [] = Inr tot"
| "add_addons m tot (i # ids) =
     (case m i of
        None \<Rightarrow> Inl ErrAddonNotFound
      | Some addon \<Rightarrow> rbind (of_money (Add tot (ad_Price addon))) (\<lambda>sum. add_addons m sum ids))"

definition plan_CalculateTotal :: "plan \<Rightarrow> string list \<Rightarrow> billing_error + money" where
  "plan_CalculateTotal p addonIDs = add_addons (addonMap p) (plan_BasePrice p) addonIDs"

section \<open>Invariant\<close>

definition plan_inv :: "plan \<Rightarrow> bool" where
  "plan_inv p \<longleftrightarrow> plan_Name p \<noteq> [] \<and> 0 < sint (Amount (plan_BasePrice p)) \<and> plan_AllowedCountries p \<noteq> []
     \<and> (plan_FamilyEnabled p \<or> plan_MaxFamilyMembers p \<le> 0) \<and> 0 \<le> sint (plan_TrafficLimitBytes p)
     \<and> distinct (AvailableAddonIDs p)"

lemma IsPositive_iff: "IsPositive m \<longleftrightarrow> 0 < sint (Amount m)"
  by (simp add: IsPositive_def s_order)

lemma NewPlan_inv:
  "NewPlan pid eid n d b i t dl cs ps tier mb fe mf addons now = Inr p \<Longrightarrow>
     distinct (map ad_ID addons) \<Longrightarrow> plan_inv p \<and> plan_IsActive p \<and> plan_ID p = pid"
  by (auto simp: NewPlan_def plan_inv_def AvailableAddonIDs_def IsPositive_iff s_order RecordEvent_def
      split: if_splits)

lemma has_addon_iff: "has_addon as i \<longleftrightarrow> i \<in> ad_ID ` set as"
  by (induction as) auto

lemma HasAddon_iff: "HasAddon p i \<longleftrightarrow> i \<in> set (AvailableAddonIDs p)"
  by (simp add: HasAddon_def has_addon_iff AvailableAddonIDs_def)

datatype plan_op =
  OpDeactivate uuid time | OpReactivate uuid time | OpPlanRemoveAddon uuid string time
| OpUpdateBasePrice uuid money time | OpPlanAddAddon uuid addon time

fun plan_step :: "plan_op \<Rightarrow> plan \<Rightarrow> billing_error + plan" where
  "plan_step (OpDeactivate e now) p = Deactivate e now p"
| "plan_step (OpReactivate e now) p = Reactivate e now p"
| "plan_step (OpPlanRemoveAddon e a now) p = plan_RemoveAddon e a now p"
| "plan_step (OpUpdateBasePrice e m now) p = UpdateBasePrice e m now p"
| "plan_step (OpPlanAddAddon e a now) p = plan_AddAddon e a now p"

lemmas plan_op_defs = Deactivate_def Reactivate_def plan_RemoveAddon_def UpdateBasePrice_def
  plan_AddAddon_def plan_updated_def

lemma plan_step_inv:
  assumes inv: "plan_inv p" and st: "plan_step x p = Inr q"
  shows "plan_inv q"
proof (cases x)
  case (OpPlanRemoveAddon e a now)
  with st inv show ?thesis
    by (auto simp: plan_op_defs plan_inv_def AvailableAddonIDs_def RecordEvent_def
        distinct_map_delete_first split: if_splits)
next
  case (OpPlanAddAddon e a now)
  with st inv show ?thesis
    by (auto simp: plan_op_defs plan_inv_def HasAddon_iff AvailableAddonIDs_def RecordEvent_def
        split: if_splits)
qed (use st inv in \<open>auto simp: plan_op_defs plan_inv_def AvailableAddonIDs_def RecordEvent_def
       IsPositive_iff split: if_splits\<close>)

text \<open>A plan's only status is whether it is active; the table allows both moves.\<close>

definition plan_allowed :: "bool \<Rightarrow> bool list" where
  "plan_allowed b = [\<not> b]"

interpretation plan_root: aggregate_root plan_step plan_IsActive plan_allowed plan_ID rec_events
proof
  fix x p q
  assume st: "plan_step x p = Inr q"
  show "plan_IsActive q = plan_IsActive p \<or> plan_IsActive q \<in> set (plan_allowed (plan_IsActive p))"
    by (auto simp: plan_allowed_def)
  show "plan_ID q = plan_ID p"
    using st by (cases x) (auto simp: plan_op_defs RecordEvent_def split: if_splits)
  show "\<exists>es. rec_events q = rec_events p @ es \<and> (\<forall>e \<in> set es. ev_EntityID e = plan_ID p)"
    using st by (cases x) (auto simp: plan_op_defs RecordEvent_def split: if_splits)
qed

section \<open>The price of a selection\<close>

lemma add_addons_sum:
  "add_addons m tot ids = Inr r \<Longrightarrow>
     Currency r = Currency tot \<and> set ids \<subseteq> dom m
     \<and> sint (Amount r) = sint (Amount tot) + (\<Sum>i \<leftarrow> ids. sint (Amount (ad_Price (the (m i)))))"
proof (induction m tot ids rule: add_addons.induct)
  case (1 m tot)
  then show ?case by simp
next
  case (2 m tot i ids)
  from "2.prems" obtain a s where a: "m i = Some a" and s: "Add tot (ad_Price a) = Inr s"
    and rest: "add_addons m s ids = Inr r"
    by (auto split: option.splits)
  have "of_money (Add tot (ad_Price a)) = Inr s" using s by simp
  from "2.IH" [OF a this rest] Add_ok [OF s] a show ?case by (auto simp: dom_def)
qed

lemma plan_CalculateTotal_sum:
  "plan_CalculateTotal p ids = Inr r \<Longrightarrow>
     sint (Amount r) = sint (Amount (plan_BasePrice p))
       + (\<Sum>i \<leftarrow> ids. sint (Amount (ad_Price (the (addonMap p i)))))"
  unfolding plan_CalculateTotal_def by (drule add_addons_sum) simp

lemma plan_CalculateTotal_missing:
  "i \<in> set ids \<Longrightarrow> i \<notin> set (AvailableAddonIDs p) \<Longrightarrow> \<not> is_ok (plan_CalculateTotal p ids)"
  unfolding is_ok_iff plan_CalculateTotal_def addonMap_def AvailableAddonIDs_def
  using index_by_None [of ad_ID "plan_AvailableAddons p" i]
  by (auto dest!: add_addons_sum)

end
