(* ===== verification/Subscription.thy ===== *)
theory Subscription
  imports Plan
begin

text \<open>
  \<open>billing/aggregate/subscription.go\<close> with the specifications of \<open>specifications.go\<close> that guard
  it: the subscription aggregate, its status machine, addons, plan changes and renewal. Lemmas:
  every operation follows the transition table, cancelled and expired are final, the addon list
  stays free of duplicates and empty identifiers, periods are non-empty, and a renewal moves the
  period to the adjacent one.
\<close>

datatype subscription_status =
  StatusTrial | StatusActive | StatusPastDue | StatusCancelled | StatusExpired | StatusPaused

fun validTransitions :: "subscription_status \<Rightarrow> subscription_status list" where
  "validTransitions StatusTrial = [StatusActive, StatusCancelled, StatusExpired]"
| "validTransitions StatusActive = [StatusPastDue, StatusCancelled, StatusPaused, StatusExpired]"
| "validTransitions StatusPastDue = [StatusActive, StatusCancelled, StatusExpired]"
| "validTransitions StatusPaused = [StatusActive, StatusCancelled, StatusExpired]"
| "validTransitions StatusCancelled = []"
| "validTransitions StatusExpired = []"

record subscription = "billing_payload event_recorder" +
  sub_ID :: string
  sub_UserID :: string
  sub_PlanID :: string
  sub_Status :: subscription_status
  sub_Period :: billing_period
  sub_AddonIDs :: "string list"
  sub_AssignedTo :: string
  sub_PendingChange :: pending_plan_change
  sub_CancelledAt :: "time option"
  sub_PausedAt :: "time option"
  sub_CreatedAt :: time
  sub_UpdatedAt :: time

section \<open>Specifications (specifications.go)\<close>

record checkout_eligibility =
  ce_Plan :: plan
  ce_HasActiveSubscription :: bool
  ce_AllowedCountries :: "string list"
  ce_UserCountry :: string

definition ce_Check :: "checkout_eligibility \<Rightarrow> billing_error + unit" where
  "ce_Check ce =
     (if \<not> plan_IsActive (ce_Plan ce) then Inl ErrPlanNotActive
      else if \<not> IsPositive (plan_BasePrice (ce_Plan ce)) then Inl ErrNoPriceConfigured
      else if ce_HasActiveSubscription ce then Inl ErrAlreadySubscribed
      else if length (ce_AllowedCountries ce) > 0 \<and> ce_UserCountry ce \<notin> set (ce_AllowedCountries ce)
        then Inl ErrCountryNotAllowed
      else Inr ())"

record family_eligibility =
  fe_Plan :: plan
  fe_MemberCount :: int

definition fe_Check :: "family_eligibility \<Rightarrow> billing_error + unit" where
  "fe_Check fe =
     (if \<not> plan_FamilyEnabled (fe_Plan fe) then Inl ErrFamilyNotEnabled
      else if fe_MemberCount fe \<ge> plan_MaxFamilyMembers (fe_Plan fe) then Inl ErrMaxFamilyExceeded
      else Inr ())"

record addon_spec =
  as_AvailableAddonIDs :: "string list"
  as_MaxAddons :: int

definition NewAddonSpec :: "plan \<Rightarrow> addon_spec" where
  "NewAddonSpec p = \<lparr>as_AvailableAddonIDs = AvailableAddonIDs p, as_MaxAddons = plan_MaxAddons p\<rparr>"

definition CanAddAddon :: "addon_spec \<Rightarrow> subscription \<Rightarrow> string \<Rightarrow> billing_error + unit" where
  "CanAddAddon spec s addonID =
     (if addonID = [] then Inl ErrEmptyAddonID
      else if addonID \<in> set (sub_AddonIDs s) then Inl ErrAddonAlreadyOnSubscription
      else if length (as_AvailableAddonIDs spec) > 0 \<and> addonID \<notin> set (as_AvailableAddonIDs spec)
        then Inl ErrAddonNotAvailableOnPlan
      else if as_MaxAddons spec > 0 \<and> int (length (sub_AddonIDs s)) \<ge> as_MaxAddons spec
        then Inl ErrMaxAddonsExceeded
      else Inr ())"

record upgrade_spec =
  us_FromPlanTier :: plan_tier
  us_ToPlanTier :: plan_tier
  us_ToPlanActive :: bool

definition CanUpgrade :: "upgrade_spec \<Rightarrow> billing_error + unit" where
  "CanUpgrade spec = (if \<not> us_ToPlanActive spec then Inl ErrPendingPlanInactive else Inr ())"

section \<open>Operations\<close>

definition NewSubscription ::
    "uuid \<Rightarrow> uuid \<Rightarrow> string \<Rightarrow> string \<Rightarrow> billing_interval \<Rightarrow> string list \<Rightarrow> time
     \<Rightarrow> billing_error + subscription" where
  "NewSubscription sid eid userID planID interval addonIDs now =
     (if userID = [] then Inl ErrEmptyUserID
      else if planID = [] then Inl ErrEmptyPlanID
      else Inr (RecordEvent (new_event eid (SubCreated sid userID planID) now sid)
        \<lparr>rec_events = [], rec_flushed = False,
         sub_ID = sid, sub_UserID = userID, sub_PlanID = planID, sub_Status = StatusTrial,
         sub_Period = NewBillingPeriod now interval, sub_AddonIDs = clean_ids {} addonIDs,
         sub_AssignedTo = [], sub_PendingChange = no_change, sub_CancelledAt = None,
         sub_PausedAt = None, sub_CreatedAt = now, sub_UpdatedAt = now\<rparr>))"

definition CanTransitionTo :: "subscription \<Rightarrow> subscription_status \<Rightarrow> bool" where
  "CanTransitionTo s target \<longleftrightarrow> target \<in> set (validTransitions (sub_Status s))"

definition transitionTo :: "subscription_status \<Rightarrow> time \<Rightarrow> subscription \<Rightarrow> billing_error + subscription" where
  "transitionTo target now s =
     (if \<not> CanTransitionTo s target then Inl ErrInvalidTransition
      else Inr (s\<lparr>sub_Status := target, sub_UpdatedAt := now\<rparr>))"

definition sub_record :: "uuid \<Rightarrow> billing_payload \<Rightarrow> time \<Rightarrow> subscription \<Rightarrow> subscription" where
  "sub_record eid payload now s = RecordEvent (new_event eid payload now (sub_ID s)) s"

definition Activate :: "uuid \<Rightarrow> time \<Rightarrow> subscription \<Rightarrow> billing_error + subscription" where
  "Activate eid now s = rbind (transitionTo StatusActive now s) (\<lambda>s.
     Inr (sub_record eid (SubActivated (sub_ID s) (sub_UserID s)) now s))"

definition MarkPastDue :: "uuid \<Rightarrow> time \<Rightarrow> subscription \<Rightarrow> billing_error + subscription" where
  "MarkPastDue eid now s = rbind (transitionTo StatusPastDue now s) (\<lambda>s.
     Inr (sub_record eid (SubPastDue (sub_ID s) (sub_UserID s)) now s))"

definition Cancel :: "uuid \<Rightarrow> string \<Rightarrow> time \<Rightarrow> subscription \<Rightarrow> billing_error + subscription" where
  "Cancel eid reason now s = rbind (transitionTo StatusCancelled now s) (\<lambda>s.
     Inr (sub_record eid (SubCancelled (sub_ID s) (sub_UserID s) reason) now
            (s\<lparr>sub_CancelledAt := Some now\<rparr>)))"

definition Pause :: "uuid \<Rightarrow> time \<Rightarrow> subscription \<Rightarrow> billing_error + subscription" where
  "Pause eid now s = rbind (transitionTo StatusPaused now s) (\<lambda>s.
     Inr (sub_record eid (SubPaused (sub_ID s) (sub_UserID s)) now (s\<lparr>sub_PausedAt := Some now\<rparr>)))"

definition Resume :: "uuid \<Rightarrow> time \<Rightarrow> subscription \<Rightarrow> billing_error + subscription" where
  "Resume eid now s = rbind (transitionTo StatusActive now s) (\<lambda>s.
     Inr (sub_record eid (SubResumed (sub_ID s) (sub_UserID s)) now (s\<lparr>sub_PausedAt := None\<rparr>)))"

definition Expire :: "uuid \<Rightarrow> time \<Rightarrow> subscription \<Rightarrow> billing_error + subscription" where
  "Expire eid now s = rbind (transitionTo StatusExpired now s) (\<lambda>s.
     Inr (sub_record eid (SubExpired (sub_ID s) (sub_UserID s)) now s))"

definition AddAddon :: "uuid \<Rightarrow> string \<Rightarrow> addon_spec \<Rightarrow> time \<Rightarrow> subscription \<Rightarrow> billing_error + subscription" where
  "AddAddon eid addonID spec now s =
     (if sub_Status s \<noteq> StatusActive \<and> sub_Status s \<noteq> StatusTrial then Inl ErrSubscriptionNotActiveForAddon
      else rbind (CanAddAddon spec s addonID) (\<lambda>_.
        Inr (sub_record eid (SubUpdated (sub_ID s) (sub_UserID s)) now
          (s\<lparr>sub_AddonIDs := sub_AddonIDs s @ [addonID], sub_UpdatedAt := now\<rparr>))))"

definition RemoveAddon :: "uuid \<Rightarrow> string \<Rightarrow> time \<Rightarrow> subscription \<Rightarrow> billing_error + subscription" where
  "RemoveAddon eid addonID now s =
     (if addonID \<notin> set (sub_AddonIDs s) then Inl ErrAddonNotOnSubscription
      else Inr (sub_record eid (SubUpdated (sub_ID s) (sub_UserID s)) now
        (s\<lparr>sub_AddonIDs := remove1 addonID (sub_AddonIDs s), sub_UpdatedAt := now\<rparr>)))"

definition Upgrade ::
    "uuid \<Rightarrow> string \<Rightarrow> billing_period \<Rightarrow> upgrade_spec \<Rightarrow> time \<Rightarrow> subscription \<Rightarrow> billing_error + subscription" where
  "Upgrade eid newPlanID newPeriod spec now s =
     rbind (CanUpgrade spec) (\<lambda>_.
     if sub_Status s \<noteq> StatusActive then Inl ErrInvalidTransition
     else if newPlanID = sub_PlanID s then Inl ErrSamePlan
     else Inr (sub_record eid (SubUpgraded (sub_ID s) (sub_UserID s) (sub_PlanID s) newPlanID) now
       (s\<lparr>sub_PlanID := newPlanID, sub_Period := newPeriod, sub_PendingChange := no_change,
          sub_UpdatedAt := now\<rparr>)))"

definition Downgrade :: "uuid \<Rightarrow> string \<Rightarrow> time \<Rightarrow> subscription \<Rightarrow> billing_error + subscription" where
  "Downgrade eid newPlanID now s =
     (if sub_Status s \<noteq> StatusActive then Inl ErrInvalidTransition
      else if newPlanID = sub_PlanID s then Inl ErrSamePlan
      else Inr (sub_record eid (SubDowngraded (sub_ID s) (sub_UserID s) (sub_PlanID s) newPlanID) now
        (s\<lparr>sub_PendingChange :=
             \<lparr>pc_PlanID = newPlanID, pc_OriginalPlanID = sub_PlanID s, pc_RequestedAt = now\<rparr>,
           sub_UpdatedAt := now\<rparr>)))"

definition Renew :: "uuid \<Rightarrow> time \<Rightarrow> bool \<Rightarrow> subscription \<Rightarrow> billing_error + subscription" where
  "Renew eid now pendingPlanActive s =
     (if sub_Status s \<noteq> StatusActive then Inl ErrSubscriptionNotActiveForRenewal
      else if Before now (bp_End (sub_Period s)) then Inl ErrPeriodNotElapsed
      else if \<not> pc_IsZero (sub_PendingChange s) \<and> \<not> pendingPlanActive then Inl ErrPendingPlanInactive
      else let
        s1 = s\<lparr>sub_Period := Next (sub_Period s)\<rparr>;
        s2 = (if \<not> pc_IsZero (sub_PendingChange s1)
              then s1\<lparr>sub_PlanID := pc_PlanID (sub_PendingChange s1), sub_PendingChange := no_change\<rparr>
              else s1)
      in Inr (sub_record eid (SubRenewed (sub_ID s2) (sub_UserID s2)) now (s2\<lparr>sub_UpdatedAt := now\<rparr>)))"

definition ValidateForInvoicing :: "subscription \<Rightarrow> billing_error + unit" where
  "ValidateForInvoicing s =
     (if sub_Status s = StatusCancelled \<or> sub_Status s = StatusExpired
      then Inl ErrSubscriptionNotActiveForInvoicing else Inr ())"

datatype sub_op =
  OpActivate uuid time | OpMarkPastDue uuid time | OpCancel uuid string time | OpPause uuid time
| OpResume uuid time | OpExpire uuid time | OpAddAddon uuid string addon_spec time
| OpRemoveAddon uuid string time | OpUpgrade uuid string billing_period upgrade_spec time
| OpDowngrade uuid string time | OpRenew uuid time bool

fun sub_step :: "sub_op \<Rightarrow> subscription \<Rightarrow> billing_error + subscription" where
  "sub_step (OpActivate e now) s = Activate e now s"
| "sub_step (OpMarkPastDue e now) s = MarkPastDue e now s"
| "sub_step (OpCancel e r now) s = Cancel e r now s"
| "sub_step (OpPause e now) s = Pause e now s"
| "sub_step (OpResume e now) s = Resume e now s"
| "sub_step (OpExpire e now) s = Expire e now s"
| "sub_step (OpAddAddon e a sp now) s = AddAddon e a sp now s"
| "sub_step (OpRemoveAddon e a now) s = RemoveAddon e a now s"
| "sub_step (OpUpgrade e p per sp now) s = Upgrade e p per sp now s"
| "sub_step (OpDowngrade e p now) s = Downgrade e p now s"
| "sub_step (OpRenew e now b) s = Renew e now b s"

section \<open>The aggregate contract\<close>

lemmas sub_op_defs = Activate_def MarkPastDue_def Cancel_def Pause_def Resume_def Expire_def
  AddAddon_def RemoveAddon_def Upgrade_def Downgrade_def Renew_def transitionTo_def CanUpgrade_def Let_def

lemma sub_record_fields [simp]:
  "sub_ID (sub_record e p now s) = sub_ID s" "sub_Status (sub_record e p now s) = sub_Status s"
  "sub_UserID (sub_record e p now s) = sub_UserID s" "sub_PlanID (sub_record e p now s) = sub_PlanID s"
  "sub_Period (sub_record e p now s) = sub_Period s" "sub_AddonIDs (sub_record e p now s) = sub_AddonIDs s"
  "sub_PendingChange (sub_record e p now s) = sub_PendingChange s"
  "sub_PausedAt (sub_record e p now s) = sub_PausedAt s"
  "sub_CancelledAt (sub_record e p now s) = sub_CancelledAt s"
  "sub_CreatedAt (sub_record e p now s) = sub_CreatedAt s"
  "sub_UpdatedAt (sub_record e p now s) = sub_UpdatedAt s"
  "sub_AssignedTo (sub_record e p now s) = sub_AssignedTo s"
  "rec_events (sub_record e p now s) = rec_events s @ [new_event e p now (sub_ID s)]"
  by (simp_all add: sub_record_def RecordEvent_def)

interpretation sub_root: aggregate_root sub_step sub_Status validTransitions sub_ID rec_events
proof
  fix x s t
  assume st: "sub_step x s = Inr t"
  show "sub_Status t = sub_Status s \<or> sub_Status t \<in> set (validTransitions (sub_Status s))"
    using st by (cases x) (auto simp: sub_op_defs CanTransitionTo_def split: if_splits)
  show "sub_ID t = sub_ID s"
    using st by (cases x) (auto simp: sub_op_defs split: if_splits)
  show "\<exists>es. rec_events t = rec_events s @ es \<and> (\<forall>e \<in> set es. ev_EntityID e = sub_ID s)"
    using st by (cases x) (auto simp: sub_op_defs split: if_splits)
qed

section \<open>Invariant\<close>

text \<open>
  \<open>sub_inv\<close> is what the constructor establishes and every operation keeps, given that
  \<open>Upgrade\<close> is called with a period that does not end before it starts, as its caller does.
\<close>

definition sub_inv :: "subscription \<Rightarrow> bool" where
  "sub_inv s \<longleftrightarrow> sub_UserID s \<noteq> [] \<and> bp_Start (sub_Period s) < bp_End (sub_Period s)
     \<and> distinct (sub_AddonIDs s) \<and> [] \<notin> set (sub_AddonIDs s)
     \<and> (sub_CancelledAt s \<noteq> None \<longleftrightarrow> sub_Status s = StatusCancelled)
     \<and> (sub_Status s = StatusPaused \<longrightarrow> sub_PausedAt s \<noteq> None)"

fun op_period_ok :: "sub_op \<Rightarrow> bool" where
  "op_period_ok (OpUpgrade e p per sp now) \<longleftrightarrow> bp_Start per < bp_End per"
| "op_period_ok _ \<longleftrightarrow> True"

lemma NewSubscription_inv:
  "NewSubscription sid eid u p i as now = Inr s \<Longrightarrow>
     sub_inv s \<and> sub_Status s = StatusTrial \<and> sub_ID s = sid \<and> sub_UserID s = u \<and> sub_PlanID s = p
     \<and> sub_PlanID s \<noteq> []"
  by (auto simp: NewSubscription_def sub_inv_def RecordEvent_def addInterval_after distinct_clean_ids
      set_clean_ids split: if_splits)

lemma CanAddAddon_ok:
  "CanAddAddon spec s a = Inr u \<Longrightarrow> a \<noteq> [] \<and> a \<notin> set (sub_AddonIDs s)
     \<and> (as_MaxAddons spec > 0 \<longrightarrow> int (length (sub_AddonIDs s)) < as_MaxAddons spec)
     \<and> (as_AvailableAddonIDs spec \<noteq> [] \<longrightarrow> a \<in> set (as_AvailableAddonIDs spec))"
  by (auto simp: CanAddAddon_def split: if_splits)

lemma transition_status: "transitionTo t now s = Inr s' \<Longrightarrow>
    s' = s\<lparr>sub_Status := t, sub_UpdatedAt := now\<rparr> \<and> sub_Status s \<noteq> StatusCancelled \<and> sub_Status s \<noteq> StatusExpired"
  by (auto simp: transitionTo_def CanTransitionTo_def split: if_splits)

lemma sub_record_inv [simp]: "sub_inv (sub_record e p now s) \<longleftrightarrow> sub_inv s"
  by (simp add: sub_inv_def)

lemma sub_inv_status:
  "sub_inv s \<Longrightarrow> sub_Status s \<noteq> StatusCancelled \<Longrightarrow> t \<noteq> StatusCancelled \<Longrightarrow> t \<noteq> StatusPaused \<Longrightarrow>
     sub_inv (s\<lparr>sub_Status := t, sub_UpdatedAt := now\<rparr>)"
  by (simp add: sub_inv_def)

lemmas status_op_defs = Activate_def MarkPastDue_def Cancel_def Pause_def Resume_def Expire_def

lemma status_op_inv:
  assumes "sub_inv s"
  shows "Activate e now s = Inr t \<Longrightarrow> sub_inv t" "MarkPastDue e now s = Inr t \<Longrightarrow> sub_inv t"
    "Cancel e r now s = Inr t \<Longrightarrow> sub_inv t" "Pause e now s = Inr t \<Longrightarrow> sub_inv t"
    "Resume e now s = Inr t \<Longrightarrow> sub_inv t" "Expire e now s = Inr t \<Longrightarrow> sub_inv t"
  using assms by (auto simp: status_op_defs sub_inv_def dest!: transition_status)

lemma sub_step_inv:
  assumes si: "sub_inv s" and ok: "op_period_ok x" and st: "sub_step x s = Inr t"
  shows "sub_inv t"
proof (cases x)
  case (OpAddAddon e a sp now)
  with st have "CanAddAddon sp s a = Inr ()"
    and t: "t = sub_record e (SubUpdated (sub_ID s) (sub_UserID s)) now
              (s\<lparr>sub_AddonIDs := sub_AddonIDs s @ [a], sub_UpdatedAt := now\<rparr>)"
    by (simp_all add: AddAddon_def split: if_splits)
  then have "a \<noteq> [] \<and> a \<notin> set (sub_AddonIDs s)" by (blast dest: CanAddAddon_ok)
  with si show ?thesis by (auto simp: t sub_inv_def)
next
  case (OpRemoveAddon e a now)
  with st si show ?thesis
    by (auto simp: RemoveAddon_def sub_inv_def distinct_remove1 dest: in_set_remove1 notin_set_remove1
        split: if_splits)
next
  case (OpUpgrade e p per sp now)
  with st si ok show ?thesis by (auto simp: Upgrade_def sub_inv_def split: if_splits)
next
  case (OpDowngrade e p now)
  with st si show ?thesis by (auto simp: Downgrade_def sub_inv_def split: if_splits)
next
  case (OpRenew e now b)
  with st si show ?thesis
    by (auto simp: Renew_def Let_def sub_inv_def addInterval_after split: if_splits)
qed (use st si in \<open>auto intro: status_op_inv\<close>)

lemma sub_attempt_inv:
  assumes "sub_inv s" "\<forall>x \<in> set xs. op_period_ok x"
  shows "sub_inv (attempt sub_step xs s)"
  using assms by (induction xs arbitrary: s) (auto dest: sub_step_inv split: sum.split)

section \<open>Renewal\<close>

lemma Renew_ok:
  "Renew e now b s = Inr t \<Longrightarrow>
     sub_Status s = StatusActive \<and> sub_Status t = StatusActive
     \<and> bp_End (sub_Period s) \<le> now \<and> sub_Period t = Next (sub_Period s)
     \<and> sub_PlanID t = (if pc_IsZero (sub_PendingChange s) then sub_PlanID s
                       else pc_PlanID (sub_PendingChange s))
     \<and> pc_IsZero (sub_PendingChange t) \<and> sub_ID t = sub_ID s \<and> sub_UserID t = sub_UserID s
     \<and> sub_AddonIDs t = sub_AddonIDs s"
  by (auto simp: Renew_def Let_def split: if_splits)

end
