(* ===== verification/Invoice.thy ===== *)
theory Invoice
  imports BillingVO
begin

text \<open>
  \<open>billing/aggregate/invoice.go\<close>: the invoice aggregate with its draft, pending, paid, failed
  and refunded states, and the computation of its totals. Lemmas: the transition table is
  obeyed, money once paid is only ever refunded, and the totals of an invoice are the checked
  sum of its line items less its discounts, never negative.
\<close>

datatype invoice_status = InvoiceDraft | InvoicePending | InvoicePaid | InvoiceFailed | InvoiceRefunded

fun validInvoiceTransitions :: "invoice_status \<Rightarrow> invoice_status list" where
  "validInvoiceTransitions InvoiceDraft = [InvoicePending]"
| "validInvoiceTransitions InvoicePending = [InvoicePaid, InvoiceFailed]"
| "validInvoiceTransitions InvoicePaid = [InvoiceRefunded]"
| "validInvoiceTransitions InvoiceFailed = []"
| "validInvoiceTransitions InvoiceRefunded = []"

record invoice = "billing_payload event_recorder" +
  inv_ID :: string
  inv_SubscriptionID :: string
  inv_UserID :: string
  inv_LineItems :: "line_item list"
  inv_Discounts :: "discount list"
  inv_Subtotal :: money
  inv_TotalDiscount :: money
  inv_Total :: money
  inv_PricingReason :: string
  inv_Status :: invoice_status
  inv_PaidAt :: "time option"
  inv_CreatedAt :: time
  inv_UpdatedAt :: time

section \<open>Totals\<close>

fun sum_items :: "money \<Rightarrow> line_item list \<Rightarrow> billing_error + money" where
  "sum_items subtotal [] = Inr subtotal"
| "sum_items subtotal (item # items) =
     rbind (Total item) (\<lambda>itemTotal.
     rbind (of_money (Add subtotal itemTotal)) (\<lambda>subtotal'. sum_items subtotal' items))"

fun sum_discounts :: "money \<Rightarrow> currency \<Rightarrow> money \<Rightarrow> discount list \<Rightarrow> billing_error + money" where
  "sum_discounts subtotal cur acc [] = Inr acc"
| "sum_discounts subtotal cur acc (d # ds) =
     (case d_Type d of
        DiscountPercent \<Rightarrow>
          rbind (of_money (Add acc (PercentOf subtotal (d_Value d) RoundFloor)))
            (\<lambda>acc'. sum_discounts subtotal cur acc' ds)
      | DiscountFixed \<Rightarrow>
          rbind (of_money (Add acc (NewMoney (d_Value d) cur)))
            (\<lambda>acc'. sum_discounts subtotal cur acc' ds)
      | DiscountUnknown _ \<Rightarrow> sum_discounts subtotal cur acc ds)"

definition calculateTotal ::
    "line_item list \<Rightarrow> discount list \<Rightarrow> currency \<Rightarrow> billing_error + (money \<times> money \<times> money)" where
  "calculateTotal items discounts cur =
     rbind (sum_items (Zero cur) items) (\<lambda>subtotal.
     rbind (sum_discounts subtotal cur (Zero cur) discounts) (\<lambda>discount.
     rbind (of_money (Subtract subtotal discount)) (\<lambda>tot.
       Inr (subtotal, discount, if Amount tot <s 0 then Zero cur else tot))))"

section \<open>Operations\<close>

definition NewInvoice ::
    "uuid \<Rightarrow> uuid \<Rightarrow> string \<Rightarrow> string \<Rightarrow> line_item list \<Rightarrow> discount list \<Rightarrow> currency \<Rightarrow> time
     \<Rightarrow> billing_error + invoice" where
  "NewInvoice iid eid subID userID lineItems discounts cur now =
     (if length lineItems = 0 then Inl ErrInvoiceRequiresLineItems
      else rbind (calculateTotal lineItems discounts cur) (\<lambda>(subtotal, discount, tot).
        Inr (RecordEvent (new_event eid (InvCreated iid subID userID (Amount tot)) now iid)
          \<lparr>rec_events = [], rec_flushed = False,
           inv_ID = iid, inv_SubscriptionID = subID, inv_UserID = userID,
           inv_LineItems = lineItems, inv_Discounts = discounts,
           inv_Subtotal = subtotal, inv_TotalDiscount = discount, inv_Total = tot,
           inv_PricingReason = [], inv_Status = InvoiceDraft, inv_PaidAt = None,
           inv_CreatedAt = now, inv_UpdatedAt = now\<rparr>)))"

definition inv_CanTransitionTo :: "invoice \<Rightarrow> invoice_status \<Rightarrow> bool" where
  "inv_CanTransitionTo iv target \<longleftrightarrow> target \<in> set (validInvoiceTransitions (inv_Status iv))"

definition MarkPending :: "time \<Rightarrow> invoice \<Rightarrow> billing_error + invoice" where
  "MarkPending now iv =
     (if \<not> inv_CanTransitionTo iv InvoicePending then Inl ErrInvoiceMustBeDraftForPending
      else Inr (iv\<lparr>inv_Status := InvoicePending, inv_UpdatedAt := now\<rparr>))"

definition MarkPaid :: "uuid \<Rightarrow> time \<Rightarrow> invoice \<Rightarrow> billing_error + invoice" where
  "MarkPaid eid now iv =
     (if \<not> inv_CanTransitionTo iv InvoicePaid then Inl ErrInvoiceMustBePendingForPaid
      else Inr (RecordEvent
        (new_event eid (InvPaid (inv_ID iv) (inv_SubscriptionID iv) (inv_UserID iv)
           (Amount (inv_Total iv))) now (inv_ID iv))
        (iv\<lparr>inv_Status := InvoicePaid, inv_PaidAt := Some now, inv_UpdatedAt := now\<rparr>)))"

definition MarkFailed :: "uuid \<Rightarrow> time \<Rightarrow> invoice \<Rightarrow> billing_error + invoice" where
  "MarkFailed eid now iv =
     (if \<not> inv_CanTransitionTo iv InvoiceFailed then Inl ErrInvoiceMustBePendingForFailed
      else Inr (RecordEvent
        (new_event eid (InvFailed (inv_ID iv) (inv_SubscriptionID iv) (inv_UserID iv) []) now (inv_ID iv))
        (iv\<lparr>inv_Status := InvoiceFailed, inv_UpdatedAt := now\<rparr>)))"

definition Refund :: "uuid \<Rightarrow> time \<Rightarrow> invoice \<Rightarrow> billing_error + invoice" where
  "Refund eid now iv =
     (if \<not> inv_CanTransitionTo iv InvoiceRefunded then Inl ErrInvoiceMustBePaidForRefund
      else Inr (RecordEvent
        (new_event eid (InvRefunded (inv_ID iv) (inv_SubscriptionID iv) (inv_UserID iv)
           (Amount (inv_Total iv))) now (inv_ID iv))
        (iv\<lparr>inv_Status := InvoiceRefunded, inv_UpdatedAt := now\<rparr>)))"

definition ApplyDiscount :: "uuid \<Rightarrow> discount \<Rightarrow> time \<Rightarrow> invoice \<Rightarrow> billing_error + invoice" where
  "ApplyDiscount eid discount now iv =
     (if inv_Status iv \<noteq> InvoiceDraft then Inl ErrInvoiceNotDraft
      else let discounts = inv_Discounts iv @ [discount] in
        rbind (calculateTotal (inv_LineItems iv) discounts (Currency (inv_Total iv)))
          (\<lambda>(subtotal, totalDiscount, tot).
            Inr (RecordEvent
              (new_event eid (InvDiscountApplied (inv_ID iv) (d_Code discount) (Amount totalDiscount))
                 now (inv_ID iv))
              (iv\<lparr>inv_Discounts := discounts, inv_Subtotal := subtotal,
                   inv_TotalDiscount := totalDiscount, inv_Total := tot, inv_UpdatedAt := now\<rparr>))))"

definition OverrideTotal :: "uuid \<Rightarrow> money \<Rightarrow> string \<Rightarrow> time \<Rightarrow> invoice \<Rightarrow> billing_error + invoice" where
  "OverrideTotal eid newTotal reason now iv =
     (if inv_Status iv \<noteq> InvoiceDraft then Inl ErrInvoiceNotDraft
      else if Currency newTotal \<noteq> Currency (inv_Total iv) then Inl (MoneyError ErrCurrencyMismatch)
      else if IsNegative newTotal then Inl ErrNegativeTotal
      else Inr (RecordEvent
        (new_event eid (InvTotalOverridden (inv_ID iv) (Amount (inv_Total iv)) (Amount newTotal) reason)
           now (inv_ID iv))
        (iv\<lparr>inv_Total := newTotal, inv_UpdatedAt := now\<rparr>)))"

definition ApplyPricingModification ::
    "uuid \<Rightarrow> int64 option \<Rightarrow> int64 option \<Rightarrow> string \<Rightarrow> time \<Rightarrow> invoice \<Rightarrow> billing_error + invoice" where
  "ApplyPricingModification eid subtotal discount reason now iv =
     (if inv_Status iv \<noteq> InvoiceDraft then Inl ErrInvoiceNotDraft
      else let
        oldTotal = Amount (inv_Total iv);
        sub' = (case subtotal of None \<Rightarrow> inv_Subtotal iv
                | Some s \<Rightarrow> NewMoney s (Currency (inv_Subtotal iv)));
        disc' = (case discount of None \<Rightarrow> inv_TotalDiscount iv
                 | Some d \<Rightarrow> NewMoney d (Currency (inv_TotalDiscount iv)));
        tot0 = NewMoney (Amount sub' - Amount disc') (Currency (inv_Total iv));
        tot = (if Amount tot0 <s 0 then NewMoney 0 (Currency tot0) else tot0)
      in Inr (RecordEvent
        (new_event eid (InvTotalOverridden (inv_ID iv) oldTotal (Amount tot) reason) now (inv_ID iv))
        (iv\<lparr>inv_Subtotal := sub', inv_TotalDiscount := disc', inv_Total := tot,
             inv_PricingReason := reason, inv_UpdatedAt := now\<rparr>)))"

datatype invoice_op =
  OpMarkPending time | OpMarkPaid uuid time | OpMarkFailed uuid time | OpRefund uuid time
| OpApplyDiscount uuid discount time | OpOverrideTotal uuid money string time
| OpPricing uuid "int64 option" "int64 option" string time

fun invoice_step :: "invoice_op \<Rightarrow> invoice \<Rightarrow> billing_error + invoice" where
  "invoice_step (OpMarkPending now) iv = MarkPending now iv"
| "invoice_step (OpMarkPaid e now) iv = MarkPaid e now iv"
| "invoice_step (OpMarkFailed e now) iv = MarkFailed e now iv"
| "invoice_step (OpRefund e now) iv = Refund e now iv"
| "invoice_step (OpApplyDiscount e d now) iv = ApplyDiscount e d now iv"
| "invoice_step (OpOverrideTotal e m r now) iv = OverrideTotal e m r now iv"
| "invoice_step (OpPricing e s d r now) iv = ApplyPricingModification e s d r now iv"

lemmas invoice_op_defs = MarkPending_def MarkPaid_def MarkFailed_def Refund_def ApplyDiscount_def
  OverrideTotal_def ApplyPricingModification_def Let_def

lemma RecordEvent_invoice [simp]:
  "inv_ID (RecordEvent e i) = inv_ID i" "inv_Status (RecordEvent e i) = inv_Status i"
  "inv_Total (RecordEvent e i) = inv_Total i" "inv_PaidAt (RecordEvent e i) = inv_PaidAt i"
  "inv_Subtotal (RecordEvent e i) = inv_Subtotal i"
  "inv_TotalDiscount (RecordEvent e i) = inv_TotalDiscount i"
  "inv_LineItems (RecordEvent e i) = inv_LineItems i" "inv_Discounts (RecordEvent e i) = inv_Discounts i"
  "inv_SubscriptionID (RecordEvent e i) = inv_SubscriptionID i"
  "inv_UserID (RecordEvent e i) = inv_UserID i"
  for i :: invoice
  by (simp_all add: RecordEvent_def)

interpretation invoice_root: aggregate_root invoice_step inv_Status validInvoiceTransitions inv_ID rec_events
proof
  fix x i j
  assume st: "invoice_step x i = Inr j"
  show "inv_Status j = inv_Status i \<or> inv_Status j \<in> set (validInvoiceTransitions (inv_Status i))"
    using st by (cases x) (auto simp: invoice_op_defs inv_CanTransitionTo_def split: if_splits)
  show "inv_ID j = inv_ID i"
    using st by (cases x) (auto simp: invoice_op_defs split: if_splits)
  show "\<exists>es. rec_events j = rec_events i @ es \<and> (\<forall>e \<in> set es. ev_EntityID e = inv_ID i)"
    using st by (cases x) (auto simp: invoice_op_defs split: if_splits)
qed

section \<open>Totals are sums\<close>

lemma sum_items_sum:
  "sum_items acc items = Inr r \<Longrightarrow>
     Currency r = Currency acc
     \<and> (\<forall>li \<in> set items. Currency (li_Amount li) = Currency acc)
     \<and> sint (Amount r) = sint (Amount acc)
         + (\<Sum>li \<leftarrow> items. sint (Amount (li_Amount li)) * sint (li_Quantity li))"
proof (induction acc items rule: sum_items.induct)
  case (1 acc)
  then show ?case by simp
next
  case (2 acc li items)
  then obtain t s where t: "Multiply (li_Amount li) (li_Quantity li) = Inr t"
    and s: "Add acc t = Inr s" and rest: "sum_items s items = Inr r"
    by (auto simp: Total_def)
  have "Total li = Inr t" "of_money (Add acc t) = Inr s" using t s by (simp_all add: Total_def)
  from "2.IH" [OF this rest] Multiply_ok [OF t] Add_ok [OF s] show ?case by auto
qed

lemma sum_discounts_currency:
  "sum_discounts sub cur acc ds = Inr r \<Longrightarrow> Currency r = Currency acc"
  by (induction sub cur acc ds rule: sum_discounts.induct)
     (auto simp del: PercentOf.simps dest: Add_ok split: discount_type.splits)

lemma calculateTotal_ok:
  assumes "calculateTotal items ds cur = Inr (sub, disc, tot)"
  shows "Currency sub = cur \<and> Currency disc = cur \<and> Currency tot = cur
    \<and> sint (Amount sub) = (\<Sum>li \<leftarrow> items. sint (Amount (li_Amount li)) * sint (li_Quantity li))
    \<and> sint (Amount tot) = max 0 (sint (Amount sub) - sint (Amount disc))"
proof -
  from assms obtain t where s: "sum_items (Zero cur) items = Inr sub"
    and d: "sum_discounts sub cur (Zero cur) ds = Inr disc" and t: "Subtract sub disc = Inr t"
    and tot: "tot = (if Amount t <s 0 then Zero cur else t)"
    by (auto simp: calculateTotal_def)
  show ?thesis
    using sum_items_sum [OF s] sum_discounts_currency [OF d] Subtract_ok [OF t]
    by (auto simp: tot s_order)
qed

text \<open>With no discounts the total is the subtotal, or zero when the items sum below zero.\<close>

lemma calculateTotal_no_discounts:
  "calculateTotal items [] cur = Inr (sub, disc, tot) \<Longrightarrow>
     sint (Amount disc) = 0 \<and> sint (Amount tot) = max 0 (sint (Amount sub))"
  by (frule calculateTotal_ok) (auto simp: calculateTotal_def)

section \<open>Invariant\<close>

definition invoice_inv :: "invoice \<Rightarrow> bool" where
  "invoice_inv i \<longleftrightarrow> inv_LineItems i \<noteq> [] \<and> 0 \<le> sint (Amount (inv_Total i))
     \<and> Currency (inv_Subtotal i) = Currency (inv_Total i)
     \<and> Currency (inv_TotalDiscount i) = Currency (inv_Total i)
     \<and> (inv_PaidAt i \<noteq> None \<longleftrightarrow> inv_Status i \<in> {InvoicePaid, InvoiceRefunded})"

lemma NewInvoice_inv:
  "NewInvoice iid eid s u items ds cur now = Inr i \<Longrightarrow>
     invoice_inv i \<and> inv_Status i = InvoiceDraft \<and> inv_ID i = iid
     \<and> inv_SubscriptionID i = s \<and> inv_UserID i = u \<and> inv_LineItems i = items"
  by (auto simp: NewInvoice_def invoice_inv_def dest!: calculateTotal_ok split: if_splits)

lemma ApplyDiscount_inv: "invoice_inv i \<Longrightarrow> ApplyDiscount e d now i = Inr j \<Longrightarrow> invoice_inv j"
  by (auto simp: ApplyDiscount_def Let_def invoice_inv_def dest!: calculateTotal_ok split: if_splits)

lemma ApplyPricingModification_inv:
  "invoice_inv i \<Longrightarrow> ApplyPricingModification e s d r now i = Inr j \<Longrightarrow> invoice_inv j"
  by (auto simp: ApplyPricingModification_def Let_def invoice_inv_def s_order split: if_splits option.splits)

lemma invoice_step_inv:
  assumes iv: "invoice_inv i" and st: "invoice_step x i = Inr j"
  shows "invoice_inv j"
proof (cases x)
  case (OpApplyDiscount e d now)
  with st iv show ?thesis by (auto intro: ApplyDiscount_inv)
next
  case (OpPricing e s d r now)
  with st iv show ?thesis by (auto intro: ApplyPricingModification_inv)
next
  case (OpMarkPending now)
  with st iv show ?thesis
    by (cases "inv_Status i") (auto simp: MarkPending_def inv_CanTransitionTo_def invoice_inv_def)
next
  case (OpMarkFailed e now)
  with st iv show ?thesis
    by (cases "inv_Status i") (auto simp: MarkFailed_def inv_CanTransitionTo_def invoice_inv_def)
next
  case (OpRefund e now)
  with st iv show ?thesis
    by (cases "inv_Status i") (auto simp: Refund_def inv_CanTransitionTo_def invoice_inv_def)
qed (use st iv in \<open>auto simp: MarkPaid_def OverrideTotal_def IsNegative_def s_order
       invoice_inv_def inv_CanTransitionTo_def split: if_splits\<close>)

lemma invoice_attempt_inv: "invoice_inv i \<Longrightarrow> invoice_inv (attempt invoice_step xs i)"
  by (rule attempt_invariant) (auto intro: invoice_step_inv)

text \<open>Once an invoice has left the draft state its amounts, items and discounts are frozen.\<close>

definition invoice_amounts :: "invoice \<Rightarrow> money \<times> money \<times> money \<times> line_item list \<times> discount list" where
  "invoice_amounts i = (inv_Subtotal i, inv_TotalDiscount i, inv_Total i, inv_LineItems i, inv_Discounts i)"

lemma invoice_step_frozen:
  "inv_Status i \<noteq> InvoiceDraft \<Longrightarrow> invoice_step x i = Inr j \<Longrightarrow>
     inv_Status j \<noteq> InvoiceDraft \<and> invoice_amounts j = invoice_amounts i"
  by (cases x) (auto simp: invoice_op_defs invoice_amounts_def split: if_splits)

lemma invoice_attempt_frozen:
  assumes "inv_Status i \<noteq> InvoiceDraft"
  shows "invoice_amounts (attempt invoice_step xs i) = invoice_amounts i"
proof -
  have "inv_Status (attempt invoice_step xs i) \<noteq> InvoiceDraft
      \<and> invoice_amounts (attempt invoice_step xs i) = invoice_amounts i"
    by (rule attempt_invariant [where P = "\<lambda>j. inv_Status j \<noteq> InvoiceDraft \<and> invoice_amounts j = invoice_amounts i"])
       (use assms in \<open>auto dest: invoice_step_frozen\<close>)
  then show ?thesis by simp
qed

lemma invoice_paid_stays:
  "inv_Status i \<in> {InvoicePaid, InvoiceRefunded} \<Longrightarrow>
     inv_Status (attempt invoice_step xs i) \<in> {InvoicePaid, InvoiceRefunded}"
  by (rule invoice_root.closed_set) auto

end
