(* ===== verification/Family.thy ===== *)
theory Family
  imports BillingVO
begin

text \<open>
  \<open>billing/aggregate/family.go\<close>: the family sharing group. Its invariant: the owner is the
  first member and cannot leave, no user is a member twice, and the group never grows past its
  own maximum, which lies between 2 and 20.
\<close>

definition MaxFamilyMembers :: int where "MaxFamilyMembers = 20"
definition MinFamilyMembers :: int where "MinFamilyMembers = 2"

datatype member_role = MemberOwner | MemberMember

record family_member =
  fm_UserID :: string
  fm_Role :: member_role
  fm_Nickname :: string
  fm_JoinedAt :: time

record family_group = "billing_payload event_recorder" +
  fg_ID :: string
  fg_OwnerID :: string
  fg_MaxMembers :: int
  fg_Members :: "family_member list"
  fg_CreatedAt :: time
  fg_UpdatedAt :: time

definition NewFamilyGroup :: "uuid \<Rightarrow> uuid \<Rightarrow> string \<Rightarrow> int \<Rightarrow> time \<Rightarrow> billing_error + family_group" where
  "NewFamilyGroup gid eid ownerID maxMembers now =
     (if ownerID = [] then Inl ErrEmptyOwnerID
      else if maxMembers < MinFamilyMembers then Inl ErrMaxMembersTooLow
      else if maxMembers > MaxFamilyMembers then Inl ErrMaxMembersTooHigh
      else Inr (RecordEvent (new_event eid (FamilyCreated gid ownerID maxMembers) now gid)
        \<lparr>rec_events = [], rec_flushed = False,
         fg_ID = gid, fg_OwnerID = ownerID, fg_MaxMembers = maxMembers,
         fg_Members = [\<lparr>fm_UserID = ownerID, fm_Role = MemberOwner, fm_Nickname = [], fm_JoinedAt = now\<rparr>],
         fg_CreatedAt = now, fg_UpdatedAt = now\<rparr>))"

definition IsFull :: "family_group \<Rightarrow> bool" where
  "IsFull fg \<longleftrightarrow> int (length (fg_Members fg)) \<ge> fg_MaxMembers fg"

definition MemberCount :: "family_group \<Rightarrow> int" where
  "MemberCount fg = int (length (fg_Members fg))"

fun has_member :: "family_member list \<Rightarrow> string \<Rightarrow> bool" where
  "has_member [] userID = False"
| "has_member (m # ms) userID = (if fm_UserID m = userID then True else has_member ms userID)"

definition HasMember :: "family_group \<Rightarrow> string \<Rightarrow> bool" where
  "HasMember fg userID = has_member (fg_Members fg) userID"

definition AddMember :: "uuid \<Rightarrow> string \<Rightarrow> string \<Rightarrow> time \<Rightarrow> family_group \<Rightarrow> billing_error + family_group" where
  "AddMember eid userID nickname now fg =
     (if HasMember fg userID then Inl ErrAlreadyMember
      else if IsFull fg then Inl ErrMaxFamilyExceeded
      else Inr (RecordEvent (new_event eid (FamilyMemberAdded (fg_ID fg) (fg_OwnerID fg) userID) now (fg_ID fg))
        (fg\<lparr>fg_Members := fg_Members fg @
              [\<lparr>fm_UserID = userID, fm_Role = MemberMember, fm_Nickname = nickname, fm_JoinedAt = now\<rparr>],
            fg_UpdatedAt := now\<rparr>)))"

definition RemoveMember :: "uuid \<Rightarrow> string \<Rightarrow> time \<Rightarrow> family_group \<Rightarrow> billing_error + family_group" where
  "RemoveMember eid userID now fg =
     (if userID = fg_OwnerID fg then Inl ErrCannotRemoveOwner
      else if HasMember fg userID then
        Inr (RecordEvent (new_event eid (FamilyMemberRemoved (fg_ID fg) (fg_OwnerID fg) userID) now (fg_ID fg))
          (fg\<lparr>fg_Members := delete_first (\<lambda>m. fm_UserID m = userID) (fg_Members fg), fg_UpdatedAt := now\<rparr>))
      else Inl ErrMemberNotFound)"

datatype family_op = OpAddMember uuid string string time | OpRemoveMember uuid string time

fun family_step :: "family_op \<Rightarrow> family_group \<Rightarrow> billing_error + family_group" where
  "family_step (OpAddMember e u n now) fg = AddMember e u n now fg"
| "family_step (OpRemoveMember e u now) fg = RemoveMember e u now fg"

lemma has_member_iff: "has_member ms u \<longleftrightarrow> u \<in> fm_UserID ` set ms"
  by (induction ms) auto

lemma HasMember_iff: "HasMember fg u \<longleftrightarrow> u \<in> fm_UserID ` set (fg_Members fg)"
  by (simp add: HasMember_def has_member_iff)

lemma RecordEvent_family [simp]:
  "fg_ID (RecordEvent e g) = fg_ID g" "fg_OwnerID (RecordEvent e g) = fg_OwnerID g"
  "fg_MaxMembers (RecordEvent e g) = fg_MaxMembers g" "fg_Members (RecordEvent e g) = fg_Members g"
  for g :: family_group
  by (simp_all add: RecordEvent_def)

interpretation family_log: event_source family_step fg_ID rec_events
proof
  fix x g h
  assume st: "family_step x g = Inr h"
  show "fg_ID h = fg_ID g"
    using st by (cases x) (auto simp: AddMember_def RemoveMember_def split: if_splits)
  show "\<exists>es. rec_events h = rec_events g @ es \<and> (\<forall>e \<in> set es. ev_EntityID e = fg_ID g)"
    using st by (cases x) (auto simp: AddMember_def RemoveMember_def split: if_splits)
qed

section \<open>Invariant\<close>

definition family_inv :: "family_group \<Rightarrow> bool" where
  "family_inv fg \<longleftrightarrow>
     (\<exists>m ms. fg_Members fg = m # ms \<and> fm_UserID m = fg_OwnerID fg \<and> fm_Role m = MemberOwner
        \<and> (\<forall>x \<in> set ms. fm_Role x = MemberMember))
     \<and> distinct (map fm_UserID (fg_Members fg))
     \<and> 2 \<le> fg_MaxMembers fg \<and> fg_MaxMembers fg \<le> 20
     \<and> int (length (fg_Members fg)) \<le> fg_MaxMembers fg"

lemma NewFamilyGroup_inv:
  "NewFamilyGroup gid eid owner mx now = Inr fg \<Longrightarrow>
     family_inv fg \<and> fg_OwnerID fg = owner \<and> fg_MaxMembers fg = mx \<and> MemberCount fg = 1"
  by (auto simp: NewFamilyGroup_def family_inv_def MinFamilyMembers_def MaxFamilyMembers_def
      MemberCount_def split: if_splits)

lemma AddMember_inv: "family_inv g \<Longrightarrow> AddMember e u n now g = Inr h \<Longrightarrow> family_inv h"
  by (auto simp: AddMember_def family_inv_def HasMember_iff IsFull_def image_iff split: if_splits)

lemma RemoveMember_inv:
  assumes "family_inv g" "RemoveMember e u now g = Inr h"
  shows "family_inv h"
proof -
  let ?P = "\<lambda>m. fm_UserID m = u"
  from assms(2) have u: "u \<noteq> fg_OwnerID g"
    and h: "fg_Members h = delete_first ?P (fg_Members g)" "fg_OwnerID h = fg_OwnerID g"
      "fg_MaxMembers h = fg_MaxMembers g"
    by (auto simp: RemoveMember_def split: if_splits)
  from assms(1) obtain m ms where ms: "fg_Members g = m # ms" "fm_UserID m = fg_OwnerID g"
    "fm_Role m = MemberOwner" "\<forall>x \<in> set ms. fm_Role x = MemberMember"
    by (auto simp: family_inv_def)
  have len: "length (delete_first ?P ms) \<le> length ms"
    by (simp add: length_delete_first)
  have sub: "set (delete_first ?P ms) \<subseteq> set ms"
    by (rule set_delete_first)
  have "distinct (map fm_UserID (delete_first ?P (fg_Members g)))"
    using assms(1) by (intro distinct_map_delete_first) (simp add: family_inv_def)
  with assms(1) ms u len sub show ?thesis
    by (auto simp: family_inv_def h)
qed

lemma family_step_inv: "family_inv g \<Longrightarrow> family_step x g = Inr h \<Longrightarrow> family_inv h"
  by (cases x) (auto intro: AddMember_inv RemoveMember_inv)

lemma RemoveMember_members:
  "family_inv g \<Longrightarrow> RemoveMember e u now g = Inr h \<Longrightarrow>
     fm_UserID ` set (fg_Members h) = fm_UserID ` set (fg_Members g) - {u}"
  by (auto simp: RemoveMember_def family_inv_def delete_first_key split: if_splits)

end
