(* ===== verification/BillingStore.thy ===== *)
theory BillingStore
  imports Tx Subscription Invoice Family "HOL-Library.Char_ord" "HOL-Library.List_Lexorder"
    "HOL-Library.Product_Lexorder"
begin

text \<open>
  The PostgreSQL repositories of the billing context: \<open>internal/adapter/postgres/\<close>
  \<open>subscription_repo.go\<close>, \<open>invoice_repo.go\<close>, \<open>plan_repo.go\<close>, \<open>family_repo.go\<close> and
  \<open>outbox_publisher.go\<close>, with the statements of \<open>queries/billing.sql\<close> they run. Rows have the
  columns the statements name; a nullable column is an option. Identifiers are canonical UUID
  text, so that the conversions of \<open>pgutil\<close> keep them. The row-level tenant predicate is not
  modelled: a state holds the rows one tenant sees.
\<close>

section \<open>Rows and tables\<close>

record sub_row =
  sr_id :: string
  sr_user_id :: string
  sr_plan_id :: string
  sr_status :: subscription_status
  sr_period_start :: time
  sr_period_end :: time
  sr_period_interval :: billing_interval
  sr_addon_ids :: "string list"
  sr_assigned_to :: "string option"
  sr_pending_plan_id :: "string option"
  sr_pending_original_plan_id :: "string option"
  sr_pending_requested_at :: "time option"
  sr_cancelled_at :: "time option"
  sr_paused_at :: "time option"
  sr_created_at :: time
  sr_updated_at :: time

record inv_row =
  ir_id :: string
  ir_subscription_id :: string
  ir_user_id :: string
  ir_subtotal_amount :: int64
  ir_total_discount_amount :: int64
  ir_total_amount :: int64
  ir_currency :: currency
  ir_pricing_reason :: string
  ir_discounts :: "discount list"
  ir_status :: invoice_status
  ir_paid_at :: "time option"
  ir_created_at :: time
  ir_updated_at :: time

record line_row =
  lr_invoice_id :: string
  lr_description :: string
  lr_item_type :: line_item_type
  lr_amount :: int64
  lr_currency :: currency
  lr_quantity :: "32 word"

record group_row =
  gr_id :: string
  gr_owner_id :: string
  gr_max_members :: int
  gr_created_at :: time
  gr_updated_at :: time

record member_row =
  mr_group_id :: string
  mr_user_id :: string
  mr_role :: member_role
  mr_nickname :: "string option"
  mr_joined_at :: time

record db =
  db_plans :: "plan list"
  db_subs :: "sub_row list"
  db_invoices :: "inv_row list"
  db_lines :: "line_row list"
  db_groups :: "group_row list"
  db_members :: "member_row list"
  db_outbox :: "billing_event list"

type_synonym 'a billing_tx = "(db, billing_error, 'a) tx"

section \<open>Subscriptions\<close>

definition pendingChangeToPlanID :: "pending_plan_change \<Rightarrow> string option" where
  "pendingChangeToPlanID pc = (if pc_IsZero pc then None else Some (pc_PlanID pc))"

definition pendingChangeToOriginalPlanID :: "pending_plan_change \<Rightarrow> string option" where
  "pendingChangeToOriginalPlanID pc = (if pc_IsZero pc then None else Some (pc_OriginalPlanID pc))"

definition pendingChangeToRequestedAt :: "pending_plan_change \<Rightarrow> time option" where
  "pendingChangeToRequestedAt pc = (if pc_IsZero pc then None else Some (pc_RequestedAt pc))"

definition pgtypeToPendingChange :: "string option \<Rightarrow> string option \<Rightarrow> time option \<Rightarrow> pending_plan_change" where
  "pgtypeToPendingChange planID originalPlanID requestedAt =
     (if planID = None then no_change
      else \<lparr>pc_PlanID = PgtypeToUUID planID, pc_OriginalPlanID = PgtypeToUUID originalPlanID,
            pc_RequestedAt = PgtypeToTime requestedAt\<rparr>)"

definition subFieldsToDomain :: "sub_row \<Rightarrow> subscription" where
  "subFieldsToDomain f =
     \<lparr>rec_events = [], rec_flushed = False,
      sub_ID = sr_id f, sub_UserID = sr_user_id f, sub_PlanID = sr_plan_id f, sub_Status = sr_status f,
      sub_Period = \<lparr>bp_Start = sr_period_start f, bp_End = sr_period_end f,
                    bp_Interval = sr_period_interval f\<rparr>,
      sub_AddonIDs = sr_addon_ids f, sub_AssignedTo = DerefStr (sr_assigned_to f),
      sub_PendingChange = pgtypeToPendingChange (sr_pending_plan_id f)
        (sr_pending_original_plan_id f) (sr_pending_requested_at f),
      sub_CancelledAt = sr_cancelled_at f, sub_PausedAt = sr_paused_at f,
      sub_CreatedAt = sr_created_at f, sub_UpdatedAt = sr_updated_at f\<rparr>"

text \<open>\<open>CreateSubscription\<close>: the columns of the new row.\<close>

definition sub_to_row :: "subscription \<Rightarrow> sub_row" where
  "sub_to_row s =
     \<lparr>sr_id = sub_ID s, sr_user_id = sub_UserID s, sr_plan_id = sub_PlanID s, sr_status = sub_Status s,
      sr_period_start = bp_Start (sub_Period s), sr_period_end = bp_End (sub_Period s),
      sr_period_interval = bp_Interval (sub_Period s),
      sr_addon_ids = sub_AddonIDs s, sr_assigned_to = StrPtrOrNil (sub_AssignedTo s),
      sr_pending_plan_id = pendingChangeToPlanID (sub_PendingChange s),
      sr_pending_original_plan_id = pendingChangeToOriginalPlanID (sub_PendingChange s),
      sr_pending_requested_at = pendingChangeToRequestedAt (sub_PendingChange s),
      sr_cancelled_at = sub_CancelledAt s, sr_paused_at = sub_PausedAt s,
      sr_created_at = sub_CreatedAt s, sr_updated_at = sub_UpdatedAt s\<rparr>"

text \<open>
  \<open>UpdateSubscription\<close>: the columns the statement sets. It does not set \<open>plan_id\<close>; the
  \<open>updated_at\<close> trigger stamps the row.
\<close>

definition sub_update_row :: "time \<Rightarrow> subscription \<Rightarrow> sub_row \<Rightarrow> sub_row" where
  "sub_update_row dbnow s r = r
     \<lparr>sr_status := sub_Status s, sr_period_start := bp_Start (sub_Period s),
      sr_period_end := bp_End (sub_Period s), sr_period_interval := bp_Interval (sub_Period s),
      sr_addon_ids := sub_AddonIDs s, sr_assigned_to := StrPtrOrNil (sub_AssignedTo s),
      sr_pending_plan_id := pendingChangeToPlanID (sub_PendingChange s),
      sr_pending_original_plan_id := pendingChangeToOriginalPlanID (sub_PendingChange s),
      sr_pending_requested_at := pendingChangeToRequestedAt (sub_PendingChange s),
      sr_cancelled_at := sub_CancelledAt s, sr_paused_at := sub_PausedAt s,
      sr_updated_at := dbnow\<rparr>"

definition sub_GetByID :: "string \<Rightarrow> db \<Rightarrow> billing_error + subscription" where
  "sub_GetByID i d =
     MapErr ErrSubscriptionNotFound (map_option subFieldsToDomain (select_by sr_id i (db_subs d)))"

definition sub_Create :: "subscription \<Rightarrow> db \<Rightarrow> billing_error + db" where
  "sub_Create s d =
     rbind (insert_unique sr_id ErrSubscriptionAlreadyExists (sub_to_row s) (db_subs d))
       (\<lambda>t. Inr (d\<lparr>db_subs := t\<rparr>))"

definition sub_Update :: "time \<Rightarrow> subscription \<Rightarrow> db \<Rightarrow> db" where
  "sub_Update dbnow s d =
     d\<lparr>db_subs := update_by sr_id (sub_ID s) (sub_update_row dbnow s) (db_subs d)\<rparr>"

definition UpdateStatus ::
    "time \<Rightarrow> string \<Rightarrow> subscription_status \<Rightarrow> db
     \<Rightarrow> billing_error + ((subscription_status \<times> subscription_status) \<times> db)" where
  "UpdateStatus dbnow i newStatus d =
     rbind (MapErr ErrSubscriptionNotFound (select_by sr_id i (db_subs d))) (\<lambda>old.
       Inr ((sr_status old, newStatus),
            d\<lparr>db_subs := update_by sr_id i
                (\<lambda>r. r\<lparr>sr_status := newStatus, sr_updated_at := dbnow\<rparr>) (db_subs d)\<rparr>))"

definition GetByUserID :: "string \<Rightarrow> db \<Rightarrow> subscription list" where
  "GetByUserID userID d = map subFieldsToDomain
     (sort_key (\<lambda>r. - sr_created_at r) (filter (\<lambda>r. sr_user_id r = userID) (db_subs d)))"

definition GetActiveByUserID :: "string \<Rightarrow> db \<Rightarrow> subscription list" where
  "GetActiveByUserID userID d = map subFieldsToDomain
     (sort_key (\<lambda>r. - sr_created_at r)
        (filter (\<lambda>r. sr_user_id r = userID \<and> sr_status r \<in> {StatusTrial, StatusActive}) (db_subs d)))"

definition GetActiveByUserAtTime :: "string \<Rightarrow> time \<Rightarrow> db \<Rightarrow> billing_error + subscription" where
  "GetActiveByUserAtTime userID t0 d =
     MapErr ErrSubscriptionNotFound (map_option subFieldsToDomain
       (find (\<lambda>r. sr_user_id r = userID \<and> sr_period_start r \<le> t0 \<and> t0 < sr_period_end r
                \<and> sr_status r \<in> {StatusTrial, StatusActive, StatusPastDue}) (db_subs d)))"

text \<open>\<open>billing_period && tstzrange(a, b, '[)')\<close>: two half-open ranges share a point.\<close>

definition ranges_overlap :: "time \<Rightarrow> time \<Rightarrow> time \<Rightarrow> time \<Rightarrow> bool" where
  "ranges_overlap a b c d' \<longleftrightarrow> max a c < min b d'"

definition GetOverlapping :: "string \<Rightarrow> string \<Rightarrow> time \<Rightarrow> time \<Rightarrow> db \<Rightarrow> subscription list" where
  "GetOverlapping userID planID start end' d = map subFieldsToDomain
     (filter (\<lambda>r. sr_user_id r = userID \<and> sr_plan_id r = planID
          \<and> ranges_overlap (sr_period_start r) (sr_period_end r) start end'
          \<and> sr_status r \<in> {StatusTrial, StatusActive, StatusPastDue, StatusPaused}) (db_subs d))"

definition GetExpiredActive :: "time \<Rightarrow> nat \<Rightarrow> db \<Rightarrow> subscription list" where
  "GetExpiredActive before limit d = map subFieldsToDomain
     (take limit (sort_key sr_period_end
        (filter (\<lambda>r. sr_status r = StatusActive \<and> sr_period_end r < before) (db_subs d))))"

text \<open>
  \<open>GetAllCursor\<close>: pages ordered by \<open>(created_at, id)\<close> descending, after the cursor if there is
  one. Canonical UUID text is ordered as the \<open>uuid\<close> type is.
\<close>

definition keyset_page :: "('r \<Rightarrow> 'k :: linorder) \<Rightarrow> nat \<Rightarrow> 'k option \<Rightarrow> 'r list \<Rightarrow> 'r list" where
  "keyset_page key limit cursor t =
     take limit (rev (sort_key key
       (case cursor of None \<Rightarrow> t | Some c \<Rightarrow> filter (\<lambda>r. key r < c) t)))"

definition sub_cursor :: "sub_row \<Rightarrow> time \<times> string" where
  "sub_cursor r = (sr_created_at r, sr_id r)"

definition sub_GetAllCursor :: "nat \<Rightarrow> (time \<times> string) option \<Rightarrow> db \<Rightarrow> subscription list" where
  "sub_GetAllCursor limit cursor d = map subFieldsToDomain (keyset_page sub_cursor limit cursor (db_subs d))"

subsection \<open>The subscription repository keeps its contract\<close>

text \<open>
  What a stored subscription looks like when it is read back: no pending events, and a pending
  change that is either absent or complete. \<open>sub_merge\<close> is the effect of \<open>Update\<close>: everything
  but the plan and the creation time is taken from the written aggregate.
\<close>

definition clean_change :: "pending_plan_change \<Rightarrow> pending_plan_change" where
  "clean_change pc = (if pc_IsZero pc then no_change else pc)"

definition sub_stored :: "subscription \<Rightarrow> subscription" where
  "sub_stored s = s\<lparr>rec_events := [], rec_flushed := False,
     sub_PendingChange := clean_change (sub_PendingChange s)\<rparr>"

definition sub_merge :: "time \<Rightarrow> subscription \<Rightarrow> subscription \<Rightarrow> subscription" where
  "sub_merge dbnow old s = (sub_stored s)
     \<lparr>sub_ID := sub_ID old, sub_UserID := sub_UserID old, sub_PlanID := sub_PlanID old,
      sub_CreatedAt := sub_CreatedAt old, sub_UpdatedAt := dbnow\<rparr>"

definition subs_wf :: "db \<Rightarrow> bool" where
  "subs_wf d \<longleftrightarrow> distinct (map sr_id (db_subs d))"

lemma pending_change_roundtrip [simp]:
  "pgtypeToPendingChange (pendingChangeToPlanID pc) (pendingChangeToOriginalPlanID pc)
     (pendingChangeToRequestedAt pc) = clean_change pc"
  by (cases pc) (simp add: pgtypeToPendingChange_def pendingChangeToPlanID_def
      pendingChangeToOriginalPlanID_def pendingChangeToRequestedAt_def clean_change_def
      PgtypeToUUID_def PgtypeToTime_def)

lemma sub_row_roundtrip: "subFieldsToDomain (sub_to_row s) = sub_stored s"
  by (cases s) (simp add: subFieldsToDomain_def sub_to_row_def sub_stored_def)

lemma sub_update_roundtrip:
  "subFieldsToDomain (sub_update_row dbnow s r) = sub_merge dbnow (subFieldsToDomain r) s"
  by (cases s) (simp add: subFieldsToDomain_def sub_update_row_def sub_stored_def sub_merge_def)

lemma sr_id_update [simp]: "sr_id (sub_update_row t s r) = sr_id r"
  by (simp add: sub_update_row_def)

lemma sub_ID_domain [simp]: "sub_ID (subFieldsToDomain r) = sr_id r"
  by (simp add: subFieldsToDomain_def)

lemma sub_to_row_id [simp]: "sr_id (sub_to_row s) = sub_ID s"
  by (simp add: sub_to_row_def)

lemma sub_GetByID_ok_iff:
  "sub_GetByID i d = Inr s \<longleftrightarrow> (\<exists>r. select_by sr_id i (db_subs d) = Some r \<and> s = subFieldsToDomain r)"
  by (auto simp: sub_GetByID_def)

lemma sub_GetByID_error:
  "sub_GetByID i d = Inl e \<longleftrightarrow> select_by sr_id i (db_subs d) = None \<and> e = ErrSubscriptionNotFound"
  by (cases "select_by sr_id i (db_subs d)") (auto simp: sub_GetByID_def)

interpretation sub_repo: repository subs_wf sub_GetByID sub_Create "sub_Update dbnow" sub_ID sub_stored
    "sub_merge dbnow"
  for dbnow
proof
  fix k d a d' old e
  show "sub_GetByID k d = Inr a \<Longrightarrow> sub_ID a = k"
    by (auto simp: sub_GetByID_ok_iff dest: select_by_Some)
  show "subs_wf d \<Longrightarrow> sub_Create a d = Inr d' \<Longrightarrow> subs_wf d'"
    by (auto simp: subs_wf_def sub_Create_def dest: keys_insert)
  show "subs_wf d \<Longrightarrow> subs_wf (sub_Update dbnow a d)"
    by (simp add: subs_wf_def sub_Update_def keys_update)
  show "sub_Create a d = Inr d' \<Longrightarrow> sub_GetByID (sub_ID a) d' = Inr (sub_stored a)"
    by (auto simp: sub_Create_def sub_GetByID_def sub_row_roundtrip dest!: select_insert [where k = "sub_ID a"])
  show "sub_Create a d = Inr d' \<Longrightarrow> k \<noteq> sub_ID a \<Longrightarrow> sub_GetByID k d' = sub_GetByID k d"
    by (auto simp: sub_Create_def sub_GetByID_def dest!: select_insert [where k = k])
  show "sub_GetByID (sub_ID a) d = Inr old \<Longrightarrow>
      sub_GetByID (sub_ID a) (sub_Update dbnow a d) = Inr (sub_merge dbnow old a)"
    by (auto simp: sub_GetByID_def sub_Update_def select_update sub_update_roundtrip)
  show "k \<noteq> sub_ID a \<Longrightarrow> sub_GetByID k (sub_Update dbnow a d) = sub_GetByID k d"
    by (simp add: sub_GetByID_def sub_Update_def select_update)
  show "sub_GetByID (sub_ID a) d = Inl e \<Longrightarrow> sub_Update dbnow a d = d"
    by (simp add: sub_GetByID_error sub_Update_def update_by_absent)
qed

lemma sub_merge_fields [simp]:
  "sub_ID (sub_merge t old s) = sub_ID old" "sub_UserID (sub_merge t old s) = sub_UserID old"
  "sub_PlanID (sub_merge t old s) = sub_PlanID old" "sub_Status (sub_merge t old s) = sub_Status s"
  "sub_Period (sub_merge t old s) = sub_Period s" "sub_AddonIDs (sub_merge t old s) = sub_AddonIDs s"
  "sub_CancelledAt (sub_merge t old s) = sub_CancelledAt s"
  "sub_PausedAt (sub_merge t old s) = sub_PausedAt s"
  "sub_PendingChange (sub_merge t old s) = clean_change (sub_PendingChange s)"
  by (simp_all add: sub_merge_def sub_stored_def)

lemma sub_stored_fields [simp]:
  "sub_ID (sub_stored s) = sub_ID s" "sub_UserID (sub_stored s) = sub_UserID s"
  "sub_PlanID (sub_stored s) = sub_PlanID s" "sub_Status (sub_stored s) = sub_Status s"
  "sub_Period (sub_stored s) = sub_Period s" "sub_AddonIDs (sub_stored s) = sub_AddonIDs s"
  "rec_events (sub_stored s) = []"
  by (simp_all add: sub_stored_def)

lemma sub_stored_inv: "sub_inv (sub_stored s) \<longleftrightarrow> sub_inv s"
  by (simp add: sub_inv_def sub_stored_def)

lemma sub_merge_inv: "sub_inv old \<Longrightarrow> sub_inv s \<Longrightarrow> sub_inv (sub_merge t old s)"
  by (auto simp: sub_inv_def)

subsection \<open>Pages\<close>

text \<open>
  Reading page after page, each from the last key of the one before, for at most \<open>n\<close> pages.
  With distinct keys the pages are the descending order of the table cut in pieces: nothing is
  skipped and nothing comes twice.
\<close>

fun keyset_scan :: "('r \<Rightarrow> 'k :: linorder) \<Rightarrow> nat \<Rightarrow> nat \<Rightarrow> 'k option \<Rightarrow> 'r list \<Rightarrow> 'r list" where
  "keyset_scan key limit 0 cursor t = []"
| "keyset_scan key limit (Suc n) cursor t =
     (let page = keyset_page key limit cursor t
      in if page = [] then [] else page @ keyset_scan key limit n (Some (key (last page))) t)"

lemma rev_sort_key_sorted: "sorted_wrt (\<lambda>a b. key a > key b) (rev (sort_key key t))"
  if "distinct (map key t)" for key :: "'r \<Rightarrow> 'k :: linorder"
proof -
  have "distinct (map key (sort_key key t))"
    using that by (metis distinct_map distinct_sort set_sort)
  moreover have "sorted (map key (sort_key key t))" by simp
  ultimately have "sorted_wrt (<) (map key (sort_key key t))"
    by (simp add: strict_sorted_iff)
  then show ?thesis by (simp add: sorted_wrt_rev sorted_wrt_map)
qed

text \<open>The page after the last row of a prefix starts right behind it.\<close>

lemma keyset_page_after:
  fixes key :: "'r \<Rightarrow> 'k :: linorder"
  assumes d: "distinct (map key t)" and full: "rev (sort_key key t) = xs @ ys" and xs: "xs \<noteq> []"
  shows "keyset_page key limit (Some (key (last xs))) t = take limit ys"
proof -
  let ?c = "key (last xs)"
  have sorted: "sorted_wrt (\<lambda>a b. key a > key b) (xs @ ys)"
    using rev_sort_key_sorted [OF d] by (simp only: full)
  have ys: "\<forall>r \<in> set ys. key r < ?c"
    using sorted xs by (auto simp: sorted_wrt_append)
  have xs': "\<forall>r \<in> set xs. \<not> key r < ?c"
  proof
    fix r assume r: "r \<in> set xs"
    have split: "xs = butlast xs @ [last xs]" using xs by simp
    have "sorted_wrt (\<lambda>a b. key a > key b) (butlast xs @ [last xs])"
      using sorted xs by (simp add: sorted_wrt_append)
    then have "\<forall>q \<in> set (butlast xs). key q > ?c" by (simp add: sorted_wrt_append)
    with r split show "\<not> key r < ?c" by (metis Un_iff in_set_conv_decomp less_asym less_irrefl set_ConsD set_append list.set_intros empty_iff list.set(1))
  qed
  have "rev (sort_key key (filter (\<lambda>r. key r < ?c) t)) = filter (\<lambda>r. key r < ?c) (xs @ ys)"
    by (simp add: full [symmetric] rev_filter [symmetric] filter_sort)
  also have "\<dots> = ys"
    using ys xs' by (auto simp: filter_empty_conv)
  finally show ?thesis by (simp add: keyset_page_def)
qed

lemma keyset_scan_from:
  fixes key :: "'r \<Rightarrow> 'k :: linorder"
  assumes "distinct (map key t)" "rev (sort_key key t) = xs @ ys" "xs \<noteq> []"
    "0 < limit" "length ys \<le> n"
  shows "keyset_scan key limit n (Some (key (last xs))) t = ys"
  using assms(2,3,5)
proof (induction n arbitrary: xs ys)
  case 0
  then show ?case by simp
next
  case (Suc n)
  have page: "keyset_page key limit (Some (key (last xs))) t = take limit ys"
    using assms(1) Suc.prems(1,2) by (rule keyset_page_after)
  show ?case
  proof (cases "ys = []")
    case True
    then show ?thesis by (simp add: page)
  next
    case False
    let ?p = "take limit ys" and ?q = "drop limit ys"
    have p: "?p \<noteq> []" using False assms(4) by simp
    have "keyset_scan key limit n (Some (key (last (xs @ ?p)))) t = ?q"
    proof (rule Suc.IH)
      show "rev (sort_key key t) = (xs @ ?p) @ ?q" using Suc.prems(1) by simp
      show "xs @ ?p \<noteq> []" using Suc.prems(2) by simp
      show "length ?q \<le> n" using Suc.prems(3) assms(4) False by auto
    qed
    then show ?thesis using p False assms(4) by (simp add: page Let_def)
  qed
qed

lemma keyset_scan_all:
  fixes key :: "'r \<Rightarrow> 'k :: linorder"
  assumes "distinct (map key t)" "0 < limit" "length t \<le> n"
  shows "keyset_scan key limit n None t = rev (sort_key key t)"
proof (cases "t = []")
  case True
  then show ?thesis by (cases n) (simp_all add: keyset_page_def)
next
  case False
  let ?s = "rev (sort_key key t)"
  obtain m where n: "n = Suc m" using False assms(3) by (cases n) auto
  have len: "length ?s = length t" by simp
  have ne: "take limit ?s \<noteq> []" using False assms(2) len by (metis length_greater_0_conv length_take less_numeral_extra(3) list.size(3) min_less_iff_conj)
  have "keyset_scan key limit m (Some (key (last (take limit ?s)))) t = drop limit ?s"
  proof (rule keyset_scan_from [OF assms(1) _ ne assms(2)])
    show "?s = take limit ?s @ drop limit ?s" by simp
    show "length (drop limit ?s) \<le> m" using assms(2,3) n False by auto
  qed
  then show ?thesis using ne by (simp add: n keyset_page_def Let_def)
qed

section \<open>Plans\<close>

text \<open>
  A plan is read with its addons; the table holds the plans themselves (their events are never
  stored). Plans are only read by the services modelled here.
\<close>

definition plan_GetByID :: "string \<Rightarrow> db \<Rightarrow> billing_error + plan" where
  "plan_GetByID i d = MapErr ErrPlanNotFound (select_by plan_ID i (db_plans d))"

lemma plan_GetByID_ok: "plan_GetByID i d = Inr p \<Longrightarrow> p \<in> set (db_plans d) \<and> plan_ID p = i"
  by (auto simp: plan_GetByID_def dest: select_by_Some)

section \<open>Invoices\<close>

definition to_int32 :: "int64 \<Rightarrow> 32 word" where "to_int32 w = ucast w"
definition of_int32 :: "32 word \<Rightarrow> int64" where "of_int32 w = scast w"

definition lineItemRowToDomain :: "line_row \<Rightarrow> line_item" where
  "lineItemRowToDomain f =
     \<lparr>li_Description = lr_description f, li_Type = lr_item_type f,
      li_Amount = NewMoney (lr_amount f) (lr_currency f), li_Quantity = of_int32 (lr_quantity f)\<rparr>"

definition loadLineItems :: "string \<Rightarrow> db \<Rightarrow> line_item list" where
  "loadLineItems i d = map lineItemRowToDomain (filter (\<lambda>l. lr_invoice_id l = i) (db_lines d))"

definition invFieldsToDomain :: "line_item list \<Rightarrow> inv_row \<Rightarrow> invoice" where
  "invFieldsToDomain items f =
     \<lparr>rec_events = [], rec_flushed = False,
      inv_ID = ir_id f, inv_SubscriptionID = ir_subscription_id f, inv_UserID = ir_user_id f,
      inv_LineItems = items, inv_Discounts = ir_discounts f,
      inv_Subtotal = NewMoney (ir_subtotal_amount f) (ir_currency f),
      inv_TotalDiscount = NewMoney (ir_total_discount_amount f) (ir_currency f),
      inv_Total = NewMoney (ir_total_amount f) (ir_currency f),
      inv_PricingReason = ir_pricing_reason f, inv_Status = ir_status f, inv_PaidAt = ir_paid_at f,
      inv_CreatedAt = ir_created_at f, inv_UpdatedAt = ir_updated_at f\<rparr>"

definition inv_to_row :: "invoice \<Rightarrow> inv_row" where
  "inv_to_row i =
     \<lparr>ir_id = inv_ID i, ir_subscription_id = inv_SubscriptionID i, ir_user_id = inv_UserID i,
      ir_subtotal_amount = Amount (inv_Subtotal i),
      ir_total_discount_amount = Amount (inv_TotalDiscount i),
      ir_total_amount = Amount (inv_Total i), ir_currency = Currency (inv_Total i),
      ir_pricing_reason = inv_PricingReason i, ir_discounts = inv_Discounts i,
      ir_status = inv_Status i, ir_paid_at = inv_PaidAt i,
      ir_created_at = inv_CreatedAt i, ir_updated_at = inv_UpdatedAt i\<rparr>"

definition line_to_row :: "string \<Rightarrow> line_item \<Rightarrow> line_row" where
  "line_to_row i item =
     \<lparr>lr_invoice_id = i, lr_description = li_Description item, lr_item_type = li_Type item,
      lr_amount = Amount (li_Amount item), lr_currency = Currency (li_Amount item),
      lr_quantity = to_int32 (li_Quantity item)\<rparr>"

definition inv_update_row :: "time \<Rightarrow> invoice \<Rightarrow> inv_row \<Rightarrow> inv_row" where
  "inv_update_row dbnow i r = r
     \<lparr>ir_status := inv_Status i, ir_paid_at := inv_PaidAt i,
      ir_subtotal_amount := Amount (inv_Subtotal i),
      ir_total_discount_amount := Amount (inv_TotalDiscount i),
      ir_total_amount := Amount (inv_Total i), ir_pricing_reason := inv_PricingReason i,
      ir_discounts := inv_Discounts i, ir_updated_at := dbnow\<rparr>"

definition inv_GetByID :: "string \<Rightarrow> db \<Rightarrow> billing_error + invoice" where
  "inv_GetByID i d =
     MapErr ErrInvoiceNotFound
       (map_option (invFieldsToDomain (loadLineItems i d)) (select_by ir_id i (db_invoices d)))"

definition inv_Create :: "invoice \<Rightarrow> db \<Rightarrow> billing_error + db" where
  "inv_Create i d =
     rbind (insert_unique ir_id ErrInvoiceAlreadyExists (inv_to_row i) (db_invoices d))
       (\<lambda>t. Inr (d\<lparr>db_invoices := t,
                    db_lines := db_lines d @ map (line_to_row (inv_ID i)) (inv_LineItems i)\<rparr>))"

definition inv_Update :: "time \<Rightarrow> invoice \<Rightarrow> db \<Rightarrow> db" where
  "inv_Update dbnow i d =
     d\<lparr>db_invoices := update_by ir_id (inv_ID i) (inv_update_row dbnow i) (db_invoices d)\<rparr>"

definition inv_with_lines :: "db \<Rightarrow> inv_row \<Rightarrow> invoice" where
  "inv_with_lines d r = invFieldsToDomain (loadLineItems (ir_id r) d) r"

definition GetBySubscriptionID :: "string \<Rightarrow> db \<Rightarrow> invoice list" where
  "GetBySubscriptionID subID d = map (inv_with_lines d)
     (sort_key (\<lambda>r. - ir_created_at r) (filter (\<lambda>r. ir_subscription_id r = subID) (db_invoices d)))"

definition GetPendingByUserID :: "string \<Rightarrow> db \<Rightarrow> invoice list" where
  "GetPendingByUserID userID d = map (inv_with_lines d)
     (sort_key (\<lambda>r. - ir_created_at r)
        (filter (\<lambda>r. ir_user_id r = userID \<and> ir_status r = InvoicePending) (db_invoices d)))"

definition inv_cursor :: "inv_row \<Rightarrow> time \<times> string" where
  "inv_cursor r = (ir_created_at r, ir_id r)"

definition inv_GetAllCursor :: "nat \<Rightarrow> (time \<times> string) option \<Rightarrow> db \<Rightarrow> invoice list" where
  "inv_GetAllCursor limit cursor d =
     map (inv_with_lines d) (keyset_page inv_cursor limit cursor (db_invoices d))"

subsection \<open>The invoice repository keeps its contract\<close>

text \<open>
  One currency column serves the three amounts and a quantity is stored in 32 bits, so a read
  returns the amounts in the currency of the total and the quantity truncated.
\<close>

definition line_stored :: "line_item \<Rightarrow> line_item" where
  "line_stored item = item\<lparr>li_Quantity := of_int32 (to_int32 (li_Quantity item))\<rparr>"

definition in_currency :: "currency \<Rightarrow> money \<Rightarrow> money" where
  "in_currency c m = NewMoney (Amount m) c"

definition inv_stored :: "invoice \<Rightarrow> invoice" where
  "inv_stored i = i\<lparr>rec_events := [], rec_flushed := False,
     inv_LineItems := map line_stored (inv_LineItems i),
     inv_Subtotal := in_currency (Currency (inv_Total i)) (inv_Subtotal i),
     inv_TotalDiscount := in_currency (Currency (inv_Total i)) (inv_TotalDiscount i)\<rparr>"

definition inv_merge :: "time \<Rightarrow> invoice \<Rightarrow> invoice \<Rightarrow> invoice" where
  "inv_merge dbnow old i = old
     \<lparr>inv_Status := inv_Status i, inv_PaidAt := inv_PaidAt i,
      inv_Subtotal := in_currency (Currency (inv_Total old)) (inv_Subtotal i),
      inv_TotalDiscount := in_currency (Currency (inv_Total old)) (inv_TotalDiscount i),
      inv_Total := in_currency (Currency (inv_Total old)) (inv_Total i),
      inv_PricingReason := inv_PricingReason i, inv_Discounts := inv_Discounts i,
      inv_UpdatedAt := dbnow\<rparr>"

definition invs_wf :: "db \<Rightarrow> bool" where
  "invs_wf d \<longleftrightarrow> distinct (map ir_id (db_invoices d))
     \<and> lr_invoice_id ` set (db_lines d) \<subseteq> ir_id ` set (db_invoices d)"

lemma line_roundtrip: "lineItemRowToDomain (line_to_row i item) = line_stored item"
  by (cases item) (simp add: lineItemRowToDomain_def line_to_row_def line_stored_def NewMoney_def)

lemma inv_row_roundtrip:
  "invFieldsToDomain (map line_stored (inv_LineItems i)) (inv_to_row i) = inv_stored i"
  by (cases i) (simp add: invFieldsToDomain_def inv_to_row_def inv_stored_def in_currency_def NewMoney_def)

lemma inv_update_roundtrip:
  "invFieldsToDomain items (inv_update_row dbnow i r) = inv_merge dbnow (invFieldsToDomain items r) i"
  by (simp add: invFieldsToDomain_def inv_update_row_def inv_merge_def in_currency_def)

lemma ir_id_simps [simp]:
  "ir_id (inv_update_row t i r) = ir_id r" "ir_id (inv_to_row i) = inv_ID i"
  "inv_ID (invFieldsToDomain items r) = ir_id r" "lr_invoice_id (line_to_row k item) = k"
  by (simp_all add: inv_update_row_def inv_to_row_def invFieldsToDomain_def line_to_row_def)

lemma loadLineItems_append:
  "loadLineItems k (d\<lparr>db_invoices := t, db_lines := db_lines d @ ls\<rparr>) =
     loadLineItems k d @ map lineItemRowToDomain (filter (\<lambda>l. lr_invoice_id l = k) ls)"
  by (simp add: loadLineItems_def)

lemma loadLineItems_invoices [simp]: "loadLineItems k (d\<lparr>db_invoices := t\<rparr>) = loadLineItems k d"
  by (simp add: loadLineItems_def)

lemma loadLineItems_fresh: "invs_wf d \<Longrightarrow> k \<notin> ir_id ` set (db_invoices d) \<Longrightarrow> loadLineItems k d = []"
  by (auto simp: loadLineItems_def invs_wf_def filter_empty_conv)

lemma inv_GetByID_ok_iff:
  "inv_GetByID k d = Inr i \<longleftrightarrow>
     (\<exists>r. select_by ir_id k (db_invoices d) = Some r \<and> i = invFieldsToDomain (loadLineItems k d) r)"
  by (auto simp: inv_GetByID_def)

lemma inv_GetByID_error:
  "inv_GetByID k d = Inl e \<longleftrightarrow> select_by ir_id k (db_invoices d) = None \<and> e = ErrInvoiceNotFound"
  by (cases "select_by ir_id k (db_invoices d)") (auto simp: inv_GetByID_def)

lemma filter_line_rows:
  "filter (\<lambda>l. lr_invoice_id l = k) (map (line_to_row j) items) = (if k = j then map (line_to_row j) items else [])"
  by (induction items) auto

lemma inv_Create_get:
  assumes "invs_wf d" "inv_Create i d = Inr d'"
  shows "inv_GetByID (inv_ID i) d' = Inr (inv_stored i)"
proof -
  from assms(2) obtain t where t: "insert_unique ir_id ErrInvoiceAlreadyExists (inv_to_row i) (db_invoices d) = Inr t"
    and d': "d' = d\<lparr>db_invoices := t, db_lines := db_lines d @ map (line_to_row (inv_ID i)) (inv_LineItems i)\<rparr>"
    by (auto simp: inv_Create_def)
  have "inv_ID i \<notin> ir_id ` set (db_invoices d)"
    using keys_insert [OF t] by simp
  with assms(1) have "loadLineItems (inv_ID i) d' = map line_stored (inv_LineItems i)"
    by (simp add: d' loadLineItems_append loadLineItems_fresh filter_line_rows line_roundtrip)
  moreover have "select_by ir_id (inv_ID i) (db_invoices d') = Some (inv_to_row i)"
    using select_insert [OF t] by (simp add: d')
  ultimately show ?thesis by (simp add: inv_GetByID_def inv_row_roundtrip)
qed

interpretation inv_repo: repository invs_wf inv_GetByID inv_Create "inv_Update dbnow" inv_ID inv_stored
    "inv_merge dbnow"
  for dbnow
proof
  fix k d a d' old e
  show "inv_GetByID k d = Inr a \<Longrightarrow> inv_ID a = k"
    by (auto simp: inv_GetByID_ok_iff dest: select_by_Some)
  show "invs_wf d \<Longrightarrow> inv_Create a d = Inr d' \<Longrightarrow> invs_wf d'"
    by (auto simp: invs_wf_def inv_Create_def insert_unique_def image_subset_iff split: if_splits)
  show "invs_wf d \<Longrightarrow> invs_wf (inv_Update dbnow a d)"
    unfolding invs_wf_def set_map [symmetric] by (simp add: inv_Update_def keys_update del: set_map)
  show "invs_wf d \<Longrightarrow> inv_Create a d = Inr d' \<Longrightarrow> inv_GetByID (inv_ID a) d' = Inr (inv_stored a)"
    by (rule inv_Create_get)
  show "inv_Create a d = Inr d' \<Longrightarrow> k \<noteq> inv_ID a \<Longrightarrow> inv_GetByID k d' = inv_GetByID k d"
    by (auto simp: inv_Create_def inv_GetByID_def loadLineItems_append filter_line_rows
        dest!: select_insert [where k = k])
  show "inv_GetByID (inv_ID a) d = Inr old \<Longrightarrow>
      inv_GetByID (inv_ID a) (inv_Update dbnow a d) = Inr (inv_merge dbnow old a)"
    by (auto simp: inv_GetByID_def inv_Update_def select_update inv_update_roundtrip)
  show "k \<noteq> inv_ID a \<Longrightarrow> inv_GetByID k (inv_Update dbnow a d) = inv_GetByID k d"
    by (simp add: inv_GetByID_def inv_Update_def select_update)
  show "inv_GetByID (inv_ID a) d = Inl e \<Longrightarrow> inv_Update dbnow a d = d"
    by (simp add: inv_GetByID_error inv_Update_def update_by_absent)
qed

lemma inv_stored_fields [simp]:
  "inv_ID (inv_stored i) = inv_ID i" "inv_Status (inv_stored i) = inv_Status i"
  "inv_Total (inv_stored i) = inv_Total i" "inv_SubscriptionID (inv_stored i) = inv_SubscriptionID i"
  "inv_UserID (inv_stored i) = inv_UserID i" "inv_PaidAt (inv_stored i) = inv_PaidAt i"
  "rec_events (inv_stored i) = []"
  by (simp_all add: inv_stored_def)

lemma inv_merge_fields [simp]:
  "inv_ID (inv_merge t old i) = inv_ID old" "inv_Status (inv_merge t old i) = inv_Status i"
  "inv_SubscriptionID (inv_merge t old i) = inv_SubscriptionID old"
  "inv_UserID (inv_merge t old i) = inv_UserID old" "inv_PaidAt (inv_merge t old i) = inv_PaidAt i"
  "inv_LineItems (inv_merge t old i) = inv_LineItems old"
  "Amount (inv_Total (inv_merge t old i)) = Amount (inv_Total i)"
  by (simp_all add: inv_merge_def in_currency_def)

lemma inv_stored_inv: "invoice_inv i \<Longrightarrow> invoice_inv (inv_stored i)"
  by (simp add: invoice_inv_def inv_stored_def in_currency_def)

lemma inv_merge_inv: "invoice_inv old \<Longrightarrow> invoice_inv i \<Longrightarrow> invoice_inv (inv_merge t old i)"
  by (auto simp: invoice_inv_def inv_merge_def in_currency_def)

section \<open>Family groups\<close>

definition int32 :: "int \<Rightarrow> int" where
  "int32 i = sint (word_of_int i :: 32 word)"

definition familyMemberRowToDomain :: "member_row \<Rightarrow> family_member" where
  "familyMemberRowToDomain r =
     \<lparr>fm_UserID = mr_user_id r, fm_Role = mr_role r, fm_Nickname = DerefStr (mr_nickname r),
      fm_JoinedAt = mr_joined_at r\<rparr>"

definition loadMembers :: "string \<Rightarrow> db \<Rightarrow> family_member list" where
  "loadMembers g d = map familyMemberRowToDomain
     (sort_key mr_joined_at (filter (\<lambda>r. mr_group_id r = g) (db_members d)))"

definition familyGroupRowToDomain :: "family_member list \<Rightarrow> group_row \<Rightarrow> family_group" where
  "familyGroupRowToDomain members f =
     \<lparr>rec_events = [], rec_flushed = False, fg_ID = gr_id f, fg_OwnerID = gr_owner_id f,
      fg_MaxMembers = gr_max_members f, fg_Members = members,
      fg_CreatedAt = gr_created_at f, fg_UpdatedAt = gr_updated_at f\<rparr>"

definition GetByOwnerID :: "string \<Rightarrow> db \<Rightarrow> billing_error + family_group" where
  "GetByOwnerID owner d =
     MapErr ErrFamilyGroupNotFound
       (map_option (\<lambda>r. familyGroupRowToDomain (loadMembers (gr_id r) d) r)
          (select_by gr_owner_id owner (db_groups d)))"

definition member_to_row :: "string \<Rightarrow> family_member \<Rightarrow> member_row" where
  "member_to_row g m =
     \<lparr>mr_group_id = g, mr_user_id = fm_UserID m, mr_role = fm_Role m,
      mr_nickname = StrPtrOrNil (fm_Nickname m), mr_joined_at = fm_JoinedAt m\<rparr>"

text \<open>
  \<open>Create\<close>: both the group identifier and the owner are unique columns; the members are
  inserted one by one, each unique in its group.
\<close>

fun create_members :: "string \<Rightarrow> family_member list \<Rightarrow> member_row list \<Rightarrow> billing_error + member_row list" where
  "create_members g [] t = Inr t"
| "create_members g (m # ms) t =
     rbind (insert_unique (\<lambda>r. (mr_group_id r, mr_user_id r)) ErrFamilyGroupAlreadyExists (member_to_row g m) t)
       (create_members g ms)"

definition family_Create :: "family_group \<Rightarrow> db \<Rightarrow> billing_error + db" where
  "family_Create fg d =
     (if fg_ID fg \<in> gr_id ` set (db_groups d) \<or> fg_OwnerID fg \<in> gr_owner_id ` set (db_groups d)
      then Inl ErrFamilyGroupAlreadyExists
      else rbind (create_members (fg_ID fg) (fg_Members fg) (db_members d)) (\<lambda>t.
        Inr (d\<lparr>db_groups := db_groups d @
                 [\<lparr>gr_id = fg_ID fg, gr_owner_id = fg_OwnerID fg, gr_max_members = int32 (fg_MaxMembers fg),
                   gr_created_at = fg_CreatedAt fg, gr_updated_at = fg_UpdatedAt fg\<rparr>],
               db_members := t\<rparr>)))"

text \<open>\<open>UpsertFamilyMember\<close>: \<open>ON CONFLICT (family_group_id, user_id) DO UPDATE SET role, nickname\<close>.\<close>

definition upsert_member :: "string \<Rightarrow> family_member \<Rightarrow> member_row list \<Rightarrow> member_row list" where
  "upsert_member g m t =
     (if \<exists>r \<in> set t. mr_group_id r = g \<and> mr_user_id r = fm_UserID m
      then map (\<lambda>r. if mr_group_id r = g \<and> mr_user_id r = fm_UserID m
                    then r\<lparr>mr_role := fm_Role m, mr_nickname := StrPtrOrNil (fm_Nickname m)\<rparr> else r) t
      else t @ [member_to_row g m])"

definition family_Update :: "time \<Rightarrow> family_group \<Rightarrow> db \<Rightarrow> db" where
  "family_Update dbnow fg d =
     d\<lparr>db_groups := update_by gr_id (fg_ID fg)
         (\<lambda>r. r\<lparr>gr_max_members := int32 (fg_MaxMembers fg), gr_updated_at := dbnow\<rparr>) (db_groups d),
       db_members := filter (\<lambda>r. \<not> (mr_group_id r = fg_ID fg \<and> mr_user_id r \<notin> fm_UserID ` set (fg_Members fg)))
         (fold (upsert_member (fg_ID fg)) (fg_Members fg) (db_members d))\<rparr>"

text \<open>The users of a group after an update are exactly the members of the written aggregate.\<close>

definition member_key :: "member_row \<Rightarrow> string \<times> string" where
  "member_key r = (mr_group_id r, mr_user_id r)"

lemma upsert_member_keys:
  "member_key ` set (upsert_member g m t) = insert (g, fm_UserID m) (member_key ` set t)"
proof (cases "\<exists>r \<in> set t. mr_group_id r = g \<and> mr_user_id r = fm_UserID m")
  case True
  then have "(g, fm_UserID m) \<in> member_key ` set t"
    by (force simp: member_key_def)
  moreover have "member_key ` set (upsert_member g m t) = member_key ` set t"
    unfolding upsert_member_def if_P [OF True] set_map image_image
    by (rule image_cong) (simp_all add: member_key_def)
  ultimately show ?thesis by auto
next
  case False
  then show ?thesis
    unfolding upsert_member_def if_not_P [OF False] by (simp add: member_to_row_def member_key_def)
qed

lemma fold_upsert_keys:
  "member_key ` set (fold (upsert_member g) ms t) = Pair g ` fm_UserID ` set ms \<union> member_key ` set t"
  by (induction ms arbitrary: t) (auto simp: upsert_member_keys)

lemma users_keys: "mr_user_id ` {r \<in> set t. mr_group_id r = g} = {u. (g, u) \<in> member_key ` set t}"
  by (auto simp: member_key_def image_iff)

lemma filter_map_untouched:
  "(\<And>r. C r \<Longrightarrow> \<not> P r \<and> \<not> P (f r)) \<Longrightarrow> filter P (map (\<lambda>r. if C r then f r else r) t) = filter P t"
  by (induction t) auto

lemma upsert_member_other:
  "g' \<noteq> g \<Longrightarrow> filter (\<lambda>r. mr_group_id r = g') (upsert_member g m t) = filter (\<lambda>r. mr_group_id r = g') t"
  unfolding upsert_member_def
  by (cases "\<exists>r \<in> set t. mr_group_id r = g \<and> mr_user_id r = fm_UserID m")
     (auto simp: member_to_row_def intro: filter_map_untouched)

lemma fold_upsert_other:
  "g' \<noteq> g \<Longrightarrow> filter (\<lambda>r. mr_group_id r = g') (fold (upsert_member g) ms t) = filter (\<lambda>r. mr_group_id r = g') t"
  by (induction ms arbitrary: t) (simp_all add: upsert_member_other)

lemma loadMembers_users: "fm_UserID ` set (loadMembers g d) = mr_user_id ` {r \<in> set (db_members d). mr_group_id r = g}"
  by (auto simp: loadMembers_def familyMemberRowToDomain_def image_iff)

lemma family_Update_users:
  "fm_UserID ` set (loadMembers (fg_ID fg) (family_Update t fg d)) = fm_UserID ` set (fg_Members fg)"
proof -
  let ?t = "fold (upsert_member (fg_ID fg)) (fg_Members fg) (db_members d)"
  have "fm_UserID ` set (loadMembers (fg_ID fg) (family_Update t fg d))
      = mr_user_id ` {r \<in> set ?t. mr_group_id r = fg_ID fg} \<inter> fm_UserID ` set (fg_Members fg)"
    by (auto simp: loadMembers_users family_Update_def)
  also have "\<dots> = fm_UserID ` set (fg_Members fg)"
    by (auto simp: users_keys fold_upsert_keys)
  finally show ?thesis .
qed

lemma family_Update_other: "g \<noteq> fg_ID fg \<Longrightarrow> loadMembers g (family_Update t fg d) = loadMembers g d"
  by (simp add: loadMembers_def family_Update_def filter_filter fold_upsert_other conj_commute cong: conj_cong)

end
