(* ===== verification/BillingService.thy ===== *)
theory BillingService
  imports BillingStore
begin

text \<open>
  The billing services: \<open>internal/domain/billing/service/\<close> \<open>billing_service.go\<close>,
  \<open>subscription_lifecycle.go\<close>, \<open>addon_service.go\<close>, \<open>family_service.go\<close>, \<open>prorate.go\<close>,
  \<open>trial.go\<close>, \<open>line_items.go\<close> and \<open>hooks.go\<close>. A command is a function from the database to its
  result, the database afterwards and the asynchronous hooks it dispatched. The plugin hooks
  are arguments: a hook that is not configured is \<open>None\<close>, a call returns its response or none.
\<close>

section \<open>Hooks (hooks.go)\<close>

record cancelling_payload =
  cp_SubscriptionID :: string
  cp_UserID :: string
  cp_PlanID :: string
  cp_Reason :: "string option"

record renewing_payload =
  rp_SubscriptionID :: string
  rp_UserID :: string
  rp_PlanID :: string
  rp_CurrentPeriod :: string

record renewing_response =
  rr_PriceOverride :: "int64 option"
  rr_DiscountPercent :: "int64 option"

record upgrading_payload =
  up_SubscriptionID :: string
  up_UserID :: string
  up_FromPlanID :: string
  up_ToPlanID :: string
  up_ProrationCredit :: int64

text \<open>The payloads of the asynchronous hooks, in the order subscription, user, plan (or plans).\<close>

datatype async_payload =
  CancelledPost string string string "string option"
| ActivatedPost string string string
| PausedPost string string string
| ResumedPost string string string
| RenewedPost string string string
| ExpiredPost string string string
| UpgradedPost string string string string
| DowngradedPost string string string string
| CheckoutCompleted string string string string int64 currency

fun hookName :: "async_payload \<Rightarrow> string" where
  "hookName (CancelledPost _ _ _ _) = ''subscription.cancelled.post''"
| "hookName (ActivatedPost _ _ _) = ''subscription.activated.post''"
| "hookName (PausedPost _ _ _) = ''subscription.paused.post''"
| "hookName (ResumedPost _ _ _) = ''subscription.resumed.post''"
| "hookName (RenewedPost _ _ _) = ''subscription.renewed.post''"
| "hookName (ExpiredPost _ _ _) = ''subscription.expired.post''"
| "hookName (UpgradedPost _ _ _ _) = ''subscription.upgraded.post''"
| "hookName (DowngradedPost _ _ _ _) = ''subscription.downgraded.post''"
| "hookName (CheckoutCompleted _ _ _ _ _ _) = ''checkout.completed''"

text \<open>
  The environment of a command. \<open>be_cancelHook\<close> answers whether to block, \<open>be_upgradeHook\<close>
  with a credit override.
\<close>

record billing_env = tx_env +
  be_cancelHook :: "(cancelling_payload \<Rightarrow> bool option) option"
  be_renewHook :: "(renewing_payload \<Rightarrow> renewing_response option) option"
  be_upgradeHook :: "(upgrading_payload \<Rightarrow> int64 option option) option"
  be_asyncHook :: bool

type_synonym 'a outcome = "(billing_error + 'a) \<times> db \<times> async_payload list"

definition dispatchAsync :: "billing_env \<Rightarrow> async_payload \<Rightarrow> async_payload list" where
  "dispatchAsync env p = (if be_asyncHook env then [p] else [])"

text \<open>Run a transaction that yields a payload, and dispatch it after the commit.\<close>

definition run_notify :: "billing_env \<Rightarrow> async_payload option billing_tx \<Rightarrow> db \<Rightarrow> unit outcome" where
  "run_notify env body d =
     (case RunInTx ErrStorage env body d of
        (Inl e, d') \<Rightarrow> (Inl e, d', [])
      | (Inr None, d') \<Rightarrow> (Inr (), d', [])
      | (Inr (Some p), d') \<Rightarrow> (Inr (), d', dispatchAsync env p))"

section \<open>Repository calls inside a transaction\<close>

definition db_call :: "billing_env \<Rightarrow> string \<Rightarrow> 'a billing_tx \<Rightarrow> 'a billing_tx" where
  "db_call env l m = tx_call ErrStorage env l m"

definition get_sub :: "billing_env \<Rightarrow> string \<Rightarrow> subscription billing_tx" where
  "get_sub env i = db_call env ''get subscription'' (tx_read (sub_GetByID i))"

definition update_sub :: "billing_env \<Rightarrow> subscription \<Rightarrow> unit billing_tx" where
  "update_sub env s = db_call env ''update subscription'' (tx_write (\<lambda>d. Inr (sub_Update (env_dbnow env) s d)))"

definition create_sub :: "billing_env \<Rightarrow> subscription \<Rightarrow> unit billing_tx" where
  "create_sub env s = db_call env ''persist subscription'' (tx_write (sub_Create s))"

definition get_plan :: "billing_env \<Rightarrow> string \<Rightarrow> string \<Rightarrow> plan billing_tx" where
  "get_plan env l i = db_call env l (tx_read (plan_GetByID i))"

definition get_inv :: "billing_env \<Rightarrow> string \<Rightarrow> invoice billing_tx" where
  "get_inv env i = db_call env ''get invoice'' (tx_read (inv_GetByID i))"

definition update_inv :: "billing_env \<Rightarrow> invoice \<Rightarrow> unit billing_tx" where
  "update_inv env i = db_call env ''update invoice'' (tx_write (\<lambda>d. Inr (inv_Update (env_dbnow env) i d)))"

definition create_inv :: "billing_env \<Rightarrow> invoice \<Rightarrow> unit billing_tx" where
  "create_inv env i = db_call env ''persist invoice'' (tx_write (inv_Create i))"

text \<open>\<open>domainevent.PublishAll(txCtx, s.publisher, src)\<close> with the outbox as publisher.\<close>

definition publish ::
    "billing_env \<Rightarrow> string \<Rightarrow> (billing_payload, 'z) event_recorder_scheme
     \<Rightarrow> (billing_payload, 'z) event_recorder_scheme billing_tx" where
  "publish env l src = PublishAll (\<lambda>es d. if env_fault env l then Inl (ErrStorage l)
       else Inr (d\<lparr>db_outbox := PublishBatch (env_trace env) es (db_outbox d)\<rparr>)) src"

section \<open>Proration, trials and line items\<close>

definition totalDaysInPeriod :: "billing_period \<Rightarrow> int" where
  "totalDaysInPeriod period = whole_days (Sub (bp_End period) (bp_Start period))"

definition CalculateUpgradeCredit :: "plan \<Rightarrow> billing_period \<Rightarrow> time \<Rightarrow> money" where
  "CalculateUpgradeCredit currentPlan currentPeriod now =
     (let totalDays = totalDaysInPeriod currentPeriod in
      if totalDays = 0 then Zero (Currency (plan_BasePrice currentPlan))
      else let daysRemaining = DaysRemaining currentPeriod now in
        NewMoney (go_div (Amount (plan_BasePrice currentPlan) * word_of_int daysRemaining) (word_of_int totalDays))
          (Currency (plan_BasePrice currentPlan)))"

definition CalculateUpgradeCost :: "plan \<Rightarrow> billing_period \<Rightarrow> time \<Rightarrow> money \<Rightarrow> billing_error + money" where
  "CalculateUpgradeCost newPlan currentPeriod now credit =
     (if Currency (plan_BasePrice newPlan) \<noteq> Currency credit then Inl ErrBillingCurrencyMismatch
      else let totalDays = totalDaysInPeriod currentPeriod in
        if totalDays = 0 then Inr (Zero (Currency (plan_BasePrice newPlan)))
        else let daysRemaining = DaysRemaining currentPeriod now;
                 proratedAmount = go_div (Amount (plan_BasePrice newPlan) * word_of_int daysRemaining)
                                    (word_of_int totalDays)
          in Inr (NewMoney (smax (proratedAmount - Amount credit) 0) (Currency (plan_BasePrice newPlan))))"

definition DefaultTrialDays :: int where "DefaultTrialDays = 7"

definition NewTrialManager :: "int \<Rightarrow> int" where
  "NewTrialManager trialDays = (if trialDays \<le> 0 then DefaultTrialDays else trialDays)"

definition StartTrial :: "int \<Rightarrow> time \<Rightarrow> subscription \<Rightarrow> billing_error + subscription" where
  "StartTrial trialDays now s =
     (if sub_Status s \<noteq> StatusTrial then Inl ErrNotTrialStatus
      else Inr (s\<lparr>sub_Period := \<lparr>bp_Start = now, bp_End = AddDate 0 0 trialDays now,
                                bp_Interval = bp_Interval (sub_Period s)\<rparr>,
                 sub_UpdatedAt := now\<rparr>))"

definition IsTrialExpiring :: "time \<Rightarrow> subscription \<Rightarrow> int \<Rightarrow> bool" where
  "IsTrialExpiring now s warningDays =
     (if sub_Status s \<noteq> StatusTrial then False
      else let deadline = AddDate 0 0 warningDays now in
        Before (bp_End (sub_Period s)) deadline \<or> bp_End (sub_Period s) = deadline)"

definition IsTrialExpired :: "time \<Rightarrow> subscription \<Rightarrow> bool" where
  "IsTrialExpired now s =
     (if sub_Status s \<noteq> StatusTrial then False else After now (bp_End (sub_Period s)))"

definition lineItemQuantityOne :: int64 where "lineItemQuantityOne = 1"

definition buildLineItems :: "plan \<Rightarrow> string list \<Rightarrow> line_item list" where
  "buildLineItems p addonIDs =
     NewLineItem (plan_Name p) LineItemPlan (plan_BasePrice p) lineItemQuantityOne
     # concat (map (\<lambda>addonID.
         case index_by ad_ID (plan_AvailableAddons p) addonID of
           Some a \<Rightarrow> [NewLineItem (ad_Name a) LineItemAddon (ad_Price a) lineItemQuantityOne]
         | None \<Rightarrow> []) addonIDs)"

section \<open>Creating, cancelling and paying (billing_service.go)\<close>

record create_cmd =
  cc_UserID :: string
  cc_PlanID :: string
  cc_AddonIDs :: "string list"
  cc_UserCountry :: string

definition create_body :: "billing_env \<Rightarrow> create_cmd \<Rightarrow> (subscription \<times> invoice) billing_tx" where
  "create_body env cmd =
    tx_bind (get_plan env ''get plan'' (cc_PlanID cmd)) (\<lambda>p.
     tx_bind (db_call env ''check existing subscriptions'' (tx_read (\<lambda>d. Inr (GetActiveByUserID (cc_UserID cmd) d)))) (\<lambda>existingSubs.
     tx_bind (tx_lift (ce_Check \<lparr>ce_Plan = p, ce_HasActiveSubscription = length existingSubs > 0,
                                ce_AllowedCountries = plan_AllowedCountries p,
                                ce_UserCountry = cc_UserCountry cmd\<rparr>)) (\<lambda>_.
     tx_bind (tx_lift (NewSubscription (env_uuid env 0) (env_uuid env 1) (cc_UserID cmd) (plan_ID p)
                        (plan_Interval p) (cc_AddonIDs cmd) (env_now env))) (\<lambda>s.
     tx_bind (tx_lift (NewInvoice (env_uuid env 2) (env_uuid env 3) (sub_ID s) (cc_UserID cmd)
                        (buildLineItems p (cc_AddonIDs cmd)) [] (Currency (plan_BasePrice p)) (env_now env))) (\<lambda>iv.
     tx_bind (create_sub env s) (\<lambda>_.
     tx_bind (create_inv env iv) (\<lambda>_.
     tx_bind (publish env ''publish subscription'' s) (\<lambda>s'.
     tx_return (s', iv)))))))))"

definition CreateSubscription :: "billing_env \<Rightarrow> create_cmd \<Rightarrow> db \<Rightarrow> (billing_error + (subscription \<times> invoice)) \<times> db" where
  "CreateSubscription env cmd = RunInTx ErrStorage env (create_body env cmd)"

definition cancel_body :: "billing_env \<Rightarrow> string \<Rightarrow> string option \<Rightarrow> async_payload option billing_tx" where
  "cancel_body env subID reason =
    tx_bind (get_sub env subID) (\<lambda>s.
     tx_bind (tx_lift (case be_cancelHook env of
                None \<Rightarrow> Inr ()
              | Some hook \<Rightarrow>
                  (case hook \<lparr>cp_SubscriptionID = sub_ID s, cp_UserID = sub_UserID s,
                              cp_PlanID = sub_PlanID s, cp_Reason = reason\<rparr> of
                     Some block \<Rightarrow> if block then Inl ErrCancellationBlocked else Inr ()
                   | None \<Rightarrow> Inr ()))) (\<lambda>_.
     tx_bind (tx_lift (Cancel (env_uuid env 0) (case reason of None \<Rightarrow> [] | Some r \<Rightarrow> r) (env_now env) s)) (\<lambda>s.
     tx_bind (update_sub env s) (\<lambda>_.
     tx_bind (publish env ''publish subscription'' s) (\<lambda>_.
     tx_return (Some (CancelledPost (sub_ID s) (sub_UserID s) (sub_PlanID s) reason)))))))"

definition CancelSubscription :: "billing_env \<Rightarrow> string \<Rightarrow> string option \<Rightarrow> db \<Rightarrow> unit outcome" where
  "CancelSubscription env subID reason = run_notify env (cancel_body env subID reason)"

text \<open>The last part of \<open>PayInvoice\<close>: activate the subscription if it is in trial or past due.\<close>

definition activate_paid :: "billing_env \<Rightarrow> string \<Rightarrow> async_payload option billing_tx" where
  "activate_paid env subID =
    tx_bind (get_sub env subID) (\<lambda>s.
     if sub_Status s = StatusTrial \<or> sub_Status s = StatusPastDue then
       tx_bind (tx_lift (Activate (env_uuid env 1) (env_now env) s)) (\<lambda>s.
       tx_bind (update_sub env s) (\<lambda>_.
       tx_bind (publish env ''publish subscription'' s) (\<lambda>_.
       tx_return (Some (ActivatedPost (sub_ID s) (sub_UserID s) (sub_PlanID s))))))
     else tx_return None)"

definition pay_body :: "billing_env \<Rightarrow> string \<Rightarrow> async_payload option billing_tx" where
  "pay_body env invoiceID =
    tx_bind (get_inv env invoiceID) (\<lambda>iv.
     tx_bind (tx_lift (require (inv_Status iv \<noteq> InvoicePaid) ErrInvoiceAlreadyPaid)) (\<lambda>_.
     tx_bind (tx_lift (if inv_Status iv = InvoiceDraft then MarkPending (env_now env) iv else Inr iv)) (\<lambda>iv.
     tx_bind (tx_lift (MarkPaid (env_uuid env 0) (env_now env) iv)) (\<lambda>iv.
     tx_bind (update_inv env iv) (\<lambda>_.
     tx_bind (publish env ''publish invoice'' iv) (\<lambda>_.
     activate_paid env (inv_SubscriptionID iv)))))))"

definition PayInvoice :: "billing_env \<Rightarrow> string \<Rightarrow> db \<Rightarrow> unit outcome" where
  "PayInvoice env invoiceID = run_notify env (pay_body env invoiceID)"

section \<open>The subscription lifecycle (subscription_lifecycle.go, addon_service.go)\<close>

text \<open>
  The shared shape of the single-aggregate commands: load with a row lock, apply the aggregate's
  operation, write back, publish. \<open>step\<close> is the operation with its clock and identifiers.
\<close>

definition change_sub ::
    "billing_env \<Rightarrow> string \<Rightarrow> (subscription \<Rightarrow> billing_error + subscription)
     \<Rightarrow> (subscription \<times> subscription) billing_tx" where
  "change_sub env subID step =
     tx_bind (get_sub env subID) (\<lambda>old.
     tx_bind (tx_lift (step old)) (\<lambda>s.
     tx_bind (update_sub env s) (\<lambda>_.
     tx_bind (publish env ''publish subscription'' s) (\<lambda>_.
     tx_return (old, s)))))"

definition PauseSubscription :: "billing_env \<Rightarrow> string \<Rightarrow> db \<Rightarrow> unit outcome" where
  "PauseSubscription env subID = run_notify env
     (tx_bind (change_sub env subID (Pause (env_uuid env 0) (env_now env))) (\<lambda>(_, s).
      tx_return (Some (PausedPost (sub_ID s) (sub_UserID s) (sub_PlanID s)))))"

definition ResumeSubscription :: "billing_env \<Rightarrow> string \<Rightarrow> db \<Rightarrow> unit outcome" where
  "ResumeSubscription env subID = run_notify env
     (tx_bind (change_sub env subID (Resume (env_uuid env 0) (env_now env))) (\<lambda>(_, s).
      tx_return (Some (ResumedPost (sub_ID s) (sub_UserID s) (sub_PlanID s)))))"

definition ExpireSubscription :: "billing_env \<Rightarrow> string \<Rightarrow> db \<Rightarrow> unit outcome" where
  "ExpireSubscription env subID = run_notify env
     (tx_bind (change_sub env subID (Expire (env_uuid env 0) (env_now env))) (\<lambda>(_, s).
      tx_return (Some (ExpiredPost (sub_ID s) (sub_UserID s) (sub_PlanID s)))))"

definition DowngradeSubscription :: "billing_env \<Rightarrow> string \<Rightarrow> string \<Rightarrow> db \<Rightarrow> unit outcome" where
  "DowngradeSubscription env subID newPlanID = run_notify env
     (tx_bind (change_sub env subID (Downgrade (env_uuid env 0) newPlanID (env_now env))) (\<lambda>(old, s).
      tx_return (Some (DowngradedPost (sub_ID s) (sub_UserID s) (sub_PlanID old) newPlanID))))"

definition RemoveSubscriptionAddon :: "billing_env \<Rightarrow> string \<Rightarrow> string \<Rightarrow> db \<Rightarrow> unit outcome" where
  "RemoveSubscriptionAddon env subID addonID = run_notify env
     (tx_bind (change_sub env subID (RemoveAddon (env_uuid env 0) addonID (env_now env))) (\<lambda>_.
      tx_return None))"

definition add_addon_body :: "billing_env \<Rightarrow> string \<Rightarrow> string \<Rightarrow> async_payload option billing_tx" where
  "add_addon_body env subID addonID =
    tx_bind (get_sub env subID) (\<lambda>s.
     tx_bind (get_plan env ''get plan'' (sub_PlanID s)) (\<lambda>p.
     tx_bind (tx_lift (AddAddon (env_uuid env 0) addonID (NewAddonSpec p) (env_now env) s)) (\<lambda>s.
     tx_bind (update_sub env s) (\<lambda>_.
     tx_bind (publish env ''publish subscription'' s) (\<lambda>_.
     tx_return None)))))"

definition AddSubscriptionAddon :: "billing_env \<Rightarrow> string \<Rightarrow> string \<Rightarrow> db \<Rightarrow> unit outcome" where
  "AddSubscriptionAddon env subID addonID = run_notify env (add_addon_body env subID addonID)"

text \<open>
  \<open>applyRenewalHookOverrides\<close>: a rejected modification is logged and dropped. The invoice is
  the one just built, so its identifier for the event is the fourth drawn.
\<close>

definition renewalHookOverrideReason :: string where
  "renewalHookOverrideReason = ''renewal hook override''"

definition applyRenewalHookOverrides ::
    "uuid \<Rightarrow> renewing_response option \<Rightarrow> time \<Rightarrow> invoice \<Rightarrow> invoice" where
  "applyRenewalHookOverrides eid resp now iv =
     (case resp of
        None \<Rightarrow> iv
      | Some r \<Rightarrow>
          let subtotal = rr_PriceOverride r;
              disc = (case rr_DiscountPercent r of None \<Rightarrow> None
                      | Some pct \<Rightarrow> Some (Amount (PercentOf (inv_Subtotal iv) pct RoundFloor)))
          in if subtotal = None \<and> disc = None then iv
             else case ApplyPricingModification eid subtotal disc renewalHookOverrideReason now iv of
               Inl _ \<Rightarrow> iv
             | Inr iv' \<Rightarrow> iv')"

definition pending_plan_active :: "billing_env \<Rightarrow> subscription \<Rightarrow> bool billing_tx" where
  "pending_plan_active env s =
     (if pc_IsZero (sub_PendingChange s) then tx_return True
      else tx_bind (get_plan env ''load pending plan'' (pc_PlanID (sub_PendingChange s)))
             (\<lambda>p. tx_return (plan_IsActive p)))"

definition renew_hook :: "billing_env \<Rightarrow> subscription \<Rightarrow> renewing_response option" where
  "renew_hook env s = (case be_renewHook env of None \<Rightarrow> None
     | Some hook \<Rightarrow> hook \<lparr>rp_SubscriptionID = sub_ID s, rp_UserID = sub_UserID s, rp_PlanID = sub_PlanID s,
                        rp_CurrentPeriod = format_day (bp_End (sub_Period s))\<rparr>)"

definition renew_body :: "billing_env \<Rightarrow> string \<Rightarrow> async_payload option billing_tx" where
  "renew_body env subID =
    tx_bind (get_sub env subID) (\<lambda>s.
     let renewResp = renew_hook env s in
     tx_bind (pending_plan_active env s) (\<lambda>pendingPlanActive.
     tx_bind (tx_lift (Renew (env_uuid env 0) (env_now env) pendingPlanActive s)) (\<lambda>s.
     tx_bind (update_sub env s) (\<lambda>_.
     tx_bind (get_plan env ''get plan for renewal invoice'' (sub_PlanID s)) (\<lambda>p.
     tx_bind (tx_lift (NewInvoice (env_uuid env 1) (env_uuid env 2) (sub_ID s) (sub_UserID s)
                        (buildLineItems p (sub_AddonIDs s)) [] (Currency (plan_BasePrice p)) (env_now env))) (\<lambda>iv0.
     let iv = applyRenewalHookOverrides (env_uuid env 3) renewResp (env_now env) iv0 in
     tx_bind (create_inv env iv) (\<lambda>_.
     tx_bind (publish env ''publish subscription'' s) (\<lambda>_.
     tx_bind (publish env ''publish invoice'' iv) (\<lambda>_.
     tx_return (Some (RenewedPost (sub_ID s) (sub_UserID s) (sub_PlanID s))))))))))))"

definition RenewSubscription :: "billing_env \<Rightarrow> string \<Rightarrow> db \<Rightarrow> unit outcome" where
  "RenewSubscription env subID = run_notify env (renew_body env subID)"

definition upgrade_hook :: "billing_env \<Rightarrow> subscription \<Rightarrow> string \<Rightarrow> money \<Rightarrow> money" where
  "upgrade_hook env s newPlanID credit =
     (case be_upgradeHook env of None \<Rightarrow> credit
      | Some hook \<Rightarrow>
          (case hook \<lparr>up_SubscriptionID = sub_ID s, up_UserID = sub_UserID s,
                      up_FromPlanID = sub_PlanID s, up_ToPlanID = newPlanID,
                      up_ProrationCredit = Amount credit\<rparr> of
             Some (Some ov) \<Rightarrow> NewMoney ov (Currency credit)
           | _ \<Rightarrow> credit))"

text \<open>The prorated invoice of an upgrade, made only for a positive cost.\<close>

definition upgrade_invoice :: "billing_env \<Rightarrow> plan \<Rightarrow> subscription \<Rightarrow> money \<Rightarrow> unit billing_tx" where
  "upgrade_invoice env newPlan s cost =
     (if IsPositive cost then
        tx_bind (tx_lift (NewInvoice (env_uuid env 1) (env_uuid env 2) (sub_ID s) (sub_UserID s)
                   [NewLineItem (plan_Name newPlan) LineItemPlan cost lineItemQuantityOne] []
                   (Currency cost) (env_now env))) (\<lambda>iv.
        tx_bind (create_inv env iv) (\<lambda>_.
        tx_bind (publish env ''publish invoice'' iv) (\<lambda>_.
        tx_return ())))
      else tx_return ())"

definition upgrade_body :: "billing_env \<Rightarrow> string \<Rightarrow> string \<Rightarrow> async_payload option billing_tx" where
  "upgrade_body env subID newPlanID =
    tx_bind (get_sub env subID) (\<lambda>s0.
     tx_bind (get_plan env ''get current plan'' (sub_PlanID s0)) (\<lambda>currentPlan.
     tx_bind (get_plan env ''get new plan'' newPlanID) (\<lambda>newPlan.
     let now = env_now env;
         credit0 = CalculateUpgradeCredit currentPlan (sub_Period s0) now;
         credit = upgrade_hook env s0 newPlanID credit0;
         spec = \<lparr>us_FromPlanTier = plan_Tier currentPlan, us_ToPlanTier = plan_Tier newPlan,
                 us_ToPlanActive = plan_IsActive newPlan\<rparr> in
     tx_bind (tx_lift (Upgrade (env_uuid env 0) newPlanID (NewBillingPeriod now (plan_Interval newPlan)) spec now s0)) (\<lambda>s.
     tx_bind (update_sub env s) (\<lambda>_.
     tx_bind (tx_lift (CalculateUpgradeCost newPlan (sub_Period s) now credit)) (\<lambda>cost.
     tx_bind (upgrade_invoice env newPlan s cost) (\<lambda>_.
     tx_bind (publish env ''publish subscription'' s) (\<lambda>_.
     tx_return (Some (UpgradedPost (sub_ID s) (sub_UserID s) (sub_PlanID s0) newPlanID))))))))))"

definition UpgradeSubscription :: "billing_env \<Rightarrow> string \<Rightarrow> string \<Rightarrow> db \<Rightarrow> unit outcome" where
  "UpgradeSubscription env subID newPlanID = run_notify env (upgrade_body env subID newPlanID)"

section \<open>Family members (family_service.go)\<close>

definition get_group :: "billing_env \<Rightarrow> string \<Rightarrow> db \<Rightarrow> billing_error + family_group" where
  "get_group env owner d =
     (if env_fault env ''get family group'' then Inl (ErrStorage ''get family group'') else GetByOwnerID owner d)"

definition create_group :: "billing_env \<Rightarrow> family_group \<Rightarrow> unit billing_tx" where
  "create_group env fg = db_call env ''create family group'' (tx_write (family_Create fg))"

definition update_group :: "billing_env \<Rightarrow> family_group \<Rightarrow> unit billing_tx" where
  "update_group env fg = db_call env ''update family group'' (tx_write (\<lambda>d. Inr (family_Update (env_dbnow env) fg d)))"

text \<open>Reads outside the transaction see the same committed state; \<open>[]\<close> is: no hook.\<close>

definition silent :: "(billing_error + 'a) \<times> db \<Rightarrow> 'a outcome" where
  "silent r = (fst r, snd r, [])"

definition find_or_create_group :: "billing_env \<Rightarrow> subscription \<Rightarrow> plan \<Rightarrow> family_group billing_tx" where
  "find_or_create_group env s p d =
     (case get_group env (sub_UserID s) d of
        Inr fg \<Rightarrow> Inr (fg, d)
      | Inl e \<Rightarrow>
          if e \<noteq> ErrFamilyGroupNotFound then Inl e
          else tx_bind (tx_lift (NewFamilyGroup (env_uuid env 0) (env_uuid env 1) (sub_UserID s)
                                   (plan_MaxFamilyMembers p) (env_now env))) (\<lambda>fg.
               tx_bind (create_group env fg) (\<lambda>_. tx_return fg)) d)"

definition add_member_body :: "billing_env \<Rightarrow> subscription \<Rightarrow> plan \<Rightarrow> string \<Rightarrow> string \<Rightarrow> unit billing_tx" where
  "add_member_body env s p memberUserID nickname =
         tx_bind (find_or_create_group env s p) (\<lambda>fg.
          tx_bind (tx_lift (fe_Check \<lparr>fe_Plan = p, fe_MemberCount = MemberCount fg\<rparr>)) (\<lambda>_.
          tx_bind (tx_lift (AddMember (env_uuid env 2) memberUserID nickname (env_now env) fg)) (\<lambda>fg.
          tx_bind (update_group env fg) (\<lambda>_.
          tx_bind (publish env ''publish family group'' fg) (\<lambda>_.
          tx_return ())))))"

definition AddFamilyMember :: "billing_env \<Rightarrow> string \<Rightarrow> string \<Rightarrow> string \<Rightarrow> db \<Rightarrow> unit outcome" where
  "AddFamilyMember env subID memberUserID nickname d =
     (case (if env_fault env ''get subscription'' then Inl (ErrStorage ''get subscription'') else sub_GetByID subID d) of
        Inl e \<Rightarrow> (Inl e, d, [])
      | Inr s \<Rightarrow>
     (case (if env_fault env ''get plan'' then Inl (ErrStorage ''get plan'') else plan_GetByID (sub_PlanID s) d) of
        Inl e \<Rightarrow> (Inl e, d, [])
      | Inr p \<Rightarrow> silent (RunInTx ErrStorage env
         (add_member_body env s p memberUserID nickname) d)))"

definition remove_member_body :: "billing_env \<Rightarrow> subscription \<Rightarrow> string \<Rightarrow> unit billing_tx" where
  "remove_member_body env s memberUserID =
         tx_bind (tx_read (get_group env (sub_UserID s))) (\<lambda>fg.
          tx_bind (tx_lift (RemoveMember (env_uuid env 0) memberUserID (env_now env) fg)) (\<lambda>fg.
          tx_bind (update_group env fg) (\<lambda>_.
          tx_bind (publish env ''publish family group'' fg) (\<lambda>_.
          tx_return ()))))"

definition RemoveFamilyMember :: "billing_env \<Rightarrow> string \<Rightarrow> string \<Rightarrow> db \<Rightarrow> unit outcome" where
  "RemoveFamilyMember env subID memberUserID d =
     (case (if env_fault env ''get subscription'' then Inl (ErrStorage ''get subscription'') else sub_GetByID subID d) of
        Inl e \<Rightarrow> (Inl e, d, [])
      | Inr s \<Rightarrow> silent (RunInTx ErrStorage env
         (remove_member_body env s memberUserID) d))"

end
