(* ===== verification/BillingInvariant.thy ===== *)
theory BillingInvariant
  imports BillingService
begin

text \<open>
  What every sequence of billing commands keeps: a failed command changes nothing, stored
  aggregates satisfy their invariants, a stored subscription moves along the status table, its
  owner and plan columns never change, and the outbox only grows.
\<close>

section \<open>Commands\<close>

datatype billing_cmd =
  CmdCreate create_cmd | CmdCancel string "string option" | CmdPay string | CmdPause string
| CmdResume string | CmdRenew string | CmdUpgrade string string | CmdDowngrade string string
| CmdExpire string | CmdAddAddon string string | CmdRemoveAddon string string
| CmdAddMember string string string | CmdRemoveMember string string

definition forget :: "(billing_error + 'a) \<times> db \<Rightarrow> unit outcome" where
  "forget r = (case fst r of Inl e \<Rightarrow> Inl e | Inr _ \<Rightarrow> Inr (), snd r, [])"

fun exec :: "billing_env \<Rightarrow> billing_cmd \<Rightarrow> db \<Rightarrow> unit outcome" where
  "exec env (CmdCreate c) d = forget (CreateSubscription env c d)"
| "exec env (CmdCancel i r) d = CancelSubscription env i r d"
| "exec env (CmdPay i) d = PayInvoice env i d"
| "exec env (CmdPause i) d = PauseSubscription env i d"
| "exec env (CmdResume i) d = ResumeSubscription env i d"
| "exec env (CmdRenew i) d = RenewSubscription env i d"
| "exec env (CmdUpgrade i p) d = UpgradeSubscription env i p d"
| "exec env (CmdDowngrade i p) d = DowngradeSubscription env i p d"
| "exec env (CmdExpire i) d = ExpireSubscription env i d"
| "exec env (CmdAddAddon i a) d = AddSubscriptionAddon env i a d"
| "exec env (CmdRemoveAddon i a) d = RemoveSubscriptionAddon env i a d"
| "exec env (CmdAddMember i u n) d = AddFamilyMember env i u n d"
| "exec env (CmdRemoveMember i u) d = RemoveFamilyMember env i u d"

text \<open>A history: commands one after another, each with its own environment.\<close>

fun exec_all :: "(billing_env \<times> billing_cmd) list \<Rightarrow> db \<Rightarrow> db" where
  "exec_all [] d = d"
| "exec_all ((env, c) # cs) d = exec_all cs (fst (snd (exec env c d)))"

definition db_after :: "'a outcome \<Rightarrow> db" where "db_after r = fst (snd r)"

lemma run_notify_db: "db_after (run_notify env body d) = snd (RunInTx ErrStorage env body d)"
  by (auto simp: run_notify_def db_after_def split: prod.split sum.split option.split)

lemma run_notify_error: "run_notify env body d = (Inl e, d', ns) \<Longrightarrow> d' = d \<and> ns = []"
  by (auto simp: run_notify_def dest: RunInTx_error split: prod.splits sum.splits option.splits)

lemma run_notify_ok:
  "run_notify env body d = (Inr u, d', ns) \<Longrightarrow>
     \<exists>p. body d = Inr (p, d') \<and> ns = (case p of None \<Rightarrow> [] | Some q \<Rightarrow> dispatchAsync env q)"
  by (auto simp: run_notify_def RunInTx_ok_iff split: prod.splits sum.splits option.splits)

text \<open>A command that fails leaves the database as it was and dispatches nothing.\<close>

lemmas lifecycle_defs = CancelSubscription_def PayInvoice_def PauseSubscription_def ResumeSubscription_def
  RenewSubscription_def UpgradeSubscription_def DowngradeSubscription_def ExpireSubscription_def
  AddSubscriptionAddon_def RemoveSubscriptionAddon_def

lemma silent_error: "silent (RunInTx mk env fn d) = (Inl e, d', ns) \<Longrightarrow> d' = d \<and> ns = []"
  by (cases "RunInTx mk env fn d") (auto simp: silent_def dest: RunInTx_error)

lemma family_error:
  "AddFamilyMember env i u n d = (Inl e, d', ns) \<Longrightarrow> d' = d \<and> ns = []"
  "RemoveFamilyMember env i u d = (Inl e, d', ns) \<Longrightarrow> d' = d \<and> ns = []"
  unfolding AddFamilyMember_def RemoveFamilyMember_def
  by (auto dest: silent_error split: sum.splits if_splits)

lemma exec_error: "exec env c d = (Inl e, d', ns) \<Longrightarrow> d' = d \<and> ns = []"
proof (cases c)
  case (CmdCreate x)
  assume "exec env c d = (Inl e, d', ns)"
  then show ?thesis
    unfolding CmdCreate
    by (cases "CreateSubscription env x d")
       (auto simp: forget_def CreateSubscription_def dest: RunInTx_error split: sum.splits)
qed (auto simp: lifecycle_defs dest: run_notify_error family_error)

section \<open>Invariant properties of bodies\<close>

text \<open>
  A database property survives a command when it survives the body of its transaction.
\<close>

definition body_keeps :: "(db \<Rightarrow> bool) \<Rightarrow> 'a billing_tx \<Rightarrow> bool" where
  "body_keeps I m \<longleftrightarrow> tx_post I m (\<lambda>_. True)"

lemma run_notify_keeps: "body_keeps I m \<Longrightarrow> I d \<Longrightarrow> I (fst (snd (run_notify env m d)))"
  using RunInTx_post [of I m "\<lambda>_. True" d] run_notify_db [of env m d]
  by (simp add: body_keeps_def db_after_def)

lemma silent_keeps: "body_keeps I m \<Longrightarrow> I d \<Longrightarrow> I (fst (snd (silent (RunInTx mk env m d))))"
  using RunInTx_post [of I m "\<lambda>_. True" d] by (simp add: body_keeps_def silent_def)

lemma step_names:
  "Pause e t = sub_step (OpPause e t)" "Resume e t = sub_step (OpResume e t)"
  "Expire e t = sub_step (OpExpire e t)" "Downgrade e p t = sub_step (OpDowngrade e p t)"
  "RemoveAddon e p t = sub_step (OpRemoveAddon e p t)"
  by (simp_all add: fun_eq_iff)

lemma change_then_return:
  "body_keeps I (change_sub env i step) \<Longrightarrow>
     body_keeps I (tx_bind (change_sub env i step) (\<lambda>(a, b). tx_return (f a b)))"
  unfolding body_keeps_def by (erule post_bind) (auto intro: post_return split: prod.split)

lemma change_then_return1:
  "body_keeps I (change_sub env i step) \<Longrightarrow>
     body_keeps I (tx_bind (change_sub env i step) (\<lambda>_. tx_return v))"
  unfolding body_keeps_def by (erule post_bind) (auto intro: post_return)

lemmas command_bodies = PauseSubscription_def [unfolded step_names] ResumeSubscription_def [unfolded step_names]
  ExpireSubscription_def [unfolded step_names] DowngradeSubscription_def [unfolded step_names]
  RemoveSubscriptionAddon_def [unfolded step_names] CancelSubscription_def PayInvoice_def
  RenewSubscription_def UpgradeSubscription_def AddSubscriptionAddon_def

lemma exec_keeps:
  assumes bodies: "\<And>x. body_keeps I (create_body env x)" "\<And>i r. body_keeps I (cancel_body env i r)"
    "\<And>i. body_keeps I (pay_body env i)" "\<And>i. body_keeps I (renew_body env i)"
    "\<And>i p. body_keeps I (upgrade_body env i p)" "\<And>i a. body_keeps I (add_addon_body env i a)"
    "\<And>s p u n. body_keeps I (add_member_body env s p u n)"
    "\<And>s u. body_keeps I (remove_member_body env s u)"
    and changes: "\<And>i x. op_period_ok x \<Longrightarrow> body_keeps I (change_sub env i (sub_step x))"
    and init: "I d"
  shows "I (fst (snd (exec env c d)))"
proof (cases c)
  case (CmdCreate x)
  then show ?thesis
    using RunInTx_post [OF bodies(1) [of x, unfolded body_keeps_def] init]
    by (simp add: forget_def CreateSubscription_def)
next
  case (CmdAddMember i u n)
  then show ?thesis
    using init silent_keeps [OF bodies(7) init] by (auto simp: AddFamilyMember_def split: sum.split)
next
  case (CmdRemoveMember i u)
  then show ?thesis
    using init silent_keeps [OF bodies(8) init] by (auto simp: RemoveFamilyMember_def split: sum.split)
qed (simp_all add: command_bodies init bodies changes run_notify_keeps change_then_return change_then_return1)

lemma exec_all_keeps:
  assumes "\<And>env c d. I d \<Longrightarrow> I (fst (snd (exec env c d)))" "I d"
  shows "I (exec_all cs d)"
  using assms(2) by (induction cs d rule: exec_all.induct) (auto intro: assms(1))

section \<open>Frames\<close>

text \<open>Each repository writes its own tables.\<close>

lemma sub_frames [simp]:
  "sub_GetByID k (inv_Update t i d) = sub_GetByID k d"
  "sub_GetByID k (family_Update t g d) = sub_GetByID k d"
  "sub_GetByID k (d\<lparr>db_outbox := es\<rparr>) = sub_GetByID k d"
  "subs_wf (inv_Update t i d) = subs_wf d" "subs_wf (family_Update t g d) = subs_wf d"
  "subs_wf (d\<lparr>db_outbox := es\<rparr>) = subs_wf d"
  by (simp_all add: sub_GetByID_def subs_wf_def inv_Update_def family_Update_def)

lemma inv_frames [simp]:
  "inv_GetByID k (sub_Update t s d) = inv_GetByID k d"
  "inv_GetByID k (family_Update t g d) = inv_GetByID k d"
  "inv_GetByID k (d\<lparr>db_outbox := es\<rparr>) = inv_GetByID k d"
  "invs_wf (sub_Update t s d) = invs_wf d" "invs_wf (family_Update t g d) = invs_wf d"
  "invs_wf (d\<lparr>db_outbox := es\<rparr>) = invs_wf d"
  by (simp_all add: inv_GetByID_def loadLineItems_def invs_wf_def sub_Update_def family_Update_def)

lemma table_frames [simp]:
  "sub_GetByID k (d\<lparr>db_invoices := ti, db_lines := tls\<rparr>) = sub_GetByID k d"
  "subs_wf (d\<lparr>db_invoices := ti, db_lines := tls\<rparr>) = subs_wf d"
  "sub_GetByID k (d\<lparr>db_groups := tg, db_members := tms\<rparr>) = sub_GetByID k d"
  "subs_wf (d\<lparr>db_groups := tg, db_members := tms\<rparr>) = subs_wf d"
  "inv_GetByID k (d\<lparr>db_subs := ts\<rparr>) = inv_GetByID k d"
  "invs_wf (d\<lparr>db_subs := ts\<rparr>) = invs_wf d"
  "inv_GetByID k (d\<lparr>db_groups := tg, db_members := tms\<rparr>) = inv_GetByID k d"
  "invs_wf (d\<lparr>db_groups := tg, db_members := tms\<rparr>) = invs_wf d"
  by (simp_all add: sub_GetByID_def subs_wf_def inv_GetByID_def loadLineItems_def invs_wf_def)

lemma inv_Create_shape: "inv_Create i d = Inr d' \<Longrightarrow> \<exists>ti tls. d' = d\<lparr>db_invoices := ti, db_lines := tls\<rparr>"
  by (auto simp: inv_Create_def)

lemma sub_Create_shape: "sub_Create s d = Inr d' \<Longrightarrow> \<exists>ts. d' = d\<lparr>db_subs := ts\<rparr>"
  by (auto simp: sub_Create_def)

lemma family_Create_shape: "family_Create g d = Inr d' \<Longrightarrow> \<exists>tg tms. d' = d\<lparr>db_groups := tg, db_members := tms\<rparr>"
  unfolding family_Create_def by (split if_split_asm) auto

lemma create_frames:
  "inv_Create i d = Inr d' \<Longrightarrow> sub_GetByID k d' = sub_GetByID k d \<and> subs_wf d' = subs_wf d \<and> db_outbox d' = db_outbox d"
  "sub_Create s d = Inr d' \<Longrightarrow> inv_GetByID k d' = inv_GetByID k d \<and> invs_wf d' = invs_wf d \<and> db_outbox d' = db_outbox d"
  "family_Create g d = Inr d' \<Longrightarrow> sub_GetByID k d' = sub_GetByID k d \<and> subs_wf d' = subs_wf d
     \<and> inv_GetByID k d' = inv_GetByID k d \<and> invs_wf d' = invs_wf d \<and> db_outbox d' = db_outbox d"
  by (auto dest!: inv_Create_shape sub_Create_shape family_Create_shape)

lemma outbox_frames [simp]:
  "db_outbox (sub_Update t s d) = db_outbox d" "db_outbox (inv_Update t i d) = db_outbox d"
  "db_outbox (family_Update t g d) = db_outbox d"
  by (simp_all add: sub_Update_def inv_Update_def family_Update_def)

lemma publish_ok:
  "publish env l src d = Inr (src', d') \<longleftrightarrow>
     src' = snd (DomainEvents src)
     \<and> (if rec_events src = [] then d' = d
        else \<not> env_fault env l \<and> d' = d\<lparr>db_outbox := db_outbox d @ map (with_trace (env_trace env)) (rec_events src)\<rparr>)"
  by (auto simp: publish_def PublishAll_def DomainEvents_def PublishBatch_def Let_def)

lemma publish_outbox:
  "publish env l src d = Inr (src', d') \<Longrightarrow>
     d' = d\<lparr>db_outbox := db_outbox d @ map (with_trace (env_trace env)) (rec_events src)\<rparr>"
  by (auto simp: publish_ok split: if_splits)

section \<open>Stored aggregates satisfy their invariants\<close>

definition db_inv :: "db \<Rightarrow> bool" where
  "db_inv d \<longleftrightarrow> subs_wf d \<and> invs_wf d
     \<and> (\<forall>k s. sub_GetByID k d = Inr s \<longrightarrow> sub_inv s)
     \<and> (\<forall>k i. inv_GetByID k d = Inr i \<longrightarrow> invoice_inv i)"

lemmas body_call_defs = db_call_def get_sub_def update_sub_def create_sub_def get_plan_def get_inv_def
  update_inv_def create_inv_def

lemma db_inv_get_sub: "tx_post db_inv (get_sub env i) sub_inv"
  unfolding get_sub_def db_call_def by (intro post_call post_read) (auto simp: db_inv_def)

lemma db_inv_get_inv: "tx_post db_inv (get_inv env i) invoice_inv"
  unfolding get_inv_def db_call_def by (intro post_call post_read) (auto simp: db_inv_def)

lemma db_invI:
  assumes "subs_wf d" "invs_wf d" "\<And>k s. sub_GetByID k d = Inr s \<Longrightarrow> sub_inv s"
    "\<And>k i. inv_GetByID k d = Inr i \<Longrightarrow> invoice_inv i"
  shows "db_inv d"
  using assms by (simp add: db_inv_def)

lemma db_invD:
  assumes "db_inv d"
  shows "subs_wf d" "invs_wf d" "sub_GetByID k d = Inr s \<Longrightarrow> sub_inv s"
    "inv_GetByID k d = Inr i \<Longrightarrow> invoice_inv i"
  using assms by (simp_all add: db_inv_def)

lemma sub_Update_inv:
  assumes d: "db_inv d" and s: "sub_inv s"
  shows "db_inv (sub_Update t s d)"
proof (rule db_invI)
  fix k c
  assume c: "sub_GetByID k (sub_Update t s d) = Inr c"
  show "sub_inv c"
  proof (cases "sub_GetByID (sub_ID s) d")
    case (Inl e)
    from c [unfolded sub_repo.update_absent [OF Inl]] show ?thesis by (rule db_invD(3) [OF d])
  next
    case (Inr old)
    show ?thesis
      by (rule sub_repo.update_all [OF _ Inr _ c])
         (simp_all add: db_invD(3) [OF d] db_invD(3) [OF d Inr] s sub_merge_inv)
  qed
qed (simp_all add: db_invD(1,2) [OF d] sub_repo.wf_update db_invD(4) [OF d])

lemma inv_Update_inv:
  assumes d: "db_inv d" and i: "invoice_inv i"
  shows "db_inv (inv_Update t i d)"
proof (rule db_invI)
  fix k c
  assume c: "inv_GetByID k (inv_Update t i d) = Inr c"
  show "invoice_inv c"
  proof (cases "inv_GetByID (inv_ID i) d")
    case (Inl e)
    from c [unfolded inv_repo.update_absent [OF Inl]] show ?thesis by (rule db_invD(4) [OF d])
  next
    case (Inr old)
    show ?thesis
      by (rule inv_repo.update_all [OF _ Inr _ c])
         (simp_all add: db_invD(4) [OF d] db_invD(4) [OF d Inr] i inv_merge_inv)
  qed
qed (simp_all add: db_invD(1,2) [OF d] inv_repo.wf_update db_invD(3) [OF d])

lemma sub_Create_inv:
  assumes d: "db_inv d" and s: "sub_inv s" and cr: "sub_Create s d = Inr d'"
  shows "db_inv d'"
proof (rule db_invI)
  fix k c
  assume c: "sub_GetByID k d' = Inr c"
  show "sub_inv c"
    by (rule sub_repo.create_all [OF _ db_invD(1) [OF d] cr _ c])
       (simp_all add: db_invD(3) [OF d] s sub_stored_inv)
next
  show "subs_wf d'" using db_invD(1) [OF d] cr by (rule sub_repo.wf_create)
qed (simp_all add: create_frames(2) [OF cr] db_invD(2) [OF d] db_invD(4) [OF d])

lemma inv_Create_inv:
  assumes d: "db_inv d" and i: "invoice_inv i" and cr: "inv_Create i d = Inr d'"
  shows "db_inv d'"
proof (rule db_invI)
  fix k c
  assume c: "inv_GetByID k d' = Inr c"
  show "invoice_inv c"
    by (rule inv_repo.create_all [OF _ db_invD(2) [OF d] cr _ c])
       (simp_all add: db_invD(4) [OF d] i inv_stored_inv)
next
  show "invs_wf d'" using db_invD(2) [OF d] cr by (rule inv_repo.wf_create)
qed (simp_all add: create_frames(1) [OF cr] db_invD(1) [OF d] db_invD(3) [OF d])

lemma db_inv_writes:
  "sub_inv s \<Longrightarrow> tx_post db_inv (update_sub env s) (\<lambda>_. True)"
  "sub_inv s \<Longrightarrow> tx_post db_inv (create_sub env s) (\<lambda>_. True)"
  "invoice_inv i \<Longrightarrow> tx_post db_inv (update_inv env i) (\<lambda>_. True)"
  "invoice_inv i \<Longrightarrow> tx_post db_inv (create_inv env i) (\<lambda>_. True)"
  by (auto simp: update_sub_def create_sub_def update_inv_def create_inv_def db_call_def
      intro!: post_call post_write intro: sub_Update_inv sub_Create_inv inv_Update_inv inv_Create_inv)

lemma db_inv_publish: "tx_post db_inv (publish env l src) (\<lambda>_. True)"
  by (rule tx_postI) (auto dest!: publish_outbox simp: db_inv_def)

lemma post_get_plan: "tx_post I (get_plan env l i) (\<lambda>_. True)"
  by (auto simp: get_plan_def db_call_def tx_post_def)

lemma db_inv_groups:
  "tx_post db_inv (create_group env g) (\<lambda>_. True)" "tx_post db_inv (update_group env g) (\<lambda>_. True)"
  by (auto simp: create_group_def update_group_def db_call_def db_inv_def dest!: family_Create_shape
      intro!: post_call post_write)

text \<open>Values produced by the aggregates.\<close>

lemma Cancel_inv: "sub_inv s \<Longrightarrow> Cancel e r t s = Inr s' \<Longrightarrow> sub_inv s'"
  by (rule status_op_inv)

lemma Activate_inv: "sub_inv s \<Longrightarrow> Activate e t s = Inr s' \<Longrightarrow> sub_inv s'"
  by (rule status_op_inv)

lemma AddAddon_inv: "sub_inv s \<Longrightarrow> AddAddon e a sp t s = Inr s' \<Longrightarrow> sub_inv s'"
  using sub_step_inv [of s "OpAddAddon e a sp t"] by simp

lemma Renew_inv: "sub_inv s \<Longrightarrow> Renew e t b s = Inr s' \<Longrightarrow> sub_inv s'"
  using sub_step_inv [of s "OpRenew e t b"] by simp

lemma Upgrade_inv: "sub_inv s \<Longrightarrow> Upgrade e p (NewBillingPeriod t i) sp t s = Inr s' \<Longrightarrow> sub_inv s'"
  using sub_step_inv [of s "OpUpgrade e p (NewBillingPeriod t i) sp t"] by (simp add: addInterval_after)

lemma MarkPaid_inv: "invoice_inv i \<Longrightarrow> MarkPaid e t i = Inr j \<Longrightarrow> invoice_inv j"
  using invoice_step_inv [of i "OpMarkPaid e t"] by simp

lemma MarkPending_inv: "invoice_inv i \<Longrightarrow> MarkPending t i = Inr j \<Longrightarrow> invoice_inv j"
  using invoice_step_inv [of i "OpMarkPending t"] by simp

lemma renewal_override_inv: "invoice_inv i \<Longrightarrow> invoice_inv (applyRenewalHookOverrides e r t i)"
  by (auto simp: applyRenewalHookOverrides_def Let_def ApplyPricingModification_inv
      split: option.split sum.split)

subsection \<open>Every body keeps the invariant\<close>

lemma db_inv_change_sub: "op_period_ok x \<Longrightarrow> body_keeps db_inv (change_sub env i (sub_step x))"
  unfolding body_keeps_def change_sub_def
  by (rule post_bind [OF db_inv_get_sub], rule post_bind [where Q = sub_inv], rule post_lift,
      erule sub_step_inv, assumption, assumption, rule post_bind_any, erule db_inv_writes,
      rule post_bind_any, rule db_inv_publish, rule post_return, simp)

lemma db_inv_create: "body_keeps db_inv (create_body env x)"
  unfolding body_keeps_def create_body_def
  apply (rule post_bind_any, rule post_get_plan, rule post_bind_any)
   apply (simp add: db_call_def tx_post_def)
  apply (rule post_bind_any, rule post_lift_any)
  apply (rule post_bind [where Q = sub_inv], rule post_lift, simp add: NewSubscription_inv)
  apply (rule post_bind [where Q = invoice_inv], rule post_lift, simp add: NewInvoice_inv)
  apply (rule post_bind_any, erule db_inv_writes, rule post_bind_any, erule db_inv_writes)
  apply (rule post_bind_any, rule db_inv_publish, rule post_return, simp)
  done

lemma db_inv_cancel: "body_keeps db_inv (cancel_body env i r)"
  unfolding body_keeps_def cancel_body_def
  apply (rule post_bind [OF db_inv_get_sub], rule post_bind_any, rule post_lift_any)
  apply (rule post_bind [where Q = sub_inv], rule post_lift, erule Cancel_inv, assumption)
  apply (rule post_bind_any, erule db_inv_writes, rule post_bind_any, rule db_inv_publish)
  apply (rule post_return, simp)
  done

lemma db_inv_activation: "tx_post db_inv (activate_paid env i) (\<lambda>_. True)"
  unfolding activate_paid_def
  apply (rule post_bind [OF db_inv_get_sub], rule post_if)
   apply (rule post_bind [where Q = sub_inv], rule post_lift, erule Activate_inv, assumption)
   apply (rule post_bind_any, erule db_inv_writes, rule post_bind_any, rule db_inv_publish)
   apply (rule post_return, simp)
  apply (rule post_return, simp)
  done

lemma db_inv_pay: "body_keeps db_inv (pay_body env i)"
  unfolding body_keeps_def pay_body_def
  apply (rule post_bind [OF db_inv_get_inv], rule post_bind_any, rule post_lift_any)
  apply (rule post_bind [where Q = invoice_inv], rule post_lift)
   apply (simp split: if_splits, erule MarkPending_inv, assumption)
  apply (rule post_bind [where Q = invoice_inv], rule post_lift, erule MarkPaid_inv, assumption)
  apply (rule post_bind_any, erule db_inv_writes, rule post_bind_any, rule db_inv_publish)
  apply (rule db_inv_activation)
  done

lemma db_inv_add_addon: "body_keeps db_inv (add_addon_body env i a)"
  unfolding body_keeps_def add_addon_body_def
  apply (rule post_bind [OF db_inv_get_sub], rule post_bind_any, rule post_get_plan)
  apply (rule post_bind [where Q = sub_inv], rule post_lift, erule AddAddon_inv, assumption)
  apply (rule post_bind_any, erule db_inv_writes, rule post_bind_any, rule db_inv_publish)
  apply (rule post_return, simp)
  done

lemma db_inv_pending: "tx_post db_inv (pending_plan_active env s) (\<lambda>_. True)"
  unfolding pending_plan_active_def
  by (rule post_if, rule post_return, simp, rule post_bind_any, rule post_get_plan, rule post_return, simp)

lemma db_inv_renew: "body_keeps db_inv (renew_body env i)"
  unfolding body_keeps_def renew_body_def Let_def
  apply (rule post_bind [OF db_inv_get_sub], rule post_bind_any, rule db_inv_pending)
  apply (rule post_bind [where Q = sub_inv], rule post_lift, erule Renew_inv, assumption)
  apply (rule post_bind_any, erule db_inv_writes, rule post_bind_any, rule post_get_plan)
  apply (rule post_bind [where Q = invoice_inv], rule post_lift, simp add: NewInvoice_inv)
  apply (rule post_bind_any, rule db_inv_writes, erule renewal_override_inv)
  apply (rule post_bind_any, rule db_inv_publish, rule post_bind_any, rule db_inv_publish)
  apply (rule post_return, simp)
  done

lemma db_inv_upgrade_invoice: "tx_post db_inv (upgrade_invoice env p s cost) (\<lambda>_. True)"
  unfolding upgrade_invoice_def
  apply (rule post_if, rule post_bind [where Q = invoice_inv], rule post_lift, simp add: NewInvoice_inv)
   apply (rule post_bind_any, erule db_inv_writes, rule post_bind_any, rule db_inv_publish)
   apply (rule post_return, simp)+
  done

lemma db_inv_upgrade: "body_keeps db_inv (upgrade_body env i p)"
  unfolding body_keeps_def upgrade_body_def Let_def
  apply (rule post_bind [OF db_inv_get_sub], rule post_bind_any, rule post_get_plan)
  apply (rule post_bind_any, rule post_get_plan)
  apply (rule post_bind [where Q = sub_inv], rule post_lift, erule Upgrade_inv, assumption)
  apply (rule post_bind_any, erule db_inv_writes, rule post_bind_any, rule post_lift_any)
  apply (rule post_bind_any, rule db_inv_upgrade_invoice)
  apply (rule post_bind_any, rule db_inv_publish, rule post_return, simp)
  done

lemma db_inv_find_group: "tx_post db_inv (find_or_create_group env s p) (\<lambda>_. True)"
proof (rule tx_postI)
  fix d fg d'
  let ?new = "\<lambda>fg. tx_bind (create_group env fg) (\<lambda>_. tx_return fg)"
  have mk: "tx_post db_inv (tx_bind (tx_lift ng) ?new) (\<lambda>_. True)" for ng
    by (rule post_bind_any, rule post_lift_any, rule post_bind_any, rule db_inv_groups, rule post_return, simp)
  assume "db_inv d" "find_or_create_group env s p d = Inr (fg, d')"
  then show "db_inv d' \<and> True"
    using tx_postD [OF mk, of d _ fg d']
    by (cases "get_group env (sub_UserID s) d") (auto simp: find_or_create_group_def split: if_splits)
qed

lemma db_inv_family:
  "body_keeps db_inv (add_member_body env s p u n)" "body_keeps db_inv (remove_member_body env s u)"
  unfolding body_keeps_def add_member_body_def remove_member_body_def
   apply (rule post_bind_any, rule db_inv_find_group, rule post_bind_any, rule post_lift_any)
   apply (rule post_bind_any, rule post_lift_any, rule post_bind_any, rule db_inv_groups)
   apply (rule post_bind_any, rule db_inv_publish, rule post_return, simp)
  apply (rule post_bind_any, simp add: tx_post_def, rule post_bind_any, rule post_lift_any)
  apply (rule post_bind_any, rule db_inv_groups, rule post_bind_any, rule db_inv_publish)
  apply (rule post_return, simp)
  done

lemma exec_db_inv: "db_inv d \<Longrightarrow> db_inv (fst (snd (exec env c d)))"
  by (rule exec_keeps)
     (simp_all add: db_inv_create db_inv_cancel db_inv_pay db_inv_renew db_inv_upgrade db_inv_add_addon
        db_inv_family db_inv_change_sub)

lemma exec_all_db_inv: "db_inv d \<Longrightarrow> db_inv (exec_all cs d)"
  by (rule exec_all_keeps) (rule exec_db_inv)

section \<open>Every command is at most one step of one subscription\<close>

text \<open>
  The effect of a command on the stored subscriptions: none, one operation of the aggregate
  written over the stored one, or one new subscription.
\<close>

definition same_subs :: "db \<Rightarrow> db \<Rightarrow> bool" where
  "same_subs d d' \<longleftrightarrow> (\<forall>k. sub_GetByID k d' = sub_GetByID k d)"

definition sub_stepped :: "db \<Rightarrow> db \<Rightarrow> bool" where
  "sub_stepped d d' \<longleftrightarrow> (\<exists>t x old s. op_period_ok x \<and> sub_GetByID (sub_ID old) d = Inr old
     \<and> sub_step x old = Inr s \<and> same_subs (sub_Update t s d) d')"

definition sub_created :: "db \<Rightarrow> db \<Rightarrow> bool" where
  "sub_created d d' \<longleftrightarrow> (\<exists>sid eid u p i as t s d0. NewSubscription sid eid u p i as t = Inr s
     \<and> sub_Create s d = Inr d0 \<and> same_subs d0 d')"

definition sub_effect :: "db \<Rightarrow> db \<Rightarrow> bool" where
  "sub_effect d d' \<longleftrightarrow> same_subs d d' \<or> sub_stepped d d' \<or> sub_created d d'"

lemma same_subs_refl [simp]: "same_subs d d"
  by (simp add: same_subs_def)

lemma same_subs_trans: "same_subs d d' \<Longrightarrow> same_subs d' d'' \<Longrightarrow> same_subs d d''"
  by (simp add: same_subs_def)

lemma call_iffs [simp]:
  "get_sub env i d = Inr (s, d') \<longleftrightarrow> \<not> env_fault env ''get subscription'' \<and> sub_GetByID i d = Inr s \<and> d' = d"
  "update_sub env s d = Inr (u, d') \<longleftrightarrow>
     \<not> env_fault env ''update subscription'' \<and> d' = sub_Update (env_dbnow env) s d"
  "create_sub env s d = Inr (u, d') \<longleftrightarrow> \<not> env_fault env ''persist subscription'' \<and> sub_Create s d = Inr d'"
  "get_plan env l i d = Inr (p, d') \<longleftrightarrow> \<not> env_fault env l \<and> plan_GetByID i d = Inr p \<and> d' = d"
  "get_inv env i d = Inr (v, d') \<longleftrightarrow> \<not> env_fault env ''get invoice'' \<and> inv_GetByID i d = Inr v \<and> d' = d"
  "update_inv env v d = Inr (u, d') \<longleftrightarrow>
     \<not> env_fault env ''update invoice'' \<and> d' = inv_Update (env_dbnow env) v d"
  "create_inv env v d = Inr (u, d') \<longleftrightarrow> \<not> env_fault env ''persist invoice'' \<and> inv_Create v d = Inr d'"
  "update_group env g d = Inr (u, d') \<longleftrightarrow>
     \<not> env_fault env ''update family group'' \<and> d' = family_Update (env_dbnow env) g d"
  "create_group env g d = Inr (u, d') \<longleftrightarrow> \<not> env_fault env ''create family group'' \<and> family_Create g d = Inr d'"
  by (auto simp: body_call_defs update_group_def create_group_def)

lemma same_publish: "publish env l src d = Inr (src', d') \<Longrightarrow> same_subs d d'"
  by (auto simp: same_subs_def dest!: publish_outbox)

lemma same_inv_Create: "inv_Create v d = Inr d' \<Longrightarrow> same_subs d d'"
  by (simp add: same_subs_def create_frames)

lemma same_family_Create: "family_Create g d = Inr d' \<Longrightarrow> same_subs d d'"
  by (simp add: same_subs_def create_frames)

lemma same_updates [simp]: "same_subs d (inv_Update t v d)" "same_subs d (family_Update t g d)"
  by (simp_all add: same_subs_def)

lemma sub_step_ID: "sub_step x old = Inr s \<Longrightarrow> sub_ID s = sub_ID old"
  by (rule sub_root.step_ident)

lemma sub_steppedI:
  "sub_GetByID i d = Inr old \<Longrightarrow> sub_step x old = Inr s \<Longrightarrow> op_period_ok x
     \<Longrightarrow> same_subs (sub_Update t s d) d' \<Longrightarrow> sub_stepped d d'"
  unfolding sub_stepped_def using sub_repo.get_key [of i d old] by metis

lemma sub_stepped_pre: "same_subs d d1 \<Longrightarrow> sub_stepped d1 d' \<Longrightarrow> sub_stepped d d'"
proof -
  assume s: "same_subs d d1" and "sub_stepped d1 d'"
  then obtain t x old u where st: "op_period_ok x" "sub_GetByID (sub_ID old) d1 = Inr old"
    "sub_step x old = Inr u" "same_subs (sub_Update t u d1) d'"
    by (auto simp: sub_stepped_def)
  have old: "sub_GetByID (sub_ID u) d = Inr old" "sub_GetByID (sub_ID u) d1 = Inr old"
    using s st(2) sub_step_ID [OF st(3)] by (simp_all add: same_subs_def)
  have "sub_GetByID k (sub_Update t u d1) = sub_GetByID k (sub_Update t u d)" for k
    using sub_repo.get_update [OF old(1)] sub_repo.get_update [OF old(2)]
      sub_repo.get_update_other [of k u] s
    by (cases "k = sub_ID u") (simp_all add: same_subs_def)
  with st(4) have "same_subs (sub_Update t u d) d'" by (simp add: same_subs_def)
  then show ?thesis
    using old(1) st(1,3) sub_step_ID [OF st(3)] unfolding sub_stepped_def by metis
qed

lemma change_sub_ok:
  "change_sub env i step d = Inr (p, d') \<Longrightarrow>
     \<exists>old s d1 src. p = (old, s) \<and> sub_GetByID i d = Inr old \<and> step old = Inr s
       \<and> d1 = sub_Update (env_dbnow env) s d \<and> publish env ''publish subscription'' s d1 = Inr (src, d')"
  by (auto simp: change_sub_def)

lemma change_sub_effect:
  "op_period_ok x \<Longrightarrow> change_sub env i (sub_step x) d = Inr (p, d') \<Longrightarrow> sub_stepped d d'"
  by (auto dest!: change_sub_ok intro: sub_steppedI same_publish)

lemma create_effect: "create_body env x d = Inr (p, d') \<Longrightarrow> sub_created d d'"
proof -
  assume "create_body env x d = Inr (p, d')"
  then obtain pl :: plan and s v d1 d2 src where
    n: "NewSubscription (env_uuid env 0) (env_uuid env 1) (cc_UserID x) (plan_ID pl) (plan_Interval pl)
          (cc_AddonIDs x) (env_now env) = Inr s"
    and c: "sub_Create s d = Inr d1" "inv_Create v d1 = Inr d2"
      "publish env ''publish subscription'' s d2 = Inr (src, d')"
    by (auto simp: create_body_def db_call_def)
  from c have "same_subs d1 d'" by (meson same_inv_Create same_publish same_subs_trans)
  with n c(1) show ?thesis unfolding sub_created_def by metis
qed

lemma cancel_effect: "cancel_body env i r d = Inr (p, d') \<Longrightarrow> sub_stepped d d'"
proof -
  assume "cancel_body env i r d = Inr (p, d')"
  then obtain old s src where "sub_GetByID i d = Inr old"
    "Cancel (env_uuid env 0) (case r of None \<Rightarrow> [] | Some x \<Rightarrow> x) (env_now env) old = Inr s"
    "publish env ''publish subscription'' s (sub_Update (env_dbnow env) s d) = Inr (src, d')"
    by (auto simp: cancel_body_def)
  then show ?thesis
    by (intro sub_steppedI [where x = "OpCancel (env_uuid env 0) (case r of None \<Rightarrow> [] | Some x \<Rightarrow> x) (env_now env)"])
       (auto intro: same_publish)
qed

lemma add_addon_effect: "add_addon_body env i a d = Inr (p, d') \<Longrightarrow> sub_stepped d d'"
proof -
  assume "add_addon_body env i a d = Inr (p, d')"
  then obtain old pl s src where "sub_GetByID i d = Inr old"
    "AddAddon (env_uuid env 0) a (NewAddonSpec pl) (env_now env) old = Inr s"
    "publish env ''publish subscription'' s (sub_Update (env_dbnow env) s d) = Inr (src, d')"
    by (auto simp: add_addon_body_def)
  then show ?thesis
    by (intro sub_steppedI [where x = "OpAddAddon (env_uuid env 0) a (NewAddonSpec pl) (env_now env)"])
       (auto intro: same_publish)
qed

lemma activate_effect: "activate_paid env i d = Inr (p, d') \<Longrightarrow> same_subs d d' \<or> sub_stepped d d'"
proof (erule contrapos_pp)
  assume n: "\<not> (same_subs d d' \<or> sub_stepped d d')"
  have "sub_stepped d d'" if "sub_GetByID i d = Inr old" "Activate (env_uuid env 1) (env_now env) old = Inr s"
      "publish env ''publish subscription'' s (sub_Update (env_dbnow env) s d) = Inr (src, d')" for old s src
    using that by (intro sub_steppedI [where x = "OpActivate (env_uuid env 1) (env_now env)"]) (auto intro: same_publish)
  with n show "activate_paid env i d \<noteq> Inr (p, d')"
    by (auto simp: activate_paid_def split: if_splits)
qed

lemma pay_effect: "pay_body env i d = Inr (p, d') \<Longrightarrow> same_subs d d' \<or> sub_stepped d d'"
proof -
  assume "pay_body env i d = Inr (p, d')"
  then obtain v src d1 where pub: "publish env ''publish invoice'' v (inv_Update (env_dbnow env) v d) = Inr (src, d1)"
    and act: "activate_paid env (inv_SubscriptionID v) d1 = Inr (p, d')"
    by (auto simp: pay_body_def split: if_splits)
  have d1: "same_subs d d1" by (rule same_subs_trans [OF _ same_publish [OF pub]]) simp
  from activate_effect [OF act] show ?thesis
    by (auto intro: same_subs_trans [OF d1] sub_stepped_pre [OF d1])
qed

lemma pending_plan_active_ok:
  "pending_plan_active env s d = Inr (b, d') \<Longrightarrow> d' = d \<and> (b \<longleftrightarrow> pc_IsZero (sub_PendingChange s) \<or>
     (\<exists>pp. plan_GetByID (pc_PlanID (sub_PendingChange s)) d = Inr pp \<and> plan_IsActive pp))"
  by (auto simp: pending_plan_active_def split: if_splits)

lemma renew_body_ok:
  assumes "renew_body env i d = Inr (p, d')"
  obtains old b s pl iv0 iv d1 d2 src src' where "sub_GetByID i d = Inr old"
    "pending_plan_active env old d = Inr (b, d)"
    "Renew (env_uuid env 0) (env_now env) b old = Inr s"
    "plan_GetByID (sub_PlanID s) (sub_Update (env_dbnow env) s d) = Inr pl"
    "NewInvoice (env_uuid env 1) (env_uuid env 2) (sub_ID s) (sub_UserID s)
       (buildLineItems pl (sub_AddonIDs s)) [] (Currency (plan_BasePrice pl)) (env_now env) = Inr iv0"
    "iv = applyRenewalHookOverrides (env_uuid env 3) (renew_hook env old) (env_now env) iv0"
    "inv_Create iv (sub_Update (env_dbnow env) s d) = Inr d1"
    "publish env ''publish subscription'' s d1 = Inr (src, d2)"
    "publish env ''publish invoice'' iv d2 = Inr (src', d')"
  using assms unfolding renew_body_def Let_def by (auto dest: pending_plan_active_ok) (metis pending_plan_active_ok)

lemma renew_effect: "renew_body env i d = Inr (p, d') \<Longrightarrow> sub_stepped d d'"
proof (erule renew_body_ok)
  fix old b s pl iv0 iv d1 d2 src src'
  assume "sub_GetByID i d = Inr old" "Renew (env_uuid env 0) (env_now env) b old = Inr s"
    and c: "inv_Create iv (sub_Update (env_dbnow env) s d) = Inr d1"
      "publish env ''publish subscription'' s d1 = Inr (src, d2)"
      "publish env ''publish invoice'' iv d2 = Inr (src', d')"
  then show "sub_stepped d d'"
    by (intro sub_steppedI [where x = "OpRenew (env_uuid env 0) (env_now env) b"])
       (auto intro: same_subs_trans [OF same_inv_Create [OF c(1)]] same_subs_trans [OF same_publish [OF c(2)]]
         same_publish [OF c(3)])
qed

lemma upgrade_invoice_same: "upgrade_invoice env p s cost d = Inr (u, d') \<Longrightarrow> same_subs d d'"
  unfolding upgrade_invoice_def
  by (auto split: if_splits intro: same_subs_trans [OF same_inv_Create] same_publish)

lemma upgrade_body_ok:
  assumes "upgrade_body env i np d = Inr (p, d')"
  obtains old cp npl s cost d1 src where "sub_GetByID i d = Inr old"
    "plan_GetByID (sub_PlanID old) d = Inr cp" "plan_GetByID np d = Inr npl"
    "Upgrade (env_uuid env 0) np (NewBillingPeriod (env_now env) (plan_Interval npl))
       \<lparr>us_FromPlanTier = plan_Tier cp, us_ToPlanTier = plan_Tier npl, us_ToPlanActive = plan_IsActive npl\<rparr>
       (env_now env) old = Inr s"
    "CalculateUpgradeCost npl (sub_Period s) (env_now env)
       (upgrade_hook env old np (CalculateUpgradeCredit cp (sub_Period old) (env_now env))) = Inr cost"
    "upgrade_invoice env npl s cost (sub_Update (env_dbnow env) s d) = Inr ((), d1)"
    "publish env ''publish subscription'' s d1 = Inr (src, d')"
  using assms unfolding upgrade_body_def Let_def by auto

lemma upgrade_effect: "upgrade_body env i np d = Inr (p, d') \<Longrightarrow> sub_stepped d d'"
proof (erule upgrade_body_ok)
  fix old and cp npl :: plan and s cost d1 src
  let ?sp = "\<lparr>us_FromPlanTier = plan_Tier cp, us_ToPlanTier = plan_Tier npl, us_ToPlanActive = plan_IsActive npl\<rparr>"
  let ?per = "NewBillingPeriod (env_now env) (plan_Interval npl)"
  assume "sub_GetByID i d = Inr old" "Upgrade (env_uuid env 0) np ?per ?sp (env_now env) old = Inr s"
    and c: "upgrade_invoice env npl s cost (sub_Update (env_dbnow env) s d) = Inr ((), d1)"
      "publish env ''publish subscription'' s d1 = Inr (src, d')"
  then show "sub_stepped d d'"
    by (intro sub_steppedI [where x = "OpUpgrade (env_uuid env 0) np ?per ?sp (env_now env)"])
       (auto intro: same_subs_trans [OF upgrade_invoice_same [OF c(1)]] same_publish [OF c(2)]
         simp: addInterval_after)
qed

lemma find_group_same: "find_or_create_group env s p d = Inr (fg, d') \<Longrightarrow> same_subs d d'"
  by (cases "get_group env (sub_UserID s) d")
     (auto simp: find_or_create_group_def split: if_splits intro: same_family_Create)

lemma add_member_effect: "add_member_body env s p u n d = Inr (x, d') \<Longrightarrow> same_subs d d'"
proof -
  assume "add_member_body env s p u n d = Inr (x, d')"
  then obtain fg0 d0 fg src where f: "find_or_create_group env s p d = Inr (fg0, d0)"
    and p: "publish env ''publish family group'' fg (family_Update (env_dbnow env) fg d0) = Inr (src, d')"
    by (auto simp: add_member_body_def)
  from find_group_same [OF f] same_updates(2) [of d0 "env_dbnow env" fg] same_publish [OF p]
  show "same_subs d d'" by (blast intro: same_subs_trans)
qed

lemma remove_member_effect: "remove_member_body env s u d = Inr (x, d') \<Longrightarrow> same_subs d d'"
proof -
  assume "remove_member_body env s u d = Inr (x, d')"
  then obtain fg src where "publish env ''publish family group'' fg (family_Update (env_dbnow env) fg d) = Inr (src, d')"
    by (auto simp: remove_member_body_def)
  from same_publish [OF this] show "same_subs d d'"
    by (rule same_subs_trans [OF same_updates(2)])
qed

lemma notify_effect:
  "(\<And>p d'. m d = Inr (p, d') \<Longrightarrow> sub_effect d d') \<Longrightarrow> sub_effect d (fst (snd (run_notify env m d)))"
  using run_notify_db [of env m d] RunInTx_keeps [of "sub_effect d" d m ErrStorage env]
  by (simp add: db_after_def sub_effect_def)

lemma change_effects:
  "change_sub env i (sub_step (OpPause e t)) d = Inr (p, d') \<Longrightarrow> sub_stepped d d'"
  "change_sub env i (sub_step (OpResume e t)) d = Inr (p, d') \<Longrightarrow> sub_stepped d d'"
  "change_sub env i (sub_step (OpExpire e t)) d = Inr (p, d') \<Longrightarrow> sub_stepped d d'"
  "change_sub env i (sub_step (OpDowngrade e q t)) d = Inr (p, d') \<Longrightarrow> sub_stepped d d'"
  "change_sub env i (sub_step (OpRemoveAddon e q t)) d = Inr (p, d') \<Longrightarrow> sub_stepped d d'"
  by (rule change_sub_effect [rotated], assumption, simp)+

lemma exec_sub_effect: "sub_effect d (fst (snd (exec env c d)))"
proof (cases c)
  case (CmdCreate x)
  show ?thesis
    using RunInTx_keeps [of "sub_effect d" d "create_body env x" ErrStorage env] create_effect [of env x d]
    by (simp add: CmdCreate forget_def CreateSubscription_def sub_effect_def)
next
  case (CmdAddMember i u n)
  have "sub_effect d (snd (RunInTx ErrStorage env (add_member_body env s p u n) d))" for s p
    using RunInTx_keeps [of "sub_effect d" d "add_member_body env s p u n" ErrStorage env]
      add_member_effect [of env s p u n d] by (simp add: sub_effect_def)
  then show ?thesis
    by (auto simp: CmdAddMember AddFamilyMember_def silent_def sub_effect_def split: sum.split)
next
  case (CmdRemoveMember i u)
  have "sub_effect d (snd (RunInTx ErrStorage env (remove_member_body env s u) d))" for s
    using RunInTx_keeps [of "sub_effect d" d "remove_member_body env s u" ErrStorage env]
      remove_member_effect [of env s u d] by (simp add: sub_effect_def)
  then show ?thesis
    by (auto simp: CmdRemoveMember RemoveFamilyMember_def silent_def sub_effect_def split: sum.split)
qed (auto simp: command_bodies sub_effect_def
       dest: cancel_effect pay_effect renew_effect upgrade_effect add_addon_effect
       intro!: notify_effect [unfolded sub_effect_def] dest: change_effects)

section \<open>Consequences for a stored subscription\<close>

lemma sub_effect_tracks:
  assumes eff: "sub_effect d d'" and wf: "subs_wf d" and k: "sub_GetByID k d = Inr s"
  shows "\<exists>s'. sub_GetByID k d' = Inr s' \<and> sub_UserID s' = sub_UserID s \<and> sub_PlanID s' = sub_PlanID s
    \<and> (sub_Status s' = sub_Status s \<or> sub_Status s' \<in> set (validTransitions (sub_Status s)))"
  using eff unfolding sub_effect_def
proof (elim disjE)
  assume "same_subs d d'"
  with k show ?thesis by (simp add: same_subs_def)
next
  assume "sub_stepped d d'"
  then obtain t x old u where st: "sub_GetByID (sub_ID old) d = Inr old" "sub_step x old = Inr u"
    "same_subs (sub_Update t u d) d'"
    by (auto simp: sub_stepped_def)
  show ?thesis
  proof (cases "k = sub_ID old")
    case True
    with st k have "sub_GetByID k d' = Inr (sub_merge t s u)" and "old = s"
      using sub_repo.read_modify_write [OF st(1) sub_step_ID [OF st(2)]]
      by (auto simp: same_subs_def)
    with sub_root.step_status [OF st(2)] show ?thesis by simp
  next
    case False
    with st k sub_step_ID [OF st(2)] show ?thesis
      by (simp add: same_subs_def sub_repo.get_update_other)
  qed
next
  assume "sub_created d d'"
  then obtain u d0 where c: "sub_Create u d = Inr d0" "same_subs d0 d'"
    by (auto simp: sub_created_def)
  have "k \<noteq> sub_ID u"
    using c(1) k select_by_None [of sr_id k "db_subs d"]
    by (auto simp: sub_Create_def sub_GetByID_ok_iff insert_unique_def image_iff split: if_splits)
  with c k show ?thesis by (simp add: same_subs_def sub_repo.get_create_other)
qed

text \<open>
  Through every history of commands, a stored subscription stays stored with its owner and its
  plan column, and its status moves along the transition table.
\<close>

definition tracked :: "string \<Rightarrow> subscription \<Rightarrow> db \<Rightarrow> bool" where
  "tracked k s d \<longleftrightarrow> db_inv d \<and> (\<exists>s'. sub_GetByID k d = Inr s' \<and> sub_UserID s' = sub_UserID s
     \<and> sub_PlanID s' = sub_PlanID s \<and> sub_root.reach (sub_Status s) (sub_Status s'))"

lemma exec_tracked: "tracked k s d \<Longrightarrow> tracked k s (fst (snd (exec env c d)))"
proof -
  assume t: "tracked k s d"
  then obtain s' where s': "db_inv d" "sub_GetByID k d = Inr s'" "sub_UserID s' = sub_UserID s"
    "sub_PlanID s' = sub_PlanID s" "sub_root.reach (sub_Status s) (sub_Status s')"
    by (auto simp: tracked_def)
  obtain s'' where "sub_GetByID k (fst (snd (exec env c d))) = Inr s''" "sub_UserID s'' = sub_UserID s'"
    "sub_PlanID s'' = sub_PlanID s'"
    "sub_Status s'' = sub_Status s' \<or> sub_Status s'' \<in> set (validTransitions (sub_Status s'))"
    using sub_effect_tracks [OF exec_sub_effect db_invD(1) [OF s'(1)] s'(2)] by blast
  with s' show ?thesis
    by (auto simp: tracked_def exec_db_inv intro: sub_root.reach.edge)
qed

lemma exec_all_tracked:
  "db_inv d \<Longrightarrow> sub_GetByID k d = Inr s \<Longrightarrow> tracked k s (exec_all cs d)"
  by (rule exec_all_keeps, erule exec_tracked) (auto simp: tracked_def intro: sub_root.reach.refl)

lemma reach_terminal: "sub_root.reach s t \<Longrightarrow> validTransitions s = [] \<Longrightarrow> t = s"
  by (induction rule: sub_root.reach.induct) auto

section \<open>The outbox only grows\<close>

definition grows :: "'a billing_tx \<Rightarrow> bool" where
  "grows m \<longleftrightarrow> (\<forall>d0 :: db. body_keeps (\<lambda>d. \<exists>es. db_outbox d = db_outbox d0 @ es) m)"

lemma growsI: "(\<And>d p d'. m d = Inr (p, d') \<Longrightarrow> \<exists>es. db_outbox d' = db_outbox d @ es) \<Longrightarrow> grows m"
  unfolding grows_def body_keeps_def by (intro allI tx_postI) (metis append_assoc)

lemma grows_bind: "grows m \<Longrightarrow> (\<And>a. grows (f a)) \<Longrightarrow> grows (tx_bind m f)"
  unfolding grows_def body_keeps_def by (fastforce intro: post_bind_any)

lemma grows_basic [simp, intro]:
  "grows (tx_return a)" "grows (tx_lift r)" "grows (get_sub env i)" "grows (update_sub env s)"
  "grows (create_sub env s)" "grows (get_plan env l i)" "grows (get_inv env i)" "grows (update_inv env v)"
  "grows (create_inv env v)" "grows (create_group env g)" "grows (update_group env g)"
  "grows (publish env l src)" "grows (tx_read f)" "grows (db_call env l (tx_read f))"
  by (auto intro!: growsI dest!: sub_Create_shape inv_Create_shape family_Create_shape
      dest: publish_outbox simp: db_call_def)

lemma grows_if: "grows m \<Longrightarrow> grows m' \<Longrightarrow> grows (if b then m else m')"
  by simp

lemma grows_find_group: "grows (find_or_create_group env s p)"
proof (rule growsI)
  fix d fg d'
  assume "find_or_create_group env s p d = Inr (fg, d')"
  then show "\<exists>es. db_outbox d' = db_outbox d @ es"
    by (cases "get_group env (sub_UserID s) d")
       (auto simp: find_or_create_group_def split: if_splits dest!: family_Create_shape)
qed

lemmas grows_rules = grows_bind grows_if grows_basic grows_find_group

lemma grows_bodies:
  "grows (create_body env x)" "grows (cancel_body env i r)" "grows (pay_body env i)" "grows (renew_body env i)"
  "grows (upgrade_body env i p)" "grows (add_addon_body env i a)" "grows (add_member_body env s pl u n)"
  "grows (remove_member_body env s u)" "grows (change_sub env i step)"
  unfolding create_body_def cancel_body_def pay_body_def activate_paid_def renew_body_def upgrade_body_def
    upgrade_invoice_def pending_plan_active_def add_addon_body_def add_member_body_def remove_member_body_def
    change_sub_def Let_def
  by (intro grows_rules)+

lemma exec_outbox: "\<exists>es. db_outbox (fst (snd (exec env c d))) = db_outbox d @ es"
  by (rule exec_keeps [where I = "\<lambda>d'. \<exists>es. db_outbox d' = db_outbox d @ es"])
     (use grows_bodies in \<open>simp_all add: grows_def\<close>)

end
