(* ===== verification/Checkout.thy ===== *)
theory Checkout
  imports BillingInvariant
begin

text \<open>
  \<open>billing/service/checkout.go\<close> and \<open>subscription_scheduler.go\<close>: the checkout flow around
  \<open>CreateSubscription\<close> and \<open>PayInvoice\<close>, and the scheduler that renews or expires subscriptions
  whose period has elapsed. The rate limiter, the pricing modifier, the two synchronous hooks and
  the payment gateway are ports implemented elsewhere: they are fields of the environment.
\<close>

section \<open>Checkout\<close>

record checkout_request =
  rq_UserID :: string
  rq_UserEmail :: string
  rq_PlanID :: string
  rq_AddonIDs :: "string list"
  rq_ReturnURL :: string
  rq_CancelURL :: string
  rq_UserCountry :: string

record checkout_result =
  cr_SubscriptionID :: string
  cr_InvoiceID :: string
  cr_CheckoutURL :: string
  cr_Provider :: string

record pricing_modification =
  pm_Subtotal :: "int64 option"
  pm_Discount :: "int64 option"
  pm_Reason :: string

record charge_request =
  ch_InvoiceID :: string
  ch_Amount :: int64
  ch_Currency :: currency
  ch_UserID :: string
  ch_UserEmail :: string
  ch_PlanName :: string
  ch_ReturnURL :: string
  ch_CancelURL :: string

record charge_result =
  cg_Provider :: string
  cg_ExternalID :: string
  cg_CheckoutURL :: string
  cg_Status :: string

text \<open>
  The ports, each with its own errors as strings. \<open>ck_pricing\<close> takes the invoice, user, plan,
  subtotal and currency; \<open>ck_validating\<close> answers allowed or not with an optional reason;
  \<open>ck_creating\<close> answers replacement addons.
\<close>

record checkout_env =
  ck_billing :: billing_env
  ck_allow :: "string \<Rightarrow> string + bool"
  ck_validating :: "(checkout_request \<Rightarrow> string + (bool \<times> string option) option) option"
  ck_creating :: "(string \<Rightarrow> string \<Rightarrow> string list \<Rightarrow> string + string list option) option"
  ck_pricing :: "(string \<Rightarrow> string \<Rightarrow> string \<Rightarrow> int64 \<Rightarrow> currency \<Rightarrow> string + pricing_modification option) option"
  ck_payment :: "charge_request \<Rightarrow> string + charge_result"
  ck_asyncHook :: bool

definition dispatchCheckoutValidating :: "checkout_env \<Rightarrow> checkout_request \<Rightarrow> billing_error option" where
  "dispatchCheckoutValidating ce req =
     (case ck_validating ce of
        None \<Rightarrow> None
      | Some hook \<Rightarrow>
          (case hook req of
             Inl _ \<Rightarrow> None
           | Inr None \<Rightarrow> None
           | Inr (Some (allowed, reason)) \<Rightarrow> if \<not> allowed then Some ErrCheckoutBlocked else None))"

definition dispatchSubscriptionCreating :: "checkout_env \<Rightarrow> checkout_request \<Rightarrow> string list \<Rightarrow> string list" where
  "dispatchSubscriptionCreating ce req addonIDs =
     (case ck_creating ce of
        None \<Rightarrow> addonIDs
      | Some hook \<Rightarrow>
          (case hook (rq_UserID req) (rq_PlanID req) addonIDs of
             Inl _ \<Rightarrow> addonIDs
           | Inr None \<Rightarrow> addonIDs
           | Inr (Some ids) \<Rightarrow> if length ids > 0 then ids else addonIDs))"

text \<open>
  The pricing modification changes the invoice in memory, after it was persisted; a rejected
  modification is logged and dropped. The event it records takes the fifth identifier.
\<close>

definition checkout_pricing :: "checkout_env \<Rightarrow> invoice \<Rightarrow> checkout_request \<Rightarrow> invoice" where
  "checkout_pricing ce iv req =
     (case ck_pricing ce of
        None \<Rightarrow> iv
      | Some modify \<Rightarrow>
          (case modify (inv_ID iv) (rq_UserID req) (rq_PlanID req) (Amount (inv_Subtotal iv)) (Currency (inv_Total iv)) of
             Inl _ \<Rightarrow> iv
           | Inr None \<Rightarrow> iv
           | Inr (Some m) \<Rightarrow>
               (case ApplyPricingModification (env_uuid (ck_billing ce) 4) (pm_Subtotal m) (pm_Discount m) (pm_Reason m)
                       (env_now (ck_billing ce)) iv of
                  Inl _ \<Rightarrow> iv
                | Inr iv' \<Rightarrow> iv')))"

definition charge_for :: "checkout_request \<Rightarrow> subscription \<Rightarrow> invoice \<Rightarrow> charge_request" where
  "charge_for req s iv =
     \<lparr>ch_InvoiceID = inv_ID iv, ch_Amount = Amount (inv_Total iv), ch_Currency = Currency (inv_Total iv),
      ch_UserID = rq_UserID req, ch_UserEmail = rq_UserEmail req, ch_PlanName = sub_PlanID s,
      ch_ReturnURL = rq_ReturnURL req, ch_CancelURL = rq_CancelURL req\<rparr>"

definition StartCheckout :: "checkout_env \<Rightarrow> checkout_request \<Rightarrow> db \<Rightarrow> (billing_error + checkout_result) \<times> db" where
  "StartCheckout ce req d =
     (if rq_UserID req = [] then (Inl ErrEmptyUserID, d)
      else if rq_PlanID req = [] then (Inl ErrEmptyPlanID, d)
      else if ck_allow ce (rq_UserID req) = Inr False then (Inl ErrCheckoutRateLimited, d)
      else case dispatchCheckoutValidating ce req of
        Some e \<Rightarrow> (Inl e, d)
      | None \<Rightarrow>
         (let addonIDs = dispatchSubscriptionCreating ce req (rq_AddonIDs req) in
          case CreateSubscription (ck_billing ce)
                 \<lparr>cc_UserID = rq_UserID req, cc_PlanID = rq_PlanID req, cc_AddonIDs = addonIDs,
                  cc_UserCountry = rq_UserCountry req\<rparr> d of
            (Inl e, d') \<Rightarrow> (Inl e, d')
          | (Inr (s, iv0), d') \<Rightarrow>
             (let iv = checkout_pricing ce iv0 req in
              case ck_payment ce (charge_for req s iv) of
                Inl e \<Rightarrow> (Inl (ErrPayment e), d')
              | Inr c \<Rightarrow> (Inr \<lparr>cr_SubscriptionID = sub_ID s, cr_InvoiceID = inv_ID iv,
                               cr_CheckoutURL = cg_CheckoutURL c, cr_Provider = cg_Provider c\<rparr>, d'))))"

definition dispatchCheckoutCompleted :: "checkout_env \<Rightarrow> string \<Rightarrow> db \<Rightarrow> async_payload list" where
  "dispatchCheckoutCompleted ce invoiceID d =
     (if \<not> ck_asyncHook ce then []
      else case (if env_fault (ck_billing ce) ''read invoice'' then Inl (ErrStorage ''read invoice'') else inv_GetByID invoiceID d) of
        Inl _ \<Rightarrow> []
      | Inr iv \<Rightarrow>
         (case (if env_fault (ck_billing ce) ''read subscription'' then Inl (ErrStorage ''read subscription'')
                else sub_GetByID (inv_SubscriptionID iv) d) of
            Inl _ \<Rightarrow> []
          | Inr s \<Rightarrow> [CheckoutCompleted (sub_ID s) (inv_ID iv) (inv_UserID iv) (sub_PlanID s)
                       (Amount (inv_Total iv)) (Currency (inv_Total iv))]))"

definition CompleteCheckout :: "checkout_env \<Rightarrow> string \<Rightarrow> db \<Rightarrow> unit outcome" where
  "CompleteCheckout ce invoiceID d =
     (if invoiceID = [] then (Inl ErrEmptyInvoiceID, d, [])
      else case PayInvoice (ck_billing ce) invoiceID d of
        (Inl e, d', ns) \<Rightarrow> (Inl e, d', ns)
      | (Inr _, d', ns) \<Rightarrow> (Inr (), d', ns @ dispatchCheckoutCompleted ce invoiceID d'))"

section \<open>The scheduler\<close>

definition SchedulerBatchSize :: nat where "SchedulerBatchSize = 100"

text \<open>
  One due subscription after another: renew, and expire when the renewal fails with any error.
  Each call has its own environment, indexed by the position in the batch.
\<close>

fun process_each ::
    "(nat \<Rightarrow> billing_env) \<Rightarrow> (nat \<Rightarrow> billing_env) \<Rightarrow> nat \<Rightarrow> string list \<Rightarrow> db \<Rightarrow> db \<times> async_payload list" where
  "process_each renv eenv j [] d = (d, [])"
| "process_each renv eenv j (i # ids) d =
     (case RenewSubscription (renv j) i d of
        (Inr _, d1, ns) \<Rightarrow> (let (d', ns') = process_each renv eenv (Suc j) ids d1 in (d', ns @ ns'))
      | (Inl _, d1, ns) \<Rightarrow>
          (let (_, d2, ns2) = ExpireSubscription (eenv j) i d1;
               (d', ns') = process_each renv eenv (Suc j) ids d2
           in (d', ns @ ns2 @ ns')))"

definition processDueSubscriptions ::
    "billing_env \<Rightarrow> (nat \<Rightarrow> billing_env) \<Rightarrow> (nat \<Rightarrow> billing_env) \<Rightarrow> db \<Rightarrow> db \<times> async_payload list" where
  "processDueSubscriptions env renv eenv d =
     (if env_fault env ''get expired active'' then (d, [])
      else process_each renv eenv 0 (map sub_ID (GetExpiredActive (env_now env) SchedulerBatchSize d)) d)"

text \<open>Each tick of the ticker processes one batch.\<close>

fun scheduler_run :: "(billing_env \<times> (nat \<Rightarrow> billing_env) \<times> (nat \<Rightarrow> billing_env)) list \<Rightarrow> db \<Rightarrow> db" where
  "scheduler_run [] d = d"
| "scheduler_run ((env, renv, eenv) # ts) d = scheduler_run ts (fst (processDueSubscriptions env renv eenv d))"

end
