(* ===== verification/BillingSpec.thy ===== *)
theory BillingSpec
  imports Checkout
begin

text \<open>
  What the billing commands achieve when they succeed, stated on the database before and after:
  payment, renewal, creation, plan changes, the scheduler and the checkout flow; and the bounds
  of proration and discounts.
\<close>

section \<open>Prices\<close>

text \<open>The price of a plan with a selection of addons, as an integer; unknown addons cost nothing.\<close>

definition selection_price :: "plan \<Rightarrow> string list \<Rightarrow> int" where
  "selection_price p ids = sint (Amount (plan_BasePrice p))
     + (\<Sum>i \<leftarrow> ids. case index_by ad_ID (plan_AvailableAddons p) i of
          None \<Rightarrow> 0 | Some a \<Rightarrow> sint (Amount (ad_Price a)))"

lemma NewLineItem_fields [simp]:
  "li_Amount (NewLineItem n t m q) = m" "li_Quantity (NewLineItem n t m q) = q"
  by (simp_all add: NewLineItem_def)

lemma sint_one64 [simp]: "sint lineItemQuantityOne = 1"
  by (simp add: lineItemQuantityOne_def)

lemma sum_concat_map: "(\<Sum>x \<leftarrow> concat (map f xs). g x) = (\<Sum>x \<leftarrow> xs. \<Sum>y \<leftarrow> f x. g y)" for g :: "_ \<Rightarrow> int"
  by (induction xs) simp_all

lemma buildLineItems_sum:
  "(\<Sum>li \<leftarrow> buildLineItems p ids. sint (Amount (li_Amount li)) * sint (li_Quantity li)) = selection_price p ids"
  by (auto simp: buildLineItems_def selection_price_def sum_concat_map intro!: arg_cong [where f = sum_list]
      split: option.split)

lemma NewInvoice_total:
  assumes "NewInvoice iid eid s u items [] cur now = Inr iv"
  shows "sint (Amount (inv_Total iv)) = max 0 (\<Sum>li \<leftarrow> items. sint (Amount (li_Amount li)) * sint (li_Quantity li))"
proof -
  from assms obtain sub disc tot where c: "calculateTotal items [] cur = Inr (sub, disc, tot)"
    and "inv_Total iv = tot"
    by (auto simp: NewInvoice_def split: if_splits)
  with calculateTotal_ok [OF c] calculateTotal_no_discounts [OF c] show ?thesis by simp
qed

section \<open>Payment\<close>

lemma MarkPaid_ok:
  "MarkPaid e t i = Inr j \<Longrightarrow> inv_Status i = InvoicePending \<and> inv_Status j = InvoicePaid
     \<and> inv_PaidAt j = Some t \<and> inv_Total j = inv_Total i \<and> inv_ID j = inv_ID i
     \<and> inv_SubscriptionID j = inv_SubscriptionID i
     \<and> rec_events j = rec_events i @ [new_event e (InvPaid (inv_ID i) (inv_SubscriptionID i) (inv_UserID i)
           (Amount (inv_Total i))) t (inv_ID i)]"
  by (cases "inv_Status i") (auto simp: MarkPaid_def inv_CanTransitionTo_def split: if_splits)

lemma MarkPending_ok:
  "MarkPending t i = Inr j \<Longrightarrow> inv_Status i = InvoiceDraft \<and> j = i\<lparr>inv_Status := InvoicePending, inv_UpdatedAt := t\<rparr>"
  by (cases "inv_Status i") (auto simp: MarkPending_def inv_CanTransitionTo_def split: if_splits)

lemma pay_body_ok:
  assumes "pay_body env i d = Inr (p, d')"
  obtains iv v src d1 where "inv_GetByID i d = Inr iv" "inv_Status iv \<in> {InvoiceDraft, InvoicePending}"
    "inv_Status v = InvoicePaid" "inv_PaidAt v = Some (env_now env)" "inv_Total v = inv_Total iv"
    "inv_ID v = i" "inv_SubscriptionID v = inv_SubscriptionID iv"
    "publish env ''publish invoice'' v (inv_Update (env_dbnow env) v d) = Inr (src, d1)"
    "activate_paid env (inv_SubscriptionID iv) d1 = Inr (p, d')"
proof -
  from assms obtain iv w v src d1 where iv: "inv_GetByID i d = Inr iv" "inv_Status iv \<noteq> InvoicePaid"
    and w: "(if inv_Status iv = InvoiceDraft then MarkPending (env_now env) iv else Inr iv) = Inr w"
    and v: "MarkPaid (env_uuid env 0) (env_now env) w = Inr v"
    and p: "publish env ''publish invoice'' v (inv_Update (env_dbnow env) v d) = Inr (src, d1)"
    and a: "activate_paid env (inv_SubscriptionID v) d1 = Inr (p, d')"
    unfolding pay_body_def by (auto simp del: if_split split del: if_split)
  have w': "inv_Status iv \<in> {InvoiceDraft, InvoicePending}" "inv_Total w = inv_Total iv" "inv_ID w = inv_ID iv"
    "inv_SubscriptionID w = inv_SubscriptionID iv"
    using w MarkPaid_ok [OF v] by (auto split: if_splits dest!: MarkPending_ok)
  have "inv_ID iv = i" by (rule inv_repo.get_key [OF iv(1)])
  with MarkPaid_ok [OF v] w' iv p a show ?thesis by (intro that [of iv v src d1]) simp_all
qed

lemma activate_paid_ok:
  assumes "activate_paid env k d = Inr (p, d')"
  shows "\<exists>s s'. sub_GetByID k d = Inr s \<and> sub_GetByID k d' = Inr s'
    \<and> sub_Status s' = (if sub_Status s \<in> {StatusTrial, StatusPastDue} then StatusActive else sub_Status s)
    \<and> (\<forall>j. inv_GetByID j d' = inv_GetByID j d)"
proof -
  from assms obtain s where s: "sub_GetByID k d = Inr s" by (auto simp: activate_paid_def)
  show ?thesis
  proof (cases "sub_Status s = StatusTrial \<or> sub_Status s = StatusPastDue")
    case True
    with assms s obtain t src where t: "Activate (env_uuid env 1) (env_now env) s = Inr t"
      and p: "publish env ''publish subscription'' t (sub_Update (env_dbnow env) t d) = Inr (src, d')"
      by (auto simp: activate_paid_def)
    have id: "sub_ID t = sub_ID s" and st: "sub_Status t = StatusActive"
      using t by (auto simp: Activate_def transitionTo_def split: if_splits)
    have "sub_GetByID k d' = Inr (sub_merge (env_dbnow env) s t)"
      using same_publish [OF p] sub_repo.read_modify_write [OF s id] by (simp add: same_subs_def)
    moreover have "inv_GetByID j d' = inv_GetByID j d" for j
      using publish_outbox [OF p] by simp
    ultimately show ?thesis using True s st by auto
  next
    case False
    with assms s show ?thesis by (auto simp: activate_paid_def)
  qed
qed

lemma pay_body_spec:
  assumes b: "pay_body env i d = Inr (p, d')"
  shows "\<exists>iv iv' s s'. inv_GetByID i d = Inr iv \<and> inv_Status iv \<in> {InvoiceDraft, InvoicePending}
    \<and> inv_GetByID i d' = Inr iv' \<and> inv_Status iv' = InvoicePaid \<and> inv_PaidAt iv' = Some (env_now env)
    \<and> Amount (inv_Total iv') = Amount (inv_Total iv)
    \<and> sub_GetByID (inv_SubscriptionID iv) d = Inr s \<and> sub_GetByID (inv_SubscriptionID iv) d' = Inr s'
    \<and> sub_Status s' = (if sub_Status s \<in> {StatusTrial, StatusPastDue} then StatusActive else sub_Status s)"
proof -
  obtain iv v src d1 where iv: "inv_GetByID i d = Inr iv" and st: "inv_Status iv \<in> {InvoiceDraft, InvoicePending}"
    and v: "inv_Status v = InvoicePaid" "inv_PaidAt v = Some (env_now env)" "inv_Total v = inv_Total iv" "inv_ID v = i"
      "inv_SubscriptionID v = inv_SubscriptionID iv"
    and p: "publish env ''publish invoice'' v (inv_Update (env_dbnow env) v d) = Inr (src, d1)"
    and a: "activate_paid env (inv_SubscriptionID iv) d1 = Inr (p, d')"
    by (rule pay_body_ok [OF b])
  have "inv_GetByID i d1 = Inr (inv_merge (env_dbnow env) iv v)"
    using publish_outbox [OF p] inv_repo.read_modify_write [OF iv] v(4) inv_repo.get_key [OF iv] by simp
  moreover obtain s s' where s: "sub_GetByID (inv_SubscriptionID iv) d1 = Inr s"
    "sub_GetByID (inv_SubscriptionID iv) d' = Inr s'"
    "sub_Status s' = (if sub_Status s \<in> {StatusTrial, StatusPastDue} then StatusActive else sub_Status s)"
    and "\<forall>j. inv_GetByID j d' = inv_GetByID j d1"
    using activate_paid_ok [OF a] by blast
  ultimately have iv': "inv_GetByID i d' = Inr (inv_merge (env_dbnow env) iv v)" by simp
  have "sub_GetByID (inv_SubscriptionID iv) d = Inr s"
    using same_publish [OF p] s(1) by (simp add: same_subs_def)
  with iv st iv' s(2,3) v show ?thesis
    by (intro exI [of _ iv] exI [of _ "inv_merge (env_dbnow env) iv v"] exI [of _ s] exI [of _ s']) simp
qed

lemma PayInvoice_spec:
  assumes "PayInvoice env i d = (Inr u, d', ns)"
  shows "\<exists>iv iv' s s'. inv_GetByID i d = Inr iv \<and> inv_Status iv \<in> {InvoiceDraft, InvoicePending}
    \<and> inv_GetByID i d' = Inr iv' \<and> inv_Status iv' = InvoicePaid \<and> inv_PaidAt iv' = Some (env_now env)
    \<and> Amount (inv_Total iv') = Amount (inv_Total iv)
    \<and> sub_GetByID (inv_SubscriptionID iv) d = Inr s \<and> sub_GetByID (inv_SubscriptionID iv) d' = Inr s'
    \<and> sub_Status s' = (if sub_Status s \<in> {StatusTrial, StatusPastDue} then StatusActive else sub_Status s)"
  using run_notify_ok [OF assms [unfolded PayInvoice_def]] pay_body_spec by blast

lemma PayInvoice_again:
  assumes "inv_GetByID i d = Inr iv" "inv_Status iv = InvoicePaid"
    "\<not> env_fault env ''begin tx''" "\<not> env_fault env ''get invoice''"
  shows "PayInvoice env i d = (Inl ErrInvoiceAlreadyPaid, d, [])"
  using assms
  by (simp add: PayInvoice_def run_notify_def pay_body_def RunInTx_def tx_bind_def get_inv_def db_call_def
      tx_call_def tx_read_def tx_lift_def)

section \<open>Renewal\<close>

lemma plan_GetByID_frames [simp]: "plan_GetByID i (sub_Update t s d) = plan_GetByID i d"
  by (simp add: plan_GetByID_def sub_Update_def)

text \<open>
  What a renewal bills. The answer of the renewal hook may replace the subtotal and may take a discount,
  in hundredths of a percent of the original subtotal; their difference wraps around like the
  subtraction of the code, and a negative one becomes zero.
\<close>

definition renewal_total :: "renewing_response option \<Rightarrow> int64 \<Rightarrow> int64" where
  "renewal_total resp subtotal =
     (let price = (case Option.bind resp rr_PriceOverride of None \<Rightarrow> subtotal | Some p \<Rightarrow> p);
          discount = (case Option.bind resp rr_DiscountPercent of None \<Rightarrow> 0
                      | Some pct \<Rightarrow> go_div (subtotal * pct) PercentBase)
      in if price - discount <s 0 then 0 else price - discount)"

lemma renewal_total_none: "sint (renewal_total None subtotal) = max 0 (sint subtotal)"
  by (simp add: renewal_total_def s_order)

lemma NewInvoice_amounts:
  assumes "NewInvoice iid eid s u items [] cur now = Inr iv"
  shows "Amount (inv_TotalDiscount iv) = 0"
    "Amount (inv_Total iv) = (if Amount (inv_Subtotal iv) <s 0 then 0 else Amount (inv_Subtotal iv))"
    "sint (Amount (inv_Subtotal iv)) = (\<Sum>li \<leftarrow> items. sint (Amount (li_Amount li)) * sint (li_Quantity li))"
proof -
  from assms obtain sub disc tot where c: "calculateTotal items [] cur = Inr (sub, disc, tot)"
    and iv: "inv_Total iv = tot" "inv_Subtotal iv = sub" "inv_TotalDiscount iv = disc"
    by (auto simp: NewInvoice_def split: if_splits)
  from c have "disc = Zero cur" "sum_items (Zero cur) items = Inr sub"
    and t: "\<exists>x. Subtract sub disc = Inr x \<and> tot = (if Amount x <s 0 then Zero cur else x)"
    by (auto simp: calculateTotal_def)
  then show d: "Amount (inv_TotalDiscount iv) = 0" using iv by simp
  from t have "Amount tot = (if Amount sub <s 0 then 0 else Amount sub)"
    using \<open>disc = Zero cur\<close> by (auto simp: Subtract_exact split: if_splits)
  then show "Amount (inv_Total iv) = (if Amount (inv_Subtotal iv) <s 0 then 0 else Amount (inv_Subtotal iv))"
    using iv by simp
  show "sint (Amount (inv_Subtotal iv)) = (\<Sum>li \<leftarrow> items. sint (Amount (li_Amount li)) * sint (li_Quantity li))"
    using calculateTotal_ok [OF c] iv by simp
qed

text \<open>The overrides of the hook on a draft without discounts change its amounts and nothing else.\<close>

lemma applyRenewalHookOverrides_total:
  assumes "inv_Status iv = InvoiceDraft" "Amount (inv_TotalDiscount iv) = 0"
    and "Amount (inv_Total iv) = (if Amount (inv_Subtotal iv) <s 0 then 0 else Amount (inv_Subtotal iv))"
  shows "Amount (inv_Total (applyRenewalHookOverrides e r t iv)) = renewal_total r (Amount (inv_Subtotal iv))"
    "inv_ID (applyRenewalHookOverrides e r t iv) = inv_ID iv"
    "inv_Status (applyRenewalHookOverrides e r t iv) = InvoiceDraft"
    "inv_SubscriptionID (applyRenewalHookOverrides e r t iv) = inv_SubscriptionID iv"
    "inv_UserID (applyRenewalHookOverrides e r t iv) = inv_UserID iv"
  using assms
  by (auto simp: applyRenewalHookOverrides_def ApplyPricingModification_def renewal_total_def Let_def
      split: option.splits)

lemma publish_inv_same: "publish env l src d = Inr (src', d') \<Longrightarrow> inv_GetByID k d' = inv_GetByID k d"
  by (auto dest!: publish_outbox)

text \<open>A successful renewal: the period moves on, the pending plan prices the new draft invoice.\<close>

lemma RenewSubscription_spec:
  assumes r: "RenewSubscription env i d = (Inr u, d', ns)" and inv: "db_inv d"
  shows "\<exists>s s' p iv subtotal. sub_GetByID i d = Inr s \<and> sub_Status s = StatusActive
    \<and> bp_End (sub_Period s) \<le> env_now env
    \<and> sub_GetByID i d' = Inr s' \<and> sub_Status s' = StatusActive \<and> sub_Period s' = Next (sub_Period s)
    \<and> pc_IsZero (sub_PendingChange s')
    \<and> plan_GetByID (if pc_IsZero (sub_PendingChange s) then sub_PlanID s
                    else pc_PlanID (sub_PendingChange s)) d = Inr p
    \<and> inv_GetByID (env_uuid env 1) d' = Inr iv \<and> inv_Status iv = InvoiceDraft
    \<and> inv_SubscriptionID iv = i \<and> inv_UserID iv = sub_UserID s
    \<and> sint subtotal = selection_price p (sub_AddonIDs s)
    \<and> Amount (inv_Total iv) = renewal_total (renew_hook env s) subtotal"
proof -
  from run_notify_ok [OF r [unfolded RenewSubscription_def]] obtain q where b: "renew_body env i d = Inr (q, d')"
    by blast
  obtain old b s pl iv0 iv d1 d2 src src' where o: "sub_GetByID i d = Inr old"
    and "pending_plan_active env old d = Inr (b, d)"
    and rn: "Renew (env_uuid env 0) (env_now env) b old = Inr s"
    and pl: "plan_GetByID (sub_PlanID s) (sub_Update (env_dbnow env) s d) = Inr pl"
    and n: "NewInvoice (env_uuid env 1) (env_uuid env 2) (sub_ID s) (sub_UserID s)
       (buildLineItems pl (sub_AddonIDs s)) [] (Currency (plan_BasePrice pl)) (env_now env) = Inr iv0"
    and iv: "iv = applyRenewalHookOverrides (env_uuid env 3) (renew_hook env old) (env_now env) iv0"
    and c: "inv_Create iv (sub_Update (env_dbnow env) s d) = Inr d1"
    and p1: "publish env ''publish subscription'' s d1 = Inr (src, d2)"
    and p2: "publish env ''publish invoice'' iv d2 = Inr (src', d')"
    by (rule renew_body_ok [OF b])
  note R = Renew_ok [OF rn]
  note N = NewInvoice_inv [OF n] and A = NewInvoice_amounts [OF n]
  note H = applyRenewalHookOverrides_total [OF _ A(1,2), of "env_uuid env 3" "renew_hook env old" "env_now env", folded iv]
  have sd': "sub_GetByID i d' = Inr (sub_merge (env_dbnow env) old s)"
    using same_subs_trans [OF same_inv_Create [OF c] same_subs_trans [OF same_publish [OF p1] same_publish [OF p2]]]
      sub_repo.read_modify_write [OF o, of s "env_dbnow env"] R by (simp add: same_subs_def)
  have id: "inv_ID iv = env_uuid env 1" using H(2) N by simp
  have wf: "invs_wf (sub_Update (env_dbnow env) s d)" using db_invD(2) [OF inv] by simp
  have ivd': "inv_GetByID (env_uuid env 1) d' = Inr (inv_stored iv)"
    using inv_repo.get_create [OF wf c] publish_inv_same [OF p1] publish_inv_same [OF p2] id by simp
  have sum: "sint (Amount (inv_Subtotal iv0)) = selection_price pl (sub_AddonIDs old)"
    using A(3) R by (simp add: buildLineItems_sum)
  have "sub_ID old = i" by (rule sub_repo.get_key [OF o])
  with o sd' ivd' sum R pl N H show ?thesis
    by (intro exI [of _ old] exI [of _ "sub_merge (env_dbnow env) old s"] exI [of _ pl] exI [of _ "inv_stored iv"]
        exI [of _ "Amount (inv_Subtotal iv0)"])
       (simp add: clean_change_def)
qed

section \<open>Plan changes\<close>

text \<open>
  An upgrade that succeeds announces the new plan and moves the period, but the plan column of
  the stored subscription keeps the old plan.
\<close>

lemma upgrade_invoice_outbox:
  "upgrade_invoice env p s cost d = Inr (u, d') \<Longrightarrow> set (db_outbox d) \<subseteq> set (db_outbox d')"
  by (auto simp: upgrade_invoice_def split: if_splits dest!: inv_Create_shape publish_outbox)

lemma UpgradeSubscription_spec:
  assumes r: "UpgradeSubscription env i np d = (Inr u, d', ns)"
  shows "\<exists>s s' pl. sub_GetByID i d = Inr s \<and> sub_Status s = StatusActive \<and> sub_PlanID s \<noteq> np
    \<and> plan_GetByID np d = Inr pl \<and> plan_IsActive pl
    \<and> sub_GetByID i d' = Inr s' \<and> sub_PlanID s' = sub_PlanID s
    \<and> sub_Period s' = NewBillingPeriod (env_now env) (plan_Interval pl)
    \<and> (\<exists>e \<in> set (db_outbox d'). ev_Data e = SubUpgraded i (sub_UserID s) (sub_PlanID s) np)"
proof -
  from run_notify_ok [OF r [unfolded UpgradeSubscription_def]] obtain q where b: "upgrade_body env i np d = Inr (q, d')"
    by blast
  obtain old and cp npl :: plan and s cost d1 src where o: "sub_GetByID i d = Inr old"
    and "plan_GetByID (sub_PlanID old) d = Inr cp" and np: "plan_GetByID np d = Inr npl"
    and up: "Upgrade (env_uuid env 0) np (NewBillingPeriod (env_now env) (plan_Interval npl))
       \<lparr>us_FromPlanTier = plan_Tier cp, us_ToPlanTier = plan_Tier npl, us_ToPlanActive = plan_IsActive npl\<rparr>
       (env_now env) old = Inr s"
    and "CalculateUpgradeCost npl (sub_Period s) (env_now env)
       (upgrade_hook env old np (CalculateUpgradeCredit cp (sub_Period old) (env_now env))) = Inr cost"
    and ui: "upgrade_invoice env npl s cost (sub_Update (env_dbnow env) s d) = Inr ((), d1)"
    and p: "publish env ''publish subscription'' s d1 = Inr (src, d')"
    by (rule upgrade_body_ok [OF b])
  have id: "sub_ID old = i" by (rule sub_repo.get_key [OF o])
  have U: "sub_Status old = StatusActive" "np \<noteq> sub_PlanID old" "plan_IsActive npl" "sub_ID s = sub_ID old"
    "sub_Period s = NewBillingPeriod (env_now env) (plan_Interval npl)"
    "new_event (env_uuid env 0) (SubUpgraded (sub_ID old) (sub_UserID old) (sub_PlanID old) np) (env_now env) (sub_ID old)
       \<in> set (rec_events s)"
    using up by (auto simp: Upgrade_def CanUpgrade_def split: if_splits)
  have sd': "sub_GetByID i d' = Inr (sub_merge (env_dbnow env) old s)"
    using same_subs_trans [OF upgrade_invoice_same [OF ui] same_publish [OF p]]
      sub_repo.read_modify_write [OF o U(4)] by (simp add: same_subs_def)
  have "\<exists>e \<in> set (db_outbox d'). ev_Data e = SubUpgraded i (sub_UserID old) (sub_PlanID old) np"
    using U(6) id by (intro bexI [of _ "with_trace (env_trace env) (new_event (env_uuid env 0)
      (SubUpgraded (sub_ID old) (sub_UserID old) (sub_PlanID old) np) (env_now env) (sub_ID old))"])
      (auto simp: publish_outbox [OF p])
  with o np U sd' show ?thesis
    by (intro exI [of _ old] exI [of _ "sub_merge (env_dbnow env) old s"] exI [of _ npl]) auto
qed

section \<open>Creation\<close>

lemma create_body_ok:
  assumes "create_body env x d = Inr (r, d')"
  obtains pl :: plan and s v d1 d2 s' where "plan_GetByID (cc_PlanID x) d = Inr pl"
    "ce_Check \<lparr>ce_Plan = pl, ce_HasActiveSubscription = length (GetActiveByUserID (cc_UserID x) d) > 0,
               ce_AllowedCountries = plan_AllowedCountries pl, ce_UserCountry = cc_UserCountry x\<rparr> = Inr ()"
    "NewSubscription (env_uuid env 0) (env_uuid env 1) (cc_UserID x) (plan_ID pl) (plan_Interval pl)
       (cc_AddonIDs x) (env_now env) = Inr s"
    "NewInvoice (env_uuid env 2) (env_uuid env 3) (sub_ID s) (cc_UserID x)
       (buildLineItems pl (cc_AddonIDs x)) [] (Currency (plan_BasePrice pl)) (env_now env) = Inr v"
    "sub_Create s d = Inr d1" "inv_Create v d1 = Inr d2"
    "publish env ''publish subscription'' s d2 = Inr (s', d')" "r = (s', v)"
  using assms unfolding create_body_def by (auto simp: db_call_def)

lemma GetActive_stored:
  assumes "sub_GetByID k d = Inr s" "sub_Status s \<in> {StatusTrial, StatusActive}"
  shows "GetActiveByUserID (sub_UserID s) d \<noteq> []"
proof -
  from assms(1) obtain r where r: "r \<in> set (db_subs d)" "s = subFieldsToDomain r"
    by (auto simp: sub_GetByID_ok_iff dest: select_by_Some)
  let ?rows = "filter (\<lambda>x. sr_user_id x = sub_UserID s \<and> sr_status x \<in> {StatusTrial, StatusActive}) (db_subs d)"
  have "r \<in> set ?rows" using r assms(2) by (simp add: subFieldsToDomain_def)
  then have "length ?rows > 0" by (rule length_pos_if_in_set)
  then have "length (GetActiveByUserID (sub_UserID s) d) > 0"
    by (simp only: GetActiveByUserID_def length_map length_sort)
  then show ?thesis by auto
qed

lemma CreateSubscription_spec:
  assumes r: "CreateSubscription env x d = (Inr (s, iv), d')" and inv: "db_inv d"
  shows "\<exists>p s' iv'. plan_GetByID (cc_PlanID x) d = Inr p \<and> plan_IsActive p
    \<and> 0 < sint (Amount (plan_BasePrice p))
    \<and> GetActiveByUserID (cc_UserID x) d = []
    \<and> (plan_AllowedCountries p = [] \<or> cc_UserCountry x \<in> set (plan_AllowedCountries p))
    \<and> sub_GetByID (sub_ID s) d' = Inr s' \<and> sub_Status s' = StatusTrial \<and> sub_UserID s' = cc_UserID x
    \<and> sub_PlanID s' = cc_PlanID x \<and> sub_AddonIDs s' = clean_ids {} (cc_AddonIDs x)
    \<and> sub_Period s' = NewBillingPeriod (env_now env) (plan_Interval p)
    \<and> inv_GetByID (inv_ID iv) d' = Inr iv' \<and> inv_Status iv' = InvoiceDraft
    \<and> inv_SubscriptionID iv' = sub_ID s \<and> inv_Total iv' = inv_Total iv
    \<and> sint (Amount (inv_Total iv)) = max 0 (selection_price p (cc_AddonIDs x))"
proof -
  from r have b: "create_body env x d = Inr ((s, iv), d')"
    by (simp add: CreateSubscription_def RunInTx_ok_iff)
  obtain pl :: plan and t v d1 d2 t' where pl: "plan_GetByID (cc_PlanID x) d = Inr pl"
    and ck: "ce_Check \<lparr>ce_Plan = pl, ce_HasActiveSubscription = length (GetActiveByUserID (cc_UserID x) d) > 0,
               ce_AllowedCountries = plan_AllowedCountries pl, ce_UserCountry = cc_UserCountry x\<rparr> = Inr ()"
    and ns: "NewSubscription (env_uuid env 0) (env_uuid env 1) (cc_UserID x) (plan_ID pl) (plan_Interval pl)
       (cc_AddonIDs x) (env_now env) = Inr t"
    and ni: "NewInvoice (env_uuid env 2) (env_uuid env 3) (sub_ID t) (cc_UserID x)
       (buildLineItems pl (cc_AddonIDs x)) [] (Currency (plan_BasePrice pl)) (env_now env) = Inr v"
    and c: "sub_Create t d = Inr d1" "inv_Create v d1 = Inr d2"
    and p: "publish env ''publish subscription'' t d2 = Inr (t', d')" and e: "(s, iv) = (t', v)"
    by (rule create_body_ok [OF b])
  have st: "sub_ID t' = sub_ID t"
    using p by (auto simp: publish_ok DomainEvents_def)
  have sd': "sub_GetByID (sub_ID t) d' = Inr (sub_stored t)"
    using sub_repo.get_create [OF db_invD(1) [OF inv] c(1)] same_subs_trans [OF same_inv_Create [OF c(2)] same_publish [OF p]]
    by (simp add: same_subs_def)
  have wf: "invs_wf d1" using create_frames(2) [OF c(1)] db_invD(2) [OF inv] by simp
  have ivd': "inv_GetByID (inv_ID v) d' = Inr (inv_stored v)"
    using inv_repo.get_create [OF wf c(2)] publish_inv_same [OF p] by simp
  have T: "sub_Status t = StatusTrial" "sub_UserID t = cc_UserID x" "sub_PlanID t = cc_PlanID x"
    "sub_AddonIDs t = clean_ids {} (cc_AddonIDs x)" "sub_Period t = NewBillingPeriod (env_now env) (plan_Interval pl)"
    using ns plan_GetByID_ok [OF pl] by (auto simp: NewSubscription_def RecordEvent_def split: if_splits)
  have tot: "sint (Amount (inv_Total v)) = max 0 (selection_price pl (cc_AddonIDs x))"
    using NewInvoice_total [OF ni] by (simp add: buildLineItems_sum)
  have ck': "plan_IsActive pl" "0 < sint (Amount (plan_BasePrice pl))" "GetActiveByUserID (cc_UserID x) d = []"
    "plan_AllowedCountries pl = [] \<or> cc_UserCountry x \<in> set (plan_AllowedCountries pl)"
    using ck by (auto simp: ce_Check_def IsPositive_iff split: if_splits)
  have e': "sub_ID s = sub_ID t" "iv = v" using e st by simp_all
  have vi: "inv_Status v = InvoiceDraft" "inv_SubscriptionID v = sub_ID t" using NewInvoice_inv [OF ni] by simp_all
  show ?thesis
    unfolding e'
    by (intro exI [of _ pl] exI [of _ "sub_stored t"] exI [of _ "inv_stored v"] conjI)
       (simp_all add: pl ck' sd' ivd' T tot vi)
qed

section \<open>The scheduler\<close>

lemma notify_result:
  "run_notify env m d = (r, d', ns) \<Longrightarrow> (\<exists>e. r = Inl e) \<and> d' = d \<or> (\<exists>p. r = Inr () \<and> m d = Inr (p, d'))"
  by (cases r) (auto dest: run_notify_error run_notify_ok)

lemma renew_frame:
  assumes "RenewSubscription env i d = (r, d', ns)" "k \<noteq> i"
  shows "sub_GetByID k d' = sub_GetByID k d"
  using notify_result [OF assms(1) [unfolded RenewSubscription_def]]
proof (elim disjE exE conjE)
  fix p assume b: "renew_body env i d = Inr (p, d')"
  show ?thesis
  proof (rule renew_body_ok [OF b])
    fix old b s pl iv0 iv d1 d2 src src'
    assume "sub_GetByID i d = Inr old" "Renew (env_uuid env 0) (env_now env) b old = Inr s"
      and c: "inv_Create iv (sub_Update (env_dbnow env) s d) = Inr d1"
        "publish env ''publish subscription'' s d1 = Inr (src, d2)"
        "publish env ''publish invoice'' iv d2 = Inr (src', d')"
    then have "k \<noteq> sub_ID s" using assms(2) Renew_ok sub_repo.get_key by metis
    then show ?thesis
      using same_subs_trans [OF same_inv_Create [OF c(1)] same_subs_trans [OF same_publish [OF c(2)] same_publish [OF c(3)]]]
      by (simp add: same_subs_def sub_repo.get_update_other)
  qed
qed simp

lemma renew_member:
  assumes "RenewSubscription env i d = (r, d', ns)" "sub_GetByID i d = Inr s"
  shows "\<exists>s'. sub_GetByID i d' = Inr s' \<and> (is_ok r \<and> sub_Status s' = StatusActive \<and> sub_Period s' = Next (sub_Period s)
    \<or> \<not> is_ok r \<and> s' = s)"
  using notify_result [OF assms(1) [unfolded RenewSubscription_def]]
proof (elim disjE exE conjE)
  fix p assume b: "renew_body env i d = Inr (p, d')" and r: "r = Inr ()"
  show ?thesis
  proof (rule renew_body_ok [OF b])
    fix old b s1 pl iv0 iv d1 d2 src src'
    assume o: "sub_GetByID i d = Inr old" and rn: "Renew (env_uuid env 0) (env_now env) b old = Inr s1"
      and c: "inv_Create iv (sub_Update (env_dbnow env) s1 d) = Inr d1"
        "publish env ''publish subscription'' s1 d1 = Inr (src, d2)"
        "publish env ''publish invoice'' iv d2 = Inr (src', d')"
    have "sub_GetByID i d' = Inr (sub_merge (env_dbnow env) old s1)"
      using same_subs_trans [OF same_inv_Create [OF c(1)] same_subs_trans [OF same_publish [OF c(2)] same_publish [OF c(3)]]]
        sub_repo.read_modify_write [OF o, of s1 "env_dbnow env"] Renew_ok [OF rn] by (simp add: same_subs_def)
    with o assms(2) Renew_ok [OF rn] r show ?thesis by auto
  qed
qed (use assms(2) in simp)

lemma Expire_ok: "Expire e t s = Inr s' \<Longrightarrow> sub_Status s' = StatusExpired \<and> sub_ID s' = sub_ID s"
  by (auto simp: Expire_def transitionTo_def split: if_splits)

lemma expire_frame:
  assumes "ExpireSubscription env i d = (r, d', ns)" "k \<noteq> i"
  shows "sub_GetByID k d' = sub_GetByID k d"
  using notify_result [OF assms(1) [unfolded ExpireSubscription_def]]
proof (elim disjE exE conjE)
  fix p assume "tx_bind (change_sub env i (Expire (env_uuid env 0) (env_now env)))
    (\<lambda>(_, s). tx_return (Some (ExpiredPost (sub_ID s) (sub_UserID s) (sub_PlanID s)))) d = Inr (p, d')"
  then obtain old s src where o: "sub_GetByID i d = Inr old" and s: "Expire (env_uuid env 0) (env_now env) old = Inr s"
    and p: "publish env ''publish subscription'' s (sub_Update (env_dbnow env) s d) = Inr (src, d')"
    by (auto dest!: change_sub_ok)
  have "k \<noteq> sub_ID s" using Expire_ok [OF s] sub_repo.get_key [OF o] assms(2) by simp
  with same_publish [OF p] show ?thesis by (simp add: same_subs_def sub_repo.get_update_other)
qed simp

lemma expire_member:
  assumes "ExpireSubscription env i d = (r, d', ns)" "sub_GetByID i d = Inr s"
  shows "\<exists>s'. sub_GetByID i d' = Inr s' \<and> (is_ok r \<and> sub_Status s' = StatusExpired \<or> \<not> is_ok r \<and> s' = s)"
  using notify_result [OF assms(1) [unfolded ExpireSubscription_def]]
proof (elim disjE exE conjE)
  fix p assume "tx_bind (change_sub env i (Expire (env_uuid env 0) (env_now env)))
    (\<lambda>(_, s). tx_return (Some (ExpiredPost (sub_ID s) (sub_UserID s) (sub_PlanID s)))) d = Inr (p, d')" and r: "r = Inr ()"
  then obtain old s1 src where o: "sub_GetByID i d = Inr old" and s1: "Expire (env_uuid env 0) (env_now env) old = Inr s1"
    and p: "publish env ''publish subscription'' s1 (sub_Update (env_dbnow env) s1 d) = Inr (src, d')"
    by (auto dest!: change_sub_ok)
  have "sub_GetByID i d' = Inr (sub_merge (env_dbnow env) old s1)"
    using same_publish [OF p] sub_repo.read_modify_write [OF o, of s1 "env_dbnow env"] Expire_ok [OF s1]
    by (simp add: same_subs_def)
  with Expire_ok [OF s1] r show ?thesis by simp
qed (use assms(2) in simp)

lemma process_each_other:
  "k \<notin> set ids \<Longrightarrow> sub_GetByID k (fst (process_each renv eenv j ids d)) = sub_GetByID k d"
proof (induction ids arbitrary: j d)
  case (Cons i ids)
  obtain r d1 ns where r: "RenewSubscription (renv j) i d = (r, d1, ns)" by (cases "RenewSubscription (renv j) i d") auto
  obtain x d2 ns2 where x: "ExpireSubscription (eenv j) i d1 = (x, d2, ns2)" by (cases "ExpireSubscription (eenv j) i d1") auto
  have "sub_GetByID k d1 = sub_GetByID k d" "sub_GetByID k d2 = sub_GetByID k d1"
    using renew_frame [OF r] expire_frame [OF x] Cons.prems by simp_all
  with Cons show ?case
    by (cases r) (simp_all add: r x case_prod_unfold Let_def)
qed simp

text \<open>A due subscription is renewed, or expired when the renewal failed, or else untouched.\<close>

lemma process_each_member:
  "distinct ids \<Longrightarrow> i \<in> set ids \<Longrightarrow> sub_GetByID i d = Inr s \<Longrightarrow>
     \<exists>s'. sub_GetByID i (fst (process_each renv eenv j ids d)) = Inr s'
       \<and> (sub_Status s' = StatusActive \<and> sub_Period s' = Next (sub_Period s) \<or> sub_Status s' = StatusExpired \<or> s' = s)"
proof (induction ids arbitrary: j d)
  case (Cons a ids)
  obtain r d1 ns where r: "RenewSubscription (renv j) a d = (r, d1, ns)" by (cases "RenewSubscription (renv j) a d") auto
  obtain x d2 ns2 where x: "ExpireSubscription (eenv j) a d1 = (x, d2, ns2)" by (cases "ExpireSubscription (eenv j) a d1") auto
  show ?case
  proof (cases "i = a")
    case True
    with Cons.prems(1) have nin: "i \<notin> set ids" by simp
    obtain s1 where s1: "sub_GetByID i d1 = Inr s1" "is_ok r \<and> sub_Status s1 = StatusActive \<and> sub_Period s1 = Next (sub_Period s)
      \<or> \<not> is_ok r \<and> s1 = s"
      using renew_member [OF r] Cons.prems(3) True by blast
    obtain s2 where s2: "sub_GetByID i d2 = Inr s2" "is_ok x \<and> sub_Status s2 = StatusExpired \<or> \<not> is_ok x \<and> s2 = s1"
      using expire_member [OF x] s1(1) True by blast
    show ?thesis
      using s1 s2 process_each_other [OF nin] by (cases r) (auto simp: r x case_prod_unfold Let_def)
  next
    case False
    with Cons.prems(2) have "i \<in> set ids" by simp
    moreover have "sub_GetByID i d1 = Inr s" "sub_GetByID i d2 = Inr s"
      using renew_frame [OF r False] expire_frame [OF x False] Cons.prems(3) by simp_all
    ultimately show ?thesis
      using Cons.IH [of d1 "Suc j"] Cons.IH [of d2 "Suc j"] Cons.prems(1)
      by (cases r) (auto simp: r x case_prod_unfold Let_def)
  qed
qed simp

lemma GetExpiredActive_due:
  "s \<in> set (GetExpiredActive t n d) \<Longrightarrow> sub_Status s = StatusActive \<and> bp_End (sub_Period s) < t"
  by (auto simp: GetExpiredActive_def subFieldsToDomain_def dest: in_set_takeD)

lemma GetExpiredActive_length: "length (GetExpiredActive t n d) \<le> n"
  by (simp add: GetExpiredActive_def)

lemma GetExpiredActive_ids:
  assumes "subs_wf d"
  shows "distinct (map sub_ID (GetExpiredActive t n d))"
proof -
  let ?p = "\<lambda>r. sr_status r = StatusActive \<and> sr_period_end r < t"
  have "distinct (map sr_id (filter ?p (db_subs d)))"
    using assms by (simp add: subs_wf_def distinct_map_filter)
  then have "distinct (map sr_id (sort_key sr_period_end (filter ?p (db_subs d))))"
    by (simp add: distinct_map)
  then have "distinct (map sr_id (take n (sort_key sr_period_end (filter ?p (db_subs d)))))"
    unfolding take_map [symmetric] by (rule distinct_take)
  then show ?thesis by (simp add: GetExpiredActive_def comp_def)
qed

lemma GetExpiredActive_stored:
  assumes "subs_wf d" "s \<in> set (GetExpiredActive t n d)"
  shows "sub_GetByID (sub_ID s) d = Inr s"
proof -
  from assms(2) obtain r where r: "r \<in> set (db_subs d)" "s = subFieldsToDomain r"
    by (auto simp: GetExpiredActive_def dest!: in_set_takeD)
  with assms(1) distinct_select [of sr_id "db_subs d" r] show ?thesis
    by (auto simp: sub_GetByID_def subs_wf_def)
qed

text \<open>A renewal that fails for any reason, also a lost connection, expires the subscription.\<close>

lemma ExpireSubscription_succeeds:
  assumes "sub_GetByID i d = Inr s" "sub_Status s = StatusActive" "\<And>l. \<not> env_fault env l"
  shows "\<exists>d' ns. ExpireSubscription env i d = (Inr (), d', ns)"
  using assms
  by (simp add: ExpireSubscription_def run_notify_def RunInTx_def change_sub_def tx_bind_def get_sub_def update_sub_def
      db_call_def tx_call_def tx_read_def tx_lift_def tx_write_def tx_return_def publish_def PublishAll_def
      PublishBatch_def DomainEvents_def Expire_def transitionTo_def CanTransitionTo_def Let_def)

text \<open>Within a batch: the state that the loop has reached when it comes to its \<open>j\<close>-th subscription.\<close>

definition reached ::
    "(nat \<Rightarrow> billing_env) \<Rightarrow> (nat \<Rightarrow> billing_env) \<Rightarrow> string list \<Rightarrow> nat \<Rightarrow> db \<Rightarrow> db" where
  "reached renv eenv ids j d = fst (process_each renv eenv 0 (take j ids) d)"

lemma process_each_append:
  "fst (process_each renv eenv j (xs @ ys) d) = fst (process_each renv eenv (j + length xs) ys (fst (process_each renv eenv j xs d)))"
proof (induction xs arbitrary: j d)
  case (Cons i xs)
  then show ?case
    by (cases "RenewSubscription (renv j) i d"; cases "fst (RenewSubscription (renv j) i d)")
      (simp_all add: case_prod_unfold Let_def)
qed simp

lemma failed_renewal_expires:
  assumes ids: "distinct ids" "j < length ids" and s: "sub_GetByID (ids ! j) d = Inr s" "sub_Status s = StatusActive"
    and e: "\<And>l. \<not> env_fault (eenv j) l"
    and fails: "fst (RenewSubscription (renv j) (ids ! j) (reached renv eenv ids j d)) = Inl er"
  shows "\<exists>s'. sub_GetByID (ids ! j) (fst (process_each renv eenv 0 ids d)) = Inr s' \<and> sub_Status s' = StatusExpired"
proof -
  let ?i = "ids ! j" and ?d = "reached renv eenv ids j d"
  have split: "ids = take j ids @ ?i # drop (Suc j) ids" using ids(2) by (rule id_take_nth_drop)
  have "distinct (take j ids @ ?i # drop (Suc j) ids)" using ids(1) split by simp
  then have out: "?i \<notin> set (take j ids)" "?i \<notin> set (drop (Suc j) ids)" by simp_all
  have get: "sub_GetByID ?i ?d = Inr s"
    using process_each_other [OF out(1)] s(1) by (simp add: reached_def)
  obtain ns where r: "RenewSubscription (renv j) ?i ?d = (Inl er, ?d, ns)"
    using fails run_notify_error [of "renv j" "renew_body (renv j) ?i" ?d]
    by (cases "RenewSubscription (renv j) ?i ?d") (auto simp: RenewSubscription_def)
  obtain d' ns' where x: "ExpireSubscription (eenv j) ?i ?d = (Inr (), d', ns')"
    using ExpireSubscription_succeeds [OF get s(2) e] by blast
  from expire_member [OF x get] obtain s' where s': "sub_GetByID ?i d' = Inr s'" "sub_Status s' = StatusExpired" by auto
  have "fst (process_each renv eenv 0 ids d) = fst (process_each renv eenv (Suc j) (drop (Suc j) ids) d')"
    by (subst split) (use ids(2) in \<open>simp add: process_each_append reached_def [symmetric] r x min_def case_prod_unfold Let_def\<close>)
  with s' process_each_other [OF out(2)] show ?thesis by simp
qed

section \<open>Checkout\<close>

text \<open>
  When the charge cannot be created, the subscription and its invoice stay behind, and another
  checkout of the same user is refused.
\<close>

lemma StartCheckout_created:
  assumes "StartCheckout ce req d = (r, d')" "d' \<noteq> d"
  shows "\<exists>x s iv. cc_UserID x = rq_UserID req \<and> cc_PlanID x = rq_PlanID req
    \<and> CreateSubscription (ck_billing ce) x d = (Inr (s, iv), d')
    \<and> (case ck_payment ce (charge_for req s (checkout_pricing ce iv req)) of
         Inl e \<Rightarrow> r = Inl (ErrPayment e)
       | Inr c \<Rightarrow> r = Inr \<lparr>cr_SubscriptionID = sub_ID s, cr_InvoiceID = inv_ID (checkout_pricing ce iv req),
                          cr_CheckoutURL = cg_CheckoutURL c, cr_Provider = cg_Provider c\<rparr>)"
proof -
  let ?x = "\<lparr>cc_UserID = rq_UserID req, cc_PlanID = rq_PlanID req,
    cc_AddonIDs = dispatchSubscriptionCreating ce req (rq_AddonIDs req), cc_UserCountry = rq_UserCountry req\<rparr>"
  obtain q d1 where q: "CreateSubscription (ck_billing ce) ?x d = (q, d1)" by fastforce
  have "q = Inl e \<Longrightarrow> d1 = d" for e
    using q by (auto simp: CreateSubscription_def dest: RunInTx_error)
  then obtain s iv where "q = Inr (s, iv)" "d1 = d'"
    using assms q by (cases q) (auto simp: StartCheckout_def Let_def split: if_splits option.splits sum.splits)
  with q assms show ?thesis
    by (intro exI [of _ ?x] exI [of _ s] exI [of _ iv])
       (auto simp: StartCheckout_def Let_def split: if_splits option.splits sum.splits)
qed

lemma second_create_refused:
  assumes s: "sub_GetByID k d = Inr s" "sub_Status s \<in> {StatusTrial, StatusActive}" "sub_UserID s = cc_UserID x"
    and p: "plan_GetByID (cc_PlanID x) d = Inr p" "plan_IsActive p" "IsPositive (plan_BasePrice p)"
    and f: "\<And>l. \<not> env_fault env l"
  shows "CreateSubscription env x d = (Inl ErrAlreadySubscribed, d)"
  using GetActive_stored [OF s(1,2)] s(3) p f
  by (simp add: CreateSubscription_def RunInTx_def create_body_def tx_bind_def get_plan_def db_call_def tx_call_def
      tx_read_def tx_lift_def ce_Check_def)

section \<open>Proration and discounts\<close>

text \<open>
  The credit of an upgrade lies between nothing and the full price of the plan, when the product
  with the number of days fits and \<open>now\<close> is not before the period.
\<close>

lemma sint_days: "0 \<le> n \<Longrightarrow> n < 2 ^ 63 \<Longrightarrow> sint (word_of_int n :: int64) = n"
  by (rule sint_word_of_int64) (simp add: in_int64_def)

lemma prorated_bounds:
  assumes "0 \<le> sint a" "sint a < 2 ^ 32" "0 \<le> r" "r \<le> t" "0 < t" "t < 2 ^ 31"
  shows "0 \<le> sint (go_div (a * word_of_int r) (word_of_int t)) \<and> sint (go_div (a * word_of_int r) (word_of_int t)) \<le> sint a"
proof -
  have w: "sint (word_of_int r :: int64) = r" "sint (word_of_int t :: int64) = t"
    using assms by (simp_all add: sint_days)
  have "sint a * r \<le> 2 ^ 32 * (2 ^ 31 - 1)"
    using assms by (intro mult_mono) auto
  moreover have nn: "0 \<le> sint a * r" using assms by simp
  ultimately have m: "sint (a * word_of_int r) = sint a * r"
    using sint_mult64 [of a "word_of_int r"] w by (simp add: in_int64_def)
  have q: "sint (go_div (a * word_of_int r) (word_of_int t)) = sint a * r div t"
    using assms w m nn by (simp add: sint_go_div sdiv_pos)
  have "sint a * r div t \<le> sint a * t div t"
    using assms by (intro zdiv_mono1 mult_left_mono) auto
  then show ?thesis using assms nn by (simp add: q pos_imp_zdiv_nonneg_iff)
qed

lemma days_within:
  assumes "bp_Start per < bp_End per" "bp_Start per \<le> now"
  shows "0 \<le> totalDaysInPeriod per \<and> DaysRemaining per now \<le> totalDaysInPeriod per"
proof -
  have "0 \<le> Sub (bp_End per) (bp_Start per)" using assms(1) by (simp add: Sub_def)
  then have t: "0 \<le> totalDaysInPeriod per" by (simp add: totalDaysInPeriod_def whole_days_nonneg)
  have "DaysRemaining per now \<le> DaysRemaining per (bp_Start per)" by (rule DaysRemaining_antimono [OF assms(2)])
  also have "\<dots> \<le> totalDaysInPeriod per"
    using t by (auto simp: DaysRemaining_def totalDaysInPeriod_def Let_def)
  finally show ?thesis using t by simp
qed

lemma upgrade_credit_bounds:
  assumes price: "0 \<le> sint (Amount (plan_BasePrice p))" "sint (Amount (plan_BasePrice p)) < 2 ^ 32"
    and per: "bp_Start per < bp_End per" "bp_Start per \<le> now" and days: "totalDaysInPeriod per < 2 ^ 31"
  shows "0 \<le> sint (Amount (CalculateUpgradeCredit p per now))
    \<and> sint (Amount (CalculateUpgradeCredit p per now)) \<le> sint (Amount (plan_BasePrice p))"
proof (cases "totalDaysInPeriod per = 0")
  case True
  with price show ?thesis by (simp add: CalculateUpgradeCredit_def)
next
  case False
  with days_within [OF per] prorated_bounds [OF price DaysRemaining_nonneg _ _ days, of per now]
  show ?thesis by (simp add: CalculateUpgradeCredit_def Let_def)
qed

lemma upgrade_cost_bounds:
  assumes price: "0 \<le> sint (Amount (plan_BasePrice p))" "sint (Amount (plan_BasePrice p)) < 2 ^ 32"
    and per: "bp_Start per < bp_End per" "bp_Start per \<le> now" and days: "totalDaysInPeriod per < 2 ^ 31"
    and credit: "0 \<le> sint (Amount credit)" and cost: "CalculateUpgradeCost p per now credit = Inr c"
  shows "0 \<le> sint (Amount c) \<and> sint (Amount c) \<le> sint (Amount (plan_BasePrice p))"
proof (cases "totalDaysInPeriod per = 0")
  case True
  with price cost show ?thesis by (auto simp: CalculateUpgradeCost_def split: if_splits)
next
  case False
  define q where "q = go_div (Amount (plan_BasePrice p) * word_of_int (DaysRemaining per now)) (word_of_int (totalDaysInPeriod per))"
  have q: "0 \<le> sint q" "sint q \<le> sint (Amount (plan_BasePrice p))"
    using False days_within [OF per] prorated_bounds [OF price DaysRemaining_nonneg _ _ days, of per now]
    by (simp_all add: q_def)
  have "sint (q - Amount credit) = sint q - sint (Amount credit)"
    using q price credit sint64_upper [of "Amount credit"] by (intro sint_sub64) (simp add: in_int64_def)
  moreover have "Amount c = smax (q - Amount credit) 0"
    using cost False by (auto simp: CalculateUpgradeCost_def Let_def q_def split: if_splits)
  ultimately show ?thesis using q price credit by (simp add: sint_smax0)
qed

text \<open>
  A percent discount applied to a price leaves the floor of the remaining share; an invoice
  subtracts the floor of the discounted share. The two differ by at most one minor unit.
\<close>

lemma percent_apply:
  assumes d: "NewPercentDiscount pct code x = Inr d" and e: "\<not> IsExpiredAt d now"
    and price: "0 \<le> sint (Amount price)" "sint (Amount price) < 2 ^ 49"
  shows "\<exists>m. Apply d price now = Inr m \<and> sint (Amount m) = sint (Amount price) * (10000 - sint pct) div 10000"
proof -
  from NewPercentDiscount_range [OF d] have r: "d_Type d = DiscountPercent" "d_Value d = pct" "1 \<le> sint pct" "sint pct \<le> 10000"
    by simp_all
  have k: "sint (maxPercent - pct) = 10000 - sint pct" using r by (simp add: sint_maxPercent_minus)
  have "sint (Amount price) * (10000 - sint pct) \<le> 2 ^ 49 * 10000"
    using price r by (intro mult_mono) auto
  then have "sint (Amount (PercentOf price (maxPercent - pct) RoundFloor))
      = sint (Amount price) * (10000 - sint pct) div 10000"
    using PercentOf_floor_nonneg [of price "maxPercent - pct"] price r k by simp
  with e r(1,2) show ?thesis by (simp add: Apply_def del: PercentOf.simps)
qed

lemma div_split: "0 \<le> a \<Longrightarrow> 0 \<le> p \<Longrightarrow> p \<le> (k::int) \<Longrightarrow> 0 < k \<Longrightarrow>
  a - (a * p) div k - 1 \<le> a * (k - p) div k \<and> a * (k - p) div k \<le> a - (a * p) div k"
proof -
  assume k: "0 < k"
  have e: "a * (k - p) = - (a * p) + a * k" by (simp add: right_diff_distrib)
  have "a * (k - p) div k = a + (- (a * p)) div k"
    unfolding e using k by (intro div_mult_self1) simp
  moreover have "- (a * p div k) - 1 \<le> (- (a * p)) div k \<and> (- (a * p)) div k \<le> - (a * p div k)"
    using k by (simp add: zdiv_zminus1_eq_if)
  ultimately show ?thesis by linarith
qed

end
