(* ===== verification/Samples.thy ===== *)
theory Samples
  imports BillingSpec
begin

text \<open>
  Concrete inputs on which the properties are instantiated: one plan, environments without
  faults and hooks, and the databases after a subscription was created, paid and so on.
  Identifiers drawn in request \<open>n\<close> are the two characters of \<open>n\<close> and the draw.
\<close>

definition sample_env :: "nat \<Rightarrow> time \<Rightarrow> billing_env" where
  "sample_env n t = \<lparr>env_now = t, env_dbnow = t, env_uuid = (\<lambda>k. [char_of (97 + n), char_of (65 + k)]),
     env_trace = [], env_fault = (\<lambda>_. False), be_cancelHook = None, be_renewHook = None,
     be_upgradeHook = None, be_asyncHook = True\<rparr>"

definition sample_plan :: "string \<Rightarrow> int64 \<Rightarrow> plan" where
  "sample_plan i price = \<lparr>rec_events = [], rec_flushed = False, plan_ID = i, plan_Name = i, plan_Description = [],
     plan_BasePrice = NewMoney price CurrencyUSD, plan_Interval = IntervalMonth, plan_TrafficLimitBytes = 0,
     plan_DeviceLimit = 1, plan_AllowedCountries = [], plan_AllowedProtocols = [], plan_Tier = TierBasic,
     plan_MaxRemnawaveBindings = 1, plan_FamilyEnabled = True, plan_MaxFamilyMembers = 5, plan_MaxAddons = 0,
     plan_AvailableAddons = [\<lparr>ad_ID = ''x'', ad_Name = ''x'', ad_Price = NewMoney 70 CurrencyUSD, ad_Type = AddonTraffic,
       ad_ExtraTrafficBytes = 0, ad_ExtraNodes = [], ad_ExtraFeatureFlags = []\<rparr>],
     plan_IsActive = True, plan_CreatedAt = 0, plan_UpdatedAt = 0\<rparr>"

definition empty_db :: db where
  "empty_db = \<lparr>db_plans = [sample_plan ''p'' 500, sample_plan ''q'' 900], db_subs = [], db_invoices = [], db_lines = [],
     db_groups = [], db_members = [], db_outbox = []\<rparr>"

definition sample_cmd :: create_cmd where
  "sample_cmd = \<lparr>cc_UserID = ''u'', cc_PlanID = ''p'', cc_AddonIDs = [''x''], cc_UserCountry = []\<rparr>"

text \<open>The sample subscription is \<open>aA\<close>, its first invoice \<open>aC\<close>; a month after creation is \<open>month1\<close>.\<close>

definition created_db :: db where
  "created_db = exec_all [(sample_env 0 0, CmdCreate sample_cmd)] empty_db"

definition paid_db :: db where
  "paid_db = exec_all [(sample_env 0 0, CmdCreate sample_cmd), (sample_env 1 1, CmdPay ''aC'')] empty_db"

definition month1 :: time where "month1 = 31 * ns_per_day"

lemma empty_db_inv: "db_inv empty_db"
  by (simp add: db_inv_def empty_db_def subs_wf_def invs_wf_def sub_GetByID_def inv_GetByID_def)

lemma created_db_inv: "db_inv created_db"
  unfolding created_db_def by (rule exec_all_db_inv [OF empty_db_inv])

lemma paid_db_inv: "db_inv paid_db"
  unfolding paid_db_def by (rule exec_all_db_inv [OF empty_db_inv])

lemma sample_env_fields [simp]:
  "be_renewHook (sample_env n t) = None" "env_fault (sample_env n t) l = False" "env_now (sample_env n t) = t"
  by (simp_all add: sample_env_def)

end
