(* ===== verification/BillingValues.thy ===== *)
theory BillingValues
  imports Samples
begin

text \<open>
  Properties of the billing values and aggregates on their own: exact money, invoice totals,
  billing periods as a partition of time, proration, discounts, and what every history of
  operations on an aggregate keeps; and of the repositories: round trips and complete pages.
\<close>

section \<open>Periods partition time\<close>

lemma Next_iter_start: "bp_Start ((Next ^^ Suc k) bp) = bp_End ((Next ^^ k) bp)"
  by simp

lemma addInterval_ge: "t + 27 * ns_per_day \<le> addInterval t i"
  using AddDate_months_ge [of t 1] AddDate_months_ge [of t 3] AddDate_months_ge [of t 12]
  by (cases i) (simp_all add: monthsMonth_def monthsQuarter_def monthsYear_def ns_per_day_def)

lemma Next_iter_end: "k \<noteq> 0 \<Longrightarrow> bp_End ((Next ^^ k) bp) = addInterval (bp_Start ((Next ^^ k) bp)) (bp_Interval bp)"
proof -
  have "bp_Interval ((Next ^^ j) bp) = bp_Interval bp" for j by (induction j) simp_all
  then show "k \<noteq> 0 \<Longrightarrow> ?thesis" by (cases k) simp_all
qed

lemma periods_advance:
  assumes "bp = NewBillingPeriod s i"
  shows "bp_Start ((Next ^^ k) bp) + 27 * ns_per_day \<le> bp_Start ((Next ^^ Suc k) bp)"
proof -
  have "bp_End ((Next ^^ k) bp) = addInterval (bp_Start ((Next ^^ k) bp)) i"
    using Next_iter_end [of k bp] by (cases k) (simp_all add: assms)
  with addInterval_ge [of "bp_Start ((Next ^^ k) bp)" i] show ?thesis by simp
qed

lemma periods_lower:
  assumes "bp = NewBillingPeriod s i"
  shows "s + 27 * ns_per_day * int k \<le> bp_Start ((Next ^^ k) bp)"
proof (induction k)
  case 0
  then show ?case by (simp add: assms)
next
  case (Suc k)
  have "s + 27 * ns_per_day * int (Suc k) = (s + 27 * ns_per_day * int k) + 27 * ns_per_day"
    by (simp add: algebra_simps)
  with Suc periods_advance [OF assms, of k] show ?case by linarith
qed

lemma periods_mono:
  assumes "bp = NewBillingPeriod s i" "j \<le> k"
  shows "bp_Start ((Next ^^ j) bp) \<le> bp_Start ((Next ^^ k) bp)"
  using assms(2)
proof (induction k)
  case 0
  then show ?case by simp
next
  case (Suc k)
  then show ?case
    using periods_advance [OF assms(1), of k] by (cases "j = Suc k") (auto simp: ns_per_day_def)
qed

lemma period_of_time:
  assumes bp: "bp = NewBillingPeriod s i" and t: "s \<le> t"
  shows "\<exists>!k. Contains ((Next ^^ k) bp) t"
proof -
  let ?st = "\<lambda>k. bp_Start ((Next ^^ k) bp)"
  have cont: "Contains ((Next ^^ k) bp) t \<longleftrightarrow> ?st k \<le> t \<and> t < ?st (Suc k)" for k
    by (auto simp: Contains_def)
  define m where "m = (LEAST k. t < ?st k)"
  have "t - s < 27 * ns_per_day * int (nat (t - s + 1))"
    using t by (simp add: ns_per_day_def)
  then have "t < ?st (nat (t - s + 1))" using periods_lower [OF bp, of "nat (t - s + 1)"] by linarith
  then have m: "t < ?st m" unfolding m_def by (rule LeastI)
  have "m \<noteq> 0" using m t by (cases m) (auto simp: bp)
  then obtain k where k: "m = Suc k" by (cases m) auto
  have "\<not> t < ?st k"
    using not_less_Least [of k "\<lambda>k. t < ?st k"] k by (simp add: m_def)
  then have "Contains ((Next ^^ k) bp) t" using m k by (simp add: cont)
  moreover have "j = k" if "Contains ((Next ^^ j) bp) t" for j
  proof (rule ccontr)
    assume "j \<noteq> k"
    then consider "Suc j \<le> k" | "Suc k \<le> j" by linarith
    then show False
      using periods_mono [OF bp] that \<open>Contains ((Next ^^ k) bp) t\<close>
      by cases (meson cont leD order.trans)+
  qed
  ultimately show ?thesis by blast
qed

text \<open>
  The periods that start with a new one and follow by \<open>Next\<close> cut time into pieces: every
  instant from the start on lies in exactly one of them, whatever the interval and however
  months of different length meet the end of the month.
\<close>

theorem periods_partition_time:
  assumes "s \<le> t"
  shows "\<exists>!k. Contains ((Next ^^ k) (NewBillingPeriod s i)) t"
  using period_of_time [OF refl assms] .

lemma periods_partition_time_witness:
  "\<exists>!k. Contains ((Next ^^ k) (NewBillingPeriod 0 IntervalQuarter)) (ns_per_day * 1000)"
  by (rule periods_partition_time) (simp add: ns_per_day_def)

section \<open>Money and totals\<close>

text \<open>
  C14. The checked operations on money are exact: they return the mathematical result when it
  fits \<open>int64\<close> (and the currencies agree), and an overflow error exactly otherwise.
\<close>

theorem money_is_exact:
  "Add m n = (if Currency m \<noteq> Currency n then Inl ErrCurrencyMismatch
     else if in_int64 (sint (Amount m) + sint (Amount n))
     then Inr (NewMoney (word_of_int (sint (Amount m) + sint (Amount n))) (Currency m)) else Inl ErrMoneyOverflow)
   \<and> Subtract m n = (if Currency m \<noteq> Currency n then Inl ErrCurrencyMismatch
     else if in_int64 (sint (Amount m) - sint (Amount n))
     then Inr (NewMoney (word_of_int (sint (Amount m) - sint (Amount n))) (Currency m)) else Inl ErrMoneyOverflow)
   \<and> Multiply m f = (if in_int64 (sint (Amount m) * sint f)
     then Inr (NewMoney (word_of_int (sint (Amount m) * sint f)) (Currency m)) else Inl ErrMoneyOverflow)"
  by (simp add: Add_exact Subtract_exact Multiply_exact NewMoney_def)

text \<open>What one discount takes off an invoice.\<close>

definition discount_value :: "money \<Rightarrow> discount \<Rightarrow> int" where
  "discount_value subtotal d =
     (case d_Type d of
        DiscountPercent \<Rightarrow> sint (Amount (PercentOf subtotal (d_Value d) RoundFloor))
      | DiscountFixed \<Rightarrow> sint (d_Value d)
      | DiscountUnknown _ \<Rightarrow> 0)"

lemma sum_discounts_sum:
  "sum_discounts sub cur acc ds = Inr r \<Longrightarrow>
     sint (Amount r) = sint (Amount acc) + (\<Sum>d \<leftarrow> ds. discount_value sub d)"
proof (induction sub cur acc ds rule: sum_discounts.induct)
  case (1 sub cur acc)
  then show ?case by simp
next
  case (2 sub cur acc d ds)
  show ?case
  proof (cases "d_Type d")
    case DiscountPercent
    with "2.prems" obtain a where a: "Add acc (PercentOf sub (d_Value d) RoundFloor) = Inr a"
      and rest: "sum_discounts sub cur a ds = Inr r"
      by (auto simp del: PercentOf.simps)
    have "of_money (Add acc (PercentOf sub (d_Value d) RoundFloor)) = Inr a" using a by simp
    from "2.IH"(1) [OF DiscountPercent this rest] Add_ok [OF a] DiscountPercent show ?thesis
      by (simp add: discount_value_def del: PercentOf.simps)
  next
    case DiscountFixed
    with "2.prems" obtain a where a: "Add acc (NewMoney (d_Value d) cur) = Inr a"
      and rest: "sum_discounts sub cur a ds = Inr r"
      by auto
    have "of_money (Add acc (NewMoney (d_Value d) cur)) = Inr a" using a by simp
    from "2.IH"(2) [OF DiscountFixed this rest] Add_ok [OF a] DiscountFixed show ?thesis
      by (simp add: discount_value_def)
  next
    case (DiscountUnknown x)
    with "2.prems" "2.IH"(3) [OF DiscountUnknown] show ?thesis by (simp add: discount_value_def)
  qed
qed

text \<open>
  The totals of an invoice, when they can be computed: the subtotal is the sum of price
  times quantity over the line items, the discount the sum of the percent (floored) and fixed
  discounts, and the total their difference, or zero when the discounts exceed the subtotal.
\<close>

theorem invoice_totals_add_up:
  assumes "calculateTotal items ds cur = Inr (sub, disc, tot)"
  shows "Currency sub = cur \<and> Currency disc = cur \<and> Currency tot = cur
    \<and> sint (Amount sub) = (\<Sum>li \<leftarrow> items. sint (Amount (li_Amount li)) * sint (li_Quantity li))
    \<and> sint (Amount disc) = (\<Sum>d \<leftarrow> ds. discount_value sub d)
    \<and> sint (Amount tot) = max 0 (sint (Amount sub) - sint (Amount disc))"
proof -
  have "sum_discounts sub cur (Zero cur) ds = Inr disc"
    using assms by (auto simp: calculateTotal_def)
  from sum_discounts_sum [OF this] calculateTotal_ok [OF assms] show ?thesis by simp
qed

definition sample_items :: "line_item list" where
  "sample_items = [NewLineItem ''plan'' LineItemPlan (NewMoney 999 ''usd'') 1, NewLineItem ''addon'' LineItemAddon (NewMoney 250 ''usd'') 2]"

definition sample_discount :: discount where
  "sample_discount = \<lparr>d_Type = DiscountPercent, d_Value = 1500, d_Currency = [], d_Code = ''spring'', d_ExpiresAt = None\<rparr>"

lemma invoice_totals_add_up_witness:
  "\<exists>sub disc tot. calculateTotal sample_items [sample_discount] ''usd'' = Inr (sub, disc, tot)
     \<and> sint (Amount sub) = 1499 \<and> sint (Amount disc) = 224 \<and> sint (Amount tot) = 1275"
proof -
  have "is_ok (calculateTotal sample_items [sample_discount] ''usd'')" by code_simp
  then obtain sub disc tot where c: "calculateTotal sample_items [sample_discount] ''usd'' = Inr (sub, disc, tot)"
    by (auto simp: is_ok_iff)
  have "sint (Amount (PercentOf sub 1500 RoundFloor)) = sint (Amount sub) * 1500 div 10000"
    if "sint (Amount sub) = 1499"
    using PercentOf_floor_nonneg [of sub 1500] that by simp
  with invoice_totals_add_up [OF c] c show ?thesis
    by (simp add: sample_items_def sample_discount_def discount_value_def NewLineItem_def del: PercentOf.simps)
qed

section \<open>Histories of the aggregates\<close>

text \<open>
  Whatever operations are attempted on a new invoice, in any order: it keeps the invoice
  invariant (line items, a total that is not negative, one currency, a payment time exactly when
  paid or refunded), its status moves along the transition table, its identity stays; once it is
  no longer a draft its amounts never change again, and once paid it can only be refunded.
\<close>

theorem invoice_history:
  assumes "NewInvoice iid eid s u items ds cur now = Inr i"
  shows "let j = attempt invoice_step xs i; k = attempt invoice_step ys j in
     invoice_inv k \<and> inv_ID k = iid \<and> invoice_root.reach (inv_Status j) (inv_Status k)
     \<and> (inv_Status j \<noteq> InvoiceDraft \<longrightarrow> invoice_amounts k = invoice_amounts j)
     \<and> (inv_Status j \<in> {InvoicePaid, InvoiceRefunded} \<longrightarrow> inv_Status k \<in> {InvoicePaid, InvoiceRefunded})"
  using NewInvoice_inv [OF assms] invoice_attempt_inv [of i] invoice_attempt_inv
    invoice_root.history invoice_attempt_frozen invoice_paid_stays
  by (auto simp: Let_def)

definition sample_invoice :: invoice where
  "sample_invoice = projr (NewInvoice ''i'' ''e'' ''s'' ''u'' sample_items [] ''usd'' 0)"

lemma invoice_history_witness:
  "let j = attempt invoice_step [OpMarkPending 1, OpMarkPaid ''e1'' 2] sample_invoice;
       k = attempt invoice_step [OpApplyDiscount ''e2'' sample_discount 3, OpMarkFailed ''e3'' 4] j in
     inv_Status j = InvoicePaid \<and> invoice_inv k \<and> invoice_amounts k = invoice_amounts j"
proof -
  have "is_ok (NewInvoice ''i'' ''e'' ''s'' ''u'' sample_items [] ''usd'' 0)" by code_simp
  then have i: "NewInvoice ''i'' ''e'' ''s'' ''u'' sample_items [] ''usd'' 0 = Inr sample_invoice"
    by (auto simp: is_ok_iff sample_invoice_def)
  have "inv_Status (attempt invoice_step [OpMarkPending 1, OpMarkPaid ''e1'' 2] sample_invoice) = InvoicePaid"
    by code_simp
  with invoice_history [OF i, of "[OpMarkPending 1, OpMarkPaid ''e1'' 2]"
      "[OpApplyDiscount ''e2'' sample_discount 3, OpMarkFailed ''e3'' 4]"]
  show ?thesis by (simp add: Let_def)
qed

text \<open>
  Whatever operations are attempted on a new subscription, in any order and with any
  arguments that pass a well-formed period to \<open>Upgrade\<close>: the subscription invariant holds, the
  status moves along the transition table and stays once cancelled or expired, and the recorded
  events are only appended to, all tagged with the subscription's identifier.
\<close>

theorem subscription_history:
  assumes "NewSubscription sid eid u p i as now = Inr s" "\<forall>x \<in> set (xs @ ys). op_period_ok x"
  shows "let t = attempt sub_step xs s; r = attempt sub_step ys t in
     sub_inv r \<and> sub_ID r = sid \<and> sub_root.reach (sub_Status t) (sub_Status r)
     \<and> (sub_Status t \<in> {StatusCancelled, StatusExpired} \<longrightarrow> sub_Status r = sub_Status t)
     \<and> (\<exists>es. rec_events r = rec_events t @ es \<and> (\<forall>e \<in> set es. ev_EntityID e = sid))"
proof -
  let ?t = "attempt sub_step xs s"
  note new = NewSubscription_inv [OF assms(1)]
  have "sub_inv s" using new by simp
  then have "sub_inv ?t" by (rule sub_attempt_inv) (use assms(2) in simp)
  then have r: "sub_inv (attempt sub_step ys ?t)" by (rule sub_attempt_inv) (use assms(2) in simp)
  have stuck: "sub_Status ?t \<in> {StatusCancelled, StatusExpired} \<Longrightarrow> sub_Status (attempt sub_step ys ?t) = sub_Status ?t"
    by (rule sub_root.terminal_absorbing) auto
  have "sub_ID ?t = sid" using new sub_root.history [of s xs] by simp
  with sub_root.history [of ?t ys] r stuck show ?thesis by (simp add: Let_def)
qed

lemma subscription_history_witness:
  "\<exists>s. NewSubscription ''s'' ''e'' ''u'' ''p'' IntervalMonth [''a''] 0 = Inr s
     \<and> sub_inv (attempt sub_step [OpCancel ''e2'' [] 2, OpResume ''e3'' 3] (attempt sub_step [OpActivate ''e1'' 1] s))
     \<and> sub_Status (attempt sub_step [OpCancel ''e2'' [] 2, OpResume ''e3'' 3] (attempt sub_step [OpActivate ''e1'' 1] s)) = StatusCancelled"
proof -
  have "is_ok (NewSubscription ''s'' ''e'' ''u'' ''p'' IntervalMonth [''a''] 0)
      \<and> sub_Status (attempt sub_step [OpCancel ''e2'' [] 2, OpResume ''e3'' 3]
           (attempt sub_step [OpActivate ''e1'' 1] (projr (NewSubscription ''s'' ''e'' ''u'' ''p'' IntervalMonth [''a''] 0)))) = StatusCancelled"
    by code_simp
  then obtain s where s: "NewSubscription ''s'' ''e'' ''u'' ''p'' IntervalMonth [''a''] 0 = Inr s"
    "sub_Status (attempt sub_step [OpCancel ''e2'' [] 2, OpResume ''e3'' 3] (attempt sub_step [OpActivate ''e1'' 1] s)) = StatusCancelled"
    by (auto simp: is_ok_iff simp del: attempt.simps)
  with subscription_history [OF s(1), of "[OpActivate ''e1'' 1]" "[OpCancel ''e2'' [] 2, OpResume ''e3'' 3]"]
  show ?thesis by (simp add: Let_def)
qed

text \<open>
  Whatever members are added to and removed from a new family group: its owner stays the
  first member, no user is in it twice, and it never has more members than its limit, which is
  between 2 and 20.
\<close>

theorem family_history:
  assumes "NewFamilyGroup gid eid owner mx now = Inr g"
  shows "let h = attempt family_step xs g in
     (\<exists>m ms. fg_Members h = m # ms \<and> fm_UserID m = fg_OwnerID h \<and> fm_Role m = MemberOwner)
     \<and> distinct (map fm_UserID (fg_Members h))
     \<and> MemberCount h \<le> fg_MaxMembers h \<and> 2 \<le> fg_MaxMembers h \<and> fg_MaxMembers h \<le> 20 \<and> fg_ID h = fg_ID g"
proof -
  have "family_inv (attempt family_step xs g)"
    using NewFamilyGroup_inv [OF assms]
    by (intro attempt_invariant [where P = family_inv]) (blast intro: family_step_inv)+
  then have "\<exists>m ms. fg_Members (attempt family_step xs g) = m # ms \<and> fm_UserID m = fg_OwnerID (attempt family_step xs g)
      \<and> fm_Role m = MemberOwner"
    and "distinct (map fm_UserID (fg_Members (attempt family_step xs g)))"
    and "MemberCount (attempt family_step xs g) \<le> fg_MaxMembers (attempt family_step xs g)"
    and "2 \<le> fg_MaxMembers (attempt family_step xs g)" "fg_MaxMembers (attempt family_step xs g) \<le> 20"
    unfolding family_inv_def MemberCount_def by blast+
  moreover have "fg_ID (attempt family_step xs g) = fg_ID g" by (rule family_log.attempt_ident)
  ultimately show ?thesis by (simp only: Let_def simp_thms)
qed

definition sample_additions :: "family_op list" where
  "sample_additions = map (\<lambda>j. OpAddMember ''e'' (replicate j (CHR ''a'')) [] 1) [1, 2, 1, 3, 4]"

lemma family_history_witness:
  "\<exists>g. NewFamilyGroup ''g'' ''e'' ''o'' 3 0 = Inr g
     \<and> MemberCount (attempt family_step sample_additions g) = 3
     \<and> distinct (map fm_UserID (fg_Members (attempt family_step sample_additions g)))"
proof -
  have "is_ok (NewFamilyGroup ''g'' ''e'' ''o'' 3 0)
      \<and> MemberCount (attempt family_step sample_additions (projr (NewFamilyGroup ''g'' ''e'' ''o'' 3 0))) = 3"
    by code_simp
  then obtain g where g: "NewFamilyGroup ''g'' ''e'' ''o'' 3 0 = Inr g"
    "MemberCount (attempt family_step sample_additions g) = 3"
    by (auto simp: is_ok_iff simp del: attempt.simps)
  with family_history [OF g(1), of sample_additions] show ?thesis by (simp add: Let_def)
qed

section \<open>Proration and discounts\<close>

text \<open>
  Proration: for a period that ends after it starts and a moment not before it, the credit
  for the rest of the period and the cost of the new plan both lie between zero and the plan's
  price (for prices and days whose product fits \<open>int64\<close>); the credit never grows with time.
\<close>

theorem proration_is_bounded:
  assumes "0 \<le> sint (Amount (plan_BasePrice p))" "sint (Amount (plan_BasePrice p)) < 2 ^ 32"
    and "bp_Start per < bp_End per" "bp_Start per \<le> now" "totalDaysInPeriod per < 2 ^ 31"
    and "0 \<le> sint (Amount credit)" "CalculateUpgradeCost p per now credit = Inr c" "now \<le> later"
  shows "0 \<le> sint (Amount (CalculateUpgradeCredit p per now))
    \<and> sint (Amount (CalculateUpgradeCredit p per now)) \<le> sint (Amount (plan_BasePrice p))
    \<and> 0 \<le> sint (Amount c) \<and> sint (Amount c) \<le> sint (Amount (plan_BasePrice p))
    \<and> DaysRemaining per later \<le> DaysRemaining per now"
  using upgrade_credit_bounds [OF assms(1-5)] upgrade_cost_bounds [OF assms(1-7)]
    DaysRemaining_antimono [OF assms(8)] by simp

lemma proration_is_bounded_witness:
  "\<exists>c. CalculateUpgradeCost (sample_plan ''q'' 900) (NewBillingPeriod 0 IntervalMonth) (10 * ns_per_day) (NewMoney 100 ''usd'') = Inr c
     \<and> 0 \<le> sint (Amount c) \<and> sint (Amount c) \<le> 900"
proof -
  let ?per = "NewBillingPeriod 0 IntervalMonth" and ?p = "sample_plan ''q'' 900"
  have "is_ok (CalculateUpgradeCost ?p ?per (10 * ns_per_day) (NewMoney 100 ''usd''))
      \<and> totalDaysInPeriod ?per < 2 ^ 31 \<and> bp_Start ?per \<le> 10 * ns_per_day"
    by code_simp
  then obtain c where c: "CalculateUpgradeCost ?p ?per (10 * ns_per_day) (NewMoney 100 ''usd'') = Inr c"
    and d: "totalDaysInPeriod ?per < 2 ^ 31" "bp_Start ?per \<le> 10 * ns_per_day"
    by (auto simp: is_ok_iff)
  have price: "sint (Amount (plan_BasePrice ?p)) = 900" by (simp add: sample_plan_def)
  have per: "bp_Start ?per < bp_End ?per" using addInterval_after [of 0 IntervalMonth] by simp
  have "0 \<le> sint (Amount c) \<and> sint (Amount c) \<le> sint (Amount (plan_BasePrice ?p))"
    using proration_is_bounded [OF _ _ per d(2,1) _ c order_refl] price by simp
  with c price show ?thesis by simp
qed

text \<open>
  A percent discount taken off a price directly leaves at most what an invoice with the
  same discount charges, and at most one minor unit less: the discount rounds the remaining
  price down where the invoice rounds the discount down.
\<close>

theorem discount_and_invoice_agree:
  assumes "NewPercentDiscount pct code x = Inr d" "\<not> IsExpiredAt d now"
    and "0 \<le> sint (Amount price)" "sint (Amount price) < 2 ^ 49"
  shows "\<exists>m. Apply d price now = Inr m \<and> Currency m = Currency price
    \<and> sint (Amount m) \<in> {sint (Amount price) - discount_value price d - 1, sint (Amount price) - discount_value price d}"
proof -
  from percent_apply [OF assms] obtain m where m: "Apply d price now = Inr m"
    "sint (Amount m) = sint (Amount price) * (10000 - sint pct) div 10000" by blast
  from NewPercentDiscount_range [OF assms(1)] have r: "d_Type d = DiscountPercent" "d_Value d = pct" "1 \<le> sint pct" "sint pct \<le> 10000"
    by simp_all
  have "sint (Amount price) * sint pct \<le> 2 ^ 49 * 10000" using assms(3,4) r by (intro mult_mono) auto
  then have "discount_value price d = sint (Amount price) * sint pct div 10000"
    using PercentOf_floor_nonneg [of price pct] assms(3) r by (simp add: discount_value_def del: PercentOf.simps)
  with m div_split [of "sint (Amount price)" "sint pct" 10000] assms(3) r Apply_currency [OF m(1)]
  show ?thesis by auto
qed

lemma discount_and_invoice_agree_witness:
  "\<exists>d m. NewPercentDiscount 1500 ''spring'' None = Inr d \<and> Apply d (NewMoney 999 ''usd'') 0 = Inr m
     \<and> sint (Amount m) \<in> {999 - discount_value (NewMoney 999 ''usd'') d - 1, 999 - discount_value (NewMoney 999 ''usd'') d}"
proof -
  have "is_ok (NewPercentDiscount 1500 ''spring'' None)" by code_simp
  then obtain d where d: "NewPercentDiscount 1500 ''spring'' None = Inr d" by (auto simp: is_ok_iff)
  have "\<not> IsExpiredAt d 0" using NewPercentDiscount_range [OF d] by (simp add: IsExpiredAt_def)
  from discount_and_invoice_agree [OF d this, of "NewMoney 999 ''usd''"] d show ?thesis by auto
qed

section \<open>The repositories\<close>

lemma sub_updates_merge:
  assumes "sub_GetByID k d = Inr old" "ws \<noteq> []" "\<forall>(t, w) \<in> set ws. sub_ID w = k"
  shows "\<exists>r. sub_GetByID k (fold (\<lambda>(t, w). sub_Update t w) ws d) = Inr r
    \<and> sub_Status r = sub_Status (snd (last ws)) \<and> sub_Period r = sub_Period (snd (last ws))
    \<and> sub_AddonIDs r = sub_AddonIDs (snd (last ws))
    \<and> sub_UserID r = sub_UserID old \<and> sub_PlanID r = sub_PlanID old \<and> sub_CreatedAt r = sub_CreatedAt old"
  using assms
proof (induction ws arbitrary: d old)
  case Nil
  then show ?case by simp
next
  case (Cons p ws)
  obtain t w where p: "p = (t, w)" by (cases p)
  have w: "sub_ID w = k" using Cons.prems(3) p by simp
  have step: "sub_GetByID k (sub_Update t w d) = Inr (sub_merge t old w)"
    using sub_repo.get_update [of w d old t] Cons.prems(1) w by simp
  show ?case
  proof (cases "ws = []")
    case True
    then show ?thesis using step p by (simp add: sub_merge_def)
  next
    case False
    from Cons.IH [OF step False] Cons.prems(3) show ?thesis using p False by (auto simp: sub_merge_def)
  qed
qed

text \<open>
  What is stored is what is read: a subscription that is created reads back as it was
  (less its pending events), every other one reads as before, and after any number of updates
  the stored row has the last written status, period and addons with the owner, plan and
  creation time of the first.
\<close>

theorem stored_subscription_roundtrip:
  assumes "subs_wf d" "sub_Create s d = Inr d'"
  shows "sub_GetByID (sub_ID s) d' = Inr (sub_stored s)
    \<and> (\<forall>k. k \<noteq> sub_ID s \<longrightarrow> sub_GetByID k d' = sub_GetByID k d)
    \<and> (\<forall>ws. ws \<noteq> [] \<longrightarrow> (\<forall>(t, w) \<in> set ws. sub_ID w = sub_ID s) \<longrightarrow>
         (\<exists>r. sub_GetByID (sub_ID s) (fold (\<lambda>(t, w). sub_Update t w) ws d') = Inr r
            \<and> sub_Status r = sub_Status (snd (last ws)) \<and> sub_Period r = sub_Period (snd (last ws))
            \<and> sub_AddonIDs r = sub_AddonIDs (snd (last ws))
            \<and> sub_UserID r = sub_UserID s \<and> sub_PlanID r = sub_PlanID s \<and> sub_CreatedAt r = sub_CreatedAt s))"
proof -
  have get: "sub_GetByID (sub_ID s) d' = Inr (sub_stored s)"
    and other: "\<And>k. k \<noteq> sub_ID s \<Longrightarrow> sub_GetByID k d' = sub_GetByID k d"
    using sub_repo.get_create [OF assms] sub_repo.get_create_other [OF assms(2)] by simp_all
  have created: "sub_CreatedAt (sub_stored s) = sub_CreatedAt s" by (simp add: sub_stored_def)
  show ?thesis
    using get other sub_updates_merge [OF get] created by auto
qed

definition sample_subscription :: subscription where
  "sample_subscription = projr (NewSubscription ''s'' ''e'' ''u'' ''p'' IntervalMonth [''x''] 0)"

lemma stored_subscription_roundtrip_witness:
  "\<exists>d r. sub_Create sample_subscription empty_db = Inr d
     \<and> sub_GetByID ''s'' (sub_Update 1 (sample_subscription\<lparr>sub_PlanID := ''q'', sub_Status := StatusActive\<rparr>) d) = Inr r
     \<and> sub_PlanID r = ''p'' \<and> sub_Status r = StatusActive"
proof -
  have "is_ok (sub_Create sample_subscription empty_db) \<and> sub_ID sample_subscription = ''s'' \<and> sub_PlanID sample_subscription = ''p''"
    by code_simp
  then obtain d where d: "sub_Create sample_subscription empty_db = Inr d" and i: "sub_ID sample_subscription = ''s''"
    and p: "sub_PlanID sample_subscription = ''p''"
    by (auto simp: is_ok_iff)
  have "subs_wf empty_db" by (simp add: subs_wf_def empty_db_def)
  from stored_subscription_roundtrip [OF this d, THEN conjunct2, THEN conjunct2, rule_format,
      of "[(1, sample_subscription\<lparr>sub_PlanID := ''q'', sub_Status := StatusActive\<rparr>)]"] d i p
  show ?thesis by auto
qed

text \<open>
  Paging through the subscriptions with a cursor misses nothing and repeats nothing: the
  pages joined are the whole table in descending order of creation, for every page size, and
  one page more than there are rows is always enough.
\<close>

theorem pages_cover_the_table:
  assumes "subs_wf d" "0 < limit" "length (db_subs d) \<le> n"
  shows "keyset_scan sub_cursor limit n None (db_subs d) = rev (sort_key sub_cursor (db_subs d))
    \<and> set (map sr_id (keyset_scan sub_cursor limit n None (db_subs d))) = set (map sr_id (db_subs d))
    \<and> distinct (map sr_id (keyset_scan sub_cursor limit n None (db_subs d)))
    \<and> (\<forall>c. length (sub_GetAllCursor limit c d) \<le> limit)"
proof -
  have keys: "distinct (map sub_cursor (db_subs d))"
  proof -
    have "map sr_id (db_subs d) = map snd (map sub_cursor (db_subs d))"
      by (simp add: sub_cursor_def comp_def)
    then show ?thesis using assms(1) by (metis distinct_map subs_wf_def)
  qed
  have all: "keyset_scan sub_cursor limit n None (db_subs d) = rev (sort_key sub_cursor (db_subs d))"
    by (rule keyset_scan_all [OF keys assms(2,3)])
  have "distinct (map sr_id (sort_key sub_cursor (db_subs d)))"
    using assms(1) by (simp add: subs_wf_def distinct_map distinct_insort)
  then have "distinct (map sr_id (rev (sort_key sub_cursor (db_subs d))))"
    by (simp add: rev_map [symmetric])
  moreover have "\<forall>c. length (sub_GetAllCursor limit c d) \<le> limit"
    by (simp add: sub_GetAllCursor_def keyset_page_def)
  ultimately show ?thesis using all by simp
qed

lemma pages_cover_the_table_witness:
  "set (map sr_id (keyset_scan sub_cursor 3 (length (db_subs paid_db)) None (db_subs paid_db))) = set (map sr_id (db_subs paid_db))"
  using pages_cover_the_table [of paid_db 3 "length (db_subs paid_db)"] db_invD(1) [OF paid_db_inv] by simp

end
