(* ===== verification/Scope.thy ===== *)
theory Scope
  imports Tx
begin

text \<open>
  The scopes of row-level security: \<open>pkg/tenantctx\<close>, the setting of \<open>app.tenant_id\<close> in
  \<open>txmanager.go\<close> and the policies of migrations 042 and 044, which the tables of several contexts
  share. A row is visible to the platform sentinel and to its own tenant, and to nobody else.
\<close>

section \<open>Scopes (pkg/tenantctx, txmanager.go)\<close>

definition PlatformScopeSentinel :: string where "PlatformScopeSentinel = ''*''"

text \<open>
  The scope a transaction runs under: the tenant of the context, set for the transaction, or the
  setting \<open>pool\<close> of the pooled connection when the context has none. Statements outside a
  transaction run under \<open>pool\<close>; a connection nobody configured has the empty scope.
\<close>

definition tx_scope :: "string \<Rightarrow> string \<Rightarrow> string" where
  "tx_scope pool ctx = (if ctx \<noteq> [] then ctx else pool)"

definition rls_visible :: "string \<Rightarrow> string option \<Rightarrow> bool" where
  "rls_visible guc tenant \<longleftrightarrow> guc = PlatformScopeSentinel \<or> (guc \<noteq> [] \<and> tenant = Some guc)"

text \<open>
  The self-stamp of an insert, \<open>NULLIF(current_setting(..), '*')::uuid\<close>, and its \<open>WITH CHECK\<close>:
  no scope, no insert.
\<close>

definition rls_stamp :: "string \<Rightarrow> string option option" where
  "rls_stamp guc = (if guc = [] then None else Some (if guc = PlatformScopeSentinel then None else Some guc))"

lemma rls_visible_empty [simp]: "\<not> rls_visible [] t"
  by (simp add: rls_visible_def PlatformScopeSentinel_def)

lemma rls_stamp_empty [simp]: "rls_stamp [] = None"
  by (simp add: rls_stamp_def)

lemma rls_stamp_visible: "rls_stamp guc = Some t \<Longrightarrow> rls_visible guc t"
  by (auto simp: rls_stamp_def rls_visible_def split: if_splits)

lemma rls_visible_platform [simp]: "rls_visible PlatformScopeSentinel t"
  by (simp add: rls_visible_def)

end
