(* ===== verification/BindingStore.thy ===== *)
theory BindingStore
  imports Binding Scope
begin

text \<open>
  Storage of the multi-subscription context: \<open>internal/adapter/postgres/multisub_repo.go\<close> and
  \<open>saga_repo.go\<close> with the statements of \<open>queries/multisub.sql\<close> and \<open>queries/saga.sql\<close>, under
  the row-level security of migrations 042 and 044 (\<open>Scope\<close>). Every statement runs under the
  value \<open>guc\<close> of the session variable \<open>app.tenant_id\<close> (empty when it is unset). Lemmas: in every scope the binding
  repository honours the repository contract; without a scope it has no rows and takes none.
\<close>

section \<open>Rows\<close>

record binding_row =
  br_id :: string
  br_subscription_id :: string
  br_platform_user_id :: string
  br_remnawave_uuid :: "string option"
  br_remnawave_short_uuid :: "string option"
  br_remnawave_username :: string
  br_purpose :: binding_purpose
  br_status :: binding_status
  br_traffic_limit_bytes :: int64
  br_allowed_nodes :: "string list"
  br_inbound_tags :: "string list"
  br_fail_reason :: string
  br_synced_at :: "time option"
  br_created_at :: time
  br_updated_at :: time
  br_tenant_id :: "string option"

datatype saga_type = SagaTypeProvisioning | SagaTypeDeprovisioning | SagaTypeSync

datatype saga_status = SagaStatusRunning | SagaStatusCompleted | SagaStatusFailed | SagaStatusCompensating

record provision_result =
  pv_BindingID :: string
  pv_RemnawaveUUID :: string
  pv_RemnawaveShortUUID :: string
  pv_Purpose :: binding_purpose

text \<open>The checkpointed state of a saga: the value that is marshalled to JSON.\<close>

datatype saga_state =
  EmptySagaState | ProvisioningState "provision_result list" | DeprovisioningState "string list" | SyncState string string

record saga_instance =
  sg_ID :: string
  sg_SagaType :: saga_type
  sg_CorrelationID :: string
  sg_Status :: saga_status
  sg_CurrentStep :: "32 word"
  sg_TotalSteps :: "32 word"
  sg_StateData :: saga_state
  sg_ErrorMessage :: "string option"
  sg_CreatedAt :: time
  sg_UpdatedAt :: time

text \<open>
  The state of the context: the two tables, the outbox, and the VPN panel behind the gateway,
  whose state \<open>'g\<close> belongs to the other side.
\<close>

record 'g msub =
  ms_bindings :: "binding_row list"
  ms_sagas :: "saga_instance list"
  ms_outbox :: "binding_payload event list"
  ms_panel :: 'g

section \<open>Bindings (multisub_repo.go)\<close>

definition bindingRowToDomain :: "binding_row \<Rightarrow> binding" where
  "bindingRowToDomain r =
     \<lparr>rec_events = [], rec_flushed = False,
      bd_ID = br_id r, bd_SubscriptionID = br_subscription_id r, bd_PlatformUserID = br_platform_user_id r,
      bd_RemnawaveUUID = DerefStr (br_remnawave_uuid r),
      bd_RemnawaveShortUUID = DerefStr (br_remnawave_short_uuid r),
      bd_RemnawaveUsername = br_remnawave_username r, bd_Purpose = br_purpose r, bd_Status = br_status r,
      bd_TrafficLimitBytes = br_traffic_limit_bytes r, bd_AllowedNodes = Some (br_allowed_nodes r),
      bd_InboundTags = Some (br_inbound_tags r), bd_FailReason = br_fail_reason r, bd_SyncedAt = br_synced_at r,
      bd_CreatedAt = br_created_at r, bd_UpdatedAt = br_updated_at r\<rparr>"

text \<open>
  The two array columns are declared \<open>NOT NULL\<close> (migration 003), and a nil slice is sent as \<open>NULL\<close>: a
  statement with one of them is refused. \<open>array_arg\<close> is the value of an argument that is not refused.
\<close>

definition null_array :: "binding \<Rightarrow> bool" where
  "null_array b \<longleftrightarrow> bd_AllowedNodes b = None \<or> bd_InboundTags b = None"

fun array_arg :: "string list option \<Rightarrow> string list" where
  "array_arg None = []"
| "array_arg (Some xs) = xs"

text \<open>\<open>CreateBindingParams\<close> with the stamped tenant.\<close>

definition binding_to_row :: "string option \<Rightarrow> binding \<Rightarrow> binding_row" where
  "binding_to_row tenant b =
     \<lparr>br_id = bd_ID b, br_subscription_id = bd_SubscriptionID b, br_platform_user_id = bd_PlatformUserID b,
      br_remnawave_uuid = StrPtrOrNil (bd_RemnawaveUUID b),
      br_remnawave_short_uuid = StrPtrOrNil (bd_RemnawaveShortUUID b),
      br_remnawave_username = bd_RemnawaveUsername b, br_purpose = bd_Purpose b, br_status = bd_Status b,
      br_traffic_limit_bytes = bd_TrafficLimitBytes b, br_allowed_nodes = array_arg (bd_AllowedNodes b),
      br_inbound_tags = array_arg (bd_InboundTags b), br_fail_reason = bd_FailReason b, br_synced_at = bd_SyncedAt b,
      br_created_at = bd_CreatedAt b, br_updated_at = bd_UpdatedAt b, br_tenant_id = tenant\<rparr>"

text \<open>\<open>UpdateBindingParams\<close>: the columns the statement sets; the trigger stamps \<open>updated_at\<close>.\<close>

definition binding_update_row :: "time \<Rightarrow> binding \<Rightarrow> binding_row \<Rightarrow> binding_row" where
  "binding_update_row dbnow b r = r
     \<lparr>br_remnawave_uuid := StrPtrOrNil (bd_RemnawaveUUID b),
      br_remnawave_short_uuid := StrPtrOrNil (bd_RemnawaveShortUUID b), br_status := bd_Status b,
      br_traffic_limit_bytes := bd_TrafficLimitBytes b, br_allowed_nodes := array_arg (bd_AllowedNodes b),
      br_inbound_tags := array_arg (bd_InboundTags b), br_fail_reason := bd_FailReason b, br_synced_at := bd_SyncedAt b,
      br_updated_at := dbnow\<rparr>"

definition br_rows :: "string \<Rightarrow> 'g msub \<Rightarrow> binding_row list" where
  "br_rows guc s = filter (\<lambda>r. rls_visible guc (br_tenant_id r)) (ms_bindings s)"

text \<open>\<open>UPDATE .. SET f WHERE c\<close> over the rows that the scope sees.\<close>

definition br_update :: "string \<Rightarrow> (binding_row \<Rightarrow> bool) \<Rightarrow> (binding_row \<Rightarrow> binding_row) \<Rightarrow> 'g msub \<Rightarrow> 'g msub" where
  "br_update guc c f s =
     s\<lparr>ms_bindings := map (\<lambda>r. if rls_visible guc (br_tenant_id r) \<and> c r then f r else r) (ms_bindings s)\<rparr>"

definition bd_GetByID :: "string \<Rightarrow> string \<Rightarrow> 'g msub \<Rightarrow> multisub_error + binding" where
  "bd_GetByID guc i s = MapErr ErrBindingNotFound (map_option bindingRowToDomain (select_by br_id i (br_rows guc s)))"

definition bd_GetBySubscriptionID :: "string \<Rightarrow> string \<Rightarrow> 'g msub \<Rightarrow> binding list" where
  "bd_GetBySubscriptionID guc subID s =
     map bindingRowToDomain (sort_key br_created_at (filter (\<lambda>r. br_subscription_id r = subID) (br_rows guc s)))"

definition bd_GetByPlatformUserID :: "string \<Rightarrow> string \<Rightarrow> 'g msub \<Rightarrow> binding list" where
  "bd_GetByPlatformUserID guc userID s =
     map bindingRowToDomain (sort_key br_created_at (filter (\<lambda>r. br_platform_user_id r = userID) (br_rows guc s)))"

text \<open>One row of those with the identifier (the column has no unique index).\<close>

definition bd_GetByRemnawaveUUID :: "string \<Rightarrow> string \<Rightarrow> 'g msub \<Rightarrow> multisub_error + binding" where
  "bd_GetByRemnawaveUUID guc rw s =
     MapErr ErrBindingNotFound (map_option bindingRowToDomain (select_by br_remnawave_uuid (Some rw) (br_rows guc s)))"

definition bd_GetActiveBySubscriptionID :: "string \<Rightarrow> string \<Rightarrow> 'g msub \<Rightarrow> binding list" where
  "bd_GetActiveBySubscriptionID guc subID s =
     map bindingRowToDomain (sort_key br_created_at
       (filter (\<lambda>r. br_subscription_id r = subID \<and> br_status r = BindingActive) (br_rows guc s)))"

definition bd_GetAllActive :: "string \<Rightarrow> 'g msub \<Rightarrow> binding list" where
  "bd_GetAllActive guc s =
     map bindingRowToDomain (sort_key br_created_at (filter (\<lambda>r. br_status r = BindingActive) (br_rows guc s)))"

definition bd_GetFailedWithRemnawaveUUID :: "string \<Rightarrow> 'g msub \<Rightarrow> binding list" where
  "bd_GetFailedWithRemnawaveUUID guc s =
     map bindingRowToDomain (sort_key br_created_at
       (filter (\<lambda>r. br_status r = BindingFailed \<and> br_remnawave_uuid r \<noteq> None) (br_rows guc s)))"

definition bd_GetFailedForReconciliation :: "string \<Rightarrow> nat \<Rightarrow> 'g msub \<Rightarrow> binding list" where
  "bd_GetFailedForReconciliation guc limit s =
     map bindingRowToDomain (take limit (sort_key br_updated_at
       (filter (\<lambda>r. br_status r = BindingFailed \<and> br_remnawave_uuid r \<noteq> None) (br_rows guc s))))"

definition bd_ResetAbandonedReconciling :: "string \<Rightarrow> time \<Rightarrow> duration \<Rightarrow> 'g msub \<Rightarrow> 'g msub" where
  "bd_ResetAbandonedReconciling guc dbnow olderThan s =
     br_update guc (\<lambda>r. br_status r = BindingReconciling \<and> br_updated_at r < dbnow - olderThan)
       (\<lambda>r. r\<lparr>br_status := BindingFailed, br_updated_at := dbnow\<rparr>) s"

text \<open>
  \<open>INSERT\<close>: the row-level security check of the new row comes first, then the \<open>NOT NULL\<close> columns, then
  the primary key.
\<close>

definition bd_Create :: "string \<Rightarrow> binding \<Rightarrow> 'g msub \<Rightarrow> multisub_error + 'g msub" where
  "bd_Create guc b s =
     (case rls_stamp guc of
        None \<Rightarrow> Inl (ErrMultisubStorage ''create binding'')
      | Some tenant \<Rightarrow>
          if null_array b then Inl (ErrMultisubStorage ''create binding'')
          else rbind (insert_unique br_id ErrBindingAlreadyExists (binding_to_row tenant b) (ms_bindings s)) (\<lambda>t.
            Inr (s\<lparr>ms_bindings := t\<rparr>)))"

text \<open>
  \<open>UPDATE\<close>: it is only called with bindings that were read from a row, whose arrays are never nil
  (\<open>loaded_arrays\<close>; the operations of the aggregate do not assign them), so it is never refused for them.
\<close>

definition bd_Update :: "string \<Rightarrow> time \<Rightarrow> binding \<Rightarrow> 'g msub \<Rightarrow> 'g msub" where
  "bd_Update guc dbnow b s = br_update guc (\<lambda>r. br_id r = bd_ID b) (binding_update_row dbnow b) s"

definition bd_Delete :: "string \<Rightarrow> string \<Rightarrow> 'g msub \<Rightarrow> 'g msub" where
  "bd_Delete guc i s =
     s\<lparr>ms_bindings := filter (\<lambda>r. \<not> (rls_visible guc (br_tenant_id r) \<and> br_id r = i)) (ms_bindings s)\<rparr>"

section \<open>The binding repository keeps its contract in every scope\<close>

definition bindings_wf :: "'g msub \<Rightarrow> bool" where
  "bindings_wf s \<longleftrightarrow> distinct (map br_id (ms_bindings s))"

definition bd_stored :: "binding \<Rightarrow> binding" where
  "bd_stored b = b\<lparr>rec_events := [], rec_flushed := False\<rparr>"

definition bd_merge :: "time \<Rightarrow> binding \<Rightarrow> binding \<Rightarrow> binding" where
  "bd_merge dbnow old b = (bd_stored old)
     \<lparr>bd_RemnawaveUUID := bd_RemnawaveUUID b, bd_RemnawaveShortUUID := bd_RemnawaveShortUUID b,
      bd_Status := bd_Status b, bd_TrafficLimitBytes := bd_TrafficLimitBytes b,
      bd_AllowedNodes := Some (array_arg (bd_AllowedNodes b)), bd_InboundTags := Some (array_arg (bd_InboundTags b)),
      bd_FailReason := bd_FailReason b, bd_SyncedAt := bd_SyncedAt b, bd_UpdatedAt := dbnow\<rparr>"

lemma binding_row_roundtrip: "\<not> null_array b \<Longrightarrow> bindingRowToDomain (binding_to_row t b) = bd_stored b"
  by (cases b) (auto simp: bindingRowToDomain_def binding_to_row_def bd_stored_def null_array_def)

lemma loaded_arrays: "\<not> null_array (bindingRowToDomain r)"
  by (simp add: null_array_def bindingRowToDomain_def)

text \<open>No binding that \<open>NewBinding\<close> returns can be inserted.\<close>

lemma NewBinding_refused:
  "NewBinding bid eid subID userID p i l now = Inr b \<Longrightarrow> bd_Create guc b s = Inl (ErrMultisubStorage ''create binding'')"
  by (auto simp: NewBinding_def bd_record_def RecordEvent_def bd_Create_def null_array_def split: if_splits option.split)

lemma binding_update_roundtrip:
  "bindingRowToDomain (binding_update_row t b r) = bd_merge t (bindingRowToDomain r) b"
  by (cases b) (simp add: bindingRowToDomain_def binding_update_row_def bd_merge_def bd_stored_def)

lemma bd_ID_domain [simp]: "bd_ID (bindingRowToDomain r) = br_id r"
  by (simp add: bindingRowToDomain_def)

lemma bd_Status_domain [simp]: "bd_Status (bindingRowToDomain r) = br_status r"
  by (simp add: bindingRowToDomain_def)

lemma binding_update_row_keeps [simp]:
  "br_id (binding_update_row t b r) = br_id r" "br_tenant_id (binding_update_row t b r) = br_tenant_id r"
  "br_subscription_id (binding_update_row t b r) = br_subscription_id r"
  "br_status (binding_update_row t b r) = bd_Status b"
  by (simp_all add: binding_update_row_def)

lemma binding_to_row_fields [simp]:
  "br_id (binding_to_row t b) = bd_ID b" "br_tenant_id (binding_to_row t b) = t"
  by (simp_all add: binding_to_row_def)

lemma br_rows_update:
  assumes "\<And>r. br_tenant_id (f r) = br_tenant_id r"
  shows "br_rows guc (br_update guc (\<lambda>r. br_id r = i) f s) = update_by br_id i f (br_rows guc s)"
proof -
  have "filter (\<lambda>r. rls_visible guc (br_tenant_id r))
          (map (\<lambda>r. if rls_visible guc (br_tenant_id r) \<and> br_id r = i then f r else r) t)
      = update_by br_id i f (filter (\<lambda>r. rls_visible guc (br_tenant_id r)) t)" for t
    using assms by (induction t) (auto simp: update_by_def)
  then show ?thesis by (simp add: br_rows_def br_update_def)
qed

lemma br_rows_Create:
  "bd_Create guc b s = Inr s' \<Longrightarrow>
     \<exists>t. rls_stamp guc = Some t \<and> br_rows guc s' = br_rows guc s @ [binding_to_row t b]
       \<and> bd_ID b \<notin> br_id ` set (br_rows guc s) \<and> \<not> null_array b"
  by (auto simp: bd_Create_def br_rows_def rls_stamp_visible insert_unique_def image_iff
      split: option.splits if_splits)

lemma bd_GetByID_ok_iff:
  "bd_GetByID guc i s = Inr b \<longleftrightarrow>
     (\<exists>r. select_by br_id i (br_rows guc s) = Some r \<and> b = bindingRowToDomain r)"
  by (auto simp: bd_GetByID_def)

lemma bd_GetByID_error:
  "bd_GetByID guc i s = Inl e \<longleftrightarrow> select_by br_id i (br_rows guc s) = None \<and> e = ErrBindingNotFound"
  by (cases "select_by br_id i (br_rows guc s)") (auto simp: bd_GetByID_def)

lemma br_update_ids:
  assumes "\<And>r. br_id (f r) = br_id r"
  shows "map br_id (ms_bindings (br_update guc c f s)) = map br_id (ms_bindings s)"
  using assms by (simp add: br_update_def)

interpretation bd_repo: repository bindings_wf "bd_GetByID guc" "bd_Create guc" "bd_Update guc dbnow" bd_ID bd_stored
    "bd_merge dbnow"
  for guc dbnow
proof
  fix k and s :: "'g msub" and a s' old e
  show "bd_GetByID guc k s = Inr a \<Longrightarrow> bd_ID a = k"
    by (auto simp: bd_GetByID_ok_iff dest: select_by_Some)
  show "bindings_wf s \<Longrightarrow> bd_Create guc a s = Inr s' \<Longrightarrow> bindings_wf s'"
    by (auto simp: bindings_wf_def bd_Create_def split: option.splits if_splits dest!: keys_insert)
  show "bindings_wf s \<Longrightarrow> bindings_wf (bd_Update guc dbnow a s)"
    by (simp add: bindings_wf_def bd_Update_def br_update_ids)
  show "bd_Create guc a s = Inr s' \<Longrightarrow> bd_GetByID guc (bd_ID a) s' = Inr (bd_stored a)"
    by (fastforce simp: bd_GetByID_def select_by_append select_by_Cons binding_row_roundtrip image_iff
        dest!: br_rows_Create split: option.splits dest!: select_by_Some)
  show "bd_Create guc a s = Inr s' \<Longrightarrow> k \<noteq> bd_ID a \<Longrightarrow> bd_GetByID guc k s' = bd_GetByID guc k s"
    by (auto simp: bd_GetByID_def select_by_append select_by_Cons dest!: br_rows_Create split: option.splits)
  show "bd_GetByID guc (bd_ID a) s = Inr old \<Longrightarrow>
      bd_GetByID guc (bd_ID a) (bd_Update guc dbnow a s) = Inr (bd_merge dbnow old a)"
    by (auto simp: bd_GetByID_def bd_Update_def br_rows_update select_update binding_update_roundtrip)
  show "k \<noteq> bd_ID a \<Longrightarrow> bd_GetByID guc k (bd_Update guc dbnow a s) = bd_GetByID guc k s"
    by (simp add: bd_GetByID_def bd_Update_def br_rows_update select_update)
  assume e: "bd_GetByID guc (bd_ID a) s = Inl e"
  then have "\<forall>r \<in> set (ms_bindings s). \<not> (rls_visible guc (br_tenant_id r) \<and> br_id r = bd_ID a)"
    by (auto simp: bd_GetByID_error select_by_None br_rows_def image_iff)
  then have "map (\<lambda>r. if rls_visible guc (br_tenant_id r) \<and> br_id r = bd_ID a
      then binding_update_row dbnow a r else r) (ms_bindings s) = ms_bindings s"
    by (intro map_idI) auto
  then show "bd_Update guc dbnow a s = s"
    by (simp add: bd_Update_def br_update_def)
qed

text \<open>Without a scope the table is empty to read, and nothing is written.\<close>

lemma unscoped_rows [simp]: "br_rows [] s = []"
  by (simp add: br_rows_def)

lemma unscoped_update [simp]: "br_update [] c f s = s"
  by (simp add: br_update_def)

lemma unscoped_reads [simp]:
  "bd_GetBySubscriptionID [] i s = []" "bd_GetActiveBySubscriptionID [] i s = []" "bd_GetAllActive [] s = []"
  "bd_GetFailedForReconciliation [] n s = []" "bd_GetByID [] i s = Inl ErrBindingNotFound"
  by (simp_all add: bd_GetBySubscriptionID_def bd_GetActiveBySubscriptionID_def bd_GetAllActive_def
      bd_GetFailedForReconciliation_def bd_GetByID_def)

lemma unscoped_writes [simp]:
  "bd_Update [] t b s = s" "bd_ResetAbandonedReconciling [] t d s = s"
  "bd_Create [] b s = Inl (ErrMultisubStorage ''create binding'')"
  by (simp_all add: bd_Update_def bd_ResetAbandonedReconciling_def bd_Create_def)

lemma bd_merge_fields [simp]:
  "bd_ID (bd_merge t old b) = bd_ID old" "bd_SubscriptionID (bd_merge t old b) = bd_SubscriptionID old"
  "bd_PlatformUserID (bd_merge t old b) = bd_PlatformUserID old"
  "bd_RemnawaveUsername (bd_merge t old b) = bd_RemnawaveUsername old"
  "bd_Purpose (bd_merge t old b) = bd_Purpose old"
  "bd_Status (bd_merge t old b) = bd_Status b" "bd_RemnawaveUUID (bd_merge t old b) = bd_RemnawaveUUID b"
  "bd_TrafficLimitBytes (bd_merge t old b) = bd_TrafficLimitBytes b"
  by (simp_all add: bd_merge_def bd_stored_def)

lemma bd_stored_fields [simp]:
  "bd_ID (bd_stored b) = bd_ID b" "bd_Status (bd_stored b) = bd_Status b"
  "bd_SubscriptionID (bd_stored b) = bd_SubscriptionID b" "rec_events (bd_stored b) = []"
  "bd_RemnawaveUUID (bd_stored b) = bd_RemnawaveUUID b"
  by (simp_all add: bd_stored_def)

lemma bd_stored_inv: "binding_inv (bd_stored b) \<longleftrightarrow> binding_inv b"
  by (simp add: binding_inv_def bd_stored_def IsProvisioned_def)

lemma bd_merge_inv: "binding_inv old \<Longrightarrow> binding_inv b \<Longrightarrow> binding_inv (bd_merge t old b)"
  by (auto simp: binding_inv_def IsProvisioned_def)

section \<open>Sagas (saga_repo.go)\<close>

text \<open>
  The table is not tenant-isolated. Every caller creates a running saga at step 0 with the empty
  state, so these are not arguments. The database draws the identifier and the times. A second
  saga of the same type and correlation violates the unique key, whatever the first one's status.
\<close>

definition sg_Create ::
    "string \<Rightarrow> time \<Rightarrow> saga_type \<Rightarrow> string \<Rightarrow> nat \<Rightarrow> 'g msub \<Rightarrow> multisub_error + (saga_instance \<times> 'g msub)" where
  "sg_Create sid dbnow ty corr totalSteps s =
     (let row = \<lparr>sg_ID = sid, sg_SagaType = ty, sg_CorrelationID = corr, sg_Status = SagaStatusRunning,
         sg_CurrentStep = 0, sg_TotalSteps = word_of_nat totalSteps, sg_StateData = EmptySagaState,
         sg_ErrorMessage = None, sg_CreatedAt = dbnow, sg_UpdatedAt = dbnow\<rparr>
      in rbind (insert_unique (\<lambda>r. (sg_SagaType r, sg_CorrelationID r))
                 (ErrMultisubStorage ''create saga instance'') row (ms_sagas s)) (\<lambda>t.
           Inr (row, s\<lparr>ms_sagas := t\<rparr>)))"

definition sg_update :: "string \<Rightarrow> (saga_instance \<Rightarrow> saga_instance) \<Rightarrow> 'g msub \<Rightarrow> 'g msub" where
  "sg_update i f s = s\<lparr>ms_sagas := update_by sg_ID i f (ms_sagas s)\<rparr>"

definition sg_UpdateProgress :: "time \<Rightarrow> string \<Rightarrow> nat \<Rightarrow> saga_state \<Rightarrow> 'g msub \<Rightarrow> 'g msub" where
  "sg_UpdateProgress dbnow i step data = sg_update i (\<lambda>r. r\<lparr>sg_CurrentStep := word_of_nat step,
     sg_StateData := data, sg_UpdatedAt := dbnow\<rparr>)"

definition sg_Complete :: "time \<Rightarrow> string \<Rightarrow> 'g msub \<Rightarrow> 'g msub" where
  "sg_Complete dbnow i = sg_update i (\<lambda>r. r\<lparr>sg_Status := SagaStatusCompleted, sg_UpdatedAt := dbnow\<rparr>)"

definition sg_Fail :: "time \<Rightarrow> string \<Rightarrow> string \<Rightarrow> 'g msub \<Rightarrow> 'g msub" where
  "sg_Fail dbnow i msg = sg_update i (\<lambda>r. r\<lparr>sg_Status := SagaStatusFailed, sg_ErrorMessage := StrPtrOrNil msg,
     sg_UpdatedAt := dbnow\<rparr>)"

definition sg_MarkCompensating :: "time \<Rightarrow> string \<Rightarrow> 'g msub \<Rightarrow> 'g msub" where
  "sg_MarkCompensating dbnow i =
     sg_update i (\<lambda>r. r\<lparr>sg_Status := SagaStatusCompensating, sg_UpdatedAt := dbnow\<rparr>)"

definition sg_GetRunning :: "'g msub \<Rightarrow> saga_instance list" where
  "sg_GetRunning s = take 1000 (sort_key sg_CreatedAt
     (filter (\<lambda>r. sg_Status r \<in> {SagaStatusRunning, SagaStatusCompensating}) (ms_sagas s)))"

definition sg_GetByCorrelation :: "saga_type \<Rightarrow> string \<Rightarrow> 'g msub \<Rightarrow> multisub_error + saga_instance" where
  "sg_GetByCorrelation ty corr s =
     MapErr ErrSagaNotFound (select_by (\<lambda>r. (sg_SagaType r, sg_CorrelationID r)) (ty, corr) (ms_sagas s))"

text \<open>\<open>Cleanup\<close>; its cutoff is the wall clock \<open>now\<close> less the retention period.\<close>

definition sg_Cleanup :: "time \<Rightarrow> duration \<Rightarrow> 'g msub \<Rightarrow> 'g msub" where
  "sg_Cleanup now olderThan s =
     s\<lparr>ms_sagas := filter (\<lambda>r. \<not> (sg_Status r \<in> {SagaStatusCompleted, SagaStatusFailed}
          \<and> sg_UpdatedAt r < now - olderThan)) (ms_sagas s)\<rparr>"

lemma sg_keeps [simp]:
  "ms_bindings (sg_UpdateProgress t i n d s) = ms_bindings s" "ms_bindings (sg_Complete t i s) = ms_bindings s"
  "ms_bindings (sg_Fail t i m s) = ms_bindings s" "ms_bindings (sg_MarkCompensating t i s) = ms_bindings s"
  "ms_panel (sg_UpdateProgress t i n d s) = ms_panel s" "ms_panel (sg_Complete t i s) = ms_panel s"
  "ms_panel (sg_Fail t i m s) = ms_panel s" "ms_panel (sg_MarkCompensating t i s) = ms_panel s"
  "ms_outbox (sg_UpdateProgress t i n d s) = ms_outbox s" "ms_outbox (sg_Complete t i s) = ms_outbox s"
  "ms_outbox (sg_Fail t i m s) = ms_outbox s" "ms_outbox (sg_MarkCompensating t i s) = ms_outbox s"
  by (simp_all add: sg_UpdateProgress_def sg_Complete_def sg_Fail_def sg_MarkCompensating_def sg_update_def)

lemma sg_Create_ok:
  "sg_Create i t ty c n s = Inr (r, s') \<Longrightarrow>
     ms_bindings s' = ms_bindings s \<and> ms_panel s' = ms_panel s \<and> ms_outbox s' = ms_outbox s
     \<and> sg_ID r = i \<and> ms_sagas s' = ms_sagas s @ [r]"
  by (auto simp: sg_Create_def Let_def dest: insert_unique_set)

end
