(* ===== verification/MultiSub.thy ===== *)
theory MultiSub
  imports BindingStore
begin

text \<open>
  The services of the multi-subscription context, \<open>internal/domain/multisub/service\<close>: the
  provisioning and deprovisioning sagas with their helpers, the binding lifecycle service, the
  reconciler, the sync saga, saga cleanup, and the orchestrator that billing events drive. Unlike
  the billing services these run outside a transaction, with a transaction per step and calls to
  the VPN panel between them, so an operation returns the state it has reached whether it fails
  or not. Logging is left out. Definitions only; what they guarantee is in the next theories.
\<close>

section \<open>Ports and environment\<close>

record create_user_request =
  cu_Username :: string
  cu_TrafficLimitBytes :: int64
  cu_TrafficStrategy :: string
  cu_ExpireAt :: "time option"
  cu_Tag :: string
  cu_ActiveInternalSquads :: "string list"

record user_result =
  ur_UUID :: string
  ur_ShortUUID :: string

record user_status =
  us_UUID :: string
  us_Enabled :: bool
  us_Expired :: bool
  us_UsedBytes :: int64

text \<open>
  The gateway, over the state \<open>'g\<close> of the panel. A failed call may still have changed the panel
  (a response lost on the way), so every answer comes with a panel state.
\<close>

record 'g gateway =
  gw_CreateUser :: "create_user_request \<Rightarrow> 'g \<Rightarrow> (string + user_result) \<times> 'g"
  gw_GetUser :: "string \<Rightarrow> 'g \<Rightarrow> (string + user_status) \<times> 'g"
  gw_DeleteUser :: "string \<Rightarrow> 'g \<Rightarrow> (string + unit) \<times> 'g"
  gw_EnableUser :: "string \<Rightarrow> 'g \<Rightarrow> (string + unit) \<times> 'g"
  gw_DisableUser :: "string \<Rightarrow> 'g \<Rightarrow> (string + unit) \<times> 'g"

datatype sub_status_view =
  SubStatusActive | SubStatusCancelled | SubStatusExpired | SubStatusPaused | SubStatusTrial | SubStatusPastDue

definition IsTerminal :: "sub_status_view \<Rightarrow> bool" where
  "IsTerminal st \<longleftrightarrow> st = SubStatusCancelled \<or> st = SubStatusExpired"

record subscription_info =
  si_ID :: string
  si_UserID :: string
  si_PlanID :: string
  si_Status :: sub_status_view
  si_AddonIDs :: "string list"

text \<open>
  \<open>me_pool\<close> is the scope of a pooled connection, \<open>me_steps i\<close> the environment of the \<open>i\<close>-th
  binding of a loop (its own clock reading, identifiers and faults), \<open>me_subs\<close> the subscription
  provider, \<open>me_limitingHook\<close> and the two after it the hooks of the orchestrator.
\<close>

record msub_env = tx_env +
  me_pool :: string
  me_steps :: "nat \<Rightarrow> tx_env"
  me_subs :: "string \<Rightarrow> string + subscription_info"
  me_limitingHook :: "(string \<Rightarrow> string \<Rightarrow> int64 \<Rightarrow> int64 \<Rightarrow> string + bool option) option"
  me_asyncHook :: bool
  me_hooksEnabled :: bool

section \<open>Calls and error texts\<close>

fun error_text :: "multisub_error \<Rightarrow> string" where
  "error_text ErrEmptySubscriptionID = ''subscription ID is required''"
| "error_text ErrEmptyPlatformUserID = ''platform user ID is required''"
| "error_text ErrInvalidPurpose = ''invalid binding purpose''"
| "error_text ErrInvalidBindingTransition = ''invalid binding state transition''"
| "error_text ErrNegativeBindingLimit = ''traffic limit must not be negative''"
| "error_text ErrBindingNotFound = ''remnawave binding not found''"
| "error_text ErrBindingAlreadyExists = ''remnawave binding already exists''"
| "error_text ErrMaxBindingsExceeded = ''maximum remnawave bindings exceeded''"
| "error_text ErrSagaNotFound = ''saga instance not found''"
| "error_text ErrSagaAlreadyExists = ''saga instance already exists for correlation''"
| "error_text (ErrGateway s) = s"
| "error_text (ErrLookup s) = s"
| "error_text (ErrMultisubStorage s) = s"

text \<open>A repository call that the database may refuse, and one whose failure is only logged.\<close>

definition ms_call :: "'z tx_env_scheme \<Rightarrow> string \<Rightarrow> multisub_error + 'a \<Rightarrow> multisub_error + 'a" where
  "ms_call e l r = (if env_fault e l then Inl (ErrMultisubStorage l) else r)"

definition try_write :: "'z tx_env_scheme \<Rightarrow> string \<Rightarrow> ('s \<Rightarrow> 's) \<Rightarrow> 's \<Rightarrow> 's" where
  "try_write e l f s = (if env_fault e l then s else f s)"

definition ms_publish ::
    "'z tx_env_scheme \<Rightarrow> (binding_payload, 'y) event_recorder_scheme \<Rightarrow> 'g msub \<Rightarrow> multisub_error + 'g msub" where
  "ms_publish e src s = map_sum id snd (PublishAll (\<lambda>es s. if env_fault e ''publish events''
       then Inl (ErrMultisubStorage ''publish events'')
       else Inr (s\<lparr>ms_outbox := PublishBatch (env_trace e) es (ms_outbox s)\<rparr>)) src s)"

text \<open>The body that every step shares: update the binding and publish its events.\<close>

definition update_and_publish :: "string \<Rightarrow> 'z tx_env_scheme \<Rightarrow> binding \<Rightarrow> ('g msub, multisub_error, unit) tx" where
  "update_and_publish guc e b =
     tx_bind (tx_call ErrMultisubStorage e ''update binding'' (tx_write (\<lambda>s. Inr (bd_Update guc (env_dbnow e) b s)))) (\<lambda>_.
       tx_write (ms_publish e b))"

definition update_only :: "string \<Rightarrow> 'z tx_env_scheme \<Rightarrow> binding \<Rightarrow> ('g msub, multisub_error, unit) tx" where
  "update_only guc e b =
     tx_call ErrMultisubStorage e ''update binding'' (tx_write (\<lambda>s. Inr (bd_Update guc (env_dbnow e) b s)))"

text \<open>A narrow read transaction.\<close>

definition read_tx :: "'z tx_env_scheme \<Rightarrow> string \<Rightarrow> ('g msub \<Rightarrow> multisub_error + 'a) \<Rightarrow> 'g msub \<Rightarrow> multisub_error + 'a" where
  "read_tx e l f s = fst (RunInTx ErrMultisubStorage e (tx_call ErrMultisubStorage e l (tx_read f)) s)"

section \<open>Saga bookkeeping (saga_helpers.go)\<close>

text \<open>
  A saga that could not be created is \<open>None\<close>, and then all bookkeeping is skipped; no failure of
  the bookkeeping affects the operation.
\<close>

definition create_saga ::
    "'z tx_env_scheme \<Rightarrow> saga_type \<Rightarrow> string \<Rightarrow> nat \<Rightarrow> 'g msub \<Rightarrow> string option \<times> 'g msub" where
  "create_saga e ty corr totalSteps s =
     (case ms_call e ''create saga'' (sg_Create (env_uuid e 0) (env_dbnow e) ty corr totalSteps s) of
        Inl _ \<Rightarrow> (None, s)
      | Inr (r, s') \<Rightarrow> (Some (sg_ID r), s'))"

definition with_saga ::
    "string option \<Rightarrow> 'z tx_env_scheme \<Rightarrow> string \<Rightarrow> (string \<Rightarrow> 'g msub \<Rightarrow> 'g msub) \<Rightarrow> 'g msub \<Rightarrow> 'g msub" where
  "with_saga saga e l f s = (case saga of None \<Rightarrow> s | Some i \<Rightarrow> try_write e l (f i) s)"

definition completeSaga :: "'z tx_env_scheme \<Rightarrow> string option \<Rightarrow> 'g msub \<Rightarrow> 'g msub" where
  "completeSaga e saga = with_saga saga e ''complete saga'' (sg_Complete (env_dbnow e))"

definition failSaga :: "'z tx_env_scheme \<Rightarrow> string option \<Rightarrow> string \<Rightarrow> 'g msub \<Rightarrow> 'g msub" where
  "failSaga e saga msg = with_saga saga e ''fail saga'' (\<lambda>i. sg_Fail (env_dbnow e) i msg)"

definition compensateSaga :: "'z tx_env_scheme \<Rightarrow> string option \<Rightarrow> 'g msub \<Rightarrow> 'g msub" where
  "compensateSaga e saga = with_saga saga e ''compensate saga'' (sg_MarkCompensating (env_dbnow e))"

definition checkpointSaga :: "'z tx_env_scheme \<Rightarrow> string option \<Rightarrow> nat \<Rightarrow> saga_state \<Rightarrow> 'g msub \<Rightarrow> 'g msub" where
  "checkpointSaga e saga step data =
     with_saga saga e ''checkpoint saga'' (\<lambda>i. sg_UpdateProgress (env_dbnow e) i step data)"

section \<open>Provisioning (provisioning_saga.go)\<close>

record provision_request =
  pq_SubscriptionID :: string
  pq_PlatformUserID :: string
  pq_Plan :: plan_snapshot
  pq_AddonIDs :: "string list"
  pq_FamilyMemberIDs :: "string list"

definition DefaultTrafficStrategy :: string where "DefaultTrafficStrategy = ''MONTH''"
definition CompensationMaxRetries :: nat where "CompensationMaxRetries = 3"

text \<open>
  The attempts that are left; between two attempts the context may be cancelled. The waiting
  itself has no effect on the state.
\<close>

fun compensate_attempts :: "'g gateway \<Rightarrow> 'z tx_env_scheme \<Rightarrow> nat \<Rightarrow> string \<Rightarrow> 'g \<Rightarrow> 'g" where
  "compensate_attempts gw e 0 rw p = p"
| "compensate_attempts gw e (Suc n) rw p =
     (case gw_DeleteUser gw rw p of
        (Inr _, p') \<Rightarrow> p'
      | (Inl _, p') \<Rightarrow> if env_fault e ''context done'' then p' else compensate_attempts gw e n rw p')"

definition compensateDeleteUser :: "'g gateway \<Rightarrow> 'z tx_env_scheme \<Rightarrow> string \<Rightarrow> 'g msub \<Rightarrow> 'g msub" where
  "compensateDeleteUser gw e rw s =
     s\<lparr>ms_panel := compensate_attempts gw e CompensationMaxRetries rw (ms_panel s)\<rparr>"

definition provision_user_request :: "binding \<Rightarrow> binding_spec \<Rightarrow> create_user_request" where
  "provision_user_request b spec =
     \<lparr>cu_Username = bd_RemnawaveUsername b, cu_TrafficLimitBytes = bs_TrafficLimit spec,
      cu_TrafficStrategy = DefaultTrafficStrategy, cu_ExpireAt = None, cu_Tag = PlatformTag,
      cu_ActiveInternalSquads = []\<rparr>"

text \<open>
  The branch taken when the panel refuses the user: the binding is marked failed and written,
  its events stay in memory.
\<close>

definition provision_refused :: "string \<Rightarrow> tx_env \<Rightarrow> string option \<Rightarrow> time \<Rightarrow> string \<Rightarrow> binding \<Rightarrow> 'g msub \<Rightarrow> 'g msub" where
  "provision_refused guc e saga now msg b s =
     (let b' = (case bd_MarkFailed (env_uuid e 2) msg now b of Inl _ \<Rightarrow> b | Inr c \<Rightarrow> c)
      in failSaga e saga (''remnawave create user: '' @ msg)
           (try_write e ''update failed binding'' (bd_Update guc (env_dbnow e) b') s))"

text \<open>One round of the loop: the pending row, the user on the panel, the transaction.\<close>

definition provision_one ::
    "string \<Rightarrow> string \<Rightarrow> 'g gateway \<Rightarrow> tx_env \<Rightarrow> string option \<Rightarrow> provision_request \<Rightarrow> time \<Rightarrow> nat \<Rightarrow> binding_spec
     \<Rightarrow> 'g msub \<Rightarrow> (multisub_error + provision_result) \<times> 'g msub" where
  "provision_one pool ctx gw e saga req now i spec s =
     (case NewBinding (env_uuid e 0) (env_uuid e 1) (pq_SubscriptionID req) (pq_PlatformUserID req)
             (bs_Purpose spec) (int i) (bs_TrafficLimit spec) now of
        Inl er \<Rightarrow> (Inl er, failSaga e saga (''create binding aggregate: '' @ error_text er) s)
      | Inr b \<Rightarrow>
          (case ms_call e ''create binding'' (bd_Create pool b s) of
             Inl er \<Rightarrow> (Inl er, failSaga e saga (''persist binding: '' @ error_text er) s)
           | Inr s1 \<Rightarrow>
               (case gw_CreateUser gw (provision_user_request b spec) (ms_panel s1) of
                  (Inl msg, p) \<Rightarrow> (Inl (ErrGateway msg), provision_refused pool e saga now msg b (s1\<lparr>ms_panel := p\<rparr>))
                | (Inr u, p) \<Rightarrow>
                    (case MarkProvisioned (env_uuid e 2) (ur_UUID u) (ur_ShortUUID u) now b of
                       Inl er \<Rightarrow> (Inl er, failSaga e saga (''mark provisioned: '' @ error_text er) (s1\<lparr>ms_panel := p\<rparr>))
                     | Inr c \<Rightarrow>
                         (case RunInTx ErrMultisubStorage e (update_and_publish (tx_scope pool ctx) e c)
                                 (s1\<lparr>ms_panel := p\<rparr>) of
                            (Inl er, s2) \<Rightarrow>
                              (Inl er, failSaga e saga (''transactional update: '' @ error_text er)
                                (compensateDeleteUser gw e (ur_UUID u) (compensateSaga e saga s2)))
                          | (Inr _, s2) \<Rightarrow>
                              (Inr \<lparr>pv_BindingID = bd_ID c, pv_RemnawaveUUID = ur_UUID u,
                                    pv_RemnawaveShortUUID = ur_ShortUUID u, pv_Purpose = bs_Purpose spec\<rparr>, s2))))))"

text \<open>The loop: it stops at the first error, and returns what it has with it.\<close>

fun provision_loop ::
    "string \<Rightarrow> string \<Rightarrow> 'g gateway \<Rightarrow> (nat \<Rightarrow> tx_env) \<Rightarrow> string option \<Rightarrow> provision_request \<Rightarrow> time \<Rightarrow> nat
     \<Rightarrow> binding_spec list \<Rightarrow> provision_result list \<Rightarrow> 'g msub
     \<Rightarrow> (provision_result list \<times> multisub_error option) \<times> 'g msub" where
  "provision_loop pool ctx gw envs saga req now i [] results s = ((results, None), s)"
| "provision_loop pool ctx gw envs saga req now i (spec # specs) results s =
     (case provision_one pool ctx gw (envs i) saga req now i spec s of
        (Inl er, s') \<Rightarrow> ((results, Some er), s')
      | (Inr r, s') \<Rightarrow>
          provision_loop pool ctx gw envs saga req now (Suc i) specs (results @ [r])
            (checkpointSaga (envs i) saga (Suc i) (ProvisioningState (results @ [r])) s'))"

definition Provision ::
    "string \<Rightarrow> 'g gateway \<Rightarrow> msub_env \<Rightarrow> provision_request \<Rightarrow> 'g msub
     \<Rightarrow> (provision_result list \<times> multisub_error option) \<times> 'g msub" where
  "Provision ctx gw env req s =
     (case me_subs env (pq_SubscriptionID req) of
        Inl er \<Rightarrow> (([], Some (ErrLookup er)), s)
      | Inr info \<Rightarrow>
          if IsTerminal (si_Status info) then (([], None), s)
          else
            (let specs = Calculate (pq_Plan req) (pq_AddonIDs req) (pq_FamilyMemberIDs req) in
             if ps_MaxRemnawaveBindings (pq_Plan req) > 0 \<and> int (length specs) > ps_MaxRemnawaveBindings (pq_Plan req)
             then (([], Some ErrMaxBindingsExceeded), s)
             else
               (let (saga, s1) = create_saga env SagaTypeProvisioning (pq_SubscriptionID req) (length specs) s in
                case provision_loop (me_pool env) ctx gw (me_steps env) saga req (env_now env) 0 specs [] s1 of
                  ((results, Some er), s2) \<Rightarrow> ((results, Some er), s2)
                | ((results, None), s2) \<Rightarrow> ((results, None), completeSaga env saga s2))))"

section \<open>Deprovisioning (deprovisioning_saga.go)\<close>

definition deprovisionOne ::
    "string \<Rightarrow> 'g gateway \<Rightarrow> tx_env \<Rightarrow> binding \<Rightarrow> 'g msub \<Rightarrow> 'g msub" where
  "deprovisionOne guc gw e b s =
     (let now = env_now e;
          (del, s1) = (if IsProvisioned b
                       then (case gw_DeleteUser gw (bd_RemnawaveUUID b) (ms_panel s) of (r, p) \<Rightarrow> (r, s\<lparr>ms_panel := p\<rparr>))
                       else (Inr (), s))
      in case del of
        Inl msg \<Rightarrow>
          (let b' = (case bd_MarkFailed (env_uuid e 0) (''remnawave delete: '' @ msg) now b of Inl _ \<Rightarrow> b | Inr c \<Rightarrow> c)
           in snd (RunInTx ErrMultisubStorage e (update_only guc e b') s1))
      | Inr _ \<Rightarrow>
          (case Deprovision (env_uuid e 0) now b of
             Inl _ \<Rightarrow> s1
           | Inr c \<Rightarrow> snd (RunInTx ErrMultisubStorage e (update_and_publish guc e c) s1)))"

fun deprovision_loop ::
    "string \<Rightarrow> 'g gateway \<Rightarrow> (nat \<Rightarrow> tx_env) \<Rightarrow> string option \<Rightarrow> nat \<Rightarrow> string list \<Rightarrow> binding list
     \<Rightarrow> 'g msub \<Rightarrow> 'g msub" where
  "deprovision_loop guc gw envs saga i done [] s = s"
| "deprovision_loop guc gw envs saga i done (b # bs) s =
     deprovision_loop guc gw envs saga (Suc i) (done @ [bd_ID b]) bs
       (checkpointSaga (envs i) saga (Suc i) (DeprovisioningState (done @ [bd_ID b]))
         (deprovisionOne guc gw (envs i) b s))"

definition DeprovisionSub ::
    "string \<Rightarrow> 'g gateway \<Rightarrow> msub_env \<Rightarrow> string \<Rightarrow> 'g msub \<Rightarrow> (multisub_error + unit) \<times> 'g msub" where
  "DeprovisionSub ctx gw env subID s =
     (let guc = tx_scope (me_pool env) ctx in
      case read_tx env ''get active bindings'' (\<lambda>s. Inr (bd_GetActiveBySubscriptionID guc subID s)) s of
        Inl er \<Rightarrow> (Inl er, s)
      | Inr bs \<Rightarrow>
          (let (saga, s1) = create_saga env SagaTypeDeprovisioning subID (length bs) s
           in (Inr (), completeSaga env saga (deprovision_loop guc gw (me_steps env) saga 0 [] bs s1))))"

section \<open>The binding lifecycle (binding_lifecycle.go)\<close>

definition handleGatewayFailure :: "string \<Rightarrow> tx_env \<Rightarrow> string \<Rightarrow> string \<Rightarrow> binding \<Rightarrow> 'g msub \<Rightarrow> 'g msub" where
  "handleGatewayFailure guc e operation msg b s =
     (case bd_MarkFailed (env_uuid e 0) (operation @ '': '' @ msg) (env_now e) b of
        Inl _ \<Rightarrow> s
      | Inr c \<Rightarrow> snd (RunInTx ErrMultisubStorage e (update_only guc e c) s))"

definition persistAndPublish :: "string \<Rightarrow> 'z tx_env_scheme \<Rightarrow> binding \<Rightarrow> 'g msub \<Rightarrow> 'g msub" where
  "persistAndPublish guc e b s = snd (RunInTx ErrMultisubStorage e (update_and_publish guc e b) s)"

definition activeBindings :: "string \<Rightarrow> 'z tx_env_scheme \<Rightarrow> string \<Rightarrow> 'g msub \<Rightarrow> multisub_error + binding list" where
  "activeBindings guc e subID = read_tx e ''get active bindings'' (\<lambda>s. Inr (bd_GetActiveBySubscriptionID guc subID s))"

definition allBindings :: "string \<Rightarrow> 'z tx_env_scheme \<Rightarrow> string \<Rightarrow> 'g msub \<Rightarrow> multisub_error + binding list" where
  "allBindings guc e subID = read_tx e ''get bindings'' (\<lambda>s. Inr (bd_GetBySubscriptionID guc subID s))"

definition bindingByID :: "string \<Rightarrow> 'z tx_env_scheme \<Rightarrow> string \<Rightarrow> 'g msub \<Rightarrow> multisub_error + binding" where
  "bindingByID guc e i = read_tx e ''get binding'' (bd_GetByID guc i)"

text \<open>One binding of each loop; a binding the loop passes over leaves the state alone.\<close>

definition disable_one :: "string \<Rightarrow> 'g gateway \<Rightarrow> time \<Rightarrow> tx_env \<Rightarrow> binding \<Rightarrow> 'g msub \<Rightarrow> 'g msub" where
  "disable_one guc gw now e b s =
     (if \<not> IsProvisioned b then s
      else case gw_DisableUser gw (bd_RemnawaveUUID b) (ms_panel s) of
        (Inl msg, p) \<Rightarrow> handleGatewayFailure guc e ''remnawave disable'' msg b (s\<lparr>ms_panel := p\<rparr>)
      | (Inr _, p) \<Rightarrow>
          (case Disable (env_uuid e 0) now b of
             Inl _ \<Rightarrow> s\<lparr>ms_panel := p\<rparr>
           | Inr c \<Rightarrow> persistAndPublish guc e c (s\<lparr>ms_panel := p\<rparr>)))"

definition enable_one :: "string \<Rightarrow> 'g gateway \<Rightarrow> time \<Rightarrow> tx_env \<Rightarrow> binding \<Rightarrow> 'g msub \<Rightarrow> 'g msub" where
  "enable_one guc gw now e b s =
     (if bd_Status b \<noteq> BindingDisabled then s
      else if \<not> IsProvisioned b then s
      else case gw_EnableUser gw (bd_RemnawaveUUID b) (ms_panel s) of
        (Inl msg, p) \<Rightarrow> handleGatewayFailure guc e ''remnawave enable'' msg b (s\<lparr>ms_panel := p\<rparr>)
      | (Inr _, p) \<Rightarrow>
          (case Enable (env_uuid e 0) now b of
             Inl _ \<Rightarrow> s\<lparr>ms_panel := p\<rparr>
           | Inr c \<Rightarrow> persistAndPublish guc e c (s\<lparr>ms_panel := p\<rparr>)))"

definition limit_one :: "string \<Rightarrow> string \<Rightarrow> time \<Rightarrow> tx_env \<Rightarrow> binding \<Rightarrow> 'g msub \<Rightarrow> 'g msub" where
  "limit_one guc reason now e b s =
     (case Limit (env_uuid e 0) reason now b of Inl _ \<Rightarrow> s | Inr c \<Rightarrow> persistAndPublish guc e c s)"

definition unlimit_one :: "string \<Rightarrow> time \<Rightarrow> tx_env \<Rightarrow> binding \<Rightarrow> 'g msub \<Rightarrow> 'g msub" where
  "unlimit_one guc now e b s =
     (if bd_Status b \<noteq> BindingLimited then s
      else case Unlimit (env_uuid e 0) now b of Inl _ \<Rightarrow> s | Inr c \<Rightarrow> persistAndPublish guc e c s)"

fun each_binding :: "(tx_env \<Rightarrow> binding \<Rightarrow> 's \<Rightarrow> 's) \<Rightarrow> (nat \<Rightarrow> tx_env) \<Rightarrow> nat \<Rightarrow> binding list \<Rightarrow> 's \<Rightarrow> 's" where
  "each_binding f envs i [] s = s"
| "each_binding f envs i (b # bs) s = each_binding f envs (Suc i) bs (f (envs i) b s)"

definition DisableAllForSubscription ::
    "string \<Rightarrow> 'g gateway \<Rightarrow> msub_env \<Rightarrow> string \<Rightarrow> 'g msub \<Rightarrow> (multisub_error + unit) \<times> 'g msub" where
  "DisableAllForSubscription ctx gw env subID s =
     (let guc = tx_scope (me_pool env) ctx in
      case activeBindings guc env subID s of
        Inl er \<Rightarrow> (Inl er, s)
      | Inr bs \<Rightarrow> (Inr (), each_binding (disable_one guc gw (env_now env)) (me_steps env) 0 bs s))"

definition EnableAllForSubscription ::
    "string \<Rightarrow> 'g gateway \<Rightarrow> msub_env \<Rightarrow> string \<Rightarrow> 'g msub \<Rightarrow> (multisub_error + unit) \<times> 'g msub" where
  "EnableAllForSubscription ctx gw env subID s =
     (let guc = tx_scope (me_pool env) ctx in
      case allBindings guc env subID s of
        Inl er \<Rightarrow> (Inl er, s)
      | Inr bs \<Rightarrow>
          if \<forall>b \<in> set bs. bd_Status b \<noteq> BindingDisabled then (Inr (), s)
          else (Inr (), each_binding (enable_one guc gw (env_now env)) (me_steps env) 0 bs s))"

definition LimitBinding :: "string \<Rightarrow> msub_env \<Rightarrow> string \<Rightarrow> string \<Rightarrow> 'g msub \<Rightarrow> (multisub_error + unit) \<times> 'g msub" where
  "LimitBinding ctx env bindingID reason s =
     (let guc = tx_scope (me_pool env) ctx in
      case bindingByID guc env bindingID s of
        Inl er \<Rightarrow> (Inl er, s)
      | Inr b \<Rightarrow>
          (case Limit (env_uuid env 0) reason (env_now env) b of
             Inl er \<Rightarrow> (Inl er, s)
           | Inr c \<Rightarrow> (Inr (), persistAndPublish guc (me_steps env 0) c s)))"

definition UnlimitBinding :: "string \<Rightarrow> msub_env \<Rightarrow> string \<Rightarrow> 'g msub \<Rightarrow> (multisub_error + unit) \<times> 'g msub" where
  "UnlimitBinding ctx env bindingID s =
     (let guc = tx_scope (me_pool env) ctx in
      case bindingByID guc env bindingID s of
        Inl er \<Rightarrow> (Inl er, s)
      | Inr b \<Rightarrow>
          (case Unlimit (env_uuid env 0) (env_now env) b of
             Inl er \<Rightarrow> (Inl er, s)
           | Inr c \<Rightarrow> (Inr (), persistAndPublish guc (me_steps env 0) c s)))"

definition LimitAllForSubscription ::
    "string \<Rightarrow> msub_env \<Rightarrow> string \<Rightarrow> string \<Rightarrow> 'g msub \<Rightarrow> (multisub_error + unit) \<times> 'g msub" where
  "LimitAllForSubscription ctx env subID reason s =
     (let guc = tx_scope (me_pool env) ctx in
      case activeBindings guc env subID s of
        Inl er \<Rightarrow> (Inl er, s)
      | Inr bs \<Rightarrow> (Inr (), each_binding (limit_one guc reason (env_now env)) (me_steps env) 0 bs s))"

definition UnlimitAllForSubscription ::
    "string \<Rightarrow> msub_env \<Rightarrow> string \<Rightarrow> 'g msub \<Rightarrow> (multisub_error + unit) \<times> 'g msub" where
  "UnlimitAllForSubscription ctx env subID s =
     (let guc = tx_scope (me_pool env) ctx in
      case allBindings guc env subID s of
        Inl er \<Rightarrow> (Inl er, s)
      | Inr bs \<Rightarrow>
          if \<forall>b \<in> set bs. bd_Status b \<noteq> BindingLimited then (Inr (), s)
          else (Inr (), each_binding (unlimit_one guc (env_now env)) (me_steps env) 0 bs s))"

section \<open>The reconciler (reconciler.go)\<close>

definition ReconcilerBatchLimit :: nat where "ReconcilerBatchLimit = 50"
definition AbandonedClaimThreshold :: duration where "AbandonedClaimThreshold = 10 * 60 * 1000000000"

definition resetAbandonedClaims :: "string \<Rightarrow> 'z tx_env_scheme \<Rightarrow> 'g msub \<Rightarrow> 'g msub" where
  "resetAbandonedClaims pool e =
     try_write e ''reset abandoned'' (bd_ResetAbandonedReconciling pool (env_dbnow e) AbandonedClaimThreshold)"

text \<open>The first phase: fetch and claim within one transaction; the claimed bindings are the result.\<close>

fun claim_each :: "string \<Rightarrow> 'z tx_env_scheme \<Rightarrow> time \<Rightarrow> binding list \<Rightarrow> ('g msub, multisub_error, binding list) tx" where
  "claim_each guc e now [] = tx_return []"
| "claim_each guc e now (b # bs) =
     tx_bind (tx_lift (ClaimForReconciliation now b)) (\<lambda>c.
       tx_bind (tx_call ErrMultisubStorage e (''persist claim '' @ bd_ID b)
                  (tx_write (\<lambda>s. Inr (bd_Update guc (env_dbnow e) c s)))) (\<lambda>_.
         tx_bind (claim_each guc e now bs) (\<lambda>cs. tx_return (c # cs))))"

definition fetch_and_claim :: "string \<Rightarrow> 'z tx_env_scheme \<Rightarrow> ('g msub, multisub_error, binding list) tx" where
  "fetch_and_claim guc e =
     tx_bind (tx_call ErrMultisubStorage e ''get failed bindings''
                (tx_read (\<lambda>s. Inr (bd_GetFailedForReconciliation guc ReconcilerBatchLimit s))))
       (claim_each guc e (env_now e))"

definition releaseBinding :: "string \<Rightarrow> tx_env \<Rightarrow> binding \<Rightarrow> 'g msub \<Rightarrow> 'g msub" where
  "releaseBinding pool e b s =
     (case ReleaseFromReconciliation (env_now e) b of
        Inl _ \<Rightarrow> s
      | Inr c \<Rightarrow> try_write e ''update released binding'' (bd_Update pool (env_dbnow e) c) s)"

definition reconcile_one :: "string \<Rightarrow> 'g gateway \<Rightarrow> tx_env \<Rightarrow> binding \<Rightarrow> 'g msub \<Rightarrow> 'g msub" where
  "reconcile_one pool gw e b s =
     (case gw_DeleteUser gw (bd_RemnawaveUUID b) (ms_panel s) of
        (Inl _, p) \<Rightarrow> releaseBinding pool e b (s\<lparr>ms_panel := p\<rparr>)
      | (Inr _, p) \<Rightarrow>
          (case ReleaseFromReconciliation (env_now e) (b\<lparr>bd_RemnawaveUUID := [], bd_RemnawaveShortUUID := []\<rparr>) of
             Inl _ \<Rightarrow> s\<lparr>ms_panel := p\<rparr>
           | Inr c \<Rightarrow> try_write e ''update cleaned binding'' (bd_Update pool (env_dbnow e) c) (s\<lparr>ms_panel := p\<rparr>)))"

definition reconcile :: "string \<Rightarrow> 'g gateway \<Rightarrow> msub_env \<Rightarrow> 'g msub \<Rightarrow> 'g msub" where
  "reconcile ctx gw env s =
     (let s1 = resetAbandonedClaims (me_pool env) env s in
      case RunInTx ErrMultisubStorage env (fetch_and_claim (tx_scope (me_pool env) ctx) env) s1 of
        (Inl _, s2) \<Rightarrow> s2
      | (Inr bs, s2) \<Rightarrow> each_binding (reconcile_one (me_pool env) gw) (me_steps env) 0 bs s2)"

section \<open>Synchronisation (sync_saga.go, sync_service.go)\<close>

definition syncTotalSteps :: nat where "syncTotalSteps = 3"

definition NewBindingSyncFailedEvent :: "uuid \<Rightarrow> string \<Rightarrow> string \<Rightarrow> string \<Rightarrow> time \<Rightarrow> binding_payload event" where
  "NewBindingSyncFailedEvent eid bindingID subID reason now =
     NewTyped binding_event_type eid (BindingSyncFailed bindingID subID reason) now bindingID"

definition NewBindingSyncCompletedEvent :: "uuid \<Rightarrow> string \<Rightarrow> string \<Rightarrow> time \<Rightarrow> binding_payload event" where
  "NewBindingSyncCompletedEvent eid bindingID subID now =
     NewTyped binding_event_type eid (BindingSyncCompleted bindingID subID) now bindingID"

text \<open>\<open>Publish\<close> of one event, its failure only logged.\<close>

definition try_publish :: "'z tx_env_scheme \<Rightarrow> binding_payload event \<Rightarrow> 'g msub \<Rightarrow> 'g msub" where
  "try_publish e ev = try_write e ''publish event'' (\<lambda>s. s\<lparr>ms_outbox := PublishBatch (env_trace e) [ev] (ms_outbox s)\<rparr>)"

text \<open>A refused transition is logged and leaves the binding as it was.\<close>

definition or_same :: "'e + 'a \<Rightarrow> 'a \<Rightarrow> 'a" where
  "or_same r b = (case r of Inl _ \<Rightarrow> b | Inr c \<Rightarrow> c)"

definition reconcileStatus :: "uuid \<Rightarrow> user_status \<Rightarrow> time \<Rightarrow> binding \<Rightarrow> binding" where
  "reconcileStatus eid st now b =
     (if us_Expired st then or_same (Disable eid now b) b
      else if \<not> us_Enabled st \<and> bd_Status b = BindingActive then or_same (Disable eid now b) b
      else if us_Enabled st \<and> bd_Status b = BindingDisabled then or_same (Enable eid now b) b
      else b)"

definition SyncBinding ::
    "string \<Rightarrow> 'g gateway \<Rightarrow> tx_env \<Rightarrow> string \<Rightarrow> 'g msub \<Rightarrow> (multisub_error + unit) \<times> 'g msub" where
  "SyncBinding pool gw e bindingID s =
     (case ms_call e ''get binding'' (bd_GetByID pool bindingID s) of
        Inl er \<Rightarrow> (Inl er, s)
      | Inr b \<Rightarrow>
          if \<not> IsProvisioned b then (Inr (), s)
          else
            (let (saga, s1) = create_saga e SagaTypeSync bindingID syncTotalSteps s in
             case gw_GetUser gw (bd_RemnawaveUUID b) (ms_panel s1) of
               (Inl msg, p) \<Rightarrow>
                 (Inl (ErrGateway msg),
                  failSaga e saga (''remnawave get user: '' @ msg)
                    (try_publish e (NewBindingSyncFailedEvent (env_uuid e 1) (bd_ID b) (bd_SubscriptionID b) msg (env_now e))
                      (s1\<lparr>ms_panel := p\<rparr>)))
             | (Inr st, p) \<Rightarrow>
                 (let s2 = checkpointSaga e saga 1 (SyncState bindingID ''fetched_remote'') (s1\<lparr>ms_panel := p\<rparr>);
                      now = env_now e;
                      b' = (reconcileStatus (env_uuid e 1) st now b)\<lparr>bd_SyncedAt := Some now\<rparr>
                  in case ms_call e ''update binding'' (Inr (bd_Update pool (env_dbnow e) b' s2)) of
                       Inl er \<Rightarrow> (Inl er, failSaga e saga (''update binding: '' @ error_text er) s2)
                     | Inr s3 \<Rightarrow>
                         (Inr (), completeSaga e saga
                           (try_publish e (NewBindingSyncCompletedEvent (env_uuid e 2) (bd_ID b) (bd_SubscriptionID b) now)
                             (checkpointSaga e saga 2 (SyncState bindingID ''reconciled'') s3))))))"

text \<open>The status change of a webhook; an unknown type updates the sync timestamp only.\<close>

definition webhookStatus :: "uuid \<Rightarrow> string \<Rightarrow> time \<Rightarrow> binding \<Rightarrow> binding" where
  "webhookStatus eid eventType now b =
     (if eventType = ''binding.traffic_exceeded'' then or_same (Disable eid now b) b
      else if eventType = ''binding.sync_failed'' then or_same (bd_MarkFailed eid ''webhook: sync failed'' now b) b
      else b)"

text \<open>
  A webhook of the panel, already translated to a domain event type. The event is published
  without an entity identifier (\<open>NewAt\<close>).
\<close>

definition HandleWebhookEvent ::
    "string \<Rightarrow> tx_env \<Rightarrow> string \<Rightarrow> string \<Rightarrow> 'g msub \<Rightarrow> (multisub_error + unit) \<times> 'g msub" where
  "HandleWebhookEvent pool e rw eventType s =
     (case ms_call e ''find binding'' (bd_GetByRemnawaveUUID pool rw s) of
        Inl er \<Rightarrow> (Inl er, s)
      | Inr b \<Rightarrow>
          (let now = env_now e;
               b2 = (webhookStatus (env_uuid e 0) eventType now b)\<lparr>bd_SyncedAt := Some now\<rparr>
           in case ms_call e ''update binding'' (Inr (bd_Update pool (env_dbnow e) b2 s)) of
                Inl er \<Rightarrow> (Inl er, s)
              | Inr s1 \<Rightarrow>
                  (Inr (), try_publish e (NewTyped binding_event_type (env_uuid e 1)
                     (BindingWebhook eventType (bd_ID b) (bd_SubscriptionID b) (bd_RemnawaveUUID b)) now []) s1)))"

fun sync_each :: "string \<Rightarrow> 'g gateway \<Rightarrow> (nat \<Rightarrow> tx_env) \<Rightarrow> nat \<Rightarrow> string list \<Rightarrow> 'g msub \<Rightarrow> 'g msub" where
  "sync_each pool gw envs i [] s = s"
| "sync_each pool gw envs i (b # bs) s =
     sync_each pool gw envs (Suc i) bs (snd (SyncBinding pool gw (envs i) b s))"

definition syncAll :: "'g gateway \<Rightarrow> msub_env \<Rightarrow> 'g msub \<Rightarrow> 'g msub" where
  "syncAll gw env s =
     (case ms_call env ''get all active'' (Inr (bd_GetAllActive (me_pool env) s)) of
        Inl _ \<Rightarrow> s
      | Inr bs \<Rightarrow> sync_each (me_pool env) gw (me_steps env) 0 (map bd_ID bs) s)"

section \<open>Saga cleanup (saga_cleanup.go)\<close>

definition SagaRetentionPeriod :: duration where "SagaRetentionPeriod = 7 * 24 * 60 * 60 * 1000000000"

fun fail_each :: "(nat \<Rightarrow> tx_env) \<Rightarrow> nat \<Rightarrow> saga_instance list \<Rightarrow> 'g msub \<Rightarrow> 'g msub" where
  "fail_each envs i [] s = s"
| "fail_each envs i (g # gs) s = fail_each envs (Suc i) gs
     (try_write (envs i) ''fail saga''
       (sg_Fail (env_dbnow (envs i)) (sg_ID g) ''stale: process restarted before completion'') s)"

definition ReportStaleOnStartup :: "msub_env \<Rightarrow> 'g msub \<Rightarrow> 'g msub" where
  "ReportStaleOnStartup env s =
     (case ms_call env ''get running sagas'' (Inr (sg_GetRunning s)) of
        Inl _ \<Rightarrow> s
      | Inr gs \<Rightarrow> fail_each (me_steps env) 0 gs s)"

definition saga_cleanup :: "msub_env \<Rightarrow> 'g msub \<Rightarrow> 'g msub" where
  "saga_cleanup env = try_write env ''cleanup old sagas'' (sg_Cleanup (env_now env) SagaRetentionPeriod)"

section \<open>The orchestrator (module.go, traffic_lifecycle.go)\<close>

definition OnSubscriptionActivated ::
    "string \<Rightarrow> 'g gateway \<Rightarrow> msub_env \<Rightarrow> provision_request \<Rightarrow> 'g msub \<Rightarrow> (multisub_error + unit) \<times> 'g msub" where
  "OnSubscriptionActivated ctx gw env req s =
     (case ms_call env ''check existing bindings''
             (Inr (bd_GetActiveBySubscriptionID (me_pool env) (pq_SubscriptionID req) s)) of
        Inl er \<Rightarrow> (Inl er, s)
      | Inr existing \<Rightarrow>
          if existing \<noteq> [] then (Inr (), s)
          else (case Provision ctx gw env req s of
             ((_, Some er), s') \<Rightarrow> (Inl er, s')
           | ((_, None), s') \<Rightarrow> (Inr (), s')))"

definition cancelledPendingBindingReason :: string where
  "cancelledPendingBindingReason =
     ''subscription cancelled before provisioning completed (out-of-order delivery)''"

definition cancel_pending_one :: "string \<Rightarrow> time \<Rightarrow> tx_env \<Rightarrow> binding \<Rightarrow> 'g msub \<Rightarrow> 'g msub" where
  "cancel_pending_one guc now e b s =
     (if bd_Status b \<noteq> BindingPending then s
      else case bd_MarkFailed (env_uuid e 0) cancelledPendingBindingReason now b of
        Inl _ \<Rightarrow> s
      | Inr c \<Rightarrow> snd (RunInTx ErrMultisubStorage e (update_only guc e c) s))"

definition cancelPendingBindings ::
    "string \<Rightarrow> msub_env \<Rightarrow> string \<Rightarrow> 'g msub \<Rightarrow> (multisub_error + unit) \<times> 'g msub" where
  "cancelPendingBindings ctx env subID s =
     (let guc = tx_scope (me_pool env) ctx in
      case read_tx env ''get bindings by subscription'' (\<lambda>s. Inr (bd_GetBySubscriptionID guc subID s)) s of
        Inl er \<Rightarrow> (Inl er, s)
      | Inr bs \<Rightarrow> (Inr (), each_binding (cancel_pending_one guc (env_now env)) (me_steps env) 0 bs s))"

definition OnSubscriptionCancelled ::
    "string \<Rightarrow> 'g gateway \<Rightarrow> msub_env \<Rightarrow> string \<Rightarrow> 'g msub \<Rightarrow> (multisub_error + unit) \<times> 'g msub" where
  "OnSubscriptionCancelled ctx gw env subID s =
     (case read_tx env ''check existing bindings''
             (\<lambda>s. Inr (bd_GetActiveBySubscriptionID (tx_scope (me_pool env) ctx) subID s)) s of
        Inl er \<Rightarrow> (Inl er, s)
      | Inr existing \<Rightarrow>
          if existing = [] then cancelPendingBindings ctx env subID s
          else DeprovisionSub ctx gw env subID s)"

definition OnSubscriptionPaused ::
    "string \<Rightarrow> 'g gateway \<Rightarrow> msub_env \<Rightarrow> string \<Rightarrow> 'g msub \<Rightarrow> (multisub_error + unit) \<times> 'g msub" where
  "OnSubscriptionPaused = DisableAllForSubscription"

definition OnSubscriptionResumed ::
    "string \<Rightarrow> 'g gateway \<Rightarrow> msub_env \<Rightarrow> string \<Rightarrow> 'g msub \<Rightarrow> (multisub_error + unit) \<times> 'g msub" where
  "OnSubscriptionResumed = EnableAllForSubscription"

text \<open>The asynchronous hooks, as the notifications that are dispatched.\<close>

datatype traffic_notification =
    SubLimitedNotification string string int64 int64
  | SubUnlimitedNotification string string
  | SubTrafficWarningNotification string string int64 int64 int

fun traffic_hook_name :: "traffic_notification \<Rightarrow> string" where
  "traffic_hook_name (SubLimitedNotification _ _ _ _) = ''subscription.limited.post''"
| "traffic_hook_name (SubUnlimitedNotification _ _) = ''subscription.unlimited.post''"
| "traffic_hook_name (SubTrafficWarningNotification _ _ _ _ _) = ''subscription.traffic_warning.post''"

definition dispatchTraffic :: "msub_env \<Rightarrow> traffic_notification \<Rightarrow> traffic_notification list" where
  "dispatchTraffic env n = (if \<not> me_asyncHook env \<or> \<not> me_hooksEnabled env then [] else [n])"

definition trafficExceededReason :: string where "trafficExceededReason = ''traffic_exceeded''"

text \<open>A plugin may block the limit; an error of the hook does not.\<close>

definition limit_blocked :: "msub_env \<Rightarrow> string \<Rightarrow> string \<Rightarrow> int64 \<Rightarrow> int64 \<Rightarrow> bool" where
  "limit_blocked env subID bindingID used limit =
     (case me_limitingHook env of
        None \<Rightarrow> False
      | Some hook \<Rightarrow> me_hooksEnabled env \<and> hook subID bindingID used limit = Inr (Some True))"

definition OnBindingTrafficExceeded ::
    "string \<Rightarrow> msub_env \<Rightarrow> string \<Rightarrow> string \<Rightarrow> int64 \<Rightarrow> int64 \<Rightarrow> 'g msub
     \<Rightarrow> (multisub_error + unit) \<times> 'g msub \<times> traffic_notification list" where
  "OnBindingTrafficExceeded ctx env bindingID subID used limit s =
     (if limit_blocked env subID bindingID used limit then (Inr (), s, [])
      else case LimitBinding ctx env bindingID trafficExceededReason s of
        (Inl er, s') \<Rightarrow> (Inl er, s', [])
      | (Inr _, s') \<Rightarrow> (Inr (), s', dispatchTraffic env (SubLimitedNotification subID bindingID used limit)))"

text \<open>The unlimiting hook is informational: neither its answer nor its error is used.\<close>

definition OnBindingTrafficReset ::
    "string \<Rightarrow> msub_env \<Rightarrow> string \<Rightarrow> string \<Rightarrow> 'g msub
     \<Rightarrow> (multisub_error + unit) \<times> 'g msub \<times> traffic_notification list" where
  "OnBindingTrafficReset ctx env bindingID subID s =
     (case UnlimitBinding ctx env bindingID s of
        (Inl er, s') \<Rightarrow> (Inl er, s', [])
      | (Inr _, s') \<Rightarrow> (Inr (), s', dispatchTraffic env (SubUnlimitedNotification subID bindingID)))"

definition OnTrafficWarning ::
    "msub_env \<Rightarrow> string \<Rightarrow> string \<Rightarrow> int64 \<Rightarrow> int64 \<Rightarrow> int \<Rightarrow> traffic_notification list" where
  "OnTrafficWarning env bindingID subID used limit pct =
     dispatchTraffic env (SubTrafficWarningNotification subID bindingID used limit pct)"

end
