(* ===== verification/MultiSubInv.thy ===== *)
theory MultiSubInv
  imports MultiSub
begin

text \<open>
  What every operation of the multi-subscription services keeps: rows only move along the
  binding's transition table, their identity never changes, valid bindings stay valid, and the
  outbox only grows. The operations that a loop applies to one binding share a contract, stated
  as a locale and interpreted for each of them.
\<close>

section \<open>Rows that evolve\<close>

lemma binding_reach_trans:
  "binding_root.reach b c \<Longrightarrow> binding_root.reach a b \<Longrightarrow> binding_root.reach a c"
  by (induction rule: binding_root.reach.induct) (auto intro: binding_root.reach.edge)

definition row_evolves :: "binding_row \<Rightarrow> binding_row \<Rightarrow> bool" where
  "row_evolves r r' \<longleftrightarrow> br_id r' = br_id r \<and> br_subscription_id r' = br_subscription_id r
     \<and> br_platform_user_id r' = br_platform_user_id r \<and> br_remnawave_username r' = br_remnawave_username r
     \<and> br_purpose r' = br_purpose r \<and> br_tenant_id r' = br_tenant_id r \<and> br_created_at r' = br_created_at r
     \<and> binding_root.reach (br_status r) (br_status r')"

text \<open>No operation adds or removes a row: the table evolves row by row.\<close>

definition table_evolves :: "binding_row list \<Rightarrow> binding_row list \<Rightarrow> bool" where
  "table_evolves t t' \<longleftrightarrow> list_all2 row_evolves t t'"

lemma row_evolves_refl [simp]: "row_evolves r r"
  by (simp add: row_evolves_def binding_root.reach.refl)

lemma row_evolves_trans: "row_evolves a b \<Longrightarrow> row_evolves b c \<Longrightarrow> row_evolves a c"
  by (auto simp: row_evolves_def intro: binding_reach_trans)

lemma table_evolves_refl [simp]: "table_evolves t t"
  by (simp add: table_evolves_def list_all2_refl)

lemma table_evolves_trans: "table_evolves a b \<Longrightarrow> table_evolves b c \<Longrightarrow> table_evolves a c"
  unfolding table_evolves_def by (rule list_all2_trans [of row_evolves row_evolves row_evolves, OF row_evolves_trans])

lemma table_evolves_map:
  assumes "\<And>r. r \<in> set t \<Longrightarrow> row_evolves r (f r)"
  shows "table_evolves t (map f t)"
  by (simp add: table_evolves_def list_all2_map2 list_all2_same assms)

lemma table_evolves_row:
  assumes "table_evolves t t'" "r \<in> set t"
  shows "\<exists>r' \<in> set t'. row_evolves r r'"
  using assms unfolding table_evolves_def by (metis in_set_conv_nth list_all2_conv_all_nth)

lemma table_evolves_ids: "table_evolves t t' \<Longrightarrow> map br_id t' = map br_id t"
  unfolding table_evolves_def by (induction rule: list_all2_induct) (auto simp: row_evolves_def)

section \<open>The state invariant\<close>

definition ms_inv :: "'g msub \<Rightarrow> bool" where
  "ms_inv s \<longleftrightarrow> bindings_wf s \<and> (\<forall>r \<in> set (ms_bindings s). binding_inv (bindingRowToDomain r))"

text \<open>The relation between the states before and after an operation.\<close>

definition evolves :: "'g msub \<Rightarrow> 'g msub \<Rightarrow> bool" where
  "evolves s s' \<longleftrightarrow> (ms_inv s \<longrightarrow> table_evolves (ms_bindings s) (ms_bindings s') \<and> ms_inv s')
     \<and> (\<exists>es. ms_outbox s' = ms_outbox s @ es)"

lemma evolves_refl [simp]: "evolves s s"
  by (simp add: evolves_def)

lemma evolves_trans: "evolves a b \<Longrightarrow> evolves b c \<Longrightarrow> evolves a c"
  by (auto simp: evolves_def intro: table_evolves_trans)

lemma evolves_same: "ms_bindings s' = ms_bindings s \<Longrightarrow> ms_outbox s' = ms_outbox s \<Longrightarrow> evolves s s'"
  by (simp add: evolves_def ms_inv_def bindings_wf_def)

text \<open>Bookkeeping of sagas and answers of the panel change nothing here.\<close>

lemma saga_keeps [simp]:
  "ms_bindings (completeSaga e g s) = ms_bindings s" "ms_outbox (completeSaga e g s) = ms_outbox s"
  "ms_bindings (failSaga e g m s) = ms_bindings s" "ms_outbox (failSaga e g m s) = ms_outbox s"
  "ms_bindings (compensateSaga e g s) = ms_bindings s" "ms_outbox (compensateSaga e g s) = ms_outbox s"
  "ms_bindings (checkpointSaga e g n d s) = ms_bindings s" "ms_outbox (checkpointSaga e g n d s) = ms_outbox s"
  "ms_bindings (compensateDeleteUser gw e rw s) = ms_bindings s"
  "ms_outbox (compensateDeleteUser gw e rw s) = ms_outbox s"
  by (simp_all add: completeSaga_def failSaga_def compensateSaga_def checkpointSaga_def with_saga_def try_write_def
      compensateDeleteUser_def split: option.split)

lemma saga_panel [simp]:
  "ms_panel (completeSaga e g s) = ms_panel s" "ms_panel (failSaga e g m s) = ms_panel s"
  "ms_panel (compensateSaga e g s) = ms_panel s" "ms_panel (checkpointSaga e g n d s) = ms_panel s"
  by (simp_all add: completeSaga_def failSaga_def compensateSaga_def checkpointSaga_def with_saga_def try_write_def
      split: option.split)

lemma create_saga_keeps:
  "create_saga e ty c n s = (g, s') \<Longrightarrow>
     ms_bindings s' = ms_bindings s \<and> ms_outbox s' = ms_outbox s \<and> ms_panel s' = ms_panel s"
  by (auto simp: create_saga_def ms_call_def split: sum.splits if_splits prod.splits dest: sg_Create_ok)

section \<open>One update of one binding\<close>

text \<open>What an aggregate operation makes of a binding, and when a loaded copy is up to date.\<close>

definition successor :: "binding \<Rightarrow> binding \<Rightarrow> bool" where
  "successor b c \<longleftrightarrow> bd_ID c = bd_ID b \<and> binding_root.reach (bd_Status b) (bd_Status c)
     \<and> (binding_inv b \<longrightarrow> binding_inv c)"

definition fresh :: "binding \<Rightarrow> 'g msub \<Rightarrow> bool" where
  "fresh b s \<longleftrightarrow> (\<forall>r \<in> set (ms_bindings s). br_id r = bd_ID b \<longrightarrow> br_status r = bd_Status b)"

definition one_update :: "binding \<Rightarrow> 'g msub \<Rightarrow> 'g msub \<Rightarrow> bool" where
  "one_update b s s' \<longleftrightarrow>
     (ms_bindings s' = ms_bindings s
      \<or> (\<exists>c guc t. successor b c \<and> ms_bindings s' = ms_bindings (bd_Update guc t c s)))
     \<and> (\<exists>es. ms_outbox s' = ms_outbox s @ es)"

lemma successor_refl [simp]: "successor b b"
  by (simp add: successor_def binding_root.reach.refl)

lemma successor_step: "binding_step x b = Inr c \<Longrightarrow> binding_op_ok x \<Longrightarrow> successor b c"
  using binding_root.step_status [of x b c] binding_root.step_ident [of x b c] binding_step_inv [of b x c]
  by (auto simp: successor_def intro: binding_root.reach.refl binding_root.reach.edge)

lemma successor_ops:
  "Disable e now b = Inr c \<Longrightarrow> successor b c" "Enable e now b = Inr c \<Longrightarrow> successor b c"
  "Limit e m now b = Inr c \<Longrightarrow> successor b c" "Unlimit e now b = Inr c \<Longrightarrow> successor b c"
  "bd_MarkFailed e m now b = Inr c \<Longrightarrow> successor b c" "Deprovision e now b = Inr c \<Longrightarrow> successor b c"
  "ClaimForReconciliation now b = Inr c \<Longrightarrow> successor b c"
  "ReleaseFromReconciliation now b = Inr c \<Longrightarrow> successor b c"
  "MarkProvisioned e u v now b = Inr c \<Longrightarrow> u \<noteq> [] \<Longrightarrow> successor b c"
  using successor_step [of "OpDisable e now" b c] successor_step [of "OpEnable e now" b c]
    successor_step [of "OpLimit e m now" b c] successor_step [of "OpUnlimit e now" b c]
    successor_step [of "OpBindingFailed e m now" b c] successor_step [of "OpDeprovision e now" b c]
    successor_step [of "OpClaim now" b c] successor_step [of "OpRelease now" b c]
    successor_step [of "OpMarkProvisioned e u v now" b c]
  by simp_all

lemma bd_Update_row:
  "ms_bindings (bd_Update guc t c s) =
     map (\<lambda>r. if rls_visible guc (br_tenant_id r) \<and> br_id r = bd_ID c then binding_update_row t c r else r) (ms_bindings s)"
  by (simp add: bd_Update_def br_update_def)

lemma bd_Update_outbox [simp]: "ms_outbox (bd_Update guc t c s) = ms_outbox s"
  by (simp add: bd_Update_def br_update_def)

lemma bd_Update_panel [simp]: "ms_panel (bd_Update guc t c s) = ms_panel s"
  by (simp add: bd_Update_def br_update_def)

lemma bd_Update_sagas [simp]: "ms_sagas (bd_Update guc t c s) = ms_sagas s"
  by (simp add: bd_Update_def br_update_def)

lemma row_update_evolves:
  "binding_root.reach (br_status r) (bd_Status c) \<Longrightarrow> row_evolves r (binding_update_row t c r)"
  by (simp add: row_evolves_def binding_update_row_def)

lemma one_update_evolves:
  assumes u: "one_update b s s'" and b: "ms_inv s \<Longrightarrow> fresh b s \<and> binding_inv b"
  shows "evolves s s'"
proof -
  from u obtain es where es: "ms_outbox s' = ms_outbox s @ es" by (auto simp: one_update_def)
  from u consider (same) "ms_bindings s' = ms_bindings s"
    | (upd) c guc t where "successor b c" "ms_bindings s' = ms_bindings (bd_Update guc t c s)"
    unfolding one_update_def by blast
  then show ?thesis
  proof cases
    case same
    with es show ?thesis by (simp add: evolves_def ms_inv_def bindings_wf_def)
  next
    case upd
    have "table_evolves (ms_bindings s) (ms_bindings s') \<and> ms_inv s'" if inv: "ms_inv s"
    proof
      show "table_evolves (ms_bindings s) (ms_bindings s')"
        unfolding upd(2) bd_Update_row using upd(1) b [OF inv]
        by (intro table_evolves_map) (auto simp: successor_def fresh_def intro!: row_update_evolves)
      have "bindings_wf s'"
        using inv bd_repo.wf_update [of s guc t c] upd(2) by (simp add: ms_inv_def bindings_wf_def)
      moreover have "binding_inv c" using b [OF inv] upd(1) by (simp add: successor_def)
      ultimately show "ms_inv s'"
        using inv unfolding ms_inv_def upd(2) bd_Update_row
        by (auto simp: binding_update_roundtrip intro!: bd_merge_inv split: if_splits)
    qed
    with es show ?thesis by (auto simp: evolves_def)
  qed
qed

lemma one_update_other:
  assumes "one_update b s s'" "bd_ID b \<noteq> i"
  shows "filter (\<lambda>r. br_id r = i) (ms_bindings s') = filter (\<lambda>r. br_id r = i) (ms_bindings s)"
proof -
  have "filter (\<lambda>r. br_id r = i) (ms_bindings (bd_Update guc t c s)) = filter (\<lambda>r. br_id r = i) (ms_bindings s)"
    if "bd_ID c = bd_ID b" for guc t c
  proof -
    have "filter (\<lambda>r. br_id r = i) (map (\<lambda>r. if rls_visible guc (br_tenant_id r) \<and> br_id r = bd_ID b
        then binding_update_row t c r else r) l) = filter (\<lambda>r. br_id r = i) l" for l
      using assms(2) by (induction l) auto
    then show ?thesis unfolding bd_Update_row that .
  qed
  then show ?thesis
    using assms(1) by (auto simp: one_update_def successor_def)
qed

lemma fresh_filter: "fresh b s \<longleftrightarrow> (\<forall>r \<in> set (filter (\<lambda>r. br_id r = bd_ID b) (ms_bindings s)). br_status r = bd_Status b)"
  by (auto simp: fresh_def)

lemma fresh_other: "one_update b s s' \<Longrightarrow> bd_ID b \<noteq> bd_ID c \<Longrightarrow> fresh c s' \<longleftrightarrow> fresh c s"
  unfolding fresh_filter by (simp add: one_update_other)

section \<open>The contract of an operation that a loop applies\<close>

text \<open>
  Applied to one binding, it updates that binding at most once, to a successor, and only appends
  to the outbox.
\<close>

locale per_binding =
  fixes f :: "tx_env \<Rightarrow> binding \<Rightarrow> 'g msub \<Rightarrow> 'g msub"
  assumes own: "one_update b s (f e b s)"
begin

lemma other: "bd_ID b \<noteq> i \<Longrightarrow>
    filter (\<lambda>r. br_id r = i) (ms_bindings (f e b s)) = filter (\<lambda>r. br_id r = i) (ms_bindings s)"
  by (rule one_update_other [OF own])

lemma loop_other:
  "i \<notin> bd_ID ` set bs \<Longrightarrow>
    filter (\<lambda>r. br_id r = i) (ms_bindings (each_binding f envs j bs s)) = filter (\<lambda>r. br_id r = i) (ms_bindings s)"
  by (induction bs arbitrary: j s) (auto simp: other)

lemma loop_outbox: "\<exists>es. ms_outbox (each_binding f envs j bs s) = ms_outbox s @ es"
proof (induction bs arbitrary: j s)
  case (Cons b bs)
  from own [of b s "envs j"] obtain es where "ms_outbox (f (envs j) b s) = ms_outbox s @ es"
    by (auto simp: one_update_def)
  with Cons.IH [of "Suc j" "f (envs j) b s"] show ?case by auto
qed simp

lemma loop_evolves:
  assumes "ms_inv s \<Longrightarrow> distinct (map bd_ID bs) \<and> (\<forall>b \<in> set bs. fresh b s \<and> binding_inv b)"
  shows "evolves s (each_binding f envs j bs s)"
proof (cases "ms_inv s")
  case True
  from assms [OF True] True show ?thesis
  proof (induction bs arbitrary: j s)
    case (Cons b bs)
    let ?s = "f (envs j) b s"
    have step: "evolves s ?s"
      using Cons.prems by (intro one_update_evolves [OF own]) auto
    then have "ms_inv ?s" using Cons.prems(2) by (simp add: evolves_def)
    then have "evolves ?s (each_binding f envs (Suc j) bs ?s)"
      using Cons.prems(1) by (intro Cons.IH) (auto simp: fresh_other [OF own] image_iff)
    with step show ?case by (auto intro: evolves_trans)
  qed simp
next
  case False
  then show ?thesis using loop_outbox by (simp add: evolves_def)
qed

end

section \<open>Every loop honours it\<close>

lemma ms_publish_ok:
  "ms_publish e b s = Inr s' \<Longrightarrow>
     ms_bindings s' = ms_bindings s \<and> ms_panel s' = ms_panel s \<and> ms_sagas s' = ms_sagas s
     \<and> ms_outbox s' = PublishBatch (env_trace e) (rec_events b) (ms_outbox s)"
  by (auto simp: ms_publish_def map_sum_def PublishBatch_def dest!: PublishAll_ok split: sum.splits if_splits)

lemma update_and_publish_ok:
  "update_and_publish guc e b s = Inr (u, s') \<Longrightarrow>
     ms_bindings s' = ms_bindings (bd_Update guc (env_dbnow e) b s) \<and> ms_panel s' = ms_panel s
     \<and> ms_sagas s' = ms_sagas s \<and> ms_outbox s' = PublishBatch (env_trace e) (rec_events b) (ms_outbox s)"
  by (auto simp: update_and_publish_def dest!: ms_publish_ok)

lemma update_only_ok:
  "update_only guc e b s = Inr (u, s') \<Longrightarrow> s' = bd_Update guc (env_dbnow e) b s"
  by (auto simp: update_only_def)

lemma one_update_from:
  "one_update b s0 s' \<Longrightarrow> ms_bindings s0 = ms_bindings s \<Longrightarrow> ms_outbox s0 = ms_outbox s \<Longrightarrow> one_update b s s'"
  by (simp add: one_update_def bd_Update_row)

lemma one_update_run:
  assumes "\<And>u s'. m s0 = Inr (u, s') \<Longrightarrow> one_update b s0 s'" "ms_bindings s0 = ms_bindings s" "ms_outbox s0 = ms_outbox s"
  shows "one_update b s (snd (RunInTx mk e m s0))"
proof -
  obtain r s' where run: "RunInTx mk e m s0 = (r, s')" by (cases "RunInTx mk e m s0")
  have "one_update b s0 s'"
  proof (cases r)
    case (Inl er)
    then show ?thesis using RunInTx_error [of mk e m s0 er s'] run by (simp add: one_update_def)
  next
    case (Inr u)
    then show ?thesis using run assms(1) by (auto simp: RunInTx_ok_iff)
  qed
  with run assms(2,3) show ?thesis by (auto intro: one_update_from)
qed

lemma one_update_tx:
  assumes "successor b c" "ms_bindings s0 = ms_bindings s" "ms_outbox s0 = ms_outbox s"
  shows "one_update b s (snd (RunInTx mk e (update_only guc e c) s0))"
    and "one_update b s (snd (RunInTx mk e (update_and_publish guc e c) s0))"
proof -
  have "one_update b s0 s'" if "update_only guc e c s0 = Inr (u, s')" for u s'
    using update_only_ok [OF that] assms(1) by (auto simp: one_update_def)
  with assms(2,3) show "one_update b s (snd (RunInTx mk e (update_only guc e c) s0))"
    by (intro one_update_run)
  have "one_update b s0 s'" if "update_and_publish guc e c s0 = Inr (u, s')" for u s'
    using update_and_publish_ok [OF that] assms(1) by (auto simp: one_update_def PublishBatch_def)
  with assms(2,3) show "one_update b s (snd (RunInTx mk e (update_and_publish guc e c) s0))"
    by (intro one_update_run)
qed

lemma one_update_try:
  "successor b c \<Longrightarrow> ms_bindings s0 = ms_bindings s \<Longrightarrow> ms_outbox s0 = ms_outbox s
   \<Longrightarrow> one_update b s (try_write e l (bd_Update guc t c) s0)"
  by (auto simp: one_update_def try_write_def bd_Update_row)

lemma one_update_Update:
  "successor b c \<Longrightarrow> ms_bindings s0 = ms_bindings s \<Longrightarrow> ms_outbox s0 = ms_outbox s
   \<Longrightarrow> one_update b s (bd_Update guc t c s0)"
  by (auto simp: one_update_def bd_Update_row)

lemma one_update_refl [simp]: "one_update b s s"
  by (simp add: one_update_def)

lemma one_update_panel [simp]:
  "one_update b (s\<lparr>ms_panel := p\<rparr>) s' \<longleftrightarrow> one_update b s s'"
  "one_update b s (s'\<lparr>ms_panel := p\<rparr>) \<longleftrightarrow> one_update b s s'"
  by (simp_all add: one_update_def bd_Update_row)

lemmas one_update_intros = one_update_tx one_update_try successor_ops

interpretation disable: per_binding "disable_one guc gw now" for guc gw now
  by unfold_locales
     (auto simp: disable_one_def handleGatewayFailure_def persistAndPublish_def split: prod.split sum.split
       intro: one_update_intros)

interpretation enable: per_binding "enable_one guc gw now" for guc gw now
  by unfold_locales
     (auto simp: enable_one_def handleGatewayFailure_def persistAndPublish_def split: prod.split sum.split
       intro: one_update_intros)

interpretation limit: per_binding "limit_one guc reason now" for guc reason now
  by unfold_locales (auto simp: limit_one_def persistAndPublish_def split: sum.split intro: one_update_intros)

interpretation unlimit: per_binding "unlimit_one guc now" for guc now
  by unfold_locales (auto simp: unlimit_one_def persistAndPublish_def split: sum.split intro: one_update_intros)

interpretation cancel_pending: per_binding "cancel_pending_one guc now" for guc now
  by unfold_locales (auto simp: cancel_pending_one_def split: sum.split intro: one_update_intros)

interpretation deprovision: per_binding "deprovisionOne guc gw" for guc gw
  by unfold_locales
     (auto simp: deprovisionOne_def Let_def split: prod.split sum.split intro: one_update_intros)

text \<open>A binding whose panel user is gone is still a successor, since it is released as failed.\<close>

lemma successor_cleaned:
  assumes "ReleaseFromReconciliation now (b\<lparr>bd_RemnawaveUUID := [], bd_RemnawaveShortUUID := []\<rparr>) = Inr c"
  shows "successor b c"
proof -
  from assms have c: "bd_ID c = bd_ID b" "bd_Status c = BindingFailed" "BindingFailed \<in> set (bindingTransitions (bd_Status b))"
    "bd_SubscriptionID c = bd_SubscriptionID b" "bd_PlatformUserID c = bd_PlatformUserID b"
    "bd_Purpose c = bd_Purpose b" "bd_TrafficLimitBytes c = bd_TrafficLimitBytes b"
    by (auto simp: ReleaseFromReconciliation_def dest!: bd_transition_ok simp: bd_transitionTo_def split: if_splits)
  then show ?thesis
    by (auto simp: successor_def binding_inv_def intro: binding_root.reach.refl binding_root.reach.edge)
qed

interpretation reconcile: per_binding "reconcile_one pool gw" for pool gw
  by unfold_locales
     (auto simp: reconcile_one_def releaseBinding_def split: prod.split sum.split
       intro: one_update_intros successor_cleaned)

section \<open>Copies loaded from the table\<close>

text \<open>What the loops need of the bindings they were given: distinct, up to date and valid.\<close>

definition loaded :: "binding list \<Rightarrow> 'g msub \<Rightarrow> bool" where
  "loaded bs s \<longleftrightarrow> distinct (map bd_ID bs) \<and> (\<forall>b \<in> set bs. fresh b s \<and> binding_inv b)"

lemma loaded_rows:
  assumes inv: "ms_inv s" and rs: "set rs \<subseteq> set (ms_bindings s)" "distinct (map br_id rs)"
  shows "loaded (map bindingRowToDomain rs) s"
proof -
  have uniq: "r' = r" if "r \<in> set (ms_bindings s)" "r' \<in> set (ms_bindings s)" "br_id r' = br_id r" for r r'
    using inv that by (simp add: ms_inv_def bindings_wf_def distinct_map inj_on_def)
  have "map bd_ID (map bindingRowToDomain rs) = map br_id rs" by simp
  moreover have "fresh (bindingRowToDomain r) s \<and> binding_inv (bindingRowToDomain r)" if "r \<in> set rs" for r
  proof
    from that rs(1) have r: "r \<in> set (ms_bindings s)" by (rule rev_subsetD)
    then show "fresh (bindingRowToDomain r) s"
      using uniq [OF r] by (auto simp: fresh_def)
    from inv r show "binding_inv (bindingRowToDomain r)" by (simp add: ms_inv_def)
  qed
  ultimately show ?thesis
    using rs(2) by (simp add: loaded_def del: map_map)
qed

lemma distinct_rows:
  assumes "ms_inv s"
  shows "distinct (map br_id (sort_key k (filter P (br_rows guc s))))"
    and "distinct (map br_id (take n (sort_key k (filter P (br_rows guc s)))))"
proof -
  have d: "distinct (map br_id (filter P (br_rows guc s)))"
    using assms unfolding br_rows_def filter_filter
    by (auto simp: ms_inv_def bindings_wf_def intro: distinct_map_filter)
  then show "distinct (map br_id (sort_key k (filter P (br_rows guc s))))"
    by (auto simp: distinct_map)
  then show "distinct (map br_id (take n (sort_key k (filter P (br_rows guc s)))))"
    by (auto simp: take_map [symmetric] intro: distinct_take)
qed

lemma br_rows_subset: "set (br_rows guc s) \<subseteq> set (ms_bindings s)"
  by (auto simp: br_rows_def)

lemma loaded_reads:
  assumes "ms_inv s"
  shows "loaded (bd_GetBySubscriptionID guc i s) s" "loaded (bd_GetActiveBySubscriptionID guc i s) s"
    "loaded (bd_GetAllActive guc s) s" "loaded (bd_GetFailedForReconciliation guc n s) s"
proof -
  have "set (sort_key k (filter P (br_rows guc s))) \<subseteq> set (ms_bindings s)" for k :: "binding_row \<Rightarrow> time" and P
    using br_rows_subset [of guc s] by auto
  moreover from this have "set (take n (sort_key k (filter P (br_rows guc s)))) \<subseteq> set (ms_bindings s)"
    for k :: "binding_row \<Rightarrow> time" and P
    by (blast dest: in_set_takeD)
  ultimately show "loaded (bd_GetBySubscriptionID guc i s) s" "loaded (bd_GetActiveBySubscriptionID guc i s) s"
    "loaded (bd_GetAllActive guc s) s" "loaded (bd_GetFailedForReconciliation guc n s) s"
    unfolding bd_GetBySubscriptionID_def bd_GetActiveBySubscriptionID_def bd_GetAllActive_def
      bd_GetFailedForReconciliation_def
    by (simp_all only: loaded_rows [OF assms] distinct_rows [OF assms])
qed

lemma select_br_mem: "select_by k x (br_rows guc s) = Some r \<Longrightarrow> r \<in> set (ms_bindings s)"
  using br_rows_subset [of guc s] by (auto dest: select_by_Some)

lemma loaded_one:
  assumes "ms_inv s"
  shows "bd_GetByID guc i s = Inr b \<Longrightarrow> loaded [b] s" "bd_GetByRemnawaveUUID guc i s = Inr b \<Longrightarrow> loaded [b] s"
  using loaded_rows [OF assms, of "[_]"]
  by (auto simp: bd_GetByID_def bd_GetByRemnawaveUUID_def dest!: select_br_mem)

lemma read_tx_ok: "read_tx e l f s = Inr a \<Longrightarrow> f s = Inr a"
  by (auto simp: read_tx_def RunInTx_def tx_call_def tx_read_def split: if_splits sum.splits)

lemma loaded_one_update:
  "(ms_inv s \<Longrightarrow> loaded [b] s) \<Longrightarrow> one_update b s s' \<Longrightarrow> evolves s s'"
  by (rule one_update_evolves) (auto simp: loaded_def)

section \<open>Every operation evolves the state\<close>

lemma lifecycle_evolves:
  "evolves s (snd (DisableAllForSubscription ctx gw env i s))"
  "evolves s (snd (EnableAllForSubscription ctx gw env i s))"
  "evolves s (snd (LimitAllForSubscription ctx env i m s))"
  "evolves s (snd (UnlimitAllForSubscription ctx env i s))"
  "evolves s (snd (cancelPendingBindings ctx env i s))"
  using loaded_reads [of s]
  by (auto simp: DisableAllForSubscription_def EnableAllForSubscription_def LimitAllForSubscription_def
      UnlimitAllForSubscription_def cancelPendingBindings_def Let_def activeBindings_def allBindings_def loaded_def
      split: sum.split dest!: read_tx_ok
      intro!: disable.loop_evolves enable.loop_evolves limit.loop_evolves unlimit.loop_evolves
        cancel_pending.loop_evolves)

lemma limit_evolves:
  "evolves s (snd (LimitBinding ctx env i m s))" "evolves s (snd (UnlimitBinding ctx env i s))"
  by (auto simp: LimitBinding_def UnlimitBinding_def Let_def bindingByID_def persistAndPublish_def
      split: sum.split dest!: read_tx_ok
      intro!: loaded_one_update [OF loaded_one(1)] intro: one_update_intros)

lemma loaded_after:
  "one_update b s s1 \<Longrightarrow> loaded (b # bs) s \<Longrightarrow> ms_bindings s2 = ms_bindings s1 \<Longrightarrow> loaded bs s2"
proof -
  assume u: "one_update b s s1" and l: "loaded (b # bs) s" and s2: "ms_bindings s2 = ms_bindings s1"
  have "fresh c s2" if "c \<in> set bs" for c
  proof -
    have "bd_ID b \<noteq> bd_ID c" "fresh c s" using l that by (auto simp: loaded_def)
    with fresh_other [OF u] have "fresh c s1" by simp
    with s2 show ?thesis by (simp add: fresh_def)
  qed
  with l show "loaded bs s2" by (simp add: loaded_def)
qed

text \<open>It suffices to look at valid states, besides the outbox.\<close>

lemma evolvesI:
  "(ms_inv s \<Longrightarrow> evolves s s') \<Longrightarrow> \<exists>es. ms_outbox s' = ms_outbox s @ es \<Longrightarrow> evolves s s'"
  by (auto simp: evolves_def)

lemma evolves_outbox: "evolves s s' \<Longrightarrow> \<exists>es. ms_outbox s' = ms_outbox s @ es"
  by (simp add: evolves_def)

lemma evolves_inv: "evolves s s' \<Longrightarrow> ms_inv s \<Longrightarrow> ms_inv s'"
  by (simp add: evolves_def)

lemma evolves_saga [simp]:
  "evolves s (checkpointSaga e g n d s') \<longleftrightarrow> evolves s s'" "evolves s (completeSaga e g s') \<longleftrightarrow> evolves s s'"
  "evolves s (failSaga e g m s') \<longleftrightarrow> evolves s s'" "evolves s (s'\<lparr>ms_panel := p\<rparr>) \<longleftrightarrow> evolves s s'"
  "evolves s (compensateSaga e g s') \<longleftrightarrow> evolves s s'" "evolves s (compensateDeleteUser gw e rw s') \<longleftrightarrow> evolves s s'"
  by (simp_all add: evolves_def ms_inv_def bindings_wf_def)

lemma deprovision_loop_outbox:
  "\<exists>es. ms_outbox (deprovision_loop guc gw envs g j ds bs s) = ms_outbox s @ es"
proof (induction bs arbitrary: j ds s)
  case (Cons b bs)
  from deprovision.own [of b s guc gw "envs j"]
  obtain es where "ms_outbox (deprovisionOne guc gw (envs j) b s) = ms_outbox s @ es"
    by (auto simp: one_update_def)
  with Cons.IH [of "Suc j" "ds @ [bd_ID b]" "checkpointSaga (envs j) g (Suc j)
      (DeprovisioningState (ds @ [bd_ID b])) (deprovisionOne guc gw (envs j) b s)"]
  show ?case by auto
qed simp

lemma deprovision_loop_evolves:
  assumes "ms_inv s \<Longrightarrow> loaded bs s"
  shows "evolves s (deprovision_loop guc gw envs g j ds bs s)"
proof (rule evolvesI [OF _ deprovision_loop_outbox])
  assume inv: "ms_inv s"
  from assms [OF inv] inv show "evolves s (deprovision_loop guc gw envs g j ds bs s)"
  proof (induction bs arbitrary: j ds s)
    case Nil
    then show ?case by simp
  next
    case (Cons b bs)
    let ?s = "deprovisionOne guc gw (envs j) b s"
    let ?t = "checkpointSaga (envs j) g (Suc j) (DeprovisioningState (ds @ [bd_ID b])) ?s"
    have step: "evolves s ?t"
      using Cons.prems by (simp add: one_update_evolves [OF deprovision.own] loaded_def)
    then have inv': "ms_inv ?t" using Cons.prems(2) by (rule evolves_inv)
    have "loaded bs ?t"
      by (rule loaded_after [OF deprovision.own Cons.prems(1)]) simp
    from evolves_trans [OF step Cons.IH [OF this inv']] show ?case by simp
  qed
qed

lemma evolves_from:
  "evolves s0 s' \<Longrightarrow> ms_bindings s0 = ms_bindings s \<Longrightarrow> ms_outbox s0 = ms_outbox s \<Longrightarrow> evolves s s'"
  by (simp add: evolves_def ms_inv_def bindings_wf_def)

lemma loaded_same: "ms_bindings s' = ms_bindings s \<Longrightarrow> loaded bs s' \<longleftrightarrow> loaded bs s"
  by (simp add: loaded_def fresh_def)

lemma DeprovisionSub_evolves: "evolves s (snd (DeprovisionSub ctx gw env i s))"
proof (cases "read_tx env ''get active bindings'' (\<lambda>s. Inr (bd_GetActiveBySubscriptionID (tx_scope (me_pool env) ctx) i s)) s")
  case (Inl er)
  then show ?thesis by (simp add: DeprovisionSub_def)
next
  case (Inr bs)
  from read_tx_ok [OF Inr] have bs: "bs = bd_GetActiveBySubscriptionID (tx_scope (me_pool env) ctx) i s" by simp
  obtain g s1 where g: "create_saga env SagaTypeDeprovisioning i (length bs) s = (g, s1)" by force
  note keeps = create_saga_keeps [OF g]
  have "evolves s1 (deprovision_loop (tx_scope (me_pool env) ctx) gw (me_steps env) g 0 [] bs s1)"
  proof (rule deprovision_loop_evolves)
    assume "ms_inv s1"
    with keeps have "ms_inv s" by (simp add: ms_inv_def bindings_wf_def)
    with bs keeps show "loaded bs s1" by (simp add: loaded_reads loaded_same [of s1 s])
  qed
  with keeps have "evolves s (deprovision_loop (tx_scope (me_pool env) ctx) gw (me_steps env) g 0 [] bs s1)"
    by (auto intro: evolves_from)
  with Inr g show ?thesis by (simp add: DeprovisionSub_def Let_def)
qed

subsection \<open>The reconciler\<close>

lemma reset_evolves: "evolves s (resetAbandonedClaims pool e s)"
proof (cases "env_fault e ''reset abandoned''")
  case False
  let ?u = "\<lambda>r. r\<lparr>br_status := BindingFailed, br_updated_at := env_dbnow e\<rparr>"
  let ?s = "resetAbandonedClaims pool e s"
  have s': "ms_bindings ?s = map (\<lambda>r. if rls_visible pool (br_tenant_id r) \<and> br_status r = BindingReconciling
        \<and> br_updated_at r < env_dbnow e - AbandonedClaimThreshold then ?u r else r) (ms_bindings s)"
    using False by (simp add: resetAbandonedClaims_def try_write_def bd_ResetAbandonedReconciling_def br_update_def)
  have "binding_root.reach BindingReconciling BindingFailed"
    by (rule binding_root.reach.edge [OF binding_root.reach.refl]) simp
  then have "table_evolves (ms_bindings s) (ms_bindings ?s)"
    unfolding s' by (intro table_evolves_map) (auto simp: row_evolves_def intro: binding_root.reach.refl)
  moreover have "ms_inv ?s" if "ms_inv s"
  proof -
    have "bindings_wf ?s"
      using that False
      by (simp add: ms_inv_def bindings_wf_def resetAbandonedClaims_def try_write_def
          bd_ResetAbandonedReconciling_def br_update_ids)
    moreover have "binding_inv (bindingRowToDomain (?u r))" if "binding_inv (bindingRowToDomain r)" for r
      using that by (simp add: binding_inv_def bindingRowToDomain_def)
    ultimately show ?thesis
      using that unfolding ms_inv_def s' by auto
  qed
  moreover have "ms_outbox ?s = ms_outbox s"
    by (simp add: resetAbandonedClaims_def try_write_def bd_ResetAbandonedReconciling_def br_update_def)
  ultimately show ?thesis by (simp add: evolves_def)
qed (simp add: resetAbandonedClaims_def try_write_def)

text \<open>A claimed binding is fresh again in the state after the claim.\<close>

lemma claim_each_evolves:
  assumes "claim_each guc e now bs s = Inr (cs, s')" "loaded bs s" "ms_inv s"
  shows "evolves s s' \<and> map bd_ID cs = map bd_ID bs"
  using assms
proof (induction bs arbitrary: s cs)
  case (Cons b bs)
  from Cons.prems(1) obtain c ds s1 where c: "ClaimForReconciliation now b = Inr c"
    and s1: "s1 = bd_Update guc (env_dbnow e) c s" and rest: "claim_each guc e now bs s1 = Inr (ds, s')" and cs: "cs = c # ds"
    by auto
  have u: "one_update b s s1"
    using successor_ops(7) [OF c] s1 by (auto simp: one_update_def)
  have ev: "evolves s s1"
    using u Cons.prems(2) by (intro one_update_evolves) (auto simp: loaded_def)
  have "evolves s1 s' \<and> map bd_ID ds = map bd_ID bs"
    using rest loaded_after [OF u Cons.prems(2) refl] evolves_inv [OF ev Cons.prems(3)] by (rule Cons.IH)
  moreover have "bd_ID c = bd_ID b" using successor_ops(7) [OF c] by (simp add: successor_def)
  ultimately show ?case using ev cs by (auto intro: evolves_trans)
qed simp

text \<open>What a claim loop leaves in the table for the bindings it returns.\<close>

lemma claim_each_loaded:
  assumes "claim_each guc e now bs s = Inr (cs, s')" "loaded bs s" "ms_inv s"
    and vis: "\<forall>b \<in> set bs. \<forall>r \<in> set (ms_bindings s). br_id r = bd_ID b \<longrightarrow> rls_visible guc (br_tenant_id r)"
  shows "loaded cs s'
    \<and> (\<forall>i. i \<notin> bd_ID ` set bs \<longrightarrow> filter (\<lambda>r. br_id r = i) (ms_bindings s') = filter (\<lambda>r. br_id r = i) (ms_bindings s))"
  using assms
proof (induction bs arbitrary: s cs)
  case (Cons b bs)
  from Cons.prems(1) obtain c ds s1 where c: "ClaimForReconciliation now b = Inr c"
    and s1: "s1 = bd_Update guc (env_dbnow e) c s" and rest: "claim_each guc e now bs s1 = Inr (ds, s')" and cs: "cs = c # ds"
    by auto
  have succ: "successor b c" by (rule successor_ops(7) [OF c])
  then have u: "one_update b s s1"
    using s1 by (auto simp: one_update_def)
  have ev: "evolves s s1"
    using u Cons.prems(2) by (intro one_update_evolves) (auto simp: loaded_def)
  have idc: "bd_ID c = bd_ID b" using succ by (simp add: successor_def)
  have vis1: "\<forall>b \<in> set bs. \<forall>r \<in> set (ms_bindings s1). br_id r = bd_ID b \<longrightarrow> rls_visible guc (br_tenant_id r)"
    using Cons.prems(4) unfolding s1 bd_Update_row by auto
  have IH: "loaded ds s'
      \<and> (\<forall>i. i \<notin> bd_ID ` set bs \<longrightarrow> filter (\<lambda>r. br_id r = i) (ms_bindings s') = filter (\<lambda>r. br_id r = i) (ms_bindings s1))"
    using rest loaded_after [OF u Cons.prems(2) refl] evolves_inv [OF ev Cons.prems(3)] vis1 by (rule Cons.IH)
  have ids: "map bd_ID ds = map bd_ID bs"
    using claim_each_evolves [OF rest loaded_after [OF u Cons.prems(2) refl] evolves_inv [OF ev Cons.prems(3)]] by simp
  have nb: "bd_ID b \<notin> bd_ID ` set bs" using Cons.prems(2) by (simp add: loaded_def)
  have "fresh c s1"
    using Cons.prems(4) unfolding fresh_def s1 bd_Update_row idc by auto
  then have "fresh c s'"
    using IH nb idc by (simp add: fresh_filter)
  moreover have "binding_inv c" using Cons.prems(2) succ by (simp add: loaded_def successor_def)
  moreover have "bd_ID c \<notin> bd_ID ` set ds"
    using nb idc ids by (metis list.set_map)
  ultimately have "loaded cs s'"
    using IH cs by (simp add: loaded_def)
  moreover have "filter (\<lambda>r. br_id r = i) (ms_bindings s') = filter (\<lambda>r. br_id r = i) (ms_bindings s)"
    if "i \<notin> bd_ID ` set (b # bs)" for i
    using that IH one_update_other [OF u, of i] by auto
  ultimately show ?case by blast
qed (simp add: loaded_def)

lemma claim_outbox: "claim_each guc e now bs s = Inr (cs, s') \<Longrightarrow> ms_outbox s' = ms_outbox s"
  by (induction bs arbitrary: s cs) auto

lemma claimed_visible:
  assumes "ms_inv s" "b \<in> set (bd_GetFailedForReconciliation guc n s)" "r \<in> set (ms_bindings s)" "br_id r = bd_ID b"
  shows "rls_visible guc (br_tenant_id r)"
proof -
  from assms(2) obtain q where q: "q \<in> set (br_rows guc s)" "b = bindingRowToDomain q"
    by (auto simp: bd_GetFailedForReconciliation_def dest!: in_set_takeD)
  then have "q \<in> set (ms_bindings s)" "rls_visible guc (br_tenant_id q)" by (auto simp: br_rows_def)
  moreover have "r = q"
    using assms(1,3,4) q(2) \<open>q \<in> set (ms_bindings s)\<close>
    by (simp add: ms_inv_def bindings_wf_def distinct_map inj_on_def)
  ultimately show ?thesis by simp
qed

lemma reconcile_evolves: "evolves s (reconcile ctx gw env s)"
proof -
  let ?guc = "tx_scope (me_pool env) ctx" and ?s1 = "resetAbandonedClaims (me_pool env) env s"
  obtain r s2 where run: "RunInTx ErrMultisubStorage env (fetch_and_claim ?guc env) ?s1 = (r, s2)"
    by force
  have "evolves ?s1 (reconcile ctx gw env s)"
  proof (cases r)
    case (Inl er)
    with RunInTx_error run show ?thesis by (fastforce simp: reconcile_def Let_def)
  next
    case (Inr cs)
    from run Inr have claim: "claim_each ?guc env (env_now env)
        (bd_GetFailedForReconciliation ?guc ReconcilerBatchLimit ?s1) ?s1 = Inr (cs, s2)"
      by (auto simp: RunInTx_ok_iff fetch_and_claim_def)
    have eq: "reconcile ctx gw env s = each_binding (reconcile_one (me_pool env) gw) (me_steps env) 0 cs s2"
      using run Inr by (simp add: reconcile_def Let_def)
    show ?thesis
    proof (rule evolvesI)
      assume inv: "ms_inv ?s1"
      have ev: "evolves ?s1 s2"
        using claim_each_evolves [OF claim loaded_reads(4) [OF inv] inv] by simp
      have ld: "loaded cs s2"
        using claim_each_loaded [OF claim loaded_reads(4) [OF inv] inv] claimed_visible [OF inv] by blast
      have "evolves s2 (reconcile ctx gw env s)"
        unfolding eq using ld by (intro reconcile.loop_evolves) (auto simp: loaded_def)
      with ev show "evolves ?s1 (reconcile ctx gw env s)" by (rule evolves_trans)
    next
      have "ms_outbox s2 = ms_outbox ?s1"
        using claim by (rule claim_outbox)
      then show "\<exists>es. ms_outbox (reconcile ctx gw env s) = ms_outbox ?s1 @ es"
        using reconcile.loop_outbox unfolding eq by metis
    qed
  qed
  with reset_evolves show ?thesis by (rule evolves_trans)
qed

subsection \<open>Synchronisation\<close>

lemma or_same_successor:
  "(\<And>c. r = Inr c \<Longrightarrow> successor b c) \<Longrightarrow> successor b (or_same r b)"
  by (auto simp: or_same_def split: sum.split)

lemma successor_synced: "successor b c \<Longrightarrow> successor b (c\<lparr>bd_SyncedAt := t\<rparr>)"
  by (simp add: successor_def binding_inv_def IsProvisioned_def)

lemma or_same_ops:
  "successor b (or_same (Disable e now b) b)" "successor b (or_same (Enable e now b) b)"
  "successor b (or_same (bd_MarkFailed e m now b) b)"
  by (auto intro!: or_same_successor dest: successor_ops)

lemma reconcileStatus_successor: "successor b (reconcileStatus eid st now b)"
  by (simp add: reconcileStatus_def or_same_ops)

lemma try_publish_keeps [simp]:
  "ms_bindings (try_publish e ev s) = ms_bindings s" "ms_panel (try_publish e ev s) = ms_panel s"
  "ms_sagas (try_publish e ev s) = ms_sagas s"
  by (simp_all add: try_publish_def try_write_def)

lemma try_publish_outbox: "\<exists>es. ms_outbox (try_publish e ev s) = ms_outbox s @ es"
  by (simp add: try_publish_def try_write_def PublishBatch_def)

lemma one_update_publish: "one_update b s s' \<Longrightarrow> one_update b s (try_publish e ev s')"
  using try_publish_outbox [of e ev s'] by (auto simp: one_update_def)

lemma one_update_saga [simp]:
  "one_update b s (checkpointSaga e g n d s') \<longleftrightarrow> one_update b s s'" "one_update b s (completeSaga e g s') \<longleftrightarrow> one_update b s s'"
  "one_update b s (failSaga e g m s') \<longleftrightarrow> one_update b s s'"
  by (simp_all add: one_update_def)

lemma SyncBinding_one_update:
  assumes "bd_GetByID pool i s = Inr b"
  shows "one_update b s (snd (SyncBinding pool gw e i s))"
proof (cases "env_fault e ''get binding'' \<or> \<not> IsProvisioned b")
  case True
  with assms show ?thesis by (auto simp: SyncBinding_def ms_call_def)
next
  case False
  obtain g s1 where g: "create_saga e SagaTypeSync i syncTotalSteps s = (g, s1)" by force
  note keeps = create_saga_keeps [OF g]
  have "one_update b s (snd (SyncBinding pool gw e i s))"
  proof (cases "gw_GetUser gw (bd_RemnawaveUUID b) (ms_panel s1)")
    case (Pair r p)
    show ?thesis
    proof (cases r)
      case (Inl msg)
      with Pair False assms g keeps show ?thesis
        by (auto simp: SyncBinding_def ms_call_def intro!: one_update_publish) (simp add: one_update_def)
    next
      case (Inr st)
      let ?c = "(reconcileStatus (env_uuid e (Suc 0)) st (env_now e) b)\<lparr>bd_SyncedAt := Some (env_now e)\<rparr>"
      have "successor b ?c" by (intro successor_synced reconcileStatus_successor)
      then have up: "one_update b s (bd_Update pool (env_dbnow e) ?c s2)" if "ms_bindings s2 = ms_bindings s" "ms_outbox s2 = ms_outbox s" for s2
        using that by (rule one_update_Update)
      from Pair Inr False assms g keeps show ?thesis
        by (auto simp: SyncBinding_def ms_call_def Let_def intro!: one_update_publish up) (simp add: one_update_def)
    qed
  qed
  then show ?thesis .
qed

lemma SyncBinding_evolves: "evolves s (snd (SyncBinding pool gw e i s))"
proof (cases "bd_GetByID pool i s")
  case (Inl er)
  then show ?thesis by (auto simp: SyncBinding_def ms_call_def)
next
  case (Inr b)
  show ?thesis
    by (rule loaded_one_update [OF loaded_one(1) [OF _ Inr] SyncBinding_one_update [OF Inr]])
qed

lemma syncAll_evolves: "evolves s (syncAll gw env s)"
proof -
  have "evolves s (sync_each pool gw envs j is s)" for pool envs j "is"
  proof (induction "is" arbitrary: j s)
    case (Cons i "is")
    from evolves_trans [OF SyncBinding_evolves Cons.IH] show ?case by simp
  qed simp
  then show ?thesis by (auto simp: syncAll_def split: sum.split)
qed

lemma HandleWebhookEvent_evolves: "evolves s (snd (HandleWebhookEvent pool e rw ty s))"
proof (cases "bd_GetByRemnawaveUUID pool rw s")
  case (Inl er)
  then show ?thesis by (auto simp: HandleWebhookEvent_def ms_call_def)
next
  case (Inr b)
  let ?c = "(webhookStatus (env_uuid e 0) ty (env_now e) b)\<lparr>bd_SyncedAt := Some (env_now e)\<rparr>"
  have "successor b ?c"
    by (intro successor_synced) (simp add: webhookStatus_def or_same_ops)
  then have "one_update b s (bd_Update pool (env_dbnow e) ?c s)"
    by (rule one_update_Update) simp_all
  then have u: "one_update b s (snd (HandleWebhookEvent pool e rw ty s))"
    using Inr by (simp add: HandleWebhookEvent_def ms_call_def Let_def one_update_publish)
  show ?thesis
    by (rule loaded_one_update [OF loaded_one(2) [OF _ Inr] u])
qed

subsection \<open>Provisioning\<close>

text \<open>
  A round of provisioning never gets past its first insert: \<open>NewBinding\<close> leaves both arrays nil, so the row
  is refused before the panel is called, in every scope and whatever the database and the panel do.
\<close>

lemma provision_one_refused:
  "\<exists>er msg. provision_one pool ctx gw e g req now i spec s = (Inl er, failSaga e g msg s)"
  by (auto simp: provision_one_def ms_call_def NewBinding_refused split: sum.split)

lemma provision_loop_refused:
  assumes "provision_loop pool ctx gw envs g req now i specs rs s = ((rs', er), s')"
  shows "rs' = rs \<and> (specs \<noteq> [] \<longrightarrow> er \<noteq> None) \<and> ms_bindings s' = ms_bindings s \<and> ms_outbox s' = ms_outbox s
    \<and> ms_panel s' = ms_panel s"
proof (cases specs)
  case Nil
  with assms show ?thesis by simp
next
  case (Cons spec specs')
  obtain x msg where "provision_one pool ctx gw (envs i) g req now i spec s = (Inl x, failSaga (envs i) g msg s)"
    using provision_one_refused by blast
  with Cons assms show ?thesis by auto
qed

lemma Provision_refused:
  assumes "Provision ctx gw env req s = ((rs, er), s')"
  shows "rs = [] \<and> ms_bindings s' = ms_bindings s \<and> ms_outbox s' = ms_outbox s \<and> ms_panel s' = ms_panel s
    \<and> ((\<forall>info. me_subs env (pq_SubscriptionID req) = Inr info \<longrightarrow> \<not> IsTerminal (si_Status info)) \<longrightarrow> er \<noteq> None)"
proof -
  let ?specs = "Calculate (pq_Plan req) (pq_AddonIDs req) (pq_FamilyMemberIDs req)"
  obtain g s1 where g: "create_saga env SagaTypeProvisioning (pq_SubscriptionID req) (length ?specs) s = (g, s1)" by force
  obtain rs2 er2 s2 where loop: "provision_loop (me_pool env) ctx gw (me_steps env) g req (env_now env) 0 ?specs [] s1 = ((rs2, er2), s2)"
    by (metis surj_pair)
  have "?specs \<noteq> []" by (simp add: Calculate_def split: prod.split)
  with provision_loop_refused [OF loop] obtain x where er2: "er2 = Some x" by auto
  show ?thesis
    using provision_loop_refused [OF loop] create_saga_keeps [OF g] assms g loop
    by (auto simp: Provision_def Let_def er2 split: sum.splits if_splits)
qed

lemma Activated_keeps:
  assumes "OnSubscriptionActivated ctx gw env req s = (r, s')"
  shows "ms_bindings s' = ms_bindings s \<and> ms_outbox s' = ms_outbox s \<and> ms_panel s' = ms_panel s"
proof -
  obtain rs er s2 where p: "Provision ctx gw env req s = ((rs, er), s2)" by (metis surj_pair)
  show ?thesis
    using assms p Provision_refused [OF p]
    by (auto simp: OnSubscriptionActivated_def split: sum.splits prod.splits option.splits if_splits)
qed

text \<open>An activation fails unless the subscription has an active binding or is known to be terminal.\<close>

lemma Activated_refused:
  assumes "OnSubscriptionActivated ctx gw env req s = (r, s')"
  shows "bd_GetActiveBySubscriptionID (me_pool env) (pq_SubscriptionID req) s = []
      \<and> (\<forall>info. me_subs env (pq_SubscriptionID req) = Inr info \<longrightarrow> \<not> IsTerminal (si_Status info))
      \<longrightarrow> (\<exists>er. r = Inl er)"
proof -
  obtain rs er s2 where p: "Provision ctx gw env req s = ((rs, er), s2)" by (metis surj_pair)
  show ?thesis
    using assms p Provision_refused [OF p]
    by (auto simp: ms_call_def OnSubscriptionActivated_def split: sum.splits prod.splits option.splits if_splits)
qed

lemma Activated_evolves: "evolves s (snd (OnSubscriptionActivated ctx gw env req s))"
  using Activated_keeps [of ctx gw env req s] by (metis evolves_same surjective_pairing)

lemma Cancelled_evolves: "evolves s (snd (OnSubscriptionCancelled ctx gw env i s))"
  using DeprovisionSub_evolves [of s ctx gw env i] lifecycle_evolves(5) [of s ctx env i]
  by (auto simp: OnSubscriptionCancelled_def split: sum.split)

lemma Traffic_evolves:
  "evolves s (fst (snd (OnBindingTrafficExceeded ctx env i j u l s)))"
  "evolves s (fst (snd (OnBindingTrafficReset ctx env i j s)))"
  using limit_evolves(1) [of s ctx env i trafficExceededReason] limit_evolves(2) [of s ctx env i]
  by (auto simp: OnBindingTrafficExceeded_def OnBindingTrafficReset_def split: sum.split prod.split)

lemma fail_each_keeps [simp]:
  "ms_bindings (fail_each envs i gs s) = ms_bindings s" "ms_outbox (fail_each envs i gs s) = ms_outbox s"
  "ms_panel (fail_each envs i gs s) = ms_panel s"
  by (induction gs arbitrary: i s) (auto simp: try_write_def)

lemma saga_jobs_evolve: "evolves s (ReportStaleOnStartup env s)" "evolves s (saga_cleanup env s)"
  by (auto simp: ReportStaleOnStartup_def saga_cleanup_def try_write_def sg_Cleanup_def split: sum.split
      intro!: evolves_same)

section \<open>Histories\<close>

text \<open>Everything that may happen to the context: an event of billing, a webhook, or a job.\<close>

datatype msub_cmd =
    Activated string provision_request | Cancelled string string | Paused string string | Resumed string string
  | TrafficExceeded string string string int64 int64 | TrafficReset string string string
  | LimitAll string string string | UnlimitAll string string
  | Reconcile string | SyncAll | SyncOne string | Webhook string string | StaleSagas | CleanupSagas

fun msub_exec :: "'g gateway \<Rightarrow> msub_env \<Rightarrow> msub_cmd \<Rightarrow> 'g msub \<Rightarrow> 'g msub" where
  "msub_exec gw env (Activated ctx req) s = snd (OnSubscriptionActivated ctx gw env req s)"
| "msub_exec gw env (Cancelled ctx i) s = snd (OnSubscriptionCancelled ctx gw env i s)"
| "msub_exec gw env (Paused ctx i) s = snd (OnSubscriptionPaused ctx gw env i s)"
| "msub_exec gw env (Resumed ctx i) s = snd (OnSubscriptionResumed ctx gw env i s)"
| "msub_exec gw env (TrafficExceeded ctx i j u l) s = fst (snd (OnBindingTrafficExceeded ctx env i j u l s))"
| "msub_exec gw env (TrafficReset ctx i j) s = fst (snd (OnBindingTrafficReset ctx env i j s))"
| "msub_exec gw env (LimitAll ctx i m) s = snd (LimitAllForSubscription ctx env i m s)"
| "msub_exec gw env (UnlimitAll ctx i) s = snd (UnlimitAllForSubscription ctx env i s)"
| "msub_exec gw env (Reconcile ctx) s = reconcile ctx gw env s"
| "msub_exec gw env SyncAll s = syncAll gw env s"
| "msub_exec gw env (SyncOne i) s = snd (SyncBinding (me_pool env) gw (me_steps env 0) i s)"
| "msub_exec gw env (Webhook rw ty) s = snd (HandleWebhookEvent (me_pool env) (me_steps env 0) rw ty s)"
| "msub_exec gw env StaleSagas s = ReportStaleOnStartup env s"
| "msub_exec gw env CleanupSagas s = saga_cleanup env s"

fun msub_run :: "'g gateway \<Rightarrow> (msub_env \<times> msub_cmd) list \<Rightarrow> 'g msub \<Rightarrow> 'g msub" where
  "msub_run gw [] s = s"
| "msub_run gw ((env, c) # h) s = msub_run gw h (msub_exec gw env c s)"

lemma msub_exec_evolves: "evolves s (msub_exec gw env c s)"
  by (cases c) (simp_all add: Activated_evolves Cancelled_evolves OnSubscriptionPaused_def OnSubscriptionResumed_def
      lifecycle_evolves Traffic_evolves reconcile_evolves syncAll_evolves SyncBinding_evolves
      HandleWebhookEvent_evolves saga_jobs_evolve)

lemma msub_run_evolves: "evolves s (msub_run gw h s)"
proof (induction h arbitrary: s)
  case (Cons x h)
  obtain env c where x: "x = (env, c)" by force
  from evolves_trans [OF msub_exec_evolves Cons.IH] x show ?case by simp
qed simp

end
