(* ===== verification/MultiSubSpec.thy ===== *)
theory MultiSubSpec
  imports MultiSubInv
begin

text \<open>
  The properties of the multi-subscription context: histories of its bindings, the activation that
  stores none because their arrays are \<open>NULL\<close>, what a cancellation reaches, usernames, and
  the effect of row-level security on the steps that run outside a scoped transaction.
\<close>

section \<open>Usernames\<close>

lemma of_char_digit: "d < 10 \<Longrightarrow> (of_char (digit d) :: nat) = 48 + d"
  by (simp add: digit_def)

lemma dec_digits: "c \<in> set (dec n) \<Longrightarrow> 48 \<le> (of_char c :: nat) \<and> (of_char c :: nat) \<le> 57"
proof (induction n rule: dec.induct)
  case (1 n)
  then show ?case
    using of_char_digit [of n] of_char_digit [of "n mod 10"] by (auto simp: dec.simps [of n] split: if_splits)
qed

text \<open>Reading the digits back gives the number.\<close>

definition undec :: "string \<Rightarrow> nat" where
  "undec s = foldl (\<lambda>a c. 10 * a + (of_char c - 48)) 0 s"

lemma undec_dec: "undec (dec n) = n"
proof (induction n rule: dec.induct)
  case (1 n)
  then show ?case
    using of_char_digit [of n] of_char_digit [of "n mod 10"] by (simp add: dec.simps [of n] undec_def)
qed

lemma dec_inj: "dec m = dec n \<longleftrightarrow> m = n"
  by (metis undec_dec)

lemma dec_no_char: "(of_char c :: nat) < 48 \<or> 57 < (of_char c :: nat) \<Longrightarrow> c \<notin> set (dec n)"
  using dec_digits by fastforce

lemma dec_int_no_underscore: "CHR ''_'' \<notin> set (dec_int i)"
  using dec_no_char [of "CHR ''_''"] by (auto simp: dec_int_def)

lemma dec_int_inj: "dec_int i = dec_int j \<longleftrightarrow> i = j"
proof -
  have "CHR ''-'' \<notin> set (dec n)" for n by (rule dec_no_char) simp
  then have "dec n \<noteq> CHR ''-'' # t" for n t by (metis list.set_intros(1))
  then show ?thesis by (auto simp: dec_int_def dec_inj) (metis)+
qed

lemma split_last:
  assumes "xs @ c # ys = xs' @ c # ys'" "c \<notin> set ys" "c \<notin> set ys'"
  shows "xs = xs' \<and> ys = ys'"
  using assms by (auto simp: append_eq_append_conv2 append_eq_Cons_conv Cons_eq_append_conv)

lemma username_iff:
  assumes "length u \<ge> UsernameShortIDLen" "length v \<ge> UsernameShortIDLen"
  shows "BuildRemnawaveUsername u p i = BuildRemnawaveUsername v q j \<longleftrightarrow>
    take UsernameShortIDLen u = take UsernameShortIDLen v \<and> p = q \<and> i = j"
proof -
  have eq: "BuildRemnawaveUsername w r k = UsernamePrefix @ take UsernameShortIDLen w @ ''_'' @ r @ ''_'' @ dec_int k" for w r k
    by (simp add: BuildRemnawaveUsername_def Let_def)
  show ?thesis
    using split_last [of p "CHR ''_''" "dec_int i" q "dec_int j"] assms
    by (auto simp: eq dec_int_no_underscore dec_int_inj)
qed

section \<open>Histories\<close>

lemma reach_rtrancl: "binding_root.reach a b \<Longrightarrow> (a, b) \<in> {(x, y). y \<in> set (bindingTransitions x)}\<^sup>*"
  by (induction rule: binding_root.reach.induct) (auto intro: rtrancl.rtrancl_into_rtrancl)

lemma deprovisioned_final: "binding_root.reach a b \<Longrightarrow> a = BindingDeprovisioned \<Longrightarrow> b = BindingDeprovisioned"
  by (induction rule: binding_root.reach.induct) auto

text \<open>A panel that counts its users and accepts every call.\<close>

definition sample_gateway :: "nat gateway" where
  "sample_gateway =
     \<lparr>gw_CreateUser = (\<lambda>req n. (Inr \<lparr>ur_UUID = dec n @ ''r'', ur_ShortUUID = dec n\<rparr>, Suc n)),
      gw_GetUser = (\<lambda>rw n. (Inr \<lparr>us_UUID = rw, us_Enabled = False, us_Expired = False, us_UsedBytes = 0\<rparr>, n)),
      gw_DeleteUser = (\<lambda>rw n. (Inr (), n - 1)), gw_EnableUser = (\<lambda>rw n. (Inr (), n)),
      gw_DisableUser = (\<lambda>rw n. (Inr (), n))\<rparr>"

definition sample_step :: "nat \<Rightarrow> nat \<Rightarrow> tx_env" where
  "sample_step n i = \<lparr>env_now = 10, env_dbnow = 10, env_uuid = (\<lambda>k. dec n @ ''-'' @ dec i @ ''-'' @ dec k), env_trace = [],
     env_fault = (\<lambda>_. False)\<rparr>"

definition sample_msub_env :: "nat \<Rightarrow> string \<Rightarrow> msub_env" where
  "sample_msub_env n pool = tx_env.extend (sample_step n 999)
     \<lparr>me_pool = pool, me_steps = sample_step n,
      me_subs = (\<lambda>i. Inr \<lparr>si_ID = i, si_UserID = ''u'', si_PlanID = ''p'', si_Status = SubStatusActive, si_AddonIDs = []\<rparr>),
      me_limitingHook = None, me_asyncHook = True, me_hooksEnabled = True\<rparr>"

definition sample_snapshot :: plan_snapshot where
  "sample_snapshot = \<lparr>ps_ID = ''p'', ps_TrafficLimitBytes = 1000, ps_MaxRemnawaveBindings = 5,
     ps_Addons = [\<lparr>as_ID = ''g'', as_Name = ''gaming'', as_Type = AddonSnapshotNodes, as_ExtraTrafficBytes = 50,
       as_ExtraNodes = [''n'']\<rparr>]\<rparr>"

definition sample_request :: provision_request where
  "sample_request = \<lparr>pq_SubscriptionID = ''s'', pq_PlatformUserID = ''user-0001'', pq_Plan = sample_snapshot,
     pq_AddonIDs = [''g''], pq_FamilyMemberIDs = []\<rparr>"

definition empty_msub :: "nat msub" where
  "empty_msub = \<lparr>ms_bindings = [], ms_sagas = [], ms_outbox = [], ms_panel = 0\<rparr>"

lemma empty_msub_inv: "ms_inv empty_msub"
  by (simp add: ms_inv_def bindings_wf_def empty_msub_def)

text \<open>
  A state with two bindings of a subscription, the base one and that of a gaming addon, active on the
  panel. No run of the code leads to it (C11 below); it stands for rows that came into the table by
  other means.
\<close>

definition sample_row :: "string \<Rightarrow> binding_purpose \<Rightarrow> int64 \<Rightarrow> string \<Rightarrow> string \<Rightarrow> binding_row" where
  "sample_row i p l rw name = \<lparr>br_id = i, br_subscription_id = ''s'', br_platform_user_id = ''user-0001'',
     br_remnawave_uuid = Some rw, br_remnawave_short_uuid = Some rw, br_remnawave_username = name, br_purpose = p,
     br_status = BindingActive, br_traffic_limit_bytes = l, br_allowed_nodes = [], br_inbound_tags = [],
     br_fail_reason = [], br_synced_at = Some 10, br_created_at = 10, br_updated_at = 10, br_tenant_id = None\<rparr>"

definition provisioned_msub :: "nat msub" where
  "provisioned_msub = \<lparr>ms_bindings = [sample_row ''0-0-0'' PurposeBase 1000 ''0r'' ''p_user-000_base_0'',
       sample_row ''0-1-0'' PurposeGaming 50 ''1r'' ''p_user-000_gaming_1''],
     ms_sagas = [\<lparr>sg_ID = ''0-999-0'', sg_SagaType = SagaTypeProvisioning, sg_CorrelationID = ''s'',
       sg_Status = SagaStatusCompleted, sg_CurrentStep = 2, sg_TotalSteps = 2, sg_StateData = EmptySagaState,
       sg_ErrorMessage = None, sg_CreatedAt = 10, sg_UpdatedAt = 10\<rparr>],
     ms_outbox = [], ms_panel = 2\<rparr>"

lemma provisioned_msub_inv: "ms_inv provisioned_msub"
  by (simp add: provisioned_msub_def sample_row_def ms_inv_def bindings_wf_def binding_inv_def bindingRowToDomain_def
      IsProvisioned_def DerefStr_def)

text \<open>
  C10. Bindings through any history. Whatever events, webhooks and jobs reach the context, with
  whatever faults of the database and answers of the panel:
  the binding identifiers stay unique and every stored binding valid; a binding keeps its
  subscription, user, username, purpose and tenant; its status only moves along the transition
  table, and a deprovisioned one stays so; and the outbox only grows.
\<close>

theorem bindings_history:
  assumes "ms_inv s"
  shows "ms_inv (msub_run gw h s)
    \<and> (\<forall>r \<in> set (ms_bindings s). \<exists>r' \<in> set (ms_bindings (msub_run gw h s)).
         br_id r' = br_id r \<and> br_subscription_id r' = br_subscription_id r
         \<and> br_platform_user_id r' = br_platform_user_id r \<and> br_remnawave_username r' = br_remnawave_username r
         \<and> br_purpose r' = br_purpose r \<and> br_tenant_id r' = br_tenant_id r
         \<and> (br_status r, br_status r') \<in> {(x, y). y \<in> set (bindingTransitions x)}\<^sup>*
         \<and> (br_status r = BindingDeprovisioned \<longrightarrow> br_status r' = BindingDeprovisioned))
    \<and> (\<exists>es. ms_outbox (msub_run gw h s) = ms_outbox s @ es)"
proof -
  have ev: "evolves s (msub_run gw h s)" by (rule msub_run_evolves)
  then have t: "table_evolves (ms_bindings s) (ms_bindings (msub_run gw h s))"
    using assms by (simp add: evolves_def)
  have row: "\<exists>r' \<in> set (ms_bindings (msub_run gw h s)).
         br_id r' = br_id r \<and> br_subscription_id r' = br_subscription_id r
         \<and> br_platform_user_id r' = br_platform_user_id r \<and> br_remnawave_username r' = br_remnawave_username r
         \<and> br_purpose r' = br_purpose r \<and> br_tenant_id r' = br_tenant_id r
         \<and> (br_status r, br_status r') \<in> {(x, y). y \<in> set (bindingTransitions x)}\<^sup>*
         \<and> (br_status r = BindingDeprovisioned \<longrightarrow> br_status r' = BindingDeprovisioned)"
    if "r \<in> set (ms_bindings s)" for r
  proof -
    from table_evolves_row [OF t that] obtain r' where r': "r' \<in> set (ms_bindings (msub_run gw h s))" "row_evolves r r'"
      by blast
    then show ?thesis
      by (intro bexI [of _ r']) (auto simp: row_evolves_def dest: reach_rtrancl deprovisioned_final)
  qed
  show ?thesis using row evolves_inv [OF ev assms] evolves_outbox [OF ev] by blast
qed

theorem bindings_history_witness:
  "ms_inv (msub_run sample_gateway [(sample_msub_env 1 ''*'', Cancelled ''*'' ''s'')] provisioned_msub)
    \<and> map br_status (ms_bindings provisioned_msub) = [BindingActive, BindingActive]
    \<and> map br_status (ms_bindings (msub_run sample_gateway [(sample_msub_env 1 ''*'', Cancelled ''*'' ''s'')] provisioned_msub))
      = [BindingDeprovisioned, BindingDeprovisioned]"
proof -
  have "map br_status (ms_bindings provisioned_msub) = [BindingActive, BindingActive]"
    "map br_status (ms_bindings (msub_run sample_gateway [(sample_msub_env 1 ''*'', Cancelled ''*'' ''s'')] provisioned_msub))
      = [BindingDeprovisioned, BindingDeprovisioned]"
    by code_simp+
  then show ?thesis
    using bindings_history [OF provisioned_msub_inv,
      of sample_gateway "[(sample_msub_env 1 ''*'', Cancelled ''*'' ''s'')]"] by blast
qed

section \<open>Usernames of bindings\<close>

text \<open>
  Usernames on the panel. For users whose identifiers have eight characters or more, two
  bindings get the same username exactly if the first eight characters of the users, the purposes
  and the indices agree: within a run, where the index differs, usernames never collide, and two
  users that share the prefix (UUIDv7 identifiers drawn within about a minute do) get the same
  usernames for the same purposes.
\<close>

theorem usernames_collide_iff:
  assumes "length u \<ge> 8" "length v \<ge> 8"
    and "NewBinding bid e s u p i l now = Inr b" "NewBinding bid' e' s' v q j l' now' = Inr c"
  shows "bd_RemnawaveUsername b = bd_RemnawaveUsername c \<longleftrightarrow>
    take 8 u = take 8 v \<and> purpose_string p = purpose_string q \<and> i = j"
  using NewBinding_inv [OF assms(3)] NewBinding_inv [OF assms(4)] assms(1,2)
    username_iff [of u v "purpose_string p" i "purpose_string q" j]
  by (simp add: UsernameShortIDLen_def)

theorem usernames_collide_iff_witness:
  "bd_RemnawaveUsername (projr (NewBinding ''1'' ''e'' ''s'' ''0190aaaa-1'' PurposeBase 0 0 0))
     = bd_RemnawaveUsername (projr (NewBinding ''2'' ''f'' ''t'' ''0190aaaa-2'' PurposeBase 0 0 5))
   \<longleftrightarrow> take 8 ''0190aaaa-1'' = take 8 ''0190aaaa-2'' \<and> purpose_string PurposeBase = purpose_string PurposeBase
       \<and> (0::int) = 0"
proof -
  have ok: "is_ok (NewBinding ''1'' ''e'' ''s'' ''0190aaaa-1'' PurposeBase 0 0 0)"
    "is_ok (NewBinding ''2'' ''f'' ''t'' ''0190aaaa-2'' PurposeBase 0 0 5)" by code_simp+
  then obtain b c where bc: "NewBinding ''1'' ''e'' ''s'' ''0190aaaa-1'' PurposeBase 0 0 0 = Inr b"
    "NewBinding ''2'' ''f'' ''t'' ''0190aaaa-2'' PurposeBase 0 0 5 = Inr c" by (auto simp: is_ok_iff)
  show ?thesis
    using usernames_collide_iff [OF _ _ bc] by (simp add: bc)
qed

section \<open>Steps without a scope\<close>

lemma tx_scope_bare [simp]: "tx_scope pool [] = pool"
  by (simp add: tx_scope_def)

text \<open>
  Jobs without a tenant scope. The periodic sync, a sync of one binding and the reconciler
  run on a bare context; on a connection pool with no tenant setting, which is how the pool is
  configured, they leave every binding, the panel and the outbox as they were: the sync finds no
  binding and the reconciler claims none, whatever the table holds.
\<close>

theorem unscoped_jobs_do_nothing:
  assumes "me_pool env = []"
  shows "syncAll gw env s = s \<and> reconcile [] gw env s = s
    \<and> (\<exists>er. SyncBinding (me_pool env) gw e i s = (Inl er, s))"
proof -
  have "syncAll gw env s = s"
    using assms by (simp add: syncAll_def ms_call_def)
  have "fetch_and_claim [] env s = (if env_fault env ''get failed bindings''
      then Inl (ErrMultisubStorage ''get failed bindings'') else Inr ([], s))"
    by (simp add: fetch_and_claim_def tx_eval)
  then have "reconcile [] gw env s = s"
    using assms by (simp add: reconcile_def resetAbandonedClaims_def try_write_def RunInTx_def)
  moreover have "\<exists>er. SyncBinding (me_pool env) gw e i s = (Inl er, s)"
    using assms by (simp add: SyncBinding_def ms_call_def)
  ultimately show ?thesis using \<open>syncAll gw env s = s\<close> by blast
qed

theorem unscoped_jobs_do_nothing_witness:
  "syncAll sample_gateway (sample_msub_env 1 []) provisioned_msub = provisioned_msub
   \<and> length (bd_GetAllActive PlatformScopeSentinel provisioned_msub) = 2"
proof -
  have "me_pool (sample_msub_env 1 []) = []" by (simp add: sample_msub_env_def tx_env.defs)
  moreover have "length (bd_GetAllActive PlatformScopeSentinel provisioned_msub) = 2" by code_simp
  ultimately show ?thesis
    using unscoped_jobs_do_nothing [of "sample_msub_env 1 []" sample_gateway provisioned_msub] by blast
qed

section \<open>Provisioning stores nothing\<close>

lemma bd_GetByID_cong: "ms_bindings s = ms_bindings s' \<Longrightarrow> bd_GetByID guc i s = bd_GetByID guc i s'"
  by (simp add: bd_GetByID_def br_rows_def)

lemma one_update_get_other:
  assumes "one_update b s s'" "bd_ID b \<noteq> k"
  shows "bd_GetByID guc k s' = bd_GetByID guc k s"
proof -
  have *: "select_by br_id k (filter (\<lambda>r. rls_visible guc (br_tenant_id r)) t)
      = select_by br_id k (filter (\<lambda>r. rls_visible guc (br_tenant_id r)) (filter (\<lambda>r. br_id r = k) t))" for t
    by (induction t) (auto simp: select_by_Cons)
  show ?thesis
    unfolding bd_GetByID_def br_rows_def
    by (subst (1 2) *) (simp add: one_update_other [OF assms])
qed

text \<open>
  C11. No binding is ever stored. \<open>NewBinding\<close> leaves the two array fields nil, the driver sends them as
  \<open>NULL\<close>, and the columns are \<open>NOT NULL\<close>. So through any history of events, webhooks and jobs, in any
  scope and with any faults and any panel, the table keeps exactly the rows it had; an activation creates
  no row, no user on the panel and no event; and it fails, unless the subscription already has an active
  binding or the lookup says that it is terminal.
\<close>

theorem no_binding_is_ever_stored:
  assumes "ms_inv s" "s1 = msub_run gw h s" and run: "OnSubscriptionActivated ctx gw env req s1 = (r, s2)"
  shows "map br_id (ms_bindings s1) = map br_id (ms_bindings s)
    \<and> ms_bindings s2 = ms_bindings s1 \<and> ms_panel s2 = ms_panel s1 \<and> ms_outbox s2 = ms_outbox s1
    \<and> (bd_GetActiveBySubscriptionID (me_pool env) (pq_SubscriptionID req) s1 = []
        \<and> (\<forall>info. me_subs env (pq_SubscriptionID req) = Inr info \<longrightarrow> \<not> IsTerminal (si_Status info))
        \<longrightarrow> (\<exists>er. r = Inl er))"
proof -
  have "table_evolves (ms_bindings s) (ms_bindings s1)"
    using msub_run_evolves [of s gw h] assms(1,2) by (simp add: evolves_def)
  then show ?thesis
    using Activated_keeps [OF run] Activated_refused [OF run] table_evolves_ids by blast
qed

theorem no_binding_is_ever_stored_witness:
  "\<exists>er s2. OnSubscriptionActivated ''*'' sample_gateway (sample_msub_env 1 ''*'') sample_request
      (msub_run sample_gateway [(sample_msub_env 0 ''*'', Activated [] sample_request), (sample_msub_env 0 ''*'', SyncAll)] empty_msub)
      = (Inl er, s2) \<and> ms_bindings s2 = [] \<and> ms_panel s2 = 0"
proof -
  let ?h = "[(sample_msub_env 0 ''*'', Activated [] sample_request), (sample_msub_env 0 ''*'', SyncAll)]"
  let ?s1 = "msub_run sample_gateway ?h empty_msub"
  obtain r s2 where run: "OnSubscriptionActivated ''*'' sample_gateway (sample_msub_env 1 ''*'') sample_request ?s1 = (r, s2)"
    by force
  have "ms_panel ?s1 = 0" by code_simp
  moreover have "ms_bindings ?s1 = []"
    using no_binding_is_ever_stored [OF empty_msub_inv refl run] by (simp add: empty_msub_def)
  moreover have "\<forall>info. me_subs (sample_msub_env 1 ''*'') i = Inr info \<longrightarrow> \<not> IsTerminal (si_Status info)" for i
    by (auto simp: sample_msub_env_def tx_env.defs IsTerminal_def)
  ultimately show ?thesis
    using no_binding_is_ever_stored [OF empty_msub_inv refl run] run
    by (auto simp add: bd_GetActiveBySubscriptionID_def br_rows_def)
qed

section \<open>What a cancellation reaches\<close>

definition faultless :: "(nat \<Rightarrow> tx_env) \<Rightarrow> bool" where
  "faultless envs \<longleftrightarrow> (\<forall>i l. \<not> env_fault (envs i) l)"

lemma RunInTx_faultless:
  assumes "\<And>l. \<not> env_fault e l"
  shows "ms_bindings (snd (RunInTx mk e (update_only guc e b) s)) = ms_bindings (bd_Update guc (env_dbnow e) b s)"
    and "ms_bindings (snd (RunInTx mk e (update_and_publish guc e b) s)) = ms_bindings (bd_Update guc (env_dbnow e) b s)"
    and "ms_panel (snd (RunInTx mk e (update_only guc e b) s)) = ms_panel s"
    and "ms_panel (snd (RunInTx mk e (update_and_publish guc e b) s)) = ms_panel s"
proof -
  have "\<exists>s'. update_and_publish guc e b s = Inr ((), s')"
    using assms by (simp add: update_and_publish_def tx_eval ms_publish_def PublishAll_def DomainEvents_def map_sum_def)
  then obtain s' where p: "update_and_publish guc e b s = Inr ((), s')" by blast
  show "ms_bindings (snd (RunInTx mk e (update_and_publish guc e b) s)) = ms_bindings (bd_Update guc (env_dbnow e) b s)"
    "ms_panel (snd (RunInTx mk e (update_and_publish guc e b) s)) = ms_panel s"
    using assms p update_and_publish_ok [OF p] by (simp_all add: RunInTx_def)
  show "ms_bindings (snd (RunInTx mk e (update_only guc e b) s)) = ms_bindings (bd_Update guc (env_dbnow e) b s)"
    "ms_panel (snd (RunInTx mk e (update_only guc e b) s)) = ms_panel s"
    using assms by (simp_all add: RunInTx_def update_only_def tx_eval)
qed

lemma bd_GetByID_updated:
  assumes "bd_GetByID guc (bd_ID c) s = Inr b" "ms_bindings s' = ms_bindings (bd_Update guc t c s0)" "ms_bindings s0 = ms_bindings s"
  shows "bd_GetByID guc (bd_ID c) s' = Inr (bd_merge t b c)"
proof -
  have "bd_GetByID guc (bd_ID c) s' = bd_GetByID guc (bd_ID c) (bd_Update guc t c s)"
    using assms(2,3) by (intro bd_GetByID_cong) (simp add: bd_Update_row)
  with bd_repo.get_update [OF assms(1)] show ?thesis by simp
qed

lemma deprovisionOne_result:
  assumes b: "bd_Status b = BindingActive" "bd_GetByID guc (bd_ID b) s = Inr b0" and e: "\<And>l. \<not> env_fault e l"
  shows "\<exists>c. bd_GetByID guc (bd_ID b) (deprovisionOne guc gw e b s) = Inr c
    \<and> (bd_Status c = BindingDeprovisioned \<or> bd_Status c = BindingFailed)
    \<and> ((\<forall>rw p. isl (fst (gw_DeleteUser gw rw p)) = False) \<longrightarrow> bd_Status c = BindingDeprovisioned)"
proof -
  obtain d where d: "Deprovision (env_uuid e 0) (env_now e) b = Inr d" "bd_ID d = bd_ID b" "bd_Status d = BindingDeprovisioned"
    using b(1) by (auto simp: Deprovision_def bd_transitionTo_def)
  have f: "\<exists>c. bd_MarkFailed (env_uuid e 0) m (env_now e) b = Inr c \<and> bd_ID c = bd_ID b \<and> bd_Status c = BindingFailed" for m
    using b(1) by (auto simp: bd_MarkFailed_def bd_transitionTo_def)
  let ?r = "if IsProvisioned b then (case gw_DeleteUser gw (bd_RemnawaveUUID b) (ms_panel s) of (r, p) \<Rightarrow> (r, s\<lparr>ms_panel := p\<rparr>))
     else (Inr (), s)"
  obtain del s1 where del: "?r = (del, s1)" by force
  then have s1: "ms_bindings s1 = ms_bindings s" by (auto split: if_splits prod.splits)
  show ?thesis
  proof (cases del)
    case (Inl msg)
    obtain c where c: "bd_MarkFailed (env_uuid e 0) (''remnawave delete: '' @ msg) (env_now e) b = Inr c"
      "bd_ID c = bd_ID b" "bd_Status c = BindingFailed" using f by blast
    have upd: "ms_bindings (deprovisionOne guc gw e b s) = ms_bindings (bd_Update guc (env_dbnow e) c s1)"
      using del Inl c(1) RunInTx_faultless(1) [OF e] by (simp add: deprovisionOne_def Let_def)
    have "\<not> (\<forall>rw p. isl (fst (gw_DeleteUser gw rw p)) = False)"
      using del Inl by (auto split: if_splits prod.splits) (metis fst_conv sum.disc(1))
    with bd_GetByID_updated [OF _ upd s1] b(2) c show ?thesis by simp
  next
    case (Inr u)
    have upd: "ms_bindings (deprovisionOne guc gw e b s) = ms_bindings (bd_Update guc (env_dbnow e) d s1)"
      using del Inr d(1) RunInTx_faultless(2) [OF e] by (simp add: deprovisionOne_def Let_def)
    from bd_GetByID_updated [OF _ upd s1] b(2) d show ?thesis by simp
  qed
qed

lemma deprovision_loop_result:
  assumes "faultless envs" "distinct (map bd_ID bs)" "\<forall>b \<in> set bs. bd_Status b = BindingActive"
    and "\<forall>b \<in> set bs. \<exists>b0. bd_GetByID guc (bd_ID b) s = Inr b0"
  shows "(\<forall>b \<in> set bs. \<exists>c. bd_GetByID guc (bd_ID b) (deprovision_loop guc gw envs g j ds bs s) = Inr c
      \<and> (bd_Status c = BindingDeprovisioned \<or> bd_Status c = BindingFailed)
      \<and> ((\<forall>rw p. isl (fst (gw_DeleteUser gw rw p)) = False) \<longrightarrow> bd_Status c = BindingDeprovisioned))
    \<and> (\<forall>k. k \<notin> bd_ID ` set bs \<longrightarrow> bd_GetByID guc k (deprovision_loop guc gw envs g j ds bs s) = bd_GetByID guc k s)"
  using assms
proof (induction bs arbitrary: j ds s)
  case (Cons b bs)
  let ?s = "deprovisionOne guc gw (envs j) b s"
  let ?t = "checkpointSaga (envs j) g (Suc j) (DeprovisioningState (ds @ [bd_ID b])) ?s"
  have t: "bd_GetByID guc k ?t = bd_GetByID guc k ?s" for k by (rule bd_GetByID_cong) simp
  have other: "bd_GetByID guc k ?s = bd_GetByID guc k s" if "k \<noteq> bd_ID b" for k
    using one_update_get_other [OF deprovision.own, of b k guc guc gw "envs j" s] that by simp
  have IH: "(\<forall>c \<in> set bs. \<exists>d. bd_GetByID guc (bd_ID c) (deprovision_loop guc gw envs g (Suc j) (ds @ [bd_ID b]) bs ?t) = Inr d
      \<and> (bd_Status d = BindingDeprovisioned \<or> bd_Status d = BindingFailed)
      \<and> ((\<forall>rw p. isl (fst (gw_DeleteUser gw rw p)) = False) \<longrightarrow> bd_Status d = BindingDeprovisioned))
    \<and> (\<forall>k. k \<notin> bd_ID ` set bs \<longrightarrow> bd_GetByID guc k (deprovision_loop guc gw envs g (Suc j) (ds @ [bd_ID b]) bs ?t) = bd_GetByID guc k ?t)"
  proof (rule Cons.IH [OF Cons.prems(1)])
    show "\<forall>c \<in> set bs. \<exists>b0. bd_GetByID guc (bd_ID c) ?t = Inr b0"
    proof
      fix c assume "c \<in> set bs"
      then have "bd_ID c \<noteq> bd_ID b" using Cons.prems(2) by (auto simp: image_iff)
      with other t Cons.prems(4) \<open>c \<in> set bs\<close> show "\<exists>b0. bd_GetByID guc (bd_ID c) ?t = Inr b0" by auto
    qed
  qed (use Cons.prems in auto)
  have nb: "bd_ID b \<notin> bd_ID ` set bs" using Cons.prems(2) by simp
  have "\<And>l. \<not> env_fault (envs j) l" using Cons.prems(1) by (simp add: faultless_def)
  with deprovisionOne_result [of b guc s _ "envs j" gw] Cons.prems(3,4)
  obtain c where "bd_GetByID guc (bd_ID b) ?s = Inr c" "bd_Status c = BindingDeprovisioned \<or> bd_Status c = BindingFailed"
    "(\<forall>rw p. isl (fst (gw_DeleteUser gw rw p)) = False) \<longrightarrow> bd_Status c = BindingDeprovisioned" by fastforce
  with IH nb t other show ?case by simp
qed simp

lemma read_tx_faultless: "(\<And>l. \<not> env_fault e l) \<Longrightarrow> read_tx e l f s = f s"
  by (cases "f s") (simp_all add: read_tx_def RunInTx_def tx_eval)

lemma active_get:
  assumes "ms_inv s" "b \<in> set (bd_GetActiveBySubscriptionID guc i s)"
  shows "bd_GetByID guc (bd_ID b) s = Inr b" "bd_Status b = BindingActive"
proof -
  from assms(2) obtain r where r: "r \<in> set (br_rows guc s)" "b = bindingRowToDomain r" "br_status r = BindingActive"
    by (auto simp: bd_GetActiveBySubscriptionID_def)
  have "distinct (map br_id (br_rows guc s))"
    using assms(1) by (auto simp: ms_inv_def bindings_wf_def br_rows_def intro: distinct_map_filter)
  from distinct_select [OF this r(1)] r show "bd_GetByID guc (bd_ID b) s = Inr b" "bd_Status b = BindingActive"
    by (auto simp: bd_GetByID_def)
qed

text \<open>
  C12. What a cancellation reaches. When no call to the database fails in any step, the cancellation of a
  subscription that has an active binding in the scope of the request returns no error; every active
  binding of the subscription ends deprovisioned or, if the panel refused to delete its user, failed; and
  every other binding that the scope sees is as it was.
\<close>

theorem cancellation_deprovisions:
  assumes "ms_inv s" "\<And>l. \<not> env_fault env l" "faultless (me_steps env)"
    and guc: "guc = tx_scope (me_pool env) ctx" and some: "bd_GetActiveBySubscriptionID guc i s \<noteq> []"
    and run: "OnSubscriptionCancelled ctx gw env i s = (r, s')"
  shows "r = Inr ()
    \<and> (\<forall>b \<in> set (bd_GetActiveBySubscriptionID guc i s). \<exists>c. bd_GetByID guc (bd_ID b) s' = Inr c
         \<and> (bd_Status c = BindingDeprovisioned \<or> bd_Status c = BindingFailed)
         \<and> ((\<forall>rw p. isl (fst (gw_DeleteUser gw rw p)) = False) \<longrightarrow> bd_Status c = BindingDeprovisioned))
    \<and> (\<forall>k. k \<notin> bd_ID ` set (bd_GetActiveBySubscriptionID guc i s) \<longrightarrow> bd_GetByID guc k s' = bd_GetByID guc k s)"
proof -
  let ?bs = "bd_GetActiveBySubscriptionID guc i s"
  obtain g s1 where g: "create_saga env SagaTypeDeprovisioning i (length ?bs) s = (g, s1)" by force
  have get: "bd_GetByID guc k s1 = bd_GetByID guc k s" for k
    using create_saga_keeps [OF g] by (intro bd_GetByID_cong) simp
  have r: "r = Inr ()" and s': "s' = completeSaga env g (deprovision_loop guc gw (me_steps env) g 0 [] ?bs s1)"
    using run some g by (simp_all add: OnSubscriptionCancelled_def DeprovisionSub_def Let_def read_tx_faultless assms(2) guc)
  have get': "bd_GetByID guc k s' = bd_GetByID guc k (deprovision_loop guc gw (me_steps env) g 0 [] ?bs s1)" for k
    unfolding s' by (intro bd_GetByID_cong) simp
  have "distinct (map bd_ID ?bs)" using loaded_reads(2) [OF assms(1)] by (simp add: loaded_def)
  moreover have "\<forall>b \<in> set ?bs. bd_Status b = BindingActive" "\<forall>b \<in> set ?bs. \<exists>b0. bd_GetByID guc (bd_ID b) s1 = Inr b0"
    using active_get [OF assms(1)] get by auto
  ultimately show ?thesis
    using deprovision_loop_result [OF assms(3), of ?bs guc s1 gw g 0 "[]"] r get get' by simp
qed

theorem cancellation_deprovisions_witness:
  "\<exists>r s'. OnSubscriptionCancelled ''*'' sample_gateway (sample_msub_env 1 ''*'') ''s'' provisioned_msub = (r, s') \<and> r = Inr ()
    \<and> (\<forall>b \<in> set (bd_GetActiveBySubscriptionID ''*'' ''s'' provisioned_msub).
         \<exists>c. bd_GetByID ''*'' (bd_ID b) s' = Inr c \<and> bd_Status c = BindingDeprovisioned)"
proof -
  let ?env = "sample_msub_env 1 ''*''"
  obtain r s' where run: "OnSubscriptionCancelled ''*'' sample_gateway ?env ''s'' provisioned_msub = (r, s')" by force
  have e: "\<not> env_fault ?env l" "faultless (me_steps ?env)" "''*'' = tx_scope (me_pool ?env) ''*''" for l
    by (simp_all add: sample_msub_env_def sample_step_def tx_env.defs faultless_def tx_scope_def)
  have "map bd_Status (bd_GetActiveBySubscriptionID ''*'' ''s'' provisioned_msub) = [BindingActive, BindingActive]" by code_simp
  then have ne: "bd_GetActiveBySubscriptionID ''*'' ''s'' provisioned_msub \<noteq> []" by auto
  have "\<forall>rw p. isl (fst (gw_DeleteUser sample_gateway rw p)) = False" by (simp add: sample_gateway_def)
  with cancellation_deprovisions [OF provisioned_msub_inv e ne run] run show ?thesis by blast
qed

lemma each_binding_skips:
  assumes "per_binding f" "\<And>e b s. b \<in> set bs \<Longrightarrow> bd_ID b = k \<Longrightarrow> f e b s = s"
  shows "bd_GetByID guc k (each_binding f envs j bs s) = bd_GetByID guc k s"
  using assms(2)
proof (induction bs arbitrary: j s)
  case (Cons b bs)
  have "bd_GetByID guc k (f (envs j) b s) = bd_GetByID guc k s"
    using Cons.prems [of b] one_update_get_other [OF per_binding.own [OF assms(1), of b s "envs j"], of k guc]
    by (cases "bd_ID b = k") auto
  with Cons.IH Cons.prems show ?case by simp
qed simp

lemma unlimited_active:
  assumes "\<And>l. \<not> env_fault env l" "faultless (me_steps env)"
    and "bd_GetByID (tx_scope (me_pool env) ctx) i s = Inr b" "bd_Status b = BindingLimited"
  shows "\<exists>c. bd_GetByID (tx_scope (me_pool env) ctx) i (snd (UnlimitBinding ctx env i s)) = Inr c \<and> bd_Status c = BindingActive"
proof -
  obtain c where c: "Unlimit (env_uuid env 0) (env_now env) b = Inr c" "bd_ID c = i" "bd_Status c = BindingActive"
    using assms(4) bd_repo.get_key [OF assms(3)] by (auto simp: Unlimit_def bd_transitionTo_def)
  have "snd (UnlimitBinding ctx env i s) = persistAndPublish (tx_scope (me_pool env) ctx) (me_steps env 0) c s"
    using assms(1,3) c(1) by (simp add: UnlimitBinding_def bindingByID_def read_tx_faultless)
  moreover have "\<And>l. \<not> env_fault (me_steps env 0) l" using assms(2) by (simp add: faultless_def)
  ultimately have "ms_bindings (snd (UnlimitBinding ctx env i s))
      = ms_bindings (bd_Update (tx_scope (me_pool env) ctx) (env_dbnow (me_steps env 0)) c s)"
    using RunInTx_faultless(2) by (metis persistAndPublish_def)
  from bd_GetByID_updated [OF _ this refl] assms(3) c show ?thesis by auto
qed

text \<open>
  A cancelled subscription gets its access back. A cancellation does not reach a binding that
  is limited at the time (nor does it call the panel for it); once the traffic cycle resets, the
  binding of the cancelled subscription is active again.
\<close>

theorem cancelled_limited_binding_revives:
  assumes "ms_inv s" "guc = tx_scope (me_pool env) ctx"
    and b: "bd_GetByID guc i s = Inr b" "bd_Status b = BindingLimited"
    and run: "OnSubscriptionCancelled ctx gw env (bd_SubscriptionID b) s = (r, s1)"
    and later: "guc = tx_scope (me_pool env') ctx'" "\<And>l. \<not> env_fault env' l" "faultless (me_steps env')"
  shows "bd_GetByID guc i s1 = Inr b
    \<and> (\<exists>c. bd_GetByID guc i (fst (snd (OnBindingTrafficReset ctx' env' i (bd_SubscriptionID b) s1))) = Inr c
         \<and> bd_Status c = BindingActive)"
proof -
  let ?sub = "bd_SubscriptionID b"
  have keep_pending: "bd_GetByID guc i (snd (cancelPendingBindings ctx env ?sub s)) = bd_GetByID guc i s"
  proof (cases "read_tx env ''get bindings by subscription'' (\<lambda>s. Inr (bd_GetBySubscriptionID guc ?sub s)) s")
    case (Inl er)
    with assms(2) show ?thesis by (simp add: cancelPendingBindings_def)
  next
    case (Inr bs)
    have "bs = bd_GetBySubscriptionID guc ?sub s" using read_tx_ok [OF Inr] by simp
    then have "bd_Status c = BindingLimited" if "c \<in> set bs" "bd_ID c = i" for c
    proof -
      have "fresh c s" using loaded_reads(1) [OF assms(1)] that \<open>bs = _\<close> by (simp add: loaded_def)
      moreover from b(1) obtain q where "q \<in> set (ms_bindings s)" "br_id q = i" "b = bindingRowToDomain q"
        by (auto simp: bd_GetByID_ok_iff dest: select_by_Some select_br_mem)
      ultimately show ?thesis using b(2) that(2) by (auto simp: fresh_def)
    qed
    then have "bd_GetByID guc i (each_binding (cancel_pending_one guc (env_now env)) (me_steps env) 0 bs s) = bd_GetByID guc i s"
      by (intro each_binding_skips cancel_pending.per_binding_axioms) (auto simp: cancel_pending_one_def)
    with Inr assms(2) show ?thesis by (simp add: cancelPendingBindings_def)
  qed
  have keep_active: "bd_GetByID guc i (snd (DeprovisionSub ctx gw env ?sub s)) = bd_GetByID guc i s"
  proof (cases "read_tx env ''get active bindings'' (\<lambda>s. Inr (bd_GetActiveBySubscriptionID guc ?sub s)) s")
    case (Inl er)
    with assms(2) show ?thesis by (simp add: DeprovisionSub_def)
  next
    case (Inr bs)
    have bs: "bs = bd_GetActiveBySubscriptionID guc ?sub s" using read_tx_ok [OF Inr] by simp
    have ni: "i \<notin> bd_ID ` set bs" using active_get [OF assms(1)] b bs by fastforce
    obtain g s0 where g: "create_saga env SagaTypeDeprovisioning ?sub (length bs) s = (g, s0)" by force
    have "bd_GetByID guc i (deprovision_loop guc gw envs g j ds cs t) = bd_GetByID guc i t"
      if "i \<notin> bd_ID ` set cs" for envs j ds cs and t :: "'a msub"
      using that
    proof (induction cs arbitrary: j ds t)
      case (Cons c cs)
      have "bd_GetByID guc i (checkpointSaga e g n d (deprovisionOne guc gw e' c t)) = bd_GetByID guc i t" for e n d e'
        using one_update_get_other [OF deprovision.own, of c i guc guc gw e' t] Cons.prems
        by (auto simp: bd_GetByID_cong [of "checkpointSaga e g n d (deprovisionOne guc gw e' c t)" "deprovisionOne guc gw e' c t"])
      with Cons.IH Cons.prems show ?case by simp
    qed simp
    from this [OF ni] have "bd_GetByID guc i (completeSaga env g (deprovision_loop guc gw (me_steps env) g 0 [] bs s0)) = bd_GetByID guc i s"
      using create_saga_keeps [OF g] by (simp add: bd_GetByID_def br_rows_def)
    with Inr g assms(2) show ?thesis by (simp add: DeprovisionSub_def)
  qed
  have s1: "bd_GetByID guc i s1 = Inr b"
    using run keep_pending keep_active b(1)
    by (auto simp: OnSubscriptionCancelled_def split: sum.splits if_splits)
  with unlimited_active [OF later(2,3)] later(1) b(2)
  obtain c where "bd_GetByID guc i (snd (UnlimitBinding ctx' env' i s1)) = Inr c" "bd_Status c = BindingActive" by blast
  then show ?thesis
    using s1 by (auto simp: OnBindingTrafficReset_def split: sum.split prod.split)
qed

definition limited_msub :: "nat msub" where
  "limited_msub = msub_run sample_gateway [(sample_msub_env 1 ''*'', LimitAll ''*'' ''s'' ''traffic'')] provisioned_msub"

lemma sample_msub_env_fields [simp]:
  "env_fault (sample_msub_env n p) l = False" "faultless (me_steps (sample_msub_env n p))"
  "me_pool (sample_msub_env n p) = p" "env_fault (sample_step n i) l = False" "me_steps (sample_msub_env n p) = sample_step n"
  "faultless (sample_step n)"
  by (simp_all add: sample_msub_env_def sample_step_def tx_env.defs faultless_def)

theorem cancelled_limited_binding_revives_witness:
  "\<exists>b s1. bd_GetByID ''*'' ''0-0-0'' limited_msub = Inr b
    \<and> s1 = snd (OnSubscriptionCancelled ''*'' sample_gateway (sample_msub_env 2 ''*'') (bd_SubscriptionID b) limited_msub)
    \<and> (\<exists>c. bd_GetByID ''*'' ''0-0-0'' (fst (snd (OnBindingTrafficReset ''*'' (sample_msub_env 3 ''*'') ''0-0-0'' (bd_SubscriptionID b) s1))) = Inr c
         \<and> bd_Status c = BindingActive)"
proof -
  have "is_ok (bd_GetByID ''*'' ''0-0-0'' limited_msub)"
    "map_sum id bd_Status (bd_GetByID ''*'' ''0-0-0'' limited_msub) = Inr BindingLimited" by code_simp+
  then obtain b where b: "bd_GetByID ''*'' ''0-0-0'' limited_msub = Inr b" "bd_Status b = BindingLimited"
    by (auto simp: is_ok_iff)
  have inv: "ms_inv limited_msub"
    unfolding limited_msub_def by (rule evolves_inv [OF msub_run_evolves provisioned_msub_inv])
  obtain r s1 where run: "OnSubscriptionCancelled ''*'' sample_gateway (sample_msub_env 2 ''*'') (bd_SubscriptionID b) limited_msub = (r, s1)"
    by force
  have sc: "''*'' = tx_scope (me_pool (sample_msub_env n ''*'')) ''*''" for n by (simp add: tx_scope_def)
  show ?thesis
    using cancelled_limited_binding_revives [OF inv sc b run sc, of 3] b(1) run by auto
qed

section \<open>Sagas and redelivered events\<close>

lemma fail_each_keys:
  "(\<lambda>r. (sg_SagaType r, sg_CorrelationID r)) ` set (ms_sagas (fail_each envs i gs s))
     = (\<lambda>r. (sg_SagaType r, sg_CorrelationID r)) ` set (ms_sagas s)"
proof -
  have key: "(\<lambda>r. (sg_SagaType r, sg_CorrelationID r)) ` set (update_by sg_ID k f t)
      = (\<lambda>r. (sg_SagaType r, sg_CorrelationID r)) ` set t"
    if "\<And>r. sg_SagaType (f r) = sg_SagaType r \<and> sg_CorrelationID (f r) = sg_CorrelationID r" for k f t
  proof -
    have "map (\<lambda>r. (sg_SagaType r, sg_CorrelationID r)) (update_by sg_ID k f t) = map (\<lambda>r. (sg_SagaType r, sg_CorrelationID r)) t"
      using that by (simp add: update_by_def)
    then show ?thesis by (metis list.set_map)
  qed
  show ?thesis
  proof (induction gs arbitrary: i s)
    case (Cons x gs)
    have "(\<lambda>r. (sg_SagaType r, sg_CorrelationID r)) ` set (ms_sagas (sg_Fail t k m s))
        = (\<lambda>r. (sg_SagaType r, sg_CorrelationID r)) ` set (ms_sagas s)" for t k m
      by (simp add: sg_Fail_def sg_update_def key)
    with Cons.IH show ?case by (simp add: try_write_def)
  qed simp
qed

text \<open>
  A saga that was marked failed still blocks its key. As long as the table has a saga of a type and
  correlation, whatever its status, no new saga of that type and correlation is created, before and
  after the startup pass marks the interrupted ones as failed: the next run of the workflow goes on
  without persistence.
\<close>

theorem stale_saga_blocks_its_key:
  assumes "row \<in> set (ms_sagas s)" "sg_SagaType row = ty" "sg_CorrelationID row = corr"
  shows "create_saga e ty corr n (ReportStaleOnStartup env s) = (None, ReportStaleOnStartup env s)"
proof -
  have "(ty, corr) \<in> (\<lambda>r. (sg_SagaType r, sg_CorrelationID r)) ` set (ms_sagas (ReportStaleOnStartup env s))"
    using assms fail_each_keys by (fastforce simp: ReportStaleOnStartup_def split: sum.split)
  then show ?thesis
    by (auto simp: create_saga_def ms_call_def sg_Create_def insert_unique_def Let_def)
qed

theorem stale_saga_blocks_its_key_witness:
  "fst (create_saga (sample_msub_env 1 ''*'') SagaTypeProvisioning ''s'' 2
     (ReportStaleOnStartup (sample_msub_env 1 ''*'') provisioned_msub)) = None"
proof -
  have "map (\<lambda>r. (sg_SagaType r, sg_CorrelationID r)) (ms_sagas provisioned_msub) = [(SagaTypeProvisioning, ''s'')]"
    by code_simp
  then obtain row where "row \<in> set (ms_sagas provisioned_msub)" "sg_SagaType row = SagaTypeProvisioning" "sg_CorrelationID row = ''s''"
    by (auto simp: map_eq_Cons_conv)
  from stale_saga_blocks_its_key [OF this, of "sample_msub_env 1 ''*''" 2 "sample_msub_env 1 ''*''"] show ?thesis
    by (simp only: fst_conv)
qed

text \<open>
  A redelivered traffic event fails. When an active binding was limited, the same event
  delivered once more is an error (and no notification), and the state stays; the comments promise
  that it returns no error.
\<close>

theorem limit_redelivery_fails:
  assumes "\<And>l. \<not> env_fault env l" "faultless (me_steps env)" "\<And>l. \<not> env_fault env' l"
    and "\<not> limit_blocked env subID i used limit" "\<not> limit_blocked env' subID i used' limit'"
    and "tx_scope (me_pool env') ctx' = tx_scope (me_pool env) ctx"
    and "bd_GetByID (tx_scope (me_pool env) ctx) i s = Inr b" "bd_Status b = BindingActive"
    and first: "OnBindingTrafficExceeded ctx env i subID used limit s = (r, s', ns)"
  shows "r = Inr () \<and> OnBindingTrafficExceeded ctx' env' i subID used' limit' s' = (Inl ErrInvalidBindingTransition, s', [])"
proof -
  let ?g = "tx_scope (me_pool env) ctx"
  obtain c where c: "Limit (env_uuid env 0) trafficExceededReason (env_now env) b = Inr c" "bd_ID c = i" "bd_Status c = BindingLimited"
    using assms(8) bd_repo.get_key [OF assms(7)] by (auto simp: Limit_def bd_transitionTo_def)
  have lim: "LimitBinding ctx env i trafficExceededReason s = (Inr (), persistAndPublish ?g (me_steps env 0) c s)"
    using assms(1,7) c(1) by (simp add: LimitBinding_def bindingByID_def read_tx_faultless)
  with first assms(4) have r: "r = Inr ()" "s' = persistAndPublish ?g (me_steps env 0) c s"
    by (simp_all add: OnBindingTrafficExceeded_def)
  have "\<And>l. \<not> env_fault (me_steps env 0) l" using assms(2) by (simp add: faultless_def)
  then have "ms_bindings s' = ms_bindings (bd_Update ?g (env_dbnow (me_steps env 0)) c s)"
    using RunInTx_faultless(2) r(2) by (metis persistAndPublish_def)
  from bd_GetByID_updated [OF _ this refl] assms(7) c
  have get: "bd_GetByID ?g i s' = Inr (bd_merge (env_dbnow (me_steps env 0)) b c)" by simp
  then have "LimitBinding ctx' env' i trafficExceededReason s' = (Inl ErrInvalidBindingTransition, s')"
    using assms(3,6) c(3) by (simp add: LimitBinding_def bindingByID_def read_tx_faultless Limit_def)
  with r(1) assms(5) show ?thesis by (simp add: OnBindingTrafficExceeded_def)
qed

theorem limit_redelivery_fails_witness:
  "\<exists>s' ns. OnBindingTrafficExceeded ''*'' (sample_msub_env 1 ''*'') ''0-0-0'' ''s'' 0 0 provisioned_msub = (Inr (), s', ns)
    \<and> OnBindingTrafficExceeded ''*'' (sample_msub_env 2 ''*'') ''0-0-0'' ''s'' 0 0 s' = (Inl ErrInvalidBindingTransition, s', [])"
proof -
  obtain r s' ns where first: "OnBindingTrafficExceeded ''*'' (sample_msub_env 1 ''*'') ''0-0-0'' ''s'' 0 0 provisioned_msub = (r, s', ns)"
    by (metis surj_pair)
  have "map_sum id bd_Status (bd_GetByID ''*'' ''0-0-0'' provisioned_msub) = Inr BindingActive" by code_simp
  then obtain b where b: "bd_GetByID (tx_scope (me_pool (sample_msub_env 1 ''*'')) ''*'') ''0-0-0'' provisioned_msub = Inr b"
    "bd_Status b = BindingActive"
    by (cases "bd_GetByID ''*'' ''0-0-0'' provisioned_msub") (auto simp: tx_scope_def)
  have nb: "\<not> limit_blocked (sample_msub_env n ''*'') x i u l" for n x i u l
    by (simp add: limit_blocked_def sample_msub_env_def tx_env.defs)
  have sc: "tx_scope (me_pool (sample_msub_env 2 ''*'')) ''*'' = tx_scope (me_pool (sample_msub_env 1 ''*'')) ''*''"
    by (simp add: tx_scope_def)
  from limit_redelivery_fails [OF _ _ _ nb nb sc b first] first show ?thesis by auto
qed

end

