(* ===== verification/PaymentFacade.thy ===== *)
theory PaymentFacade
  imports Payment
begin

text \<open>
  The payment repository (\<open>adapter/postgres/payment_repo.go\<close>), the facade
  (\<open>payment/facade.go\<close>) and the webhook endpoint (\<open>gateway/handler/payment_webhook_handler.go\<close>).
  A statement outside a transaction runs in the scope of the pooled connection, one inside a
  transaction in the scope that \<open>RunInTx\<close> sets from the context. Lemmas: in every scope the
  repository honours the repository contract.
\<close>

section \<open>Tables\<close>

record payment_row =
  pr_id :: string
  pr_invoice_id :: string
  pr_provider :: string
  pr_external_id :: string
  pr_amount :: int64
  pr_currency :: string
  pr_status :: payment_status
  pr_created_at :: time
  pr_updated_at :: time
  pr_tenant_id :: "string option"

text \<open>The two tables, the outbox, and the state of the payment provider behind the plugin.\<close>

record 'p payments =
  pa_records :: "payment_row list"
  pa_webhooks :: "webhook_log list"
  pa_outbox :: "payment_payload event list"
  pa_provider :: 'p

definition paymentRowToDomain :: "payment_row \<Rightarrow> payment_record" where
  "paymentRowToDomain r =
     \<lparr>rec_events = [], rec_flushed = False, py_ID = pr_id r, py_InvoiceID = pr_invoice_id r,
      py_Provider = pr_provider r, py_ExternalID = pr_external_id r, py_Amount = pr_amount r,
      py_Currency = pr_currency r, py_Status = pr_status r, py_CreatedAt = pr_created_at r,
      py_UpdatedAt = pr_updated_at r\<rparr>"

text \<open>\<open>CreatePaymentRecordParams\<close> with the stamped tenant.\<close>

definition payment_to_row :: "string option \<Rightarrow> payment_record \<Rightarrow> payment_row" where
  "payment_to_row tenant p =
     \<lparr>pr_id = py_ID p, pr_invoice_id = py_InvoiceID p, pr_provider = py_Provider p,
      pr_external_id = py_ExternalID p, pr_amount = py_Amount p, pr_currency = py_Currency p,
      pr_status = py_Status p, pr_created_at = py_CreatedAt p, pr_updated_at = py_UpdatedAt p,
      pr_tenant_id = tenant\<rparr>"

text \<open>\<open>UpdatePaymentRecordParams\<close>; the trigger overwrites the \<open>updated_at\<close> that the statement sets.\<close>

definition payment_update_row :: "time \<Rightarrow> payment_record \<Rightarrow> payment_row \<Rightarrow> payment_row" where
  "payment_update_row dbnow p r = r\<lparr>pr_status := py_Status p, pr_updated_at := dbnow\<rparr>"

definition pay_rows :: "string \<Rightarrow> 'p payments \<Rightarrow> payment_row list" where
  "pay_rows guc s = filter (\<lambda>r. rls_visible guc (pr_tenant_id r)) (pa_records s)"

definition CreatePayment :: "string \<Rightarrow> payment_record \<Rightarrow> 'p payments \<Rightarrow> payment_error + 'p payments" where
  "CreatePayment guc p s =
     (case rls_stamp guc of
        None \<Rightarrow> Inl (ErrPaymentStorage ''create payment record'')
      | Some tenant \<Rightarrow>
          rbind (insert_unique pr_id ErrPaymentAlreadyExists (payment_to_row tenant p) (pa_records s)) (\<lambda>t.
            Inr (s\<lparr>pa_records := t\<rparr>)))"

text \<open>The read with \<open>FOR UPDATE\<close> returns what the plain read does.\<close>

definition GetPaymentByID :: "string \<Rightarrow> string \<Rightarrow> 'p payments \<Rightarrow> payment_error + payment_record" where
  "GetPaymentByID guc i s =
     MapErr ErrPaymentNotFound (map_option paymentRowToDomain (select_by pr_id i (pay_rows guc s)))"

definition GetPaymentByIDForUpdate :: "string \<Rightarrow> string \<Rightarrow> 'p payments \<Rightarrow> payment_error + payment_record" where
  "GetPaymentByIDForUpdate guc i s =
     MapErr ErrPaymentNotFound (map_option paymentRowToDomain (select_by pr_id i (pay_rows guc s)))"

text \<open>One row of those with the key (its index is not unique).\<close>

definition GetPaymentByExternalID :: "string \<Rightarrow> string \<Rightarrow> string \<Rightarrow> 'p payments \<Rightarrow> payment_error + payment_record" where
  "GetPaymentByExternalID guc provider externalID s =
     MapErr ErrPaymentNotFound (map_option paymentRowToDomain
       (select_by (\<lambda>r. (pr_provider r, pr_external_id r)) (provider, externalID) (pay_rows guc s)))"

definition GetPaymentByExternalIDForUpdate :: "string \<Rightarrow> string \<Rightarrow> string \<Rightarrow> 'p payments \<Rightarrow> payment_error + payment_record" where
  "GetPaymentByExternalIDForUpdate guc provider externalID s =
     MapErr ErrPaymentNotFound (map_option paymentRowToDomain
       (select_by (\<lambda>r. (pr_provider r, pr_external_id r)) (provider, externalID) (pay_rows guc s)))"

definition UpdatePayment :: "string \<Rightarrow> time \<Rightarrow> payment_record \<Rightarrow> 'p payments \<Rightarrow> 'p payments" where
  "UpdatePayment guc dbnow p s =
     s\<lparr>pa_records := map (\<lambda>r. if rls_visible guc (pr_tenant_id r) \<and> pr_id r = py_ID p
                              then payment_update_row dbnow p r else r) (pa_records s)\<rparr>"

text \<open>The log has the identifier as its primary key and a unique index on provider and external identifier.\<close>

definition wl_key :: "webhook_log \<Rightarrow> string \<times> string" where
  "wl_key w = (wl_Provider w, wl_ExternalID w)"

definition CreateWebhookLog :: "webhook_log \<Rightarrow> 'p payments \<Rightarrow> payment_error + 'p payments" where
  "CreateWebhookLog w s =
     (if wl_ID w \<in> wl_ID ` set (pa_webhooks s) then Inl ErrWebhookDuplicate
      else rbind (insert_unique wl_key ErrWebhookDuplicate w (pa_webhooks s)) (\<lambda>t. Inr (s\<lparr>pa_webhooks := t\<rparr>)))"

definition GetWebhookLog :: "string \<Rightarrow> string \<Rightarrow> 'p payments \<Rightarrow> payment_error + webhook_log" where
  "GetWebhookLog provider externalID s =
     MapErr ErrWebhookNotFound (select_by wl_key (provider, externalID) (pa_webhooks s))"

definition UpdateWebhookLog :: "webhook_log \<Rightarrow> 'p payments \<Rightarrow> 'p payments" where
  "UpdateWebhookLog w s =
     s\<lparr>pa_webhooks := update_by wl_ID (wl_ID w)
          (\<lambda>r. r\<lparr>wl_Status := wl_Status w, wl_ProcessedAt := wl_ProcessedAt w\<rparr>) (pa_webhooks s)\<rparr>"

definition payments_wf :: "'p payments \<Rightarrow> bool" where
  "payments_wf s \<longleftrightarrow> distinct (map pr_id (pa_records s))"

definition pay_stored :: "payment_record \<Rightarrow> payment_record" where
  "pay_stored p = p\<lparr>rec_events := [], rec_flushed := False\<rparr>"

definition pay_merge :: "time \<Rightarrow> payment_record \<Rightarrow> payment_record \<Rightarrow> payment_record" where
  "pay_merge dbnow old p = old\<lparr>rec_events := [], rec_flushed := False, py_Status := py_Status p, py_UpdatedAt := dbnow\<rparr>"

lemma payment_row_fields [simp]:
  "pr_id (payment_update_row t p r) = pr_id r" "pr_tenant_id (payment_update_row t p r) = pr_tenant_id r"
  "pr_provider (payment_update_row t p r) = pr_provider r" "pr_external_id (payment_update_row t p r) = pr_external_id r"
  "pr_invoice_id (payment_update_row t p r) = pr_invoice_id r" "pr_amount (payment_update_row t p r) = pr_amount r"
  "pr_currency (payment_update_row t p r) = pr_currency r" "pr_created_at (payment_update_row t p r) = pr_created_at r"
  "pr_status (payment_update_row t p r) = py_Status p"
  "pr_id (payment_to_row tn p) = py_ID p" "pr_tenant_id (payment_to_row tn p) = tn"
  "py_ID (paymentRowToDomain r) = pr_id r" "py_Status (paymentRowToDomain r) = pr_status r"
  "rec_events (paymentRowToDomain r) = []"
  by (simp_all add: payment_update_row_def payment_to_row_def paymentRowToDomain_def)

lemma pay_rows_update:
  "pay_rows guc (UpdatePayment guc dbnow p s) = update_by pr_id (py_ID p) (payment_update_row dbnow p) (pay_rows guc s)"
proof -
  have "filter (\<lambda>r. rls_visible guc (pr_tenant_id r))
          (map (\<lambda>r. if rls_visible guc (pr_tenant_id r) \<and> pr_id r = py_ID p then payment_update_row dbnow p r else r) t)
      = update_by pr_id (py_ID p) (payment_update_row dbnow p) (filter (\<lambda>r. rls_visible guc (pr_tenant_id r)) t)" for t
    by (induction t) (auto simp: update_by_def)
  then show ?thesis by (simp add: pay_rows_def UpdatePayment_def)
qed

lemma pay_rows_Create:
  "CreatePayment guc p s = Inr s' \<Longrightarrow>
     \<exists>t. rls_stamp guc = Some t \<and> pay_rows guc s' = pay_rows guc s @ [payment_to_row t p]
       \<and> py_ID p \<notin> pr_id ` set (pay_rows guc s)"
  by (auto simp: CreatePayment_def pay_rows_def rls_stamp_visible insert_unique_def image_iff
      split: option.splits if_splits)

lemma pay_Update_ids: "map pr_id (pa_records (UpdatePayment guc dbnow p s)) = map pr_id (pa_records s)"
  by (auto simp: UpdatePayment_def)

lemma pay_roundtrips:
  "paymentRowToDomain (payment_to_row t p) = pay_stored p"
  "paymentRowToDomain (payment_update_row dbnow p r) = pay_merge dbnow (paymentRowToDomain r) p"
  by (simp_all add: paymentRowToDomain_def payment_to_row_def payment_update_row_def pay_stored_def pay_merge_def)

interpretation pay_repo: repository payments_wf "GetPaymentByID guc" "CreatePayment guc" "UpdatePayment guc dbnow"
    py_ID pay_stored "pay_merge dbnow"
  for guc dbnow
proof
  fix k and s :: "'p payments" and a s' old e
  show "GetPaymentByID guc k s = Inr a \<Longrightarrow> py_ID a = k"
    by (auto simp: GetPaymentByID_def dest: select_by_Some)
  show "payments_wf s \<Longrightarrow> CreatePayment guc a s = Inr s' \<Longrightarrow> payments_wf s'"
    by (auto simp: payments_wf_def CreatePayment_def split: option.splits dest!: keys_insert)
  show "payments_wf s \<Longrightarrow> payments_wf (UpdatePayment guc dbnow a s)"
    by (simp add: payments_wf_def pay_Update_ids)
  show "CreatePayment guc a s = Inr s' \<Longrightarrow> GetPaymentByID guc (py_ID a) s' = Inr (pay_stored a)"
    by (fastforce simp: GetPaymentByID_def select_by_append select_by_Cons pay_roundtrips image_iff
        dest!: pay_rows_Create split: option.splits dest!: select_by_Some)
  show "CreatePayment guc a s = Inr s' \<Longrightarrow> k \<noteq> py_ID a \<Longrightarrow> GetPaymentByID guc k s' = GetPaymentByID guc k s"
    by (auto simp: GetPaymentByID_def select_by_append select_by_Cons dest!: pay_rows_Create split: option.splits)
  show "GetPaymentByID guc (py_ID a) s = Inr old \<Longrightarrow>
      GetPaymentByID guc (py_ID a) (UpdatePayment guc dbnow a s) = Inr (pay_merge dbnow old a)"
    by (auto simp: GetPaymentByID_def pay_rows_update select_update pay_roundtrips)
  show "k \<noteq> py_ID a \<Longrightarrow> GetPaymentByID guc k (UpdatePayment guc dbnow a s) = GetPaymentByID guc k s"
    by (simp add: GetPaymentByID_def pay_rows_update select_update)
  assume e: "GetPaymentByID guc (py_ID a) s = Inl e"
  then have "\<forall>r \<in> set (pa_records s). \<not> (rls_visible guc (pr_tenant_id r) \<and> pr_id r = py_ID a)"
    by (cases "select_by pr_id (py_ID a) (pay_rows guc s)")
       (auto simp: GetPaymentByID_def select_by_None pay_rows_def image_iff)
  then have "map (\<lambda>r. if rls_visible guc (pr_tenant_id r) \<and> pr_id r = py_ID a then payment_update_row dbnow a r else r)
      (pa_records s) = pa_records s" by (intro map_idI) auto
  then show "UpdatePayment guc dbnow a s = s" by (simp add: UpdatePayment_def)
qed

section \<open>The facade (facade.go)\<close>

text \<open>
  \<open>pe_pool\<close> is the scope of the pooled connection and \<open>pe_publisher\<close> says whether a publisher is
  configured. The hooks of the provider's plugin answer with an error text or a result, and may
  change the provider's state either way.
\<close>

record payment_env = tx_env +
  pe_pool :: string
  pe_publisher :: bool

record pay_charge_request =
  cq_InvoiceID :: string
  cq_Amount :: int64
  cq_Currency :: string
  cq_UserID :: string
  cq_UserEmail :: string
  cq_PlanName :: string
  cq_ReturnURL :: string
  cq_CancelURL :: string

record pay_charge_result =
  cs_Provider :: string
  cs_ExternalID :: string
  cs_CheckoutURL :: string
  cs_Status :: string

record verify_request =
  vr_Provider :: string
  vr_Headers :: "(string \<times> string) list"
  vr_Body :: string

definition VerifiedStatusSucceeded :: string where "VerifiedStatusSucceeded = ''succeeded''"

record verified_payment =
  vp_Provider :: string
  vp_ExternalID :: string
  vp_InvoiceID :: string
  vp_Amount :: int64
  vp_Currency :: string
  vp_Status :: string

record refund_request =
  fr_Provider :: string
  fr_ExternalID :: string
  fr_Amount :: int64
  fr_Reason :: string

record 'p payment_plugin =
  pp_createCharge :: "pay_charge_request \<Rightarrow> 'p \<Rightarrow> (string + pay_charge_result) \<times> 'p"
  pp_verifyWebhook :: "verify_request \<Rightarrow> 'p \<Rightarrow> (string + verified_payment) \<times> 'p"
  pp_refund :: "refund_request \<Rightarrow> 'p \<Rightarrow> (string + unit) \<times> 'p"

definition pay_call :: "payment_env \<Rightarrow> string \<Rightarrow> payment_error + 'a \<Rightarrow> payment_error + 'a" where
  "pay_call e l r = (if env_fault e l then Inl (ErrPaymentStorage l) else r)"

definition publishAggregateEvents ::
    "payment_env \<Rightarrow> payment_record \<Rightarrow> 'p payments \<Rightarrow> payment_error + (payment_record \<times> 'p payments)" where
  "publishAggregateEvents e src s =
     (if \<not> pe_publisher e then Inr (src, s)
      else PublishAll (\<lambda>es s. pay_call e ''publish events''
             (Inr (s\<lparr>pa_outbox := PublishBatch (env_trace e) es (pa_outbox s)\<rparr>))) src s)"

definition CreateCharge ::
    "'p payment_plugin \<Rightarrow> payment_env \<Rightarrow> pay_charge_request \<Rightarrow> 'p payments
     \<Rightarrow> (payment_error + pay_charge_result) \<times> 'p payments" where
  "CreateCharge pl e req s =
     (if cq_InvoiceID req = [] then (Inl ErrMissingInvoiceID, s)
      else if cq_Amount req \<le>s 0 then (Inl ErrMissingAmount, s)
      else if cq_Currency req = [] then (Inl ErrMissingCurrency, s)
      else case pp_createCharge pl req (pa_provider s) of
        (Inl msg, p) \<Rightarrow> (Inl (ErrPaymentFailed msg), s\<lparr>pa_provider := p\<rparr>)
      | (Inr result, p) \<Rightarrow>
          (let s1 = s\<lparr>pa_provider := p\<rparr> in
           if cs_Provider result = [] \<or> cs_ExternalID result = []
           then (Inl (ErrPaymentFailed ''plugin returned incomplete result''), s1)
           else case NewPaymentRecord (env_uuid e 0) (env_uuid e 1) (cq_InvoiceID req) (cs_Provider result)
                       (cs_ExternalID result) (cq_Amount req) (cq_Currency req) (env_now e) of
             Inl er \<Rightarrow> (Inl er, s1)
           | Inr r \<Rightarrow>
               (case pay_call e ''persist payment record'' (CreatePayment (pe_pool e) r s1) of
                  Inl er \<Rightarrow> (Inl er, s1)
                | Inr s2 \<Rightarrow>
                    (Inr result, case publishAggregateEvents e r s2 of Inl _ \<Rightarrow> s2 | Inr (_, s3) \<Rightarrow> s3))))"

definition VerifyWebhook ::
    "'p payment_plugin \<Rightarrow> payment_env \<Rightarrow> string \<Rightarrow> (string \<times> string) list \<Rightarrow> string \<Rightarrow> 'p payments
     \<Rightarrow> (payment_error + verified_payment) \<times> 'p payments" where
  "VerifyWebhook pl e provider headers body s =
     (if provider = [] then (Inl ErrInvalidProvider, s)
      else case pp_verifyWebhook pl \<lparr>vr_Provider = provider, vr_Headers = headers, vr_Body = body\<rparr> (pa_provider s) of
        (Inl msg, p) \<Rightarrow> (Inl (ErrVerificationFailed msg), s\<lparr>pa_provider := p\<rparr>)
      | (Inr v, p) \<Rightarrow>
          (Inr v,
           (let s1 = s\<lparr>pa_provider := p\<rparr> in
            if pe_publisher e \<and> \<not> env_fault e ''publish webhook event''
            then s1\<lparr>pa_outbox := PublishBatch (env_trace e)
                   [NewWebhookReceivedEvent (env_uuid e 0) provider (vp_ExternalID v) (vp_Status v) (env_now e)]
                   (pa_outbox s1)\<rparr>
            else s1)))"

text \<open>The body of a transaction that changes a payment: load, change, store, publish.\<close>

definition change_payment ::
    "payment_env \<Rightarrow> string \<Rightarrow> ('p payments \<Rightarrow> payment_error + payment_record)
     \<Rightarrow> (payment_record \<Rightarrow> payment_error + payment_record) \<Rightarrow> ('p payments, payment_error, payment_record) tx" where
  "change_payment e guc get f =
     tx_bind (tx_call ErrPaymentStorage e ''get payment'' (tx_read get)) (\<lambda>r.
     tx_bind (tx_lift (f r)) (\<lambda>r.
     tx_bind (tx_call ErrPaymentStorage e ''persist payment''
       (tx_write (\<lambda>s. Inr (UpdatePayment guc (env_dbnow e) r s)))) (\<lambda>_.
     (\<lambda>s. publishAggregateEvents e r s))))"

definition Refund ::
    "'p payment_plugin \<Rightarrow> payment_env \<Rightarrow> string \<Rightarrow> string \<Rightarrow> int64 \<Rightarrow> string \<Rightarrow> 'p payments
     \<Rightarrow> (payment_error + unit) \<times> 'p payments" where
  "Refund pl e ctx paymentID amount reason s =
     (case pay_call e ''get payment for refund'' (GetPaymentByID (pe_pool e) paymentID s) of
        Inl er \<Rightarrow> (Inl er, s)
      | Inr r \<Rightarrow>
          (case pp_refund pl \<lparr>fr_Provider = py_Provider r, fr_ExternalID = py_ExternalID r,
                              fr_Amount = amount, fr_Reason = reason\<rparr> (pa_provider s) of
             (Inl msg, p) \<Rightarrow> (Inl (ErrRefundFailed msg), s\<lparr>pa_provider := p\<rparr>)
           | (Inr _, p) \<Rightarrow>
               (let guc = tx_scope (pe_pool e) ctx in
                case RunInTx ErrPaymentStorage e
                       (change_payment e guc (GetPaymentByIDForUpdate guc paymentID)
                          (MarkRefunded (env_uuid e 0) amount (env_now e))) (s\<lparr>pa_provider := p\<rparr>) of
                  (Inl er, s') \<Rightarrow> (Inl er, s')
                | (Inr _, s') \<Rightarrow> (Inr (), s'))))"

text \<open>It runs under the platform sentinel, whatever context it is called with.\<close>

definition CompletePayment ::
    "payment_env \<Rightarrow> string \<Rightarrow> string \<Rightarrow> 'p payments \<Rightarrow> (payment_error + payment_record) \<times> 'p payments" where
  "CompletePayment e provider externalID s =
     (let guc = tx_scope (pe_pool e) PlatformScopeSentinel in
      RunInTx ErrPaymentStorage e
        (change_payment e guc (GetPaymentByExternalIDForUpdate guc provider externalID)
           (MarkCompleted (env_uuid e 2) (env_now e))) s)"

definition CheckIdempotency ::
    "payment_env \<Rightarrow> string \<Rightarrow> string \<Rightarrow> string \<Rightarrow> 'p payments \<Rightarrow> (payment_error + bool) \<times> 'p payments" where
  "CheckIdempotency e provider externalID rawBody s =
     (case pay_call e ''create webhook log''
             (CreateWebhookLog (NewWebhookLog (env_uuid e 1) provider externalID rawBody (env_now e)) s) of
        Inl er \<Rightarrow> (if er = ErrWebhookDuplicate then (Inr True, s) else (Inl er, s))
      | Inr s' \<Rightarrow> (Inr False, s'))"

text \<open>Both marks: load the entry, change it, write it back.\<close>

definition mark_webhook ::
    "payment_env \<Rightarrow> (webhook_log \<Rightarrow> webhook_log) \<Rightarrow> string \<Rightarrow> string \<Rightarrow> 'p payments
     \<Rightarrow> (payment_error + unit) \<times> 'p payments" where
  "mark_webhook e f provider externalID s =
     (case pay_call e ''get webhook log'' (GetWebhookLog provider externalID s) of
        Inl er \<Rightarrow> (Inl er, s)
      | Inr w \<Rightarrow>
          (if env_fault e ''update webhook log'' then (Inl (ErrPaymentStorage ''update webhook log''), s)
           else (Inr (), UpdateWebhookLog (f w) s)))"

definition MarkWebhookProcessed ::
    "payment_env \<Rightarrow> string \<Rightarrow> string \<Rightarrow> 'p payments \<Rightarrow> (payment_error + unit) \<times> 'p payments" where
  "MarkWebhookProcessed e = mark_webhook e (MarkProcessed (env_now e))"

definition MarkWebhookFailed ::
    "payment_env \<Rightarrow> string \<Rightarrow> string \<Rightarrow> 'p payments \<Rightarrow> (payment_error + unit) \<times> 'p payments" where
  "MarkWebhookFailed e = mark_webhook e (wl_MarkFailed (env_now e))"

section \<open>The webhook endpoint (payment_webhook_handler.go)\<close>

datatype webhook_response =
  WebhookInvalid | WebhookIgnored | WebhookErrored | WebhookDuplicated | WebhookOK

text \<open>The first value of every header that has one.\<close>

fun collect_headers :: "(string \<times> string list) list \<Rightarrow> (string \<times> string) list" where
  "collect_headers [] = []"
| "collect_headers ((k, vals) # hs) = (case vals of [] \<Rightarrow> collect_headers hs | v # _ \<Rightarrow> (k, v) # collect_headers hs)"

text \<open>\<open>body\<close> is what could be read of the request's body, \<open>None\<close> if reading failed.\<close>

definition HandlePaymentWebhook ::
    "'p payment_plugin \<Rightarrow> payment_env \<Rightarrow> string \<Rightarrow> (string \<times> string list) list \<Rightarrow> string option \<Rightarrow> 'p payments
     \<Rightarrow> webhook_response \<times> 'p payments" where
  "HandlePaymentWebhook pl e provider header body s =
     (if provider = [] then (WebhookInvalid, s)
      else case body of None \<Rightarrow> (WebhookInvalid, s) | Some raw \<Rightarrow>
        (case VerifyWebhook pl e provider (collect_headers header) raw s of
           (Inl _, s1) \<Rightarrow> (WebhookIgnored, s1)
         | (Inr v, s1) \<Rightarrow>
             (case CheckIdempotency e provider (vp_ExternalID v) raw s1 of
                (Inl _, s2) \<Rightarrow> (WebhookErrored, s2)
              | (Inr isDuplicate, s2) \<Rightarrow>
                  (if isDuplicate then (WebhookDuplicated, s2)
                   else if vp_Status v = VerifiedStatusSucceeded then
                     (case CompletePayment e provider (vp_ExternalID v) s2 of
                        (Inl _, s3) \<Rightarrow> (WebhookErrored, snd (MarkWebhookFailed e provider (vp_ExternalID v) s3))
                      | (Inr _, s3) \<Rightarrow> (WebhookOK, snd (MarkWebhookProcessed e provider (vp_ExternalID v) s3)))
                   else (WebhookOK, snd (MarkWebhookProcessed e provider (vp_ExternalID v) s2))))))"

end
