(* ===== verification/PaymentSpec.thy ===== *)
theory PaymentSpec
  imports PaymentFacade Money
begin

text \<open>
  What the payment context promises: its commands as one type with an interpreter, the invariant
  that ties the completed records to the events that announce them, and the properties of
  charges, webhooks and refunds.
\<close>

section \<open>Commands and histories\<close>

datatype payment_cmd =
  CmdCharge pay_charge_request
| CmdRefund string string int64 string
| CmdComplete string string
| CmdWebhook string "(string \<times> string list) list" "string option"

fun payment_exec :: "'p payment_plugin \<Rightarrow> payment_env \<Rightarrow> payment_cmd \<Rightarrow> 'p payments \<Rightarrow> 'p payments" where
  "payment_exec pl e (CmdCharge req) s = snd (CreateCharge pl e req s)"
| "payment_exec pl e (CmdRefund ctx i amount reason) s = snd (Refund pl e ctx i amount reason s)"
| "payment_exec pl e (CmdComplete provider externalID) s = snd (CompletePayment e provider externalID s)"
| "payment_exec pl e (CmdWebhook provider header body) s = snd (HandlePaymentWebhook pl e provider header body s)"

fun payment_run :: "'p payment_plugin \<Rightarrow> (payment_env \<times> payment_cmd) list \<Rightarrow> 'p payments \<Rightarrow> 'p payments" where
  "payment_run pl [] s = s"
| "payment_run pl ((e, c) # h) s = payment_run pl h (payment_exec pl e c s)"

section \<open>What one step does\<close>

text \<open>The events that announce the completion of a payment.\<close>

fun completes :: "string \<Rightarrow> payment_payload \<Rightarrow> bool" where
  "completes i (ChargeCompleted j _ _ _ _) \<longleftrightarrow> j = i"
| "completes i _ \<longleftrightarrow> False"

definition completions :: "string \<Rightarrow> payment_payload event list \<Rightarrow> nat" where
  "completions i es = length (filter (\<lambda>e. completes i (ev_Data e)) es)"

definition settled :: "string \<Rightarrow> 'p payments \<Rightarrow> bool" where
  "settled i s \<longleftrightarrow> (\<exists>r \<in> set (pa_records s). pr_id r = i \<and> pr_status r \<in> {PaymentCompleted, PaymentRefunded})"

definition payments_inv :: "'p payments \<Rightarrow> bool" where
  "payments_inv s \<longleftrightarrow> payments_wf s \<and> distinct (map wl_key (pa_webhooks s))
     \<and> (\<forall>i. completions i (pa_outbox s) = (if settled i s then 1 else 0))"

definition row_follows :: "payment_row \<Rightarrow> payment_row \<Rightarrow> bool" where
  "row_follows r r' \<longleftrightarrow> pr_id r' = pr_id r \<and> pr_invoice_id r' = pr_invoice_id r \<and> pr_provider r' = pr_provider r
     \<and> pr_external_id r' = pr_external_id r \<and> pr_amount r' = pr_amount r \<and> pr_currency r' = pr_currency r
     \<and> pr_tenant_id r' = pr_tenant_id r
     \<and> (pr_status r, pr_status r') \<in> {(x, y). y \<in> set (paymentTransitions x)}\<^sup>*"

definition pay_follows :: "'p payments \<Rightarrow> 'p payments \<Rightarrow> bool" where
  "pay_follows s s' \<longleftrightarrow> (payments_inv s \<longrightarrow> payments_inv s'
     \<and> (\<forall>r \<in> set (pa_records s). \<exists>r' \<in> set (pa_records s'). row_follows r r')
     \<and> (\<exists>es. pa_outbox s' = pa_outbox s @ es))"

lemma row_follows_refl [simp]: "row_follows r r"
  by (simp add: row_follows_def)

lemma row_follows_trans: "row_follows r q \<Longrightarrow> row_follows q p \<Longrightarrow> row_follows r p"
  by (auto simp: row_follows_def intro: rtrancl_trans)

lemma pay_follows_refl [simp]: "pay_follows s s"
  by (auto simp: pay_follows_def intro: row_follows_refl)

lemma pay_follows_trans [trans]: "pay_follows s t \<Longrightarrow> pay_follows t u \<Longrightarrow> pay_follows s u"
  unfolding pay_follows_def by (metis append_assoc row_follows_trans)

lemma completions_simps [simp]:
  "completions i [] = 0"
  "completions i (es @ fs) = completions i es + completions i fs"
  "completions i (e # es) = (if completes i (ev_Data e) then Suc (completions i es) else completions i es)"
  "completions i (map (with_trace t) es) = completions i es"
  by (simp_all add: completions_def filter_map o_def)

text \<open>A step that changes neither records nor log, and announces no completion.\<close>

lemma pay_follows_quiet:
  assumes "pa_records s' = pa_records s" "pa_webhooks s' = pa_webhooks s" "pa_outbox s' = pa_outbox s @ es"
    and "\<And>i. completions i es = 0"
  shows "pay_follows s s'"
  unfolding pay_follows_def payments_inv_def payments_wf_def settled_def
  using assms by (auto intro: row_follows_refl)

lemma publishAggregateEvents_ok:
  assumes "publishAggregateEvents e p s = Inr (p', s')"
  shows "pa_records s' = pa_records s \<and> pa_webhooks s' = pa_webhooks s \<and> pa_provider s' = pa_provider s
    \<and> pa_outbox s' = pa_outbox s @ (if pe_publisher e then map (with_trace (env_trace e)) (rec_events p) else [])"
  using assms
  by (auto simp: publishAggregateEvents_def pay_call_def PublishBatch_def dest!: PublishAll_ok split: if_splits)

text \<open>The transaction body changes the one record it loaded and publishes what the change recorded.\<close>

lemma change_payment_ok:
  assumes "change_payment e guc get f s = Inr (p', s')"
  shows "\<exists>p q. get s = Inr p \<and> f p = Inr q
    \<and> pa_records s' = pa_records (UpdatePayment guc (env_dbnow e) q s) \<and> pa_webhooks s' = pa_webhooks s
    \<and> pa_provider s' = pa_provider s
    \<and> pa_outbox s' = pa_outbox s @ (if pe_publisher e then map (with_trace (env_trace e)) (rec_events q) else [])"
  using assms
  by (auto simp: change_payment_def UpdatePayment_def dest!: publishAggregateEvents_ok)

lemma UpdatePayment_row:
  assumes "payments_wf s" "row \<in> set (pay_rows guc s)" "py_ID q = pr_id row"
  shows "pa_records (UpdatePayment guc t q s) = map (\<lambda>r. if r = row then payment_update_row t q r else r) (pa_records s)"
proof -
  have "pr_id r = pr_id row \<longleftrightarrow> r = row" if "r \<in> set (pa_records s)" for r
    using assms(1,2) that by (auto simp: payments_wf_def pay_rows_def distinct_map inj_on_def)
  then show ?thesis using assms(2,3) by (auto simp: UpdatePayment_def pay_rows_def)
qed

lemma change_follows:
  assumes inv: "payments_inv s" and row: "row \<in> set (pay_rows guc s)" and q: "py_ID q = pr_id row"
    and st: "(pr_status row, py_Status q) \<in> {(PaymentPending, PaymentCompleted), (PaymentCompleted, PaymentRefunded)}"
    and recs: "pa_records s' = pa_records (UpdatePayment guc t q s)" and wh: "pa_webhooks s' = pa_webhooks s"
    and out: "pa_outbox s' = pa_outbox s @ map (with_trace tr) es"
    and es: "\<And>i. completions i es = (if py_Status q = PaymentCompleted \<and> i = pr_id row then 1 else 0)"
  shows "pay_follows s s'"
proof -
  have wf: "payments_wf s" using inv by (simp add: payments_inv_def)
  let ?u = "\<lambda>r. if r = row then payment_update_row t q r else r"
  have recs': "pa_records s' = map ?u (pa_records s)" using recs UpdatePayment_row [OF wf row q] by simp
  have mem: "row \<in> set (pa_records s)" using row by (simp add: pay_rows_def)
  have uniq: "r = row" if "r \<in> set (pa_records s)" "pr_id r = pr_id row" for r
    using wf that mem by (auto simp: payments_wf_def distinct_map inj_on_def)
  have "map pr_id (pa_records s') = map pr_id (pa_records s)" by (auto simp: recs')
  then have "payments_wf s'" using wf by (simp add: payments_wf_def)
  moreover have set': "settled i s' \<longleftrightarrow> (if i = pr_id row then True else settled i s)" for i
    using st mem uniq by (auto simp: settled_def recs')
  have set: "settled (pr_id row) s \<longleftrightarrow> py_Status q \<noteq> PaymentCompleted"
    using st mem uniq unfolding settled_def by fastforce
  have "completions i (pa_outbox s') = (if settled i s' then 1 else 0)" for i
    using inv set by (simp add: out es set' payments_inv_def)
  ultimately have "payments_inv s'" using inv wh by (simp add: payments_inv_def)
  moreover have "row_follows r (?u r)" for r
    using st by (auto simp: row_follows_def intro!: r_into_rtrancl)
  then have "\<forall>r \<in> set (pa_records s). \<exists>r' \<in> set (pa_records s'). row_follows r r'"
    unfolding recs' set_map by blast
  ultimately show ?thesis using out by (auto simp: pay_follows_def)
qed

lemma select_visible: "GetPaymentByID guc i s = Inr p \<Longrightarrow> \<exists>row \<in> set (pay_rows guc s). p = paymentRowToDomain row"
  "GetPaymentByIDForUpdate guc i s = Inr p \<Longrightarrow> \<exists>row \<in> set (pay_rows guc s). p = paymentRowToDomain row"
  "GetPaymentByExternalIDForUpdate guc pr x s = Inr p \<Longrightarrow>
     \<exists>row \<in> set (pay_rows guc s). p = paymentRowToDomain row \<and> pr_provider row = pr \<and> pr_external_id row = x"
  by (auto simp: GetPaymentByID_def GetPaymentByIDForUpdate_def GetPaymentByExternalIDForUpdate_def dest: select_by_Some)

text \<open>With a publisher, both transactions of the facade are such changes.\<close>

lemma CompletePayment_follows:
  assumes "pe_publisher e"
  shows "pay_follows s (snd (CompletePayment e pr x s))"
proof (cases "payments_inv s")
  case True
  let ?guc = "tx_scope (pe_pool e) PlatformScopeSentinel"
  obtain r s' where run: "CompletePayment e pr x s = (r, s')" by force
  show ?thesis
  proof (cases r)
    case (Inl er)
    with run show ?thesis by (auto simp: CompletePayment_def Let_def dest: RunInTx_error)
  next
    case (Inr p')
    with run have "change_payment e ?guc (GetPaymentByExternalIDForUpdate ?guc pr x)
        (MarkCompleted (env_uuid e 2) (env_now e)) s = Inr (p', s')"
      by (simp add: CompletePayment_def Let_def RunInTx_ok_iff)
    from change_payment_ok [OF this] obtain p q where
      p: "GetPaymentByExternalIDForUpdate ?guc pr x s = Inr p" "MarkCompleted (env_uuid e 2) (env_now e) p = Inr q"
      and s': "pa_records s' = pa_records (UpdatePayment ?guc (env_dbnow e) q s)" "pa_webhooks s' = pa_webhooks s"
        "pa_outbox s' = pa_outbox s @ map (with_trace (env_trace e)) (rec_events q)"
      using assms by auto
    from select_visible(3) [OF p(1)] obtain row where row: "row \<in> set (pay_rows ?guc s)" "p = paymentRowToDomain row" by blast
    from p(2) have q: "py_ID q = pr_id row" "py_Status q = PaymentCompleted" "pr_status row = PaymentPending"
      "\<And>i. completions i (rec_events q) = (if i = pr_id row then 1 else 0)"
      by (cases "pr_status row"; auto simp: payment_op_defs row(2) split: if_splits)+
    have "pay_follows s s'" by (rule change_follows [OF True row(1) q(1) _ s']) (simp_all add: q)
    with run show ?thesis by simp
  qed
qed (simp add: pay_follows_def)

lemma Refund_tx_follows:
  assumes "pe_publisher e"
  shows "pay_follows s (snd (RunInTx ErrPaymentStorage e
    (change_payment e guc (GetPaymentByIDForUpdate guc i) (MarkRefunded u amount now)) s))"
    (is "pay_follows s (snd ?run)")
proof (cases "payments_inv s")
  case True
  obtain r s' where run: "?run = (r, s')" by force
  show ?thesis
  proof (cases r)
    case (Inl er)
    with run show ?thesis by (auto dest: RunInTx_error)
  next
    case (Inr p')
    with run have "change_payment e guc (GetPaymentByIDForUpdate guc i) (MarkRefunded u amount now) s = Inr (p', s')"
      by (simp add: RunInTx_ok_iff)
    from change_payment_ok [OF this] obtain p q where
      p: "GetPaymentByIDForUpdate guc i s = Inr p" "MarkRefunded u amount now p = Inr q"
      and s': "pa_records s' = pa_records (UpdatePayment guc (env_dbnow e) q s)" "pa_webhooks s' = pa_webhooks s"
        "pa_outbox s' = pa_outbox s @ map (with_trace (env_trace e)) (rec_events q)"
      using assms by auto
    from select_visible(2) [OF p(1)] obtain row where row: "row \<in> set (pay_rows guc s)" "p = paymentRowToDomain row" by blast
    from p(2) have q: "py_ID q = pr_id row" "py_Status q = PaymentRefunded" "pr_status row = PaymentCompleted"
      "\<And>i. completions i (rec_events q) = 0"
      by (cases "pr_status row"; auto simp: payment_op_defs row(2) split: if_splits)+
    have "pay_follows s s'" by (rule change_follows [OF True row(1) q(1) _ s']) (simp_all add: q)
    with run show ?thesis by simp
  qed
qed (simp add: pay_follows_def)

lemma CreateCharge_follows:
  assumes "pe_publisher e"
  shows "pay_follows s (snd (CreateCharge pl e req s))"
proof -
  have quiet: "pay_follows s (s\<lparr>pa_provider := p\<rparr>)" for p
    by (rule pay_follows_quiet [where es = "[]"]) simp_all
  have new: "pay_follows s (case publishAggregateEvents e r s2 of Inl _ \<Rightarrow> s2 | Inr (_, s3) \<Rightarrow> s3)"
    if N: "NewPaymentRecord pid eid inv_id pr x a c now = Inr r" and C: "CreatePayment guc r (s\<lparr>pa_provider := p\<rparr>) = Inr s2"
    for pid eid inv_id pr x a c now r guc p s2
  proof -
    have r: "py_Status r = PaymentPending" "completions i (rec_events r) = 0" for i
      using N by (auto simp: NewPaymentRecord_def RecordEvent_def split: if_splits)
    obtain t where t: "pa_records s2 = pa_records s @ [payment_to_row t r]" "py_ID r \<notin> pr_id ` set (pa_records s)"
      "pa_webhooks s2 = pa_webhooks s" "pa_outbox s2 = pa_outbox s"
      using C by (auto simp: CreatePayment_def insert_unique_def split: option.splits if_splits)
    have "settled i s2 = settled i s" for i
      using t(1) r(1) by (auto simp: settled_def payment_to_row_def)
    then have "pay_follows s s2"
      using t unfolding pay_follows_def payments_inv_def payments_wf_def by (auto intro: row_follows_refl)
    moreover have "pay_follows s2 s3" if "publishAggregateEvents e r s2 = Inr (r', s3)" for r' s3
      using publishAggregateEvents_ok [OF that] r(2)
      by (intro pay_follows_quiet [where es = "map (with_trace (env_trace e)) (rec_events r)"]) (simp_all add: assms)
    ultimately show ?thesis by (auto split: sum.split intro: pay_follows_trans)
  qed
  show ?thesis
    by (auto simp: CreateCharge_def pay_call_def Let_def quiet new split: sum.split prod.split)
qed

lemma VerifyWebhook_quiet:
  assumes "VerifyWebhook pl e pr hs raw s = (r, s')"
  shows "pa_records s' = pa_records s \<and> pa_webhooks s' = pa_webhooks s
    \<and> (\<exists>es. pa_outbox s' = pa_outbox s @ es \<and> (\<forall>i. completions i es = 0))"
  using assms
  by (auto simp: VerifyWebhook_def Let_def NewWebhookReceivedEvent_def PublishBatch_def
      split: sum.splits prod.splits if_splits intro: exI [of _ "[]"])

lemma CheckIdempotency_log:
  assumes "CheckIdempotency e pr x raw s = (r, s')"
  shows "pa_records s' = pa_records s \<and> pa_outbox s' = pa_outbox s \<and> pa_provider s' = pa_provider s
    \<and> (r = Inr False \<and> (pr, x) \<notin> wl_key ` set (pa_webhooks s)
         \<and> pa_webhooks s' = pa_webhooks s @ [NewWebhookLog (env_uuid e 1) pr x raw (env_now e)]
       \<or> r \<noteq> Inr False \<and> s' = s)"
  using assms
  by (auto simp: CheckIdempotency_def pay_call_def CreateWebhookLog_def insert_unique_def wl_key_def NewWebhookLog_def
      split: if_splits sum.splits)

lemma mark_webhook_log:
  "pa_records (snd (mark_webhook e f pr x s)) = pa_records s \<and> pa_outbox (snd (mark_webhook e f pr x s)) = pa_outbox s
   \<and> pa_provider (snd (mark_webhook e f pr x s)) = pa_provider s
   \<and> map wl_key (pa_webhooks (snd (mark_webhook e f pr x s))) = map wl_key (pa_webhooks s)"
  by (auto simp: mark_webhook_def UpdateWebhookLog_def update_by_def wl_key_def split: sum.split)

lemma log_follows:
  assumes "pa_records s' = pa_records s" "pa_outbox s' = pa_outbox s"
    and "distinct (map wl_key (pa_webhooks s)) \<Longrightarrow> distinct (map wl_key (pa_webhooks s'))"
  shows "pay_follows s s'"
  using assms unfolding pay_follows_def payments_inv_def payments_wf_def settled_def
  by (auto intro: row_follows_refl)

lemma Webhook_follows:
  assumes "pe_publisher e"
  shows "pay_follows s (snd (HandlePaymentWebhook pl e pr header body s))"
proof -
  have mark: "pay_follows t (snd (mark_webhook e f pr x t))" for f x and t :: "'a payments"
    using mark_webhook_log [of e f pr x t] by (intro log_follows) simp_all
  have verify: "pay_follows s t" if "VerifyWebhook pl e pr hs raw s = (r, t)" for hs raw r t
    using VerifyWebhook_quiet [OF that] by (blast intro: pay_follows_quiet)
  have check: "pay_follows t u" if "CheckIdempotency e pr x raw t = (r, u)" for x raw r and t u :: "'a payments"
    using CheckIdempotency_log [OF that]
    by (intro log_follows) (auto simp: wl_key_def NewWebhookLog_def image_iff)
  have complete: "pay_follows t u" if "CompletePayment e pr x t = (r, u)" for x r and t u :: "'a payments"
    using CompletePayment_follows [OF assms, of t pr x] that by simp
  show ?thesis
    unfolding HandlePaymentWebhook_def MarkWebhookFailed_def MarkWebhookProcessed_def
    by (auto split: option.split prod.split sum.split; meson pay_follows_trans mark verify check complete)
qed

lemma Refund_follows:
  assumes "pe_publisher e"
  shows "pay_follows s (snd (Refund pl e ctx i amount reason s))"
proof -
  have quiet: "pay_follows s (s\<lparr>pa_provider := p\<rparr>)" for p
    by (rule pay_follows_quiet [where es = "[]"]) simp_all
  have tx: "pay_follows s t" if "RunInTx ErrPaymentStorage e (change_payment e guc (GetPaymentByIDForUpdate guc i)
      (MarkRefunded u amount now)) (s\<lparr>pa_provider := p\<rparr>) = (r, t)" for guc u now p r t
    using pay_follows_trans [OF quiet Refund_tx_follows [OF assms, of "s\<lparr>pa_provider := p\<rparr>" guc i u amount now]] that by simp
  show ?thesis
    by (auto simp: Refund_def Let_def quiet split: sum.split prod.split intro: tx)
qed

lemma payment_exec_follows: "pe_publisher e \<Longrightarrow> pay_follows s (payment_exec pl e c s)"
  by (cases c) (simp_all add: CreateCharge_follows Refund_follows CompletePayment_follows Webhook_follows)

lemma payment_run_follows: "\<forall>(e, c) \<in> set h. pe_publisher e \<Longrightarrow> pay_follows s (payment_run pl h s)"
proof (induction h arbitrary: s)
  case (Cons x h)
  obtain e c where x: "x = (e, c)" by force
  with Cons have "pay_follows s (payment_exec pl e c s)" "pay_follows (payment_exec pl e c s) (payment_run pl h (payment_exec pl e c s))"
    by (auto simp: payment_exec_follows)
  then show ?case using x by (auto intro: pay_follows_trans)
qed simp

lemma select_map: "(\<And>r. key (g r) = key r) \<Longrightarrow> select_by key k (map g t) = map_option g (select_by key k t)"
  by (induction t) (simp_all add: select_by_Cons)

section \<open>Records whose webhook key is taken\<close>

definition row_key :: "payment_row \<Rightarrow> string \<times> string" where
  "row_key r = (pr_provider r, pr_external_id r)"

lemma CompletePayment_other:
  assumes wf: "payments_wf s" and row: "row \<in> set (pa_records s)" "row_key row \<noteq> (pr, x)"
  shows "row \<in> set (pa_records (snd (CompletePayment e pr x s))) \<and> payments_wf (snd (CompletePayment e pr x s))
    \<and> pa_webhooks (snd (CompletePayment e pr x s)) = pa_webhooks s"
proof -
  let ?guc = "tx_scope (pe_pool e) PlatformScopeSentinel"
  obtain r s' where run: "CompletePayment e pr x s = (r, s')" by force
  show ?thesis
  proof (cases r)
    case (Inl er)
    with run have "s' = s" by (auto simp: CompletePayment_def Let_def dest: RunInTx_error)
    with run assms show ?thesis by simp
  next
    case (Inr p')
    with run have "change_payment e ?guc (GetPaymentByExternalIDForUpdate ?guc pr x)
        (MarkCompleted (env_uuid e 2) (env_now e)) s = Inr (p', s')"
      by (simp add: CompletePayment_def Let_def RunInTx_ok_iff)
    from change_payment_ok [OF this] obtain p q where
      p: "GetPaymentByExternalIDForUpdate ?guc pr x s = Inr p" "MarkCompleted (env_uuid e 2) (env_now e) p = Inr q"
      and s': "pa_records s' = pa_records (UpdatePayment ?guc (env_dbnow e) q s)" "pa_webhooks s' = pa_webhooks s" by auto
    from select_visible(3) [OF p(1)] obtain other where
      o: "other \<in> set (pay_rows ?guc s)" "p = paymentRowToDomain other" "row_key other = (pr, x)" by (auto simp: row_key_def)
    from p(2) o(2) have "py_ID q = pr_id other" by (auto simp: payment_op_defs split: if_splits)
    from UpdatePayment_row [OF wf o(1) this] o(3) row have "row \<in> set (pa_records s')"
      by (auto simp: s' image_iff)
    moreover have "payments_wf s'" using wf by (simp add: payments_wf_def s' pay_Update_ids)
    ultimately show ?thesis using run s'(2) by simp
  qed
qed

text \<open>No webhook changes a record whose key is in the log, and none removes a key from it.\<close>

definition key_taken :: "payment_row \<Rightarrow> 'p payments \<Rightarrow> bool" where
  "key_taken row s \<longleftrightarrow> payments_wf s \<and> row \<in> set (pa_records s) \<and> row_key row \<in> set (map wl_key (pa_webhooks s))"

lemma mark_webhook_taken: "key_taken row s \<Longrightarrow> key_taken row (snd (mark_webhook e f pr x s))"
  using mark_webhook_log [of e f pr x s] by (simp add: key_taken_def payments_wf_def del: set_map)

lemma Webhook_taken:
  assumes "key_taken row s"
  shows "key_taken row (snd (HandlePaymentWebhook pl e pr header body s))"
proof -
  have verify: "key_taken row s1" if "VerifyWebhook pl e pr hs raw s = (r, s1)" for hs raw r s1
    using VerifyWebhook_quiet [OF that] assms by (simp add: key_taken_def payments_wf_def)
  have check: "key_taken row s2 \<and> (r = Inr False \<longrightarrow> row_key row \<noteq> (pr, x))"
    if "key_taken row s1" "CheckIdempotency e pr x raw s1 = (r, s2)" for s1 x raw r and s2 :: "'a payments"
    using CheckIdempotency_log [OF that(2)] that(1) by (auto simp: key_taken_def payments_wf_def)
  have complete: "key_taken row s3" if "key_taken row s2" "row_key row \<noteq> (pr, x)" "CompletePayment e pr x s2 = (r, s3)" for s2 x r s3
    using CompletePayment_other [of s2 row pr x e] that by (auto simp: key_taken_def)
  show ?thesis
    unfolding HandlePaymentWebhook_def MarkWebhookFailed_def MarkWebhookProcessed_def
    by (auto split: option.split prod.split sum.split simp: assms
        intro!: mark_webhook_taken; meson verify check complete)
qed

text \<open>A webhook keeps the identifiers of the records unique, and a verified one of a logged key is a duplicate.\<close>

lemma CompletePayment_wf:
  assumes "payments_wf s"
  shows "payments_wf (snd (CompletePayment e pr x s)) \<and> pa_webhooks (snd (CompletePayment e pr x s)) = pa_webhooks s"
proof -
  let ?guc = "tx_scope (pe_pool e) PlatformScopeSentinel"
  obtain r s' where run: "CompletePayment e pr x s = (r, s')" by force
  show ?thesis
  proof (cases r)
    case (Inl er)
    with run have "s' = s" by (auto simp: CompletePayment_def Let_def dest: RunInTx_error)
    with run assms show ?thesis by simp
  next
    case (Inr p')
    with run have "change_payment e ?guc (GetPaymentByExternalIDForUpdate ?guc pr x)
        (MarkCompleted (env_uuid e 2) (env_now e)) s = Inr (p', s')"
      by (simp add: CompletePayment_def Let_def RunInTx_ok_iff)
    from change_payment_ok [OF this] run assms show ?thesis
      by (auto simp: payments_wf_def pay_Update_ids)
  qed
qed

lemma logged_is_duplicate:
  assumes "(pr, vp_ExternalID v) \<in> wl_key ` set (pa_webhooks s)" "pr \<noteq> []" "\<not> env_fault e ''create webhook log''"
    and "pp_verifyWebhook pl \<lparr>vr_Provider = pr, vr_Headers = collect_headers header, vr_Body = raw\<rparr> (pa_provider s) = (Inr v, p)"
    and "HandlePaymentWebhook pl e pr header (Some raw) s = (res, s')"
  shows "res = WebhookDuplicated \<and> pa_records s' = pa_records s"
proof -
  obtain s1 where s1: "VerifyWebhook pl e pr (collect_headers header) raw s = (Inr v, s1)"
    using assms(2,4) by (auto simp: VerifyWebhook_def)
  note q = VerifyWebhook_quiet [OF s1]
  then have "CheckIdempotency e pr (vp_ExternalID v) raw s1 = (Inr True, s1)"
    using assms(1,3)
    by (auto simp: CheckIdempotency_def pay_call_def CreateWebhookLog_def insert_unique_def wl_key_def NewWebhookLog_def)
  with assms(2,5) s1 q show ?thesis by (auto simp: HandlePaymentWebhook_def)
qed

text \<open>A webhook that was answered OK, or that failed although the log could be written, is in the log.\<close>

lemma answered_is_logged:
  assumes wf: "payments_wf s" and run: "HandlePaymentWebhook pl e pr header (Some raw) s = (res, s')" and pr: "pr \<noteq> []"
    and v: "pp_verifyWebhook pl \<lparr>vr_Provider = pr, vr_Headers = collect_headers header, vr_Body = raw\<rparr> (pa_provider s) = (Inr v, p)"
    and res: "res = WebhookOK \<or> res = WebhookErrored \<and> \<not> env_fault e ''create webhook log''"
  shows "payments_wf s' \<and> (pr, vp_ExternalID v) \<in> wl_key ` set (pa_webhooks s')
    \<and> (vp_Status v \<noteq> VerifiedStatusSucceeded \<or> res = WebhookErrored \<longrightarrow> pa_records s' = pa_records s)"
proof -
  obtain s1 where s1: "VerifyWebhook pl e pr (collect_headers header) raw s = (Inr v, s1)"
    using pr v by (auto simp: VerifyWebhook_def)
  obtain r s2 where s2: "CheckIdempotency e pr (vp_ExternalID v) raw s1 = (r, s2)" by force
  have r: "r = Inr False"
  proof (cases r)
    case (Inl er)
    then have "env_fault e ''create webhook log''"
      using s2 by (auto simp: CheckIdempotency_def pay_call_def CreateWebhookLog_def insert_unique_def split: if_splits sum.splits)
    with Inl run res pr s1 s2 show ?thesis by (auto simp: HandlePaymentWebhook_def)
  next
    case (Inr d)
    with run res pr s1 s2 show ?thesis by (cases d) (auto simp: HandlePaymentWebhook_def)
  qed
  note l = VerifyWebhook_quiet [OF s1] CheckIdempotency_log [OF s2]
  have wf2: "payments_wf s2" using l wf by (simp add: payments_wf_def)
  have in2: "(pr, vp_ExternalID v) \<in> wl_key ` set (pa_webhooks s2)" using l r by (auto simp: wl_key_def NewWebhookLog_def)
  have mark: "pa_records (snd (mark_webhook e f pr x t)) = pa_records t"
    "wl_key ` set (pa_webhooks (snd (mark_webhook e f pr x t))) = wl_key ` set (pa_webhooks t)" for f x t
    using mark_webhook_log [of e f pr x t] by simp (metis list.set_map mark_webhook_log)
  obtain cr s3 where s3: "CompletePayment e pr (vp_ExternalID v) s2 = (cr, s3)" by force
  have c: "payments_wf s3" "pa_webhooks s3 = pa_webhooks s2" using CompletePayment_wf [OF wf2, of e pr "vp_ExternalID v"] s3 by simp_all
  have er: "s3 = s2" if "cr = Inl x" for x using s3 that by (auto simp: CompletePayment_def Let_def dest: RunInTx_error)
  show ?thesis
    using run pr s1 s2 r s3 c l wf2 in2 er
    by (cases cr) (auto simp: HandlePaymentWebhook_def MarkWebhookProcessed_def MarkWebhookFailed_def payments_wf_def mark
        split: if_splits)
qed

definition only_webhooks :: "(payment_env \<times> payment_cmd) list \<Rightarrow> bool" where
  "only_webhooks h \<longleftrightarrow> list_all (\<lambda>(e, c). case c of CmdWebhook _ _ _ \<Rightarrow> True | _ \<Rightarrow> False) h"

lemma webhooks_taken: "only_webhooks h \<Longrightarrow> key_taken row s \<Longrightarrow> key_taken row (payment_run pl h s)"
proof (induction h arbitrary: s)
  case (Cons x h)
  then obtain e pr header body where "x = (e, CmdWebhook pr header body)"
    by (cases x) (auto simp: only_webhooks_def split: payment_cmd.splits)
  with Cons show ?case by (auto simp: only_webhooks_def intro: Webhook_taken)
qed simp

section \<open>A sample provider\<close>

text \<open>It counts the calls that move money; a webhook body is the status it reports of charge \<open>x1\<close>.\<close>

definition sample_provider :: "nat payment_plugin" where
  "sample_provider =
     \<lparr>pp_createCharge = (\<lambda>req n. (Inr \<lparr>cs_Provider = ''stripe'', cs_ExternalID = ''x1'', cs_CheckoutURL = ''u'', cs_Status = ''pending''\<rparr>, Suc n)),
      pp_verifyWebhook = (\<lambda>req n. (Inr \<lparr>vp_Provider = ''stripe'', vp_ExternalID = ''x1'', vp_InvoiceID = ''i1'', vp_Amount = 1,
         vp_Currency = ''usd'', vp_Status = vr_Body req\<rparr>, n)),
      pp_refund = (\<lambda>req n. (Inr (), Suc n))\<rparr>"

definition sample_payment_env :: "string \<Rightarrow> nat \<Rightarrow> payment_env" where
  "sample_payment_env pool n = tx_env.extend \<lparr>env_now = int n, env_dbnow = int n, env_uuid = (\<lambda>k. dec n @ ''-'' @ dec k), env_trace = [],
     env_fault = (\<lambda>_. False)\<rparr> \<lparr>pe_pool = pool, pe_publisher = True\<rparr>"

definition sample_charge :: pay_charge_request where
  "sample_charge = \<lparr>cq_InvoiceID = ''i1'', cq_Amount = 999, cq_Currency = ''usd'', cq_UserID = ''u1'', cq_UserEmail = [],
     cq_PlanName = [], cq_ReturnURL = [], cq_CancelURL = []\<rparr>"

definition no_payments :: "nat payments" where
  "no_payments = \<lparr>pa_records = [], pa_webhooks = [], pa_outbox = [], pa_provider = 0\<rparr>"

definition charged :: "nat payments" where
  "charged = payment_exec sample_provider (sample_payment_env ''*'' 1) (CmdCharge sample_charge) no_payments"

definition webhook_body :: "string \<Rightarrow> payment_cmd" where
  "webhook_body status = CmdWebhook ''stripe'' [] (Some status)"

lemma no_payments_inv: "payments_inv no_payments"
  by (simp add: payments_inv_def payments_wf_def settled_def no_payments_def)

text \<open>Marking the entry that was appended last is seen when the entry is read again.\<close>

lemma mark_new_webhook:
  assumes "pa_webhooks s = ws @ [w]" "\<And>l. \<not> env_fault e l" "wl_key w = (pr, x)" "(pr, x) \<notin> wl_key ` set ws"
    and "wl_ID (f w) = wl_ID w" "wl_key (f w) = wl_key w" "wl_RawBody (f w) = wl_RawBody w" "wl_CreatedAt (f w) = wl_CreatedAt w"
  shows "GetWebhookLog pr x (snd (mark_webhook e f pr x s)) = Inr (f w)"
proof -
  let ?g = "\<lambda>r. r\<lparr>wl_Status := wl_Status (f w), wl_ProcessedAt := wl_ProcessedAt (f w)\<rparr>"
  have key: "wl_key (?g r) = wl_key r" for r by (simp add: wl_key_def)
  have none: "select_by wl_key (pr, x) ws = None" using assms(4) by (force simp: select_by_None)
  have "?g w = f w" using assms(5-8) by (auto simp: wl_key_def)
  moreover have "GetWebhookLog pr x s = Inr w"
    using none assms(1,3) by (simp add: GetWebhookLog_def select_by_append select_by_Cons)
  moreover have "select_by wl_key (pr, x) (update_by wl_ID i ?g (ws @ [w]))
      = map_option (\<lambda>r. if wl_ID r = i then ?g r else r) (select_by wl_key (pr, x) (ws @ [w]))" for i
    unfolding update_by_def by (rule select_map) (simp add: wl_key_def)
  ultimately show ?thesis
    using none assms(1,2,3,5)
    by (simp add: mark_webhook_def pay_call_def UpdateWebhookLog_def GetWebhookLog_def select_by_append select_by_Cons)
qed

section \<open>Properties\<close>

text \<open>
  C15. Payments through any history. Whatever charges, webhooks, completions and refunds are
  attempted, in any order and with any faults of the database and answers of the provider, as long
  as a publisher is configured: record identifiers and webhook keys stay unique; a record keeps its
  invoice, provider, amount, currency and tenant and only moves along the transition table; the
  outbox only grows; and it announces the completion of a payment exactly once if the record is
  completed or refunded, and never otherwise.
\<close>

theorem payments_history:
  assumes "payments_inv s" "\<forall>(e, c) \<in> set h. pe_publisher e"
  shows "payments_inv (payment_run pl h s)
    \<and> (\<forall>r \<in> set (pa_records s). \<exists>r' \<in> set (pa_records (payment_run pl h s)).
         pr_id r' = pr_id r \<and> pr_invoice_id r' = pr_invoice_id r \<and> pr_amount r' = pr_amount r
         \<and> pr_tenant_id r' = pr_tenant_id r
         \<and> (pr_status r, pr_status r') \<in> {(x, y). y \<in> set (paymentTransitions x)}\<^sup>*)
    \<and> (\<forall>i. completions i (pa_outbox (payment_run pl h s)) = (if settled i (payment_run pl h s) then 1 else 0))
    \<and> (\<exists>es. pa_outbox (payment_run pl h s) = pa_outbox s @ es)"
proof -
  from payment_run_follows [OF assms(2)] assms(1)
  have f: "payments_inv (payment_run pl h s)"
    "\<forall>r \<in> set (pa_records s). \<exists>r' \<in> set (pa_records (payment_run pl h s)). row_follows r r'"
    "\<exists>es. pa_outbox (payment_run pl h s) = pa_outbox s @ es" by (auto simp: pay_follows_def)
  then have "\<forall>r \<in> set (pa_records s). \<exists>r' \<in> set (pa_records (payment_run pl h s)).
         pr_id r' = pr_id r \<and> pr_invoice_id r' = pr_invoice_id r \<and> pr_amount r' = pr_amount r
         \<and> pr_tenant_id r' = pr_tenant_id r
         \<and> (pr_status r, pr_status r') \<in> {(x, y). y \<in> set (paymentTransitions x)}\<^sup>*"
    unfolding row_follows_def by blast
  moreover have "\<forall>i. completions i (pa_outbox (payment_run pl h s)) = (if settled i (payment_run pl h s) then 1 else 0)"
    using f(1) by (simp add: payments_inv_def)
  ultimately show ?thesis using f by blast
qed

theorem payments_history_witness:
  "completions ''1-0'' (pa_outbox (payment_run sample_provider
     [(sample_payment_env ''*'' 1, CmdCharge sample_charge), (sample_payment_env ''*'' 2, webhook_body ''succeeded''),
      (sample_payment_env ''*'' 3, webhook_body ''succeeded'')] no_payments)) = 1"
  (is "completions _ (pa_outbox (payment_run _ ?h _)) = 1")
proof -
  have "\<forall>(e, c) \<in> set ?h. pe_publisher e" by (simp add: sample_payment_env_def tx_env.defs)
  note payments_history [OF no_payments_inv this, of sample_provider]
  moreover have "settled ''1-0'' (payment_run sample_provider ?h no_payments)" by code_simp
  ultimately show ?thesis by simp
qed

text \<open>
  C16. What a success webhook does. When the provider confirms a charge whose record is pending, for
  the first time, and the database obeys: the endpoint answers OK, the record is completed under
  the platform's scope whatever tenant owns it, and the outbox gains one completion event, with the
  invoice and the amount of the record, whatever amount and invoice the provider reported; and the
  webhook's entry in the log is marked processed at the time of the request.
\<close>

theorem success_webhook_completes:
  assumes "\<And>l. \<not> env_fault e l" "pe_publisher e" "provider \<noteq> []"
    and v: "pp_verifyWebhook pl \<lparr>vr_Provider = provider, vr_Headers = collect_headers header, vr_Body = raw\<rparr> (pa_provider s) = (Inr v, p)"
    and "vp_Status v = VerifiedStatusSucceeded"
    and new: "(provider, vp_ExternalID v) \<notin> wl_key ` set (pa_webhooks s)" "env_uuid e 1 \<notin> wl_ID ` set (pa_webhooks s)"
    and r: "GetPaymentByExternalID PlatformScopeSentinel provider (vp_ExternalID v) s = Inr r" "py_Status r = PaymentPending"
    and run: "HandlePaymentWebhook pl e provider header (Some raw) s = (res, s')"
  shows "res = WebhookOK
    \<and> (\<exists>q. GetPaymentByExternalID PlatformScopeSentinel provider (vp_ExternalID v) s' = Inr q
         \<and> py_Status q = PaymentCompleted \<and> py_ID q = py_ID r)
    \<and> (\<exists>ev es. pa_outbox s' = pa_outbox s @ es @ [ev] \<and> (\<forall>x \<in> set es. ev_Type x = ''payment.webhook_received'')
         \<and> ev_Data ev = ChargeCompleted (py_ID r) (py_InvoiceID r) (vp_ExternalID v) provider (py_Amount r))
    \<and> (\<exists>w. GetWebhookLog provider (vp_ExternalID v) s' = Inr w \<and> wl_Status w = WebhookProcessed
         \<and> wl_ProcessedAt w = Some (env_now e))"
proof -
  let ?x = "vp_ExternalID v" and ?key = "\<lambda>r. (pr_provider r, pr_external_id r)"
  let ?w = "NewWebhookLog (env_uuid e 1) provider ?x raw (env_now e)"
  let ?ev0 = "with_trace (env_trace e) (NewWebhookReceivedEvent (env_uuid e 0) provider ?x (vp_Status v) (env_now e))"
  let ?s2 = "s\<lparr>pa_provider := p, pa_outbox := pa_outbox s @ [?ev0], pa_webhooks := pa_webhooks s @ [?w]\<rparr>"
  have verify: "VerifyWebhook pl e provider (collect_headers header) raw s =
      (Inr v, s\<lparr>pa_provider := p, pa_outbox := pa_outbox s @ [?ev0]\<rparr>)"
    using assms(1,2,3) v by (simp add: VerifyWebhook_def Let_def PublishBatch_def)
  have check: "CheckIdempotency e provider ?x raw (s\<lparr>pa_provider := p, pa_outbox := pa_outbox s @ [?ev0]\<rparr>) = (Inr False, ?s2)"
    using assms(1) new
    by (simp add: CheckIdempotency_def pay_call_def CreateWebhookLog_def insert_unique_def wl_key_def NewWebhookLog_def image_iff)
  let ?guc = "PlatformScopeSentinel"
  have guc: "tx_scope (pe_pool e) ?guc = ?guc" by (simp add: tx_scope_def PlatformScopeSentinel_def)
  have same: "pay_rows ?guc t = pa_records t" for t :: "'a payments" by (simp add: pay_rows_def)
  from r(1) obtain row where row: "select_by ?key (provider, ?x) (pa_records s) = Some row" "r = paymentRowToDomain row"
    by (auto simp: GetPaymentByExternalID_def same)
  define q where "q = py_record (env_uuid e 2) (ChargeCompleted (py_ID r) (py_InvoiceID r) (py_ExternalID r) (py_Provider r) (py_Amount r))
    (env_now e) (r\<lparr>py_Status := PaymentCompleted, py_UpdatedAt := env_now e\<rparr>)"
  have mark: "MarkCompleted (env_uuid e 2) (env_now e) r = Inr q"
    using r(2) by (simp add: MarkCompleted_def py_canTransitionTo_def q_def)
  let ?s3 = "(UpdatePayment ?guc (env_dbnow e) q ?s2)\<lparr>pa_outbox := pa_outbox ?s2 @ map (with_trace (env_trace e)) (rec_events q)\<rparr>"
  have evs: "rec_events q = [NewTyped payment_event_type (env_uuid e 2)
      (ChargeCompleted (py_ID r) (py_InvoiceID r) (py_ExternalID r) (py_Provider r) (py_Amount r)) (env_now e) (py_ID r)]"
    using row(2) by (simp add: q_def)
  have get: "GetPaymentByExternalIDForUpdate ?guc provider ?x ?s2 = Inr r"
    using row by (simp add: GetPaymentByExternalIDForUpdate_def same)
  have complete: "\<exists>q'. CompletePayment e provider ?x ?s2 = (Inr q', ?s3)"
    using assms(1,2) get mark evs
    by (simp add: CompletePayment_def Let_def guc change_payment_def tx_eval publishAggregateEvents_def PublishAll_def
        DomainEvents_def pay_call_def PublishBatch_def UpdatePayment_def)
  then obtain q' where q': "CompletePayment e provider ?x ?s2 = (Inr q', ?s3)" ..
  have res: "res = WebhookOK" and s': "s' = snd (MarkWebhookProcessed e provider ?x ?s3)"
    using run assms(3,5) verify check q' by (simp_all add: HandlePaymentWebhook_def)
  have recs: "pa_records s' = pa_records (UpdatePayment ?guc (env_dbnow e) q s)" and out: "pa_outbox s' = pa_outbox ?s3"
    unfolding s' MarkWebhookProcessed_def by (simp_all add: mark_webhook_log UpdatePayment_def)
  have upd: "select_by ?key (provider, ?x) (pa_records s') =
      Some (payment_update_row (env_dbnow e) q row)"
    using row by (simp add: recs UpdatePayment_def select_map q_def)
  have "GetPaymentByExternalID ?guc provider ?x s' = Inr (pay_merge (env_dbnow e) r q)"
    using upd row(2) by (simp add: GetPaymentByExternalID_def same pay_roundtrips)
  moreover have "py_Status (pay_merge (env_dbnow e) r q) = PaymentCompleted" "py_ID (pay_merge (env_dbnow e) r q) = py_ID r"
    by (simp_all add: pay_merge_def q_def)
  moreover from select_by_Some [OF row(1)] row(2) have "py_ExternalID r = ?x" "py_Provider r = provider"
    by (auto simp: paymentRowToDomain_def)
  with evs have "\<exists>ev es. pa_outbox s' = pa_outbox s @ es @ [ev] \<and> (\<forall>x \<in> set es. ev_Type x = ''payment.webhook_received'')
         \<and> ev_Data ev = ChargeCompleted (py_ID r) (py_InvoiceID r) ?x provider (py_Amount r)"
    unfolding out
    by (intro exI [of _ "with_trace (env_trace e) (hd (rec_events q))"] exI [of _ "[?ev0]"])
       (simp add: NewWebhookReceivedEvent_def UpdatePayment_def)
  moreover have "\<exists>w. GetWebhookLog provider ?x s' = Inr w \<and> wl_Status w = WebhookProcessed \<and> wl_ProcessedAt w = Some (env_now e)"
  proof -
    have "pa_webhooks ?s3 = pa_webhooks s @ [?w]" by (simp add: UpdatePayment_def)
    from mark_new_webhook [OF this, of e provider ?x "MarkProcessed (env_now e)"] assms(1) new(1)
    have "GetWebhookLog provider ?x s' = Inr (MarkProcessed (env_now e) ?w)"
      unfolding s' MarkWebhookProcessed_def by (simp add: MarkProcessed_def NewWebhookLog_def wl_key_def)
    then show ?thesis by (simp add: MarkProcessed_def)
  qed
  ultimately show ?thesis using res by blast
qed

lemma charged_inv: "payments_inv charged"
  using payment_exec_follows [of "sample_payment_env ''*'' 1" no_payments sample_provider "CmdCharge sample_charge"] no_payments_inv
  by (simp add: charged_def pay_follows_def sample_payment_env_def tx_env.defs)

theorem success_webhook_completes_witness:
  "\<exists>s' ev es. HandlePaymentWebhook sample_provider (sample_payment_env [] 2) ''stripe'' [] (Some ''succeeded'') charged = (WebhookOK, s')
     \<and> pa_outbox s' = pa_outbox charged @ es @ [ev] \<and> ev_Data ev = ChargeCompleted ''1-0'' ''i1'' ''x1'' ''stripe'' 999"
proof -
  let ?e = "sample_payment_env [] 2"
  obtain res s' where run: "HandlePaymentWebhook sample_provider ?e ''stripe'' [] (Some ''succeeded'') charged = (res, s')" by force
  obtain v where v: "pp_verifyWebhook sample_provider \<lparr>vr_Provider = ''stripe'', vr_Headers = collect_headers [], vr_Body = ''succeeded''\<rparr>
      (pa_provider charged) = (Inr v, 1)" "vp_Status v = VerifiedStatusSucceeded" "vp_ExternalID v = ''x1''"
  proof -
    have "pa_provider charged = 1" by code_simp
    then show thesis by (intro that [of "\<lparr>vp_Provider = ''stripe'', vp_ExternalID = ''x1'', vp_InvoiceID = ''i1'', vp_Amount = 1,
         vp_Currency = ''usd'', vp_Status = ''succeeded''\<rparr>"]) (simp_all add: sample_provider_def VerifiedStatusSucceeded_def)
  qed
  have "is_ok (GetPaymentByExternalID PlatformScopeSentinel ''stripe'' ''x1'' charged)" by code_simp
  then obtain r where r: "GetPaymentByExternalID PlatformScopeSentinel ''stripe'' ''x1'' charged = Inr r" by (auto simp: is_ok_iff)
  have "map_sum id py_Status (GetPaymentByExternalID PlatformScopeSentinel ''stripe'' ''x1'' charged) = Inr PaymentPending"
    "map_sum id py_ID (GetPaymentByExternalID PlatformScopeSentinel ''stripe'' ''x1'' charged) = Inr ''1-0''"
    "map_sum id py_InvoiceID (GetPaymentByExternalID PlatformScopeSentinel ''stripe'' ''x1'' charged) = Inr ''i1''"
    "map_sum id py_Amount (GetPaymentByExternalID PlatformScopeSentinel ''stripe'' ''x1'' charged) = Inr 999"
    by code_simp+
  with r have f: "py_Status r = PaymentPending" "py_ID r = ''1-0''" "py_InvoiceID r = ''i1''" "py_Amount r = 999" by simp_all
  have env: "\<not> env_fault ?e l" "pe_publisher ?e" for l by (simp_all add: sample_payment_env_def tx_env.defs)
  have "pa_webhooks charged = []" by code_simp
  with success_webhook_completes [OF env _ v(1,2) _ _ _ f(1) run] r v(3) run f
  show ?thesis by fastforce
qed

text \<open>
  C17. The first webhook decides. When a verified webhook of a recorded payment was answered OK, or failed
  after it was logged, then, whatever webhooks arrive in between, every further verified webhook of the
  same provider and external identifier whose log insert the database answers is answered as a
  duplicate, and the record stays exactly as the first one left it. A first webhook whose status is not
  success (a charge that is still processing, say), or whose processing failed, leaves it as it was: the
  payment is then completed by no later webhook, although its provider reports success.
\<close>

theorem first_webhook_decides:
  assumes "payments_wf s" and first: "HandlePaymentWebhook pl e provider header (Some raw) s = (res, s1)" "provider \<noteq> []"
      "res = WebhookOK \<or> res = WebhookErrored \<and> \<not> env_fault e ''create webhook log''"
    and v: "pp_verifyWebhook pl \<lparr>vr_Provider = provider, vr_Headers = collect_headers header, vr_Body = raw\<rparr> (pa_provider s) = (Inr v, p)"
    and row: "row \<in> set (pa_records s1)" "row_key row = (provider, vp_ExternalID v)"
    and "only_webhooks h" and s2: "s2 = payment_run pl h s1"
    and later: "pp_verifyWebhook pl \<lparr>vr_Provider = provider, vr_Headers = collect_headers header', vr_Body = raw'\<rparr> (pa_provider s2) = (Inr v', p')"
      "vp_ExternalID v' = vp_ExternalID v" "\<not> env_fault e' ''create webhook log''"
      "HandlePaymentWebhook pl e' provider header' (Some raw') s2 = (res', s3)"
  shows "res' = WebhookDuplicated \<and> pa_records s3 = pa_records s2 \<and> row \<in> set (pa_records s2)
    \<and> (vp_Status v \<noteq> VerifiedStatusSucceeded \<or> res = WebhookErrored \<longrightarrow> row \<in> set (pa_records s))"
proof -
  note l = answered_is_logged [OF assms(1) first(1,2) v first(3)]
  with row have "key_taken row s1" by (simp add: key_taken_def)
  from webhooks_taken [OF assms(8) this] have k: "key_taken row s2" using s2 by simp
  then have "(provider, vp_ExternalID v') \<in> wl_key ` set (pa_webhooks s2)" using row(2) later(2) by (simp add: key_taken_def)
  from logged_is_duplicate [OF this first(2) later(3,1,4)] k l row(1) show ?thesis by (auto simp: key_taken_def)
qed

theorem first_webhook_decides_witness:
  "\<exists>row s1 s3. pr_status row = PaymentPending \<and> row \<in> set (pa_records charged)
     \<and> HandlePaymentWebhook sample_provider (sample_payment_env [] 2) ''stripe'' [] (Some ''processing'') charged = (WebhookOK, s1)
     \<and> HandlePaymentWebhook sample_provider (sample_payment_env [] 4) ''stripe'' [] (Some ''succeeded'')
         (payment_run sample_provider [(sample_payment_env [] 3, webhook_body ''succeeded'')] s1) = (WebhookDuplicated, s3)
     \<and> pa_records s3 = pa_records (payment_run sample_provider [(sample_payment_env [] 3, webhook_body ''succeeded'')] s1)
     \<and> row \<in> set (pa_records s3)"
proof -
  let ?row = "hd (pa_records charged)" and ?e = "sample_payment_env [] 2"
  let ?h = "[(sample_payment_env [] 3, webhook_body ''succeeded'')]"
  have f: "fst (HandlePaymentWebhook sample_provider ?e ''stripe'' [] (Some ''processing'') charged) = WebhookOK"
    "?row \<in> set (pa_records (snd (HandlePaymentWebhook sample_provider ?e ''stripe'' [] (Some ''processing'') charged)))" by code_simp+
  then obtain s1 where s1: "HandlePaymentWebhook sample_provider ?e ''stripe'' [] (Some ''processing'') charged = (WebhookOK, s1)"
    by (metis surj_pair fst_conv)
  let ?s2 = "payment_run sample_provider ?h s1"
  obtain res' s3 where s3: "HandlePaymentWebhook sample_provider (sample_payment_env [] 4) ''stripe'' [] (Some ''succeeded'') ?s2 = (res', s3)"
    by force
  let ?v = "\<lambda>st. \<lparr>vp_Provider = ''stripe'', vp_ExternalID = ''x1'', vp_InvoiceID = ''i1'', vp_Amount = 1, vp_Currency = ''usd'',
    vp_Status = st\<rparr>"
  have row: "?row \<in> set (pa_records s1)" "row_key ?row = (''stripe'', vp_ExternalID (?v ''processing''))"
    "pr_status ?row = PaymentPending" "?row \<in> set (pa_records charged)"
    using f(2) s1 by simp code_simp+
  have "payments_wf charged" using charged_inv by (simp add: payments_inv_def)
  note first_webhook_decides [OF this s1 _ _ _ row(1,2) _ refl _ _ _ s3, of "pa_provider charged" "?v ''succeeded''" "pa_provider ?s2"]
  then have "res' = WebhookDuplicated \<and> pa_records s3 = pa_records ?s2 \<and> ?row \<in> set (pa_records ?s2)"
    by (simp add: sample_provider_def only_webhooks_def webhook_body_def sample_payment_env_def tx_env.defs)
  with s1 s3 row(3,4) show ?thesis by metis
qed

text \<open>
  Refunds reach the provider before anything is checked. When the record is not completed (it
  is pending, or was refunded before), the provider is told to refund all the same; only then the
  refund fails, and nothing of it is recorded.
\<close>

theorem refund_reaches_provider_first:
  assumes "\<And>l. \<not> env_fault e l" "ctx = [] \<or> ctx = pe_pool e"
    and "GetPaymentByID (pe_pool e) i s = Inr r" "py_Status r \<noteq> PaymentCompleted"
    and "pp_refund pl \<lparr>fr_Provider = py_Provider r, fr_ExternalID = py_ExternalID r, fr_Amount = amount, fr_Reason = reason\<rparr>
           (pa_provider s) = (Inr (), p)"
  shows "Refund pl e ctx i amount reason s = (Inl ErrInvalidPaymentState, s\<lparr>pa_provider := p\<rparr>)"
proof -
  have "tx_scope (pe_pool e) ctx = pe_pool e" using assms(2) by (auto simp: tx_scope_def)
  moreover have "GetPaymentByIDForUpdate (pe_pool e) i (s\<lparr>pa_provider := p\<rparr>) = Inr r"
    using assms(3) by (simp add: GetPaymentByID_def GetPaymentByIDForUpdate_def pay_rows_def)
  moreover have "MarkRefunded u amount now r = Inl ErrInvalidPaymentState" for u now
    using assms(4) by (cases "py_Status r") (simp_all add: payment_op_defs)
  ultimately show ?thesis
    using assms(1,3,5) by (simp add: Refund_def pay_call_def Let_def change_payment_def tx_eval)
qed

theorem refund_reaches_provider_first_witness:
  "\<exists>er s'. Refund sample_provider (sample_payment_env ''*'' 2) [] ''1-0'' 999 ''why'' charged = (Inl er, s') \<and> pa_provider s' = Suc (pa_provider charged)"
proof -
  have "is_ok (GetPaymentByID ''*'' ''1-0'' charged)" by code_simp
  then obtain r where r: "GetPaymentByID ''*'' ''1-0'' charged = Inr r" by (auto simp: is_ok_iff)
  have "map_sum id py_Status (GetPaymentByID ''*'' ''1-0'' charged) = Inr PaymentPending" by code_simp
  with r have st: "py_Status r \<noteq> PaymentCompleted" by simp
  have env: "\<not> env_fault (sample_payment_env ''*'' 2) l" "pe_pool (sample_payment_env ''*'' 2) = ''*''" for l
    by (simp_all add: sample_payment_env_def tx_env.defs)
  from refund_reaches_provider_first [OF env(1), of "[]" "''1-0''" charged r sample_provider 999 "''why''" "Suc (pa_provider charged)"] r st
  show ?thesis by (simp add: env(2) sample_provider_def)
qed

text \<open>
  Charges without a scope are lost. A charge is recorded outside a transaction; on a pool
  without a scope the insert is refused, so that every charge ends in an error and leaves no record,
  also when the provider has accepted it: its webhook will find nothing to complete.
\<close>

theorem unscoped_charge_is_lost:
  assumes "pe_pool e = []"
  shows "\<exists>er s'. CreateCharge pl e req s = (Inl er, s') \<and> pa_records s' = pa_records s \<and> pa_outbox s' = pa_outbox s
    \<and> (cq_InvoiceID req \<noteq> [] \<and> 0 <s cq_Amount req \<and> cq_Currency req \<noteq> [] \<longrightarrow>
         pa_provider s' = snd (pp_createCharge pl req (pa_provider s)))"
proof -
  have "\<not> cq_Amount req \<le>s 0 \<longleftrightarrow> 0 <s cq_Amount req" by (auto simp: word_sless_alt word_sle_eq)
  then show ?thesis
    using assms by (auto simp: CreateCharge_def pay_call_def CreatePayment_def Let_def split: sum.split prod.split)
qed

theorem unscoped_charge_is_lost_witness:
  "\<exists>er s'. CreateCharge sample_provider (sample_payment_env [] 1) sample_charge no_payments = (Inl er, s')
     \<and> pa_records s' = [] \<and> pa_provider s' = 1"
proof -
  have "cq_InvoiceID sample_charge \<noteq> [] \<and> 0 <s cq_Amount sample_charge \<and> cq_Currency sample_charge \<noteq> []" by code_simp
  moreover have "pe_pool (sample_payment_env [] 1) = []" by (simp add: sample_payment_env_def tx_env.defs)
  from unscoped_charge_is_lost [OF this, of sample_provider sample_charge no_payments] calculation
  show ?thesis by (simp add: sample_provider_def no_payments_def) blast
qed

end
