(* ===== verification/Wire.thy ===== *)
theory Wire
  imports Payment Binding BillingVO
begin

text \<open>
  Events on the wire: the JSON of the payloads (\<open>billing/aggregate/event_types.go\<close>,
  \<open>payment/event_payloads.go\<close>, \<open>multisub/event_payloads.go\<close>), \<open>UnmarshalPayload\<close>, and the
  schema registry that upcasts old payloads (\<open>pkg/domainevent/schema.go\<close>,
  \<open>billing/aggregate/upcasters.go\<close>). An event that came over NATS is an \<open>event\<close> whose data is a
  JSON value. Lemmas: a validated registry lifts an event to the latest version, once.
\<close>

section \<open>JSON values\<close>

text \<open>
  \<open>JInt\<close> is an integer that float64 holds exactly, up to \<open>2^53\<close>; \<open>JNum\<close> is any other number.
  Keys of an object are distinct and compared exactly.
\<close>

datatype json =
  JNull | JBool bool | JInt int | JNum string | JStr string | JArr "json list" | JObj "(string \<times> json) list"

type_synonym fields = "(string \<times> json) list"
type_synonym wire_event = "json event"

text \<open>A string field with \<open>omitempty\<close>.\<close>

definition omitempty :: "string \<Rightarrow> string \<Rightarrow> fields" where
  "omitempty k s = (if s = [] then [] else [(k, JStr s)])"

definition JInt64 :: "int64 \<Rightarrow> json" where "JInt64 n = JInt (sint n)"

section \<open>Decoding into a struct\<close>

datatype wire_error =
  UnmarshalError string

text \<open>
  A field of a struct: an absent or null field keeps its zero value, a value of another type is an
  error.
\<close>

definition str_field :: "string \<Rightarrow> fields \<Rightarrow> wire_error + string" where
  "str_field k fs =
     (case map_of fs k of
        None \<Rightarrow> Inr [] | Some JNull \<Rightarrow> Inr [] | Some (JStr s) \<Rightarrow> Inr s | Some _ \<Rightarrow> Inl (UnmarshalError k))"

definition int_field :: "string \<Rightarrow> fields \<Rightarrow> wire_error + int64" where
  "int_field k fs =
     (case map_of fs k of
        None \<Rightarrow> Inr 0 | Some JNull \<Rightarrow> Inr 0 | Some (JInt n) \<Rightarrow> Inr (word_of_int n) | Some _ \<Rightarrow> Inl (UnmarshalError k))"

text \<open>
  \<open>UnmarshalPayload\<close>: the data is marshalled again and read into the struct with the decoder \<open>d\<close>;
  absent data is \<open>null\<close>, which reads as the struct's zero value.
\<close>

definition UnmarshalPayload :: "(fields \<Rightarrow> wire_error + 'a) \<Rightarrow> wire_event \<Rightarrow> wire_error + 'a" where
  "UnmarshalPayload d e =
     (case ev_Data e of
        JObj fs \<Rightarrow> d fs | JNull \<Rightarrow> d [] | _ \<Rightarrow> Inl (UnmarshalError (ev_Type e)))"

text \<open>The decoders of the payloads that a consumer reads.\<close>

record traffic_payload =
  tp_BindingID :: string
  tp_SubscriptionID :: string
  tp_UsedBytes :: int64
  tp_LimitBytes :: int64

record traffic_warning_payload = traffic_payload +
  tp_ThresholdPct :: int64

definition subscriptionIDPayload :: "fields \<Rightarrow> wire_error + string" where
  "subscriptionIDPayload fs = str_field ''subscription_id'' fs"

definition decode_SubActivated :: "fields \<Rightarrow> wire_error + string \<times> string" where
  "decode_SubActivated fs =
     rbind (str_field ''subscription_id'' fs) (\<lambda>s. rbind (str_field ''user_id'' fs) (\<lambda>u. Inr (s, u)))"

definition decode_ChargeCompleted :: "fields \<Rightarrow> wire_error + payment_payload" where
  "decode_ChargeCompleted fs =
     rbind (str_field ''payment_id'' fs) (\<lambda>p. rbind (str_field ''invoice_id'' fs) (\<lambda>i.
     rbind (str_field ''external_id'' fs) (\<lambda>x. rbind (str_field ''provider'' fs) (\<lambda>v.
     rbind (int_field ''amount'' fs) (\<lambda>a. Inr (ChargeCompleted p i x v a))))))"

definition decode_traffic :: "fields \<Rightarrow> wire_error + traffic_payload" where
  "decode_traffic fs =
     rbind (str_field ''binding_id'' fs) (\<lambda>b. rbind (str_field ''subscription_id'' fs) (\<lambda>s.
     rbind (int_field ''used_bytes'' fs) (\<lambda>u. rbind (int_field ''limit_bytes'' fs) (\<lambda>l.
     Inr \<lparr>tp_BindingID = b, tp_SubscriptionID = s, tp_UsedBytes = u, tp_LimitBytes = l\<rparr>))))"

definition decode_trafficWarning :: "fields \<Rightarrow> wire_error + traffic_warning_payload" where
  "decode_trafficWarning fs =
     rbind (decode_traffic fs) (\<lambda>t. rbind (int_field ''threshold_pct'' fs) (\<lambda>p.
     Inr (traffic_payload.extend t \<lparr>tp_ThresholdPct = p\<rparr>)))"

definition decode_BindingWebhook :: "fields \<Rightarrow> wire_error + string \<times> string \<times> string" where
  "decode_BindingWebhook fs =
     rbind (str_field ''binding_id'' fs) (\<lambda>b. rbind (str_field ''subscription_id'' fs) (\<lambda>s.
     rbind (str_field ''remnawave_uuid'' fs) (\<lambda>r. Inr (b, s, r))))"

section \<open>Encoding a payload\<close>

fun billing_json :: "billing_payload \<Rightarrow> json" where
  "billing_json (SubCreated s u p) = JObj [(''subscription_id'', JStr s), (''user_id'', JStr u), (''plan_id'', JStr p)]"
| "billing_json (SubActivated s u) = JObj [(''subscription_id'', JStr s), (''user_id'', JStr u)]"
| "billing_json (SubCancelled s u r) = JObj ([(''subscription_id'', JStr s), (''user_id'', JStr u)] @ omitempty ''reason'' r)"
| "billing_json (SubRenewed s u) = JObj [(''subscription_id'', JStr s), (''user_id'', JStr u)]"
| "billing_json (SubPaused s u) = JObj [(''subscription_id'', JStr s), (''user_id'', JStr u)]"
| "billing_json (SubResumed s u) = JObj [(''subscription_id'', JStr s), (''user_id'', JStr u)]"
| "billing_json (SubExpired s u) = JObj [(''subscription_id'', JStr s), (''user_id'', JStr u)]"
| "billing_json (SubPastDue s u) = JObj [(''subscription_id'', JStr s), (''user_id'', JStr u)]"
| "billing_json (SubUpgraded s u f t) = JObj [(''subscription_id'', JStr s), (''user_id'', JStr u),
     (''from_plan_id'', JStr f), (''to_plan_id'', JStr t)]"
| "billing_json (SubDowngraded s u f t) = JObj [(''subscription_id'', JStr s), (''user_id'', JStr u),
     (''from_plan_id'', JStr f), (''to_plan_id'', JStr t)]"
| "billing_json (SubTrialStarted s u p) = JObj [(''subscription_id'', JStr s), (''user_id'', JStr u), (''plan_id'', JStr p)]"
| "billing_json (SubTrialEnding s u d) = JObj [(''subscription_id'', JStr s), (''user_id'', JStr u), (''days_remaining'', JInt d)]"
| "billing_json (SubUpdated s u) = JObj [(''subscription_id'', JStr s), (''user_id'', JStr u)]"
| "billing_json (InvCreated i s u a) = JObj [(''invoice_id'', JStr i), (''subscription_id'', JStr s), (''user_id'', JStr u),
     (''amount_cents'', JInt64 a)]"
| "billing_json (InvPaid i s u a) = JObj [(''invoice_id'', JStr i), (''subscription_id'', JStr s), (''user_id'', JStr u),
     (''amount_cents'', JInt64 a)]"
| "billing_json (InvFailed i s u r) = JObj [(''invoice_id'', JStr i), (''subscription_id'', JStr s), (''user_id'', JStr u),
     (''reason'', JStr r)]"
| "billing_json (InvRefunded i s u a) = JObj [(''invoice_id'', JStr i), (''subscription_id'', JStr s), (''user_id'', JStr u),
     (''amount_cents'', JInt64 a)]"
| "billing_json (InvDiscountApplied i c a) = JObj [(''invoice_id'', JStr i), (''discount_code'', JStr c), (''discount_amount'', JInt64 a)]"
| "billing_json (InvTotalOverridden i a b r) = JObj [(''invoice_id'', JStr i), (''old_amount'', JInt64 a), (''new_amount'', JInt64 b),
     (''reason'', JStr r)]"
| "billing_json (FamilyCreated f w m) = JObj [(''family_group_id'', JStr f), (''owner_id'', JStr w), (''max_members'', JInt m)]"
| "billing_json (FamilyMemberAdded f w m) = JObj [(''family_group_id'', JStr f), (''owner_id'', JStr w), (''member_id'', JStr m)]"
| "billing_json (FamilyMemberRemoved f w m) = JObj [(''family_group_id'', JStr f), (''owner_id'', JStr w), (''member_id'', JStr m)]"
| "billing_json (PlanCreated p n t) = JObj [(''plan_id'', JStr p), (''name'', JStr n), (''tier'', JStr t)]"
| "billing_json (PlanUpdated p n) = JObj [(''plan_id'', JStr p), (''name'', JStr n)]"
| "billing_json (PlanDeactivated p) = JObj [(''plan_id'', JStr p)]"

fun payment_json :: "payment_payload \<Rightarrow> json" where
  "payment_json (ChargeCreated p i v x a) = JObj [(''payment_id'', JStr p), (''invoice_id'', JStr i), (''provider'', JStr v),
     (''external_id'', JStr x), (''amount'', JInt64 a)]"
| "payment_json (ChargeCompleted p i x v a) = JObj [(''payment_id'', JStr p), (''invoice_id'', JStr i), (''external_id'', JStr x),
     (''provider'', JStr v), (''amount'', JInt64 a)]"
| "payment_json (ChargeFailed p i v r) = JObj [(''payment_id'', JStr p), (''invoice_id'', JStr i), (''provider'', JStr v), (''reason'', JStr r)]"
| "payment_json (RefundCompleted p i v a) = JObj [(''payment_id'', JStr p), (''invoice_id'', JStr i), (''provider'', JStr v), (''amount'', JInt64 a)]"
| "payment_json (WebhookReceived v x st) = JObj [(''provider'', JStr v), (''external_id'', JStr x), (''status'', JStr st)]"

fun binding_json :: "binding_payload \<Rightarrow> json" where
  "binding_json (BindingCreated b s p) = JObj [(''binding_id'', JStr b), (''subscription_id'', JStr s), (''purpose'', JStr p)]"
| "binding_json (BindingProvisioned b s r h) = JObj [(''binding_id'', JStr b), (''subscription_id'', JStr s), (''remnawave_uuid'', JStr r),
     (''short_uuid'', JStr h)]"
| "binding_json (BindingDeprovisionedEv b s r) = JObj [(''binding_id'', JStr b), (''subscription_id'', JStr s), (''remnawave_uuid'', JStr r)]"
| "binding_json (BindingFailedEv b s r) = JObj [(''binding_id'', JStr b), (''subscription_id'', JStr s), (''reason'', JStr r)]"
| "binding_json (BindingDisabledEv b s) = JObj [(''binding_id'', JStr b), (''subscription_id'', JStr s)]"
| "binding_json (BindingEnabledEv b s) = JObj [(''binding_id'', JStr b), (''subscription_id'', JStr s)]"
| "binding_json (BindingLimitedEv b s r w) = JObj [(''binding_id'', JStr b), (''subscription_id'', JStr s), (''remnawave_uuid'', JStr r),
     (''reason'', JStr w)]"
| "binding_json (BindingUnlimitedEv b s r) = JObj [(''binding_id'', JStr b), (''subscription_id'', JStr s), (''remnawave_uuid'', JStr r)]"
| "binding_json (BindingSyncFailed b s r) = JObj [(''binding_id'', JStr b), (''subscription_id'', JStr s), (''reason'', JStr r)]"
| "binding_json (BindingSyncCompleted b s) = JObj [(''binding_id'', JStr b), (''subscription_id'', JStr s)]"
| "binding_json (BindingWebhook t b s r) = JObj [(''binding_id'', JStr b), (''subscription_id'', JStr s), (''remnawave_uuid'', JStr r)]"

text \<open>An event of the outbox as it arrives: the envelope is the same, the data is JSON.\<close>

definition to_wire :: "('d \<Rightarrow> json) \<Rightarrow> 'd event \<Rightarrow> wire_event" where
  "to_wire enc e =
     \<lparr>ev_ID = ev_ID e, ev_Type = ev_Type e, ev_Version = ev_Version e, ev_Timestamp = ev_Timestamp e,
      ev_Data = enc (ev_Data e), ev_EntityID = ev_EntityID e, ev_TraceParent = ev_TraceParent e\<rparr>"

section \<open>The schema registry (schema.go)\<close>

text \<open>
  An upcaster is the version it reads and its transformation of the data. A registry gives for
  each event type its upcasters, sorted by that version. \<open>Register\<close> panics on a second upcaster
  for a version, which is \<open>None\<close>.
\<close>

type_synonym upcaster = "int \<times> (fields \<Rightarrow> fields)"
type_synonym schema_registry = "string \<Rightarrow> upcaster list"

definition NewSchemaRegistry :: schema_registry where "NewSchemaRegistry = (\<lambda>_. [])"

definition Register :: "string \<Rightarrow> upcaster \<Rightarrow> schema_registry \<Rightarrow> schema_registry option" where
  "Register ty u r =
     (if fst u \<in> fst ` set (r ty) then None else Some (r(ty := sort_key fst (r ty @ [u]))))"

definition LatestVersion :: "schema_registry \<Rightarrow> string \<Rightarrow> int" where
  "LatestVersion r ty = (if r ty = [] then DefaultEventVersion else fst (last (r ty)) + 1)"

text \<open>\<open>Validate\<close> of one chain: the versions are 1, 2, 3 and so on.\<close>

definition valid_chain :: "upcaster list \<Rightarrow> bool" where
  "valid_chain us \<longleftrightarrow> map fst us = map (\<lambda>i. int i + 1) [0..<length us]"

fun upcast_chain :: "upcaster list \<Rightarrow> int \<times> fields \<Rightarrow> int \<times> fields" where
  "upcast_chain [] p = p"
| "upcast_chain (u # us) (v, d) =
     (if v > fst u then upcast_chain us (v, d)
      else if v = fst u then upcast_chain us (fst u + 1, snd u d)
      else upcast_chain us (v, d))"

definition Upcast :: "schema_registry \<Rightarrow> wire_event \<Rightarrow> wire_event" where
  "Upcast r e =
     (if r (ev_Type e) = [] then e
      else case ev_Data e of
        JObj d \<Rightarrow> (let (v, d') = upcast_chain (r (ev_Type e)) (ev_Version e, d)
                   in e\<lparr>ev_Version := v, ev_Data := JObj d'\<rparr>)
      | _ \<Rightarrow> e)"

definition defaultPlanTier :: string where "defaultPlanTier = ''standard''"

definition SubActivatedV1ToV2 :: upcaster where
  "SubActivatedV1ToV2 =
     (1, \<lambda>d. if map_of d ''plan_tier'' = None then d @ [(''plan_tier'', JStr defaultPlanTier)] else d)"

text \<open>The registry that the application wires.\<close>

definition app_registry :: schema_registry where
  "app_registry = (case Register ''subscription.activated'' SubActivatedV1ToV2 NewSchemaRegistry of
                     Some r \<Rightarrow> r | None \<Rightarrow> NewSchemaRegistry)"

section \<open>Facts\<close>

lemma to_wire_fields [simp]:
  "ev_ID (to_wire enc e) = ev_ID e" "ev_Type (to_wire enc e) = ev_Type e" "ev_Version (to_wire enc e) = ev_Version e"
  "ev_Timestamp (to_wire enc e) = ev_Timestamp e" "ev_Data (to_wire enc e) = enc (ev_Data e)"
  "ev_EntityID (to_wire enc e) = ev_EntityID e" "ev_TraceParent (to_wire enc e) = ev_TraceParent e"
  by (simp_all add: to_wire_def)

lemmas field_eval = str_field_def int_field_def

lemma unmarshal_object [simp]: "ev_Data e = JObj fs \<Longrightarrow> UnmarshalPayload d e = d fs"
  by (simp add: UnmarshalPayload_def)

lemma unmarshal_null [simp]: "ev_Data e = JNull \<Longrightarrow> UnmarshalPayload d e = d []"
  by (simp add: UnmarshalPayload_def)

lemma charge_completed_roundtrip: "decode_ChargeCompleted fs = Inr (ChargeCompleted p i x v a)"
  if "payment_json (ChargeCompleted p i x v a) = JObj fs"
  using that by (auto simp: decode_ChargeCompleted_def field_eval JInt64_def)

text \<open>A chain that starts at version \<open>k\<close>.\<close>

lemma upcast_chain_from:
  "map fst us = map (\<lambda>i. int i + k) [0..<length us] \<Longrightarrow> k \<le> v \<Longrightarrow> v \<le> k + int (length us) \<Longrightarrow>
     upcast_chain us (v, d) = (k + int (length us), fold snd (drop (nat (v - k)) us) d)"
proof (induction us arbitrary: k v d)
  case Nil
  then show ?case by simp
next
  case (Cons u us)
  have "[0..<length (u # us)] = 0 # map Suc [0..<length us]" by (simp add: upt_conv_Cons map_Suc_upt del: upt_Suc)
  with Cons.prems(1) have k: "fst u = k" "map fst us = map (\<lambda>i. int i + (k + 1)) [0..<length us]"
    by (simp_all add: o_def ac_simps del: upt_Suc)
  show ?case
  proof (cases "v = k")
    case True
    with k Cons.prems Cons.IH [of "k + 1" "k + 1" "snd u d"] show ?thesis by simp
  next
    case False
    with Cons.prems have v: "k + 1 \<le> v" "v \<le> k + 1 + int (length us)" by simp_all
    from v have "nat (v - k) = Suc (nat (v - (k + 1)))" by simp
    with v k Cons.IH [of "k + 1" v d] show ?thesis by (simp add: ac_simps)
  qed
qed

lemma upcast_chain_past: "\<forall>u \<in> set us. fst u < v \<Longrightarrow> upcast_chain us (v, d) = (v, d)"
  by (induction us) auto

lemma upcast_chain_before: "\<forall>u \<in> set us. v < fst u \<Longrightarrow> upcast_chain us (v, d) = (v, d)"
  by (induction us) auto

lemma valid_chain_Nil [simp]: "valid_chain []"
  by (simp add: valid_chain_def)

lemma valid_chain_fst:
  assumes "valid_chain us" "u \<in> set us"
  shows "1 \<le> fst u \<and> fst u \<le> int (length us)"
proof -
  from assms(2) have "fst u \<in> set (map fst us)" by simp
  with assms(1) have "fst u \<in> set (map (\<lambda>i. int i + 1) [0..<length us])" by (simp only: valid_chain_def)
  then obtain i where "i < length us" "fst u = int i + 1" by auto
  then show ?thesis by simp
qed

lemma valid_chain_latest:
  assumes "valid_chain (r ty)" shows "LatestVersion r ty = int (length (r ty)) + 1"
proof (cases "r ty = []")
  case False
  then have "fst (last (r ty)) = last (map fst (r ty))" by (simp add: last_map)
  also have "\<dots> = int (length (r ty) - 1) + 1"
    using assms False by (simp only: valid_chain_def) (simp add: last_map)
  finally show ?thesis using False by (simp add: LatestVersion_def of_nat_diff Suc_leI)
qed (simp add: LatestVersion_def DefaultEventVersion_def)

lemma Upcast_keeps [simp]:
  "ev_ID (Upcast r e) = ev_ID e" "ev_Type (Upcast r e) = ev_Type e" "ev_EntityID (Upcast r e) = ev_EntityID e"
  "ev_Timestamp (Upcast r e) = ev_Timestamp e" "ev_TraceParent (Upcast r e) = ev_TraceParent e"
  by (simp_all add: Upcast_def split: json.split prod.split)

lemma Upcast_none [simp]: "r (ev_Type e) = [] \<Longrightarrow> Upcast r e = e"
  by (simp add: Upcast_def)

lemma Register_sorted:
  assumes "Register ty u r = Some r'" "distinct (map fst (r ty))"
  shows "sorted (map fst (r' ty)) \<and> distinct (map fst (r' ty)) \<and> set (r' ty) = insert u (set (r ty))"
proof -
  from assms(1) have r': "r' ty = sort_key fst (r ty @ [u])" "fst u \<notin> fst ` set (r ty)"
    by (auto simp: Register_def split: if_splits)
  have "distinct (map fst (r ty @ [u]))" using assms(2) r'(2) by simp
  then have "card (fst ` set (r ty @ [u])) = length (r ty @ [u])"
    using distinct_card [of "map fst (r ty @ [u])"] by simp
  then have "card (set (map fst (sort_key fst (r ty @ [u])))) = length (map fst (sort_key fst (r ty @ [u])))"
    by simp
  then have "distinct (map fst (sort_key fst (r ty @ [u])))" by (rule card_distinct)
  then show ?thesis by (simp add: r'(1))
qed

lemma app_registry_simps:
  "app_registry ''subscription.activated'' = [SubActivatedV1ToV2]"
  "ty \<noteq> ''subscription.activated'' \<Longrightarrow> app_registry ty = []"
  by (simp_all add: app_registry_def Register_def NewSchemaRegistry_def)

section \<open>Properties\<close>

text \<open>
  For an event type whose registered upcasters pass the startup validation, an event of any
  known version is lifted to the latest version by exactly the upcasters that it has not passed
  yet, in order, and lifting it again changes nothing; nothing but version and data changes.
\<close>

theorem upcast_reaches_latest:
  assumes "valid_chain (r (ev_Type e))" and "ev_Data e = JObj d"
    and "1 \<le> ev_Version e" and "ev_Version e \<le> LatestVersion r (ev_Type e)"
  shows "Upcast r e = e\<lparr>ev_Version := LatestVersion r (ev_Type e),
                        ev_Data := JObj (fold snd (drop (nat (ev_Version e - 1)) (r (ev_Type e))) d)\<rparr>
     \<and> Upcast r (Upcast r e) = Upcast r e"
proof -
  let ?us = "r (ev_Type e)"
  have len: "LatestVersion r (ev_Type e) = 1 + int (length ?us)" using valid_chain_latest [of r "ev_Type e"] assms(1) by simp
  have chain: "upcast_chain ?us (v, d') = (1 + int (length ?us), fold snd (drop (nat (v - 1)) ?us) d')"
    if "1 \<le> v" "v \<le> 1 + int (length ?us)" for v d'
    by (rule upcast_chain_from) (use assms(1) that in \<open>auto simp: valid_chain_def\<close>)
  have eq: "Upcast r e = e\<lparr>ev_Version := LatestVersion r (ev_Type e),
                        ev_Data := JObj (fold snd (drop (nat (ev_Version e - 1)) ?us) d)\<rparr>"
    using assms len chain [of "ev_Version e" d] by (cases "?us = []") (auto simp: Upcast_def)
  moreover have "Upcast r (Upcast r e) = Upcast r e"
    using len chain [of "1 + int (length ?us)"] by (simp add: eq) (simp add: Upcast_def)
  ultimately show ?thesis by blast
qed

theorem upcast_reaches_latest_witness:
  "Upcast app_registry (to_wire billing_json (new_event ''e'' (SubActivated ''s'' ''u'') 7 ''s''))
     = (to_wire billing_json (new_event ''e'' (SubActivated ''s'' ''u'') 7 ''s''))
         \<lparr>ev_Version := 2, ev_Data := JObj [(''subscription_id'', JStr ''s''), (''user_id'', JStr ''u''),
            (''plan_tier'', JStr ''standard'')]\<rparr>"
proof -
  let ?e = "to_wire billing_json (new_event ''e'' (SubActivated ''s'' ''u'') 7 ''s'')"
  have "valid_chain (app_registry (ev_Type ?e))" "LatestVersion app_registry (ev_Type ?e) = 2"
    "ev_Version ?e = 1" "ev_Type ?e = ''subscription.activated''"
    by (simp_all add: app_registry_simps valid_chain_def SubActivatedV1ToV2_def LatestVersion_def new_event_def
        NewTyped_def DefaultEventVersion_def)
  with upcast_reaches_latest [of app_registry ?e] show ?thesis
    by (simp add: app_registry_simps SubActivatedV1ToV2_def defaultPlanTier_def)
qed

end

