(* ===== verification/Consumer.thy ===== *)
theory Consumer
  imports Wire Checkout MultiSub
begin

text \<open>
  The consumer of billing and payment events: \<open>adapter/nats/billing_event_consumer.go\<close>,
  \<open>billing_event_handlers.go\<close>, \<open>billing_lookup.go\<close> and the idempotency keys of
  \<open>postgres/idempotency_repo.go\<close>. A delivery runs to its end before the next one of the same entity
  (the entity lock); metrics, tracing, the sequence tracker and the waiting before a \<open>Nack\<close> are
  left out. Definitions, and the contract of the key store as a locale.
\<close>

section \<open>Idempotency keys (idempotency_repo.go)\<close>

record idem_row =
  ik_key :: string
  ik_retry :: int
  ik_created_at :: time
  ik_expires_at :: time

definition IdempotencyKeyTTL :: duration where "IdempotencyKeyTTL = 24 * 60 * 60 * 1000000000"

definition idem_row_new :: "time \<Rightarrow> string \<Rightarrow> int \<Rightarrow> idem_row" where
  "idem_row_new dbnow k n =
     \<lparr>ik_key = k, ik_retry = n, ik_created_at = dbnow, ik_expires_at = dbnow + IdempotencyKeyTTL\<rparr>"

definition TryAcquire :: "time \<Rightarrow> string \<Rightarrow> idem_row list \<Rightarrow> bool \<times> idem_row list" where
  "TryAcquire dbnow k t =
     (if k \<in> ik_key ` set t then (False, t) else (True, t @ [idem_row_new dbnow k 0]))"

definition Release :: "string \<Rightarrow> idem_row list \<Rightarrow> idem_row list" where
  "Release k t = filter (\<lambda>r. ik_key r \<noteq> k) t"

definition IncrementRetry :: "time \<Rightarrow> string \<Rightarrow> idem_row list \<Rightarrow> int \<times> idem_row list" where
  "IncrementRetry dbnow k t =
     (case select_by ik_key k t of
        None \<Rightarrow> (1, t @ [idem_row_new dbnow k 1])
      | Some r \<Rightarrow> (ik_retry r + 1, update_by ik_key k (\<lambda>r. r\<lparr>ik_retry := ik_retry r + 1\<rparr>) t))"

definition idem_Cleanup :: "time \<Rightarrow> idem_row list \<Rightarrow> idem_row list" where
  "idem_Cleanup dbnow t = filter (\<lambda>r. \<not> ik_expires_at r < dbnow) t"

definition CleanupOldKeys :: "time \<Rightarrow> idem_row list \<Rightarrow> nat \<times> idem_row list" where
  "CleanupOldKeys cutoff t =
     (length (filter (\<lambda>r. ik_created_at r < cutoff) t), filter (\<lambda>r. \<not> ik_created_at r < cutoff) t)"

section \<open>From billing to multisub (billing_lookup.go)\<close>

fun addonTypeToSnapshot :: "addon_type \<Rightarrow> addon_snapshot_type" where
  "addonTypeToSnapshot AddonTraffic = AddonSnapshotTraffic"
| "addonTypeToSnapshot AddonNodes = AddonSnapshotNodes"
| "addonTypeToSnapshot AddonFeature = AddonSnapshotFeature"
| "addonTypeToSnapshot (AddonOther t) = AddonSnapshotOther t"

definition planToSnapshot :: "plan \<Rightarrow> plan_snapshot" where
  "planToSnapshot p =
     \<lparr>ps_ID = plan_ID p, ps_TrafficLimitBytes = plan_TrafficLimitBytes p,
      ps_MaxRemnawaveBindings = plan_MaxRemnawaveBindings p,
      ps_Addons = map (\<lambda>a. \<lparr>as_ID = ad_ID a, as_Name = ad_Name a, as_Type = addonTypeToSnapshot (ad_Type a),
                             as_ExtraTrafficBytes = ad_ExtraTrafficBytes a, as_ExtraNodes = ad_ExtraNodes a\<rparr>)
                      (plan_AvailableAddons p)\<rparr>"

fun subscriptionStatusToMultisub :: "subscription_status \<Rightarrow> sub_status_view" where
  "subscriptionStatusToMultisub StatusActive = SubStatusActive"
| "subscriptionStatusToMultisub StatusCancelled = SubStatusCancelled"
| "subscriptionStatusToMultisub StatusExpired = SubStatusExpired"
| "subscriptionStatusToMultisub StatusPaused = SubStatusPaused"
| "subscriptionStatusToMultisub StatusTrial = SubStatusTrial"
| "subscriptionStatusToMultisub StatusPastDue = SubStatusPastDue"

definition GetSubscriptionInfo :: "string \<Rightarrow> db \<Rightarrow> billing_error + subscription_info" where
  "GetSubscriptionInfo i d =
     rbind (sub_GetByID i d) (\<lambda>s. Inr
       \<lparr>si_ID = sub_ID s, si_UserID = sub_UserID s, si_PlanID = sub_PlanID s,
        si_Status = subscriptionStatusToMultisub (sub_Status s), si_AddonIDs = sub_AddonIDs s\<rparr>)"

definition GetPlanSnapshot :: "string \<Rightarrow> db \<Rightarrow> billing_error + plan_snapshot" where
  "GetPlanSnapshot i d = rbind (plan_GetByID i d) (\<lambda>p. Inr (planToSnapshot p))"

definition GetFamilyMemberIDs :: "string \<Rightarrow> db \<Rightarrow> billing_error + string list" where
  "GetFamilyMemberIDs ownerID d =
     rbind (GetByOwnerID ownerID d) (\<lambda>fg. Inr (filter (\<lambda>u. u \<noteq> ownerID) (map fm_UserID (fg_Members fg))))"

section \<open>Messages, environment and state\<close>

text \<open>
  A payload is given by what \<open>json.Unmarshal\<close> makes of it, \<open>None\<close> when it is malformed. The four
  statuses are the labels under which the consumer counts a delivery: every status but
  \<open>StatusFailed\<close> acknowledges the message, \<open>StatusFailed\<close> asks for a redelivery.
\<close>

record wire_message =
  wm_UUID :: string
  wm_Payload :: "wire_event option"

datatype consumer_error =
    ErrMalformed
  | ErrWire wire_error
  | ErrMissingEventSubscriptionID | ErrMissingEventBindingID | ErrMissingEventInvoiceID
  | ErrBilling billing_error
  | ErrMultisub multisub_error

datatype processing_status = StatusSuccess | StatusSkippedDuplicate | StatusFailed | StatusDLQ

fun acked :: "processing_status \<Rightarrow> bool" where
  "acked StatusFailed = False"
| "acked _ = True"

record dlq_payload =
  dq_OriginalSubject :: string
  dq_OriginalPayload :: "wire_event option"
  dq_Error :: consumer_error
  dq_MsgID :: string
  dq_FailedAt :: time
  dq_RetryCount :: int
  dq_EntityID :: string
  dq_EventType :: string

definition MaxMessageRetries :: int where "MaxMessageRetries = 3"
definition DLQSubjectPrefix :: string where "DLQSubjectPrefix = ''dlq.''"
definition retryKeyPrefix :: string where "retryKeyPrefix = ''retry:''"

text \<open>
  The parts of one database that the handlers touch, the dead-letter stream with its subjects, and
  the asynchronous hooks dispatched so far.
\<close>

record 'g consumer =
  cn_db :: db
  cn_ms :: "'g msub"
  cn_keys :: "idem_row list"
  cn_dlq :: "(string \<times> dlq_payload) list"
  cn_hooks :: "async_payload list"
  cn_traffic :: "traffic_notification list"

record 'g consumer_env = tx_env +
  ce_registry :: schema_registry
  ce_checkout :: checkout_env
  ce_msub :: msub_env
  ce_gateway :: "'g gateway"
  ce_publisher :: bool

section \<open>Handlers (billing_event_handlers.go)\<close>

text \<open>The reads that enrich an activation; a failed family lookup goes on without a family.\<close>

definition enrich ::
    "'g consumer_env \<Rightarrow> string \<Rightarrow> (db, billing_error, subscription_info \<times> plan_snapshot \<times> string list) tx" where
  "enrich ce subID =
     tx_bind (tx_call ErrStorage ce ''get subscription'' (tx_read (GetSubscriptionInfo subID))) (\<lambda>info.
     tx_bind (tx_call ErrStorage ce ''get plan'' (tx_read (GetPlanSnapshot (si_PlanID info)))) (\<lambda>plan.
     tx_bind (\<lambda>d. Inr (if env_fault ce ''get family group'' then []
                       else case GetFamilyMemberIDs (si_UserID info) d of Inl _ \<Rightarrow> [] | Inr ids \<Rightarrow> ids, d)) (\<lambda>ids.
     tx_return (info, plan, ids))))"

definition lift_ms ::
    "('g msub \<Rightarrow> (multisub_error + unit) \<times> 'g msub) \<Rightarrow> 'g consumer \<Rightarrow> (consumer_error + unit) \<times> 'g consumer" where
  "lift_ms f s = (case f (cn_ms s) of (r, m) \<Rightarrow> (map_sum ErrMultisub id r, s\<lparr>cn_ms := m\<rparr>))"

text \<open>The lookups run under the platform scope, the orchestrator on the bare context.\<close>

definition handleActivated :: "'g consumer_env \<Rightarrow> wire_event \<Rightarrow> 'g consumer \<Rightarrow> (consumer_error + unit) \<times> 'g consumer" where
  "handleActivated ce e s =
     (case UnmarshalPayload decode_SubActivated e of
        Inl er \<Rightarrow> (Inl (ErrWire er), s)
      | Inr (subID, _) \<Rightarrow>
          if subID = [] then (Inl ErrMissingEventSubscriptionID, s)
          else (case RunInTx ErrStorage ce (enrich ce subID) (cn_db s) of
             (Inl er, _) \<Rightarrow> (Inl (ErrBilling er), s)
           | (Inr (info, plan, familyMemberIDs), _) \<Rightarrow>
               lift_ms (OnSubscriptionActivated [] (ce_gateway ce) (ce_msub ce)
                 \<lparr>pq_SubscriptionID = si_ID info, pq_PlatformUserID = si_UserID info, pq_Plan = plan,
                  pq_AddonIDs = si_AddonIDs info, pq_FamilyMemberIDs = familyMemberIDs\<rparr>) s))"

text \<open>
  \<open>CompleteCheckout\<close> inside the transaction of the handler, which \<open>PayInvoice\<close> joins: its body runs
  without a transaction of its own, and the hooks are dispatched before the outer commit.
\<close>

definition complete_joined :: "checkout_env \<Rightarrow> string \<Rightarrow> (db, billing_error, async_payload list) tx" where
  "complete_joined ck invoiceID =
     (if invoiceID = [] then tx_lift (Inl ErrEmptyInvoiceID)
      else tx_bind (pay_body (ck_billing ck) invoiceID) (\<lambda>p d.
        Inr ((case p of None \<Rightarrow> [] | Some n \<Rightarrow> dispatchAsync (ck_billing ck) n) @ dispatchCheckoutCompleted ck invoiceID d, d)))"

definition handleChargeCompleted :: "'g consumer_env \<Rightarrow> wire_event \<Rightarrow> 'g consumer \<Rightarrow> (consumer_error + unit) \<times> 'g consumer" where
  "handleChargeCompleted ce e s =
     (case UnmarshalPayload decode_ChargeCompleted e of
        Inr (ChargeCompleted _ invoiceID _ _ _) \<Rightarrow>
          if invoiceID = [] then (Inl ErrMissingEventInvoiceID, s)
          else
            (let body = complete_joined (ce_checkout ce) invoiceID;
                 hooks = (if env_fault ce ''begin tx'' then []
                          else case body (cn_db s) of Inl _ \<Rightarrow> [] | Inr (ns, _) \<Rightarrow> ns);
                 (r, d) = RunInTx ErrStorage ce body (cn_db s)
             in (case r of Inl er \<Rightarrow> Inl (ErrBilling er) | Inr _ \<Rightarrow> Inr (),
                 s\<lparr>cn_db := d, cn_hooks := cn_hooks s @ hooks\<rparr>))
      | Inr _ \<Rightarrow> (Inl ErrMissingEventInvoiceID, s)
      | Inl er \<Rightarrow> (Inl (ErrWire er), s))"

definition handleSimple ::
    "(string \<Rightarrow> 'g msub \<Rightarrow> (multisub_error + unit) \<times> 'g msub) \<Rightarrow> wire_event \<Rightarrow> 'g consumer
     \<Rightarrow> (consumer_error + unit) \<times> 'g consumer" where
  "handleSimple fn e s =
     (case UnmarshalPayload subscriptionIDPayload e of
        Inl er \<Rightarrow> (Inl (ErrWire er), s)
      | Inr subID \<Rightarrow>
          if subID = [] then (Inl ErrMissingEventSubscriptionID, s) else lift_ms (fn subID) s)"

text \<open>The shared shape of the traffic handlers, over the payload's identifiers.\<close>

definition lift_traffic ::
    "('g msub \<Rightarrow> (multisub_error + unit) \<times> 'g msub \<times> traffic_notification list) \<Rightarrow> 'g consumer
     \<Rightarrow> (consumer_error + unit) \<times> 'g consumer" where
  "lift_traffic f s =
     (case f (cn_ms s) of (r, m, ns) \<Rightarrow>
        (map_sum ErrMultisub id r, s\<lparr>cn_ms := m, cn_traffic := cn_traffic s @ ns\<rparr>))"

definition require_ids :: "string \<Rightarrow> string \<Rightarrow> consumer_error option" where
  "require_ids bindingID subID =
     (if bindingID = [] then Some ErrMissingEventBindingID
      else if subID = [] then Some ErrMissingEventSubscriptionID else None)"

definition handleTrafficExceeded :: "'g consumer_env \<Rightarrow> wire_event \<Rightarrow> 'g consumer \<Rightarrow> (consumer_error + unit) \<times> 'g consumer" where
  "handleTrafficExceeded ce e s =
     (case UnmarshalPayload decode_traffic e of
        Inl er \<Rightarrow> (Inl (ErrWire er), s)
      | Inr p \<Rightarrow>
          (case require_ids (tp_BindingID p) (tp_SubscriptionID p) of
             Some er \<Rightarrow> (Inl er, s)
           | None \<Rightarrow> lift_traffic (OnBindingTrafficExceeded PlatformScopeSentinel (ce_msub ce) (tp_BindingID p)
                       (tp_SubscriptionID p) (tp_UsedBytes p) (tp_LimitBytes p)) s))"

definition handleTrafficReset :: "'g consumer_env \<Rightarrow> wire_event \<Rightarrow> 'g consumer \<Rightarrow> (consumer_error + unit) \<times> 'g consumer" where
  "handleTrafficReset ce e s =
     (case UnmarshalPayload decode_BindingWebhook e of
        Inl er \<Rightarrow> (Inl (ErrWire er), s)
      | Inr (bindingID, subID, _) \<Rightarrow>
          (case require_ids bindingID subID of
             Some er \<Rightarrow> (Inl er, s)
           | None \<Rightarrow> lift_traffic (OnBindingTrafficReset PlatformScopeSentinel (ce_msub ce) bindingID subID) s))"

definition handleTrafficWarning :: "'g consumer_env \<Rightarrow> wire_event \<Rightarrow> 'g consumer \<Rightarrow> (consumer_error + unit) \<times> 'g consumer" where
  "handleTrafficWarning ce e s =
     (case UnmarshalPayload decode_trafficWarning e of
        Inl er \<Rightarrow> (Inl (ErrWire er), s)
      | Inr p \<Rightarrow>
          (case require_ids (tp_BindingID p) (tp_SubscriptionID p) of
             Some er \<Rightarrow> (Inl er, s)
           | None \<Rightarrow> (Inr (), s\<lparr>cn_traffic := cn_traffic s @ OnTrafficWarning (ce_msub ce) (tp_BindingID p)
                       (tp_SubscriptionID p) (tp_UsedBytes p) (tp_LimitBytes p) (sint (tp_ThresholdPct p))\<rparr>)))"

definition processEvent :: "'g consumer_env \<Rightarrow> string \<Rightarrow> wire_event \<Rightarrow> 'g consumer \<Rightarrow> (consumer_error + unit) \<times> 'g consumer" where
  "processEvent ce subject e s =
     (let on = PlatformScopeSentinel; gw = ce_gateway ce; ms = ce_msub ce in
      if subject = ''subscription.activated'' then handleActivated ce e s
      else if subject = ''subscription.cancelled'' then handleSimple (OnSubscriptionCancelled on gw ms) e s
      else if subject = ''subscription.paused'' then handleSimple (OnSubscriptionPaused on gw ms) e s
      else if subject = ''subscription.resumed'' then handleSimple (OnSubscriptionResumed on gw ms) e s
      else if subject = ''payment.charge_completed'' then handleChargeCompleted ce e s
      else if subject = ''binding.traffic_exceeded'' then handleTrafficExceeded ce e s
      else if subject = ''subscription.traffic_cycle_reset'' then handleTrafficReset ce e s
      else if subject = ''subscription.traffic_warning'' then handleTrafficWarning ce e s
      else (Inr (), s))"

definition BillingSubscriptionSubjects :: "string list" where
  "BillingSubscriptionSubjects =
     [''subscription.activated'', ''subscription.cancelled'', ''subscription.paused'', ''subscription.resumed'',
      ''payment.charge_completed'', ''binding.traffic_exceeded'', ''subscription.traffic_cycle_reset'',
      ''subscription.traffic_warning'']"

section \<open>A delivery\<close>

definition sendToDLQ ::
    "'g consumer_env \<Rightarrow> string \<Rightarrow> wire_message \<Rightarrow> consumer_error \<Rightarrow> int \<Rightarrow> wire_event option \<Rightarrow> 'g consumer \<Rightarrow> 'g consumer" where
  "sendToDLQ ce subject msg er retryCount ev s =
     (if \<not> ce_publisher ce \<or> env_fault ce ''publish to dlq'' then s
      else s\<lparr>cn_dlq := cn_dlq s @ [(DLQSubjectPrefix @ subject,
        \<lparr>dq_OriginalSubject = subject, dq_OriginalPayload = wm_Payload msg, dq_Error = er, dq_MsgID = wm_UUID msg,
         dq_FailedAt = env_now ce, dq_RetryCount = retryCount,
         dq_EntityID = (case ev of None \<Rightarrow> [] | Some e \<Rightarrow> ev_EntityID e),
         dq_EventType = (case ev of None \<Rightarrow> [] | Some e \<Rightarrow> ev_Type e)\<rparr>)]\<rparr>)"

definition extractStringFromData :: "json \<Rightarrow> string \<Rightarrow> string" where
  "extractStringFromData data k =
     (case data of JObj fs \<Rightarrow> (case map_of fs k of Some (JStr s) \<Rightarrow> s | _ \<Rightarrow> []) | _ \<Rightarrow> [])"

definition event_entity :: "wire_event \<Rightarrow> string" where
  "event_entity e =
     (if ev_EntityID e \<noteq> [] then ev_EntityID e
      else if extractStringFromData (ev_Data e) ''subscription_id'' \<noteq> []
      then extractStringFromData (ev_Data e) ''subscription_id''
      else extractStringFromData (ev_Data e) ''binding_id'')"

definition idempotency_key :: "string \<Rightarrow> wire_event \<Rightarrow> string" where
  "idempotency_key subject e =
     (if ev_ID e \<noteq> [] then ev_ID e
      else (if ev_Type e = [] then subject else ev_Type e) @ '':'' @ event_entity e)"

text \<open>
  After a failure: release the key, count the attempt under its own key, and either ask for a
  redelivery or give the message up. Failures of the key store are logged.
\<close>

definition handle_failure ::
    "'g consumer_env \<Rightarrow> string \<Rightarrow> wire_message \<Rightarrow> wire_event \<Rightarrow> consumer_error \<Rightarrow> 'g consumer \<Rightarrow> processing_status \<times> 'g consumer" where
  "handle_failure ce subject msg e er s =
     (let key = idempotency_key subject e;
          s1 = (if env_fault ce ''release key'' then s else s\<lparr>cn_keys := Release key (cn_keys s)\<rparr>)
      in if env_fault ce ''increment retry'' then (StatusFailed, s1)
         else
           (let (retryCount, t) = IncrementRetry (env_dbnow ce) (retryKeyPrefix @ key) (cn_keys s1);
                s2 = s1\<lparr>cn_keys := t\<rparr>
            in if retryCount < MaxMessageRetries then (StatusFailed, s2)
               else (StatusDLQ, sendToDLQ ce subject msg er retryCount (Some e) s2)))"

definition handleMessage :: "'g consumer_env \<Rightarrow> string \<Rightarrow> wire_message \<Rightarrow> 'g consumer \<Rightarrow> processing_status \<times> 'g consumer" where
  "handleMessage ce subject msg s =
     (case wm_Payload msg of
        None \<Rightarrow> (StatusDLQ, sendToDLQ ce subject msg ErrMalformed 0 None s)
      | Some ev \<Rightarrow>
          (let e = Upcast (ce_registry ce) ev;
               (isNew, t) = TryAcquire (env_dbnow ce) (idempotency_key subject e) (cn_keys s)
           in if \<not> env_fault ce ''try acquire'' \<and> \<not> isNew then (StatusSkippedDuplicate, s)
              else
                (let s1 = (if env_fault ce ''try acquire'' then s else s\<lparr>cn_keys := t\<rparr>) in
                 case processEvent ce subject e s1 of
                   (Inr _, s2) \<Rightarrow> (StatusSuccess, s2)
                 | (Inl er, s2) \<Rightarrow> handle_failure ce subject msg e er s2)))"

text \<open>The broker redelivers what is not acknowledged; each delivery has its own environment.\<close>

fun redeliver :: "'g consumer_env list \<Rightarrow> string \<Rightarrow> wire_message \<Rightarrow> 'g consumer \<Rightarrow> processing_status \<times> 'g consumer" where
  "redeliver [] subject msg s = (StatusFailed, s)"
| "redeliver (ce # ces) subject msg s =
     (case handleMessage ce subject msg s of
        (StatusFailed, s') \<Rightarrow> redeliver ces subject msg s'
      | (st, s') \<Rightarrow> (st, s'))"

fun consume :: "('g consumer_env \<times> string \<times> wire_message) list \<Rightarrow> 'g consumer \<Rightarrow> 'g consumer" where
  "consume [] s = s"
| "consume ((ce, subject, msg) # ds) s = consume ds (snd (handleMessage ce subject msg s))"

definition RetryDelay1 :: duration where "RetryDelay1 = 2000000000"
definition RetryDelay2 :: duration where "RetryDelay2 = 5000000000"
definition RetryDelay3 :: duration where "RetryDelay3 = 10000000000"

definition retryDelays :: "duration list" where
  "retryDelays = [RetryDelay1, RetryDelay2, RetryDelay3]"

text \<open>The delay without its jitter.\<close>

definition retryBackoffBase :: "int \<Rightarrow> duration" where
  "retryBackoffBase n =
     (let idx = n - 1;
          idx = (if idx < 0 then 0 else idx);
          idx = (if idx \<ge> int (length retryDelays) then int (length retryDelays) - 1 else idx)
      in retryDelays ! nat idx)"

end
