(* ===== verification/Panel.thy ===== *)
theory Panel
  imports Consumer
begin

text \<open>
  Webhooks of the VPN panel: \<open>adapter/remnawave/webhook_handler.go\<close>, the translation of event names
  in \<open>acl.go\<close>, and the publishing closure \<open>provideWebhookHandler\<close> of \<open>app/wiring_nats.go\<close>.
\<close>

section \<open>Payloads (types.go)\<close>

record webhook_meta =
  wb_Expiration :: "int option"
  wb_NotConnectedAfterHours :: "int option"

record webhook_payload =
  wp_Scope :: string
  wp_Event :: string
  wp_Timestamp :: time
  wp_Data :: json
  wp_Meta :: webhook_meta

section \<open>Event names (acl.go)\<close>

definition webhookEventMap :: "(string \<times> string) list" where
  "webhookEventMap = [
     (''user.bandwidth_usage_threshold_reached'', ''subscription.traffic_warning''),
     (''user.created'', ''remnawave.user.synced''),
     (''user.deleted'', ''remnawave.user.deleted''),
     (''user.disabled'', ''subscription.binding_disabled''),
     (''user.enabled'', ''subscription.binding_enabled''),
     (''user.expired'', ''subscription.remnawave_expired''),
     (''user.first_connected'', ''subscription.first_use''),
     (''user.limited'', ''binding.traffic_exceeded''),
     (''user.modified'', ''remnawave.user.modified''),
     (''user.not_connected'', ''subscription.user_not_connected''),
     (''user.revoked'', ''subscription.binding_revoked''),
     (''user.traffic_reset'', ''subscription.traffic_cycle_reset''),
     (''user_hwid_devices.added'', ''security.hwid_device_added''),
     (''user_hwid_devices.deleted'', ''security.hwid_device_deleted''),
     (''node.connection_lost'', ''infra.node_down''),
     (''node.connection_restored'', ''infra.node_up''),
     (''node.created'', ''infra.node_created''),
     (''node.deleted'', ''infra.node_deleted''),
     (''node.disabled'', ''infra.node_disabled''),
     (''node.enabled'', ''infra.node_enabled''),
     (''node.modified'', ''infra.node_modified''),
     (''node.traffic_notify'', ''infra.node_traffic_notify''),
     (''service.login_attempt_failed'', ''security.login_attempt_failed''),
     (''service.login_attempt_success'', ''security.login_attempt_success''),
     (''service.panel_started'', ''infra.remnawave_restarted''),
     (''service.subpage_config_changed'', ''infra.subpage_config_changed''),
     (''errors.bandwidth_usage_threshold_reached_max_notifications'', ''subscription.traffic_warning_max_reached''),
     (''crm.infra_billing_node_payment_due_today'', ''billing.node_payment_due_today''),
     (''crm.infra_billing_node_payment_in_24hrs'', ''billing.node_payment_due_24h''),
     (''crm.infra_billing_node_payment_in_48hrs'', ''billing.node_payment_due_48h''),
     (''crm.infra_billing_node_payment_in_7_days'', ''billing.node_payment_due_7d''),
     (''crm.infra_billing_node_payment_overdue_24hrs'', ''billing.node_payment_overdue_24h''),
     (''crm.infra_billing_node_payment_overdue_48hrs'', ''billing.node_payment_overdue_48h''),
     (''crm.infra_billing_node_payment_overdue_7_days'', ''billing.node_payment_overdue_7d''),
     (''torrent_blocker.report'', ''security.torrent_blocker_report'')]"

definition MapWebhookEvent :: "webhook_payload \<Rightarrow> string" where
  "MapWebhookEvent p =
     (if wp_Scope p = ''user'' \<and> wp_Event p = ''expiration'' then
        (case wb_Expiration (wp_Meta p) of
           Some n \<Rightarrow> if n > 0 then ''subscription.expired_24h_ago'' else ''subscription.expiring_soon''
         | None \<Rightarrow> ''subscription.expiring_soon'')
      else case map_of webhookEventMap (wp_Scope p @ ''.'' @ wp_Event p) of
        Some e \<Rightarrow> e
      | None \<Rightarrow> ''remnawave.'' @ wp_Scope p @ ''.'' @ wp_Event p)"

section \<open>The endpoint (webhook_handler.go)\<close>

text \<open>
  The cryptography and the decoding are arguments: \<open>hmac\<close> is HMAC-SHA256 of a key and a message,
  \<open>unhex\<close> decodes a hexadecimal string, \<open>parse\<close> is \<open>json.Unmarshal\<close> into the payload. \<open>body\<close> is
  what could be read of the request, \<open>None\<close> if reading failed. The answer is the status code and
  the payload handed to the callback.
\<close>

definition verifySignature ::
    "(string \<Rightarrow> string \<Rightarrow> string) \<Rightarrow> (string \<Rightarrow> string option) \<Rightarrow> string \<Rightarrow> string \<Rightarrow> string \<Rightarrow> bool" where
  "verifySignature hmac unhex secret body sigHex =
     (if secret = [] then False
      else case unhex sigHex of None \<Rightarrow> False | Some sig \<Rightarrow> sig = hmac secret body)"

definition ServeHTTP ::
    "(string \<Rightarrow> string \<Rightarrow> string) \<Rightarrow> (string \<Rightarrow> string option) \<Rightarrow> (string \<Rightarrow> webhook_payload option) \<Rightarrow> string
     \<Rightarrow> string option \<Rightarrow> string \<Rightarrow> nat \<times> webhook_payload option" where
  "ServeHTTP hmac unhex parse secret body sigHex =
     (case body of
        None \<Rightarrow> (500, None)
      | Some raw \<Rightarrow>
          if length raw = 0 then (400, None)
          else if \<not> verifySignature hmac unhex secret raw sigHex then (403, None)
          else case parse raw of None \<Rightarrow> (400, None) | Some p \<Rightarrow> (200, Some p))"

text \<open>
  The message that the closure publishes: the payload itself is marshalled, so what a consumer reads
  as an event has the payload's timestamp and data, and neither identifier, type nor entity.
\<close>

definition webhook_event :: "webhook_payload \<Rightarrow> wire_event" where
  "webhook_event p =
     \<lparr>ev_ID = [], ev_Type = [], ev_Version = 0, ev_Timestamp = wp_Timestamp p, ev_Data = wp_Data p,
      ev_EntityID = [], ev_TraceParent = []\<rparr>"

definition webhook_message :: "uuid \<Rightarrow> webhook_payload \<Rightarrow> string \<times> wire_message" where
  "webhook_message u p = (MapWebhookEvent p, \<lparr>wm_UUID = u, wm_Payload = Some (webhook_event p)\<rparr>)"

end
