(* ===== verification/ConsumerSpec.thy ===== *)
theory ConsumerSpec
  imports Panel MultiSubSpec Samples
begin

text \<open>
  What the consumer of billing and payment events guarantees: the contract of the idempotency
  keys, at-most-once processing, an end to the redeliveries, the settling of a completed payment;
  and what it loses: events whose handling outlives its deadline, activations (no binding can be stored),
  and the webhooks of the panel.
\<close>

section \<open>The key store contract\<close>

text \<open>
  What the consumer relies on: acquiring succeeds once until the key is released, and the retry
  counters neither depend on other keys nor on acquiring.
\<close>

locale key_store =
  fixes has :: "string \<Rightarrow> 's \<Rightarrow> bool"
    and counter :: "string \<Rightarrow> 's \<Rightarrow> int"
    and acquire :: "string \<Rightarrow> 's \<Rightarrow> bool \<times> 's"
    and release :: "string \<Rightarrow> 's \<Rightarrow> 's"
    and bump :: "string \<Rightarrow> 's \<Rightarrow> int \<times> 's"
  assumes acquire_new: "fst (acquire k s) \<longleftrightarrow> \<not> has k s"
    and acquire_has: "has j (snd (acquire k s)) \<longleftrightarrow> j = k \<or> has j s"
    and acquire_counter: "counter j (snd (acquire k s)) = counter j s"
    and release_has: "has j (release k s) \<longleftrightarrow> j \<noteq> k \<and> has j s"
    and release_counter: "j \<noteq> k \<Longrightarrow> counter j (release k s) = counter j s"
    and bump_value: "fst (bump k s) = counter k s + 1"
    and bump_counter: "counter j (snd (bump k s)) = counter j s + (if j = k then 1 else 0)"
    and bump_has: "has j (snd (bump k s)) \<longleftrightarrow> j = k \<or> has j s"
begin

lemma acquire_twice: "\<not> fst (acquire k (snd (acquire k s)))"
  by (simp add: acquire_new acquire_has)

lemma acquire_released: "fst (acquire k (release k s))"
  by (simp add: acquire_new release_has)

text \<open>One failed attempt: acquire, release and count under another key.\<close>

lemma failed_attempt:
  assumes "j \<noteq> k"
  shows "fst (bump j (release k (snd (acquire k s)))) = counter j s + 1
    \<and> counter j (snd (bump j (release k (snd (acquire k s))))) = counter j s + 1"
  using assms by (simp add: bump_value bump_counter release_counter acquire_counter)

end

definition has_key :: "string \<Rightarrow> idem_row list \<Rightarrow> bool" where
  "has_key k t \<longleftrightarrow> k \<in> ik_key ` set t"

definition retry_count :: "string \<Rightarrow> idem_row list \<Rightarrow> int" where
  "retry_count k t = (case select_by ik_key k t of None \<Rightarrow> 0 | Some r \<Rightarrow> ik_retry r)"

lemma idem_row_new_fields [simp]: "ik_key (idem_row_new t k n) = k" "ik_retry (idem_row_new t k n) = n"
  by (simp_all add: idem_row_new_def)

lemma has_key_bump: "has_key j (snd (IncrementRetry t k s)) \<longleftrightarrow> j = k \<or> has_key j s"
proof (cases "select_by ik_key k s")
  case None
  then show ?thesis by (auto simp: IncrementRetry_def has_key_def)
next
  case (Some r)
  have "map ik_key (update_by ik_key k (\<lambda>r. r\<lparr>ik_retry := ik_retry r + 1\<rparr>) s) = map ik_key s"
    by (rule keys_update) simp
  then have "ik_key ` set (update_by ik_key k (\<lambda>r. r\<lparr>ik_retry := ik_retry r + 1\<rparr>) s) = ik_key ` set s"
    by (metis list.set_map)
  with Some show ?thesis by (auto simp: IncrementRetry_def has_key_def dest: select_by_Some)
qed

lemma select_by_filter: "j \<noteq> k \<Longrightarrow> select_by ik_key j (filter (\<lambda>r. ik_key r \<noteq> k) t) = select_by ik_key j t"
  by (induction t) (auto simp: select_by_Cons)

interpretation idem: key_store has_key retry_count "TryAcquire t" Release "IncrementRetry t" for t
proof
  fix j k :: string and s :: "idem_row list"
  show "fst (TryAcquire t k s) \<longleftrightarrow> \<not> has_key k s" by (simp add: TryAcquire_def has_key_def)
  show "has_key j (snd (TryAcquire t k s)) \<longleftrightarrow> j = k \<or> has_key j s" by (auto simp: TryAcquire_def has_key_def)
  show "retry_count j (snd (TryAcquire t k s)) = retry_count j s"
    using select_by_None [of ik_key j s]
    by (auto simp: TryAcquire_def retry_count_def select_by_append select_by_Cons split: option.split)
  show "has_key j (Release k s) \<longleftrightarrow> j \<noteq> k \<and> has_key j s" by (auto simp: Release_def has_key_def)
  show "j \<noteq> k \<Longrightarrow> retry_count j (Release k s) = retry_count j s"
    by (simp add: Release_def retry_count_def select_by_filter)
  show "fst (IncrementRetry t k s) = retry_count k s + 1"
    by (simp add: IncrementRetry_def retry_count_def split: option.split)
  show "retry_count j (snd (IncrementRetry t k s)) = retry_count j s + (if j = k then 1 else 0)"
    by (auto simp: IncrementRetry_def retry_count_def select_by_append select_by_Cons select_update split: option.split)
  show "has_key j (snd (IncrementRetry t k s)) \<longleftrightarrow> j = k \<or> has_key j s" by (rule has_key_bump)
qed

section \<open>One delivery\<close>

lemma lift_keeps:
  "lift_ms f s = (r, s') \<Longrightarrow> cn_keys s' = cn_keys s \<and> cn_dlq s' = cn_dlq s \<and> cn_db s' = cn_db s"
  "lift_traffic g s = (r, s') \<Longrightarrow> cn_keys s' = cn_keys s \<and> cn_dlq s' = cn_dlq s \<and> cn_db s' = cn_db s"
  by (auto simp: lift_ms_def lift_traffic_def split: prod.splits)

lemma handlers_keep:
  "handleActivated ce e s = (r, s') \<Longrightarrow> cn_keys s' = cn_keys s \<and> cn_dlq s' = cn_dlq s"
  "handleSimple fn e s = (r, s') \<Longrightarrow> cn_keys s' = cn_keys s \<and> cn_dlq s' = cn_dlq s"
  "handleTrafficExceeded ce e s = (r, s') \<Longrightarrow> cn_keys s' = cn_keys s \<and> cn_dlq s' = cn_dlq s"
  "handleTrafficReset ce e s = (r, s') \<Longrightarrow> cn_keys s' = cn_keys s \<and> cn_dlq s' = cn_dlq s"
  "handleTrafficWarning ce e s = (r, s') \<Longrightarrow> cn_keys s' = cn_keys s \<and> cn_dlq s' = cn_dlq s"
  by (auto simp: handleActivated_def handleSimple_def handleTrafficExceeded_def handleTrafficReset_def
      handleTrafficWarning_def split: sum.splits prod.splits if_splits option.splits dest: lift_keeps)

lemma charge_keeps:
  "handleChargeCompleted ce e s = (r, s') \<Longrightarrow> cn_keys s' = cn_keys s \<and> cn_dlq s' = cn_dlq s \<and> cn_ms s' = cn_ms s"
  by (auto simp: handleChargeCompleted_def Let_def split: sum.splits prod.splits if_splits payment_payload.splits)

lemma processEvent_keeps:
  "processEvent ce subject e s = (r, s') \<Longrightarrow> cn_keys s' = cn_keys s \<and> cn_dlq s' = cn_dlq s"
  unfolding processEvent_def Let_def
  by (auto split: if_splits dest: handlers_keep charge_keeps)

lemma retry_prefix [simp]: "retryKeyPrefix \<noteq> []"
  by (simp add: retryKeyPrefix_def)

lemma sendToDLQ_keeps [simp]:
  "cn_keys (sendToDLQ ce subject msg er n ev s) = cn_keys s" "cn_db (sendToDLQ ce subject msg er n ev s) = cn_db s"
  "cn_ms (sendToDLQ ce subject msg er n ev s) = cn_ms s"
  by (simp_all add: sendToDLQ_def)

text \<open>The cases of a delivery.\<close>

lemma delivery_cases:
  assumes "handleMessage ce subject msg s = (st, s')" and "wm_Payload msg = Some ev"
  defines "e \<equiv> Upcast (ce_registry ce) ev"
  defines "k \<equiv> idempotency_key subject e"
  obtains (duplicate) "st = StatusSkippedDuplicate" "s' = s" "has_key k (cn_keys s)" "\<not> env_fault ce ''try acquire''"
  | (processed) s1 where "st = StatusSuccess" "processEvent ce subject e s1 = (Inr (), s')"
      "s1 = (if env_fault ce ''try acquire'' then s else s\<lparr>cn_keys := snd (TryAcquire (env_dbnow ce) k (cn_keys s))\<rparr>)"
      "env_fault ce ''try acquire'' \<or> \<not> has_key k (cn_keys s)"
  | (failed) s1 er s2 where "processEvent ce subject e s1 = (Inl er, s2)" "handle_failure ce subject msg e er s2 = (st, s')"
      "s1 = (if env_fault ce ''try acquire'' then s else s\<lparr>cn_keys := snd (TryAcquire (env_dbnow ce) k (cn_keys s))\<rparr>)"
      "env_fault ce ''try acquire'' \<or> \<not> has_key k (cn_keys s)"
proof -
  let ?s1 = "if env_fault ce ''try acquire'' then s else s\<lparr>cn_keys := snd (TryAcquire (env_dbnow ce) k (cn_keys s))\<rparr>"
  obtain b t where t: "TryAcquire (env_dbnow ce) k (cn_keys s) = (b, t)" by force
  have b: "b \<longleftrightarrow> \<not> has_key k (cn_keys s)" using idem.acquire_new [of "env_dbnow ce" k "cn_keys s"] t by simp
  show thesis
  proof (cases "\<not> env_fault ce ''try acquire'' \<and> \<not> b")
    case True
    with assms(1,2) t b show thesis
      by (intro duplicate) (auto simp: handleMessage_def e_def k_def Let_def)
  next
    case False
    obtain r s2 where p: "processEvent ce subject e ?s1 = (r, s2)" by force
    from False assms(1,2) t p have eq: "(case r of Inl er \<Rightarrow> handle_failure ce subject msg e er s2 | Inr _ \<Rightarrow> (StatusSuccess, s2)) = (st, s')"
      by (auto simp: handleMessage_def e_def k_def Let_def split: if_splits sum.splits)
    show thesis
    proof (cases r)
      case (Inl er)
      with eq p False b show thesis by (intro failed [of ?s1 er s2]) auto
    next
      case (Inr u)
      with eq p False b show thesis by (intro processed [of ?s1]) auto
    qed
  qed
qed

text \<open>What a delivery that fails leaves in the key store.\<close>

lemma failure_result:
  assumes "handle_failure ce subject msg e er s = (st, s')" "\<not> env_fault ce ''increment retry''"
  defines "k \<equiv> idempotency_key subject e"
  shows "retry_count (retryKeyPrefix @ k) (cn_keys s') = retry_count (retryKeyPrefix @ k) (cn_keys s) + 1
    \<and> (if retry_count (retryKeyPrefix @ k) (cn_keys s) + 1 < MaxMessageRetries then st = StatusFailed
       else st = StatusDLQ)"
proof -
  let ?t = "if env_fault ce ''release key'' then cn_keys s else Release k (cn_keys s)"
  have c: "retry_count (retryKeyPrefix @ k) ?t = retry_count (retryKeyPrefix @ k) (cn_keys s)"
    by (simp add: idem.release_counter)
  obtain n t where t: "IncrementRetry (env_dbnow ce) (retryKeyPrefix @ k) ?t = (n, t)" by force
  have n: "n = retry_count (retryKeyPrefix @ k) ?t + 1" "retry_count (retryKeyPrefix @ k) t = retry_count (retryKeyPrefix @ k) ?t + 1"
    using idem.bump_value [of "env_dbnow ce" "retryKeyPrefix @ k" ?t]
      idem.bump_counter [of "retryKeyPrefix @ k" "env_dbnow ce" "retryKeyPrefix @ k" ?t] t by simp_all
  from assms(1,2) t have "(if n < MaxMessageRetries then st = StatusFailed else st = StatusDLQ) \<and> cn_keys s' = t"
    by (auto simp: handle_failure_def k_def Let_def split: if_splits)
  with n c show ?thesis by simp
qed

lemma first_keys:
  "retry_count (retryKeyPrefix @ k) (cn_keys (if b then s else s\<lparr>cn_keys := snd (TryAcquire t k (cn_keys s))\<rparr>))
     = retry_count (retryKeyPrefix @ k) (cn_keys s)"
  by (simp add: idem.acquire_counter)

lemma failure_dlq:
  assumes "handle_failure ce subject msg e er s = (st, s')" "ce_publisher ce" "\<not> env_fault ce ''publish to dlq''"
  shows "if st = StatusDLQ then \<exists>d. cn_dlq s' = cn_dlq s @ [(DLQSubjectPrefix @ subject, d)]
           \<and> dq_OriginalSubject d = subject \<and> dq_OriginalPayload d = wm_Payload msg \<and> dq_Error d = er
         else cn_dlq s' = cn_dlq s"
  using assms by (auto simp: handle_failure_def Let_def sendToDLQ_def split: if_splits prod.splits)

lemma failure_keeps:
  "handle_failure ce subject msg e er s = (st, s') \<Longrightarrow> cn_db s' = cn_db s \<and> cn_ms s' = cn_ms s \<and> st \<in> {StatusFailed, StatusDLQ}"
  by (auto simp: handle_failure_def Let_def split: if_splits prod.splits)

lemma malformed: "wm_Payload msg = None \<Longrightarrow> handleMessage ce subject msg s = (StatusDLQ, sendToDLQ ce subject msg ErrMalformed 0 None s)"
  by (simp add: handleMessage_def)

definition dead_lettered :: "string \<Rightarrow> wire_message \<Rightarrow> 'g consumer \<Rightarrow> 'g consumer \<Rightarrow> bool" where
  "dead_lettered subject msg s s' \<longleftrightarrow> (\<exists>d. cn_dlq s' = cn_dlq s @ [(DLQSubjectPrefix @ subject, d)]
     \<and> dq_OriginalSubject d = subject \<and> dq_OriginalPayload d = wm_Payload msg)"

lemma dead_lettered_same: "cn_dlq s' = cn_dlq s \<Longrightarrow> dead_lettered subject msg s' t \<longleftrightarrow> dead_lettered subject msg s t"
  by (simp add: dead_lettered_def)

text \<open>What one delivery does to the counter and the dead-letter stream.\<close>

lemma delivery_result:
  assumes h: "handleMessage ce subject msg s = (st, s')" and ev: "wm_Payload msg = Some ev"
    and ok: "\<not> env_fault ce ''increment retry''" "ce_publisher ce" "\<not> env_fault ce ''publish to dlq''"
  defines "rk \<equiv> retryKeyPrefix @ idempotency_key subject (Upcast (ce_registry ce) ev)"
  shows "(st = StatusFailed \<longrightarrow> retry_count rk (cn_keys s') = retry_count rk (cn_keys s) + 1
            \<and> retry_count rk (cn_keys s') < MaxMessageRetries)
    \<and> (if st = StatusDLQ then dead_lettered subject msg s s' else cn_dlq s' = cn_dlq s)"
  using h ev
proof (cases rule: delivery_cases)
  case duplicate
  then show ?thesis by simp
next
  case (processed s1)
  then show ?thesis using processEvent_keeps [OF processed(2)] by simp
next
  case (failed s1 er s2)
  from processEvent_keeps [OF failed(1)] failed(3)
  have k: "retry_count rk (cn_keys s2) = retry_count rk (cn_keys s)" "cn_dlq s2 = cn_dlq s"
    by (simp_all add: rk_def first_keys)
  from failure_result [OF failed(2) ok(1)] failure_dlq [OF failed(2) ok(2,3)] k
  show ?thesis unfolding rk_def dead_lettered_def by (auto split: if_splits)
qed

lemma redeliver_settles:
  assumes "wm_Payload msg = Some ev" "ces \<noteq> []"
    and "\<And>ce. ce \<in> set ces \<Longrightarrow> \<not> env_fault ce ''increment retry'' \<and> \<not> env_fault ce ''publish to dlq''
           \<and> ce_publisher ce \<and> ce_registry ce = r"
    and "MaxMessageRetries \<le> retry_count (retryKeyPrefix @ idempotency_key subject (Upcast r ev)) (cn_keys s) + int (length ces)"
  shows "fst (redeliver ces subject msg s) \<noteq> StatusFailed
    \<and> (if fst (redeliver ces subject msg s) = StatusDLQ then dead_lettered subject msg s (snd (redeliver ces subject msg s))
       else cn_dlq (snd (redeliver ces subject msg s)) = cn_dlq s)"
  using assms
proof (induction ces arbitrary: s)
  case (Cons ce ces)
  let ?rk = "retryKeyPrefix @ idempotency_key subject (Upcast r ev)"
  obtain st s' where h: "handleMessage ce subject msg s = (st, s')" by force
  have R: "(st = StatusFailed \<longrightarrow> retry_count ?rk (cn_keys s') = retry_count ?rk (cn_keys s) + 1
            \<and> retry_count ?rk (cn_keys s') < MaxMessageRetries)
    \<and> (if st = StatusDLQ then dead_lettered subject msg s s' else cn_dlq s' = cn_dlq s)"
    using delivery_result [OF h Cons.prems(1)] Cons.prems(3) [of ce] by auto
  show ?case
  proof (cases "st = StatusFailed")
    case True
    with R have c: "retry_count ?rk (cn_keys s') = retry_count ?rk (cn_keys s) + 1"
      "retry_count ?rk (cn_keys s') < MaxMessageRetries" "cn_dlq s' = cn_dlq s" by simp_all
    with Cons.prems(4) have "ces \<noteq> []" by auto
    from Cons.IH [OF Cons.prems(1) this] Cons.prems(3,4) c
    have IH: "fst (redeliver ces subject msg s') \<noteq> StatusFailed
      \<and> (if fst (redeliver ces subject msg s') = StatusDLQ then dead_lettered subject msg s' (snd (redeliver ces subject msg s'))
         else cn_dlq (snd (redeliver ces subject msg s')) = cn_dlq s')" by simp
    have eq: "redeliver (ce # ces) subject msg s = redeliver ces subject msg s'" using h True by simp
    from IH show ?thesis unfolding eq dead_lettered_same [OF c(3)] c(3) .
  next
    case False
    then have "redeliver (ce # ces) subject msg s = (st, s')" using h by (cases st) simp_all
    with R False show ?thesis by simp
  qed
qed simp

section \<open>Properties\<close>

text \<open>
  C18. Every message is settled after at most three deliveries. As long as in each of them the retry
  counter can be written, a publisher is configured, the dead-letter stream is reachable and the
  schema registry is the same, and with no negative counter stored, the third delivery at the latest
  acknowledges the message: it was processed, it was a duplicate, or it is in the dead-letter stream
  with its original payload, and only then.
\<close>

theorem every_message_is_settled:
  assumes "3 \<le> length ces" and "\<forall>x \<in> set (cn_keys s). 0 \<le> ik_retry x"
    and "\<And>ce. ce \<in> set ces \<Longrightarrow> \<not> env_fault ce ''increment retry'' \<and> \<not> env_fault ce ''publish to dlq''
           \<and> ce_publisher ce \<and> ce_registry ce = r"
  shows "acked (fst (redeliver ces subject msg s))
    \<and> (if fst (redeliver ces subject msg s) = StatusDLQ then dead_lettered subject msg s (snd (redeliver ces subject msg s))
       else cn_dlq (snd (redeliver ces subject msg s)) = cn_dlq s)"
proof (cases "wm_Payload msg")
  case None
  obtain ce ces' where ces: "ces = ce # ces'" using assms(1) by (cases ces) auto
  with None assms(3) [of ce] show ?thesis by (simp add: malformed sendToDLQ_def dead_lettered_def)
next
  case (Some ev)
  let ?rk = "retryKeyPrefix @ idempotency_key subject (Upcast r ev)"
  have "0 \<le> retry_count ?rk (cn_keys s)"
    using assms(2) by (auto simp: retry_count_def split: option.split dest: select_by_Some)
  then have "MaxMessageRetries \<le> retry_count ?rk (cn_keys s) + int (length ces)" "ces \<noteq> []"
    using assms(1) by (auto simp: MaxMessageRetries_def)
  from redeliver_settles [OF Some this(2) assms(3) this(1)] show ?thesis
    by (cases "fst (redeliver ces subject msg s)") auto
qed

text \<open>Concrete environments, with \<open>fault\<close> the refused calls.\<close>

definition sample_checkout_env :: checkout_env where
  "sample_checkout_env = \<lparr>ck_billing = sample_env 1 1, ck_allow = (\<lambda>_. Inr True), ck_validating = None, ck_creating = None,
     ck_pricing = None, ck_payment = (\<lambda>_. Inl []), ck_asyncHook = True\<rparr>"

definition sample_consumer_env :: "string \<Rightarrow> (string \<Rightarrow> bool) \<Rightarrow> nat consumer_env" where
  "sample_consumer_env pool fault = \<lparr>env_now = 1, env_dbnow = 1, env_uuid = (\<lambda>k. [char_of (65 + k)]), env_trace = [],
     env_fault = fault, ce_registry = app_registry, ce_checkout = sample_checkout_env,
     ce_msub = sample_msub_env 0 pool, ce_gateway = sample_gateway, ce_publisher = True\<rparr>"

definition sample_consumer :: "nat consumer" where
  "sample_consumer = \<lparr>cn_db = created_db, cn_ms = empty_msub, cn_keys = [], cn_dlq = [], cn_hooks = [], cn_traffic = []\<rparr>"

definition activated_message :: wire_message where
  "activated_message = \<lparr>wm_UUID = ''m'', wm_Payload =
     Some (to_wire billing_json (new_event ''e'' (SubActivated ''aA'' ''u'') 1 ''aA''))\<rparr>"

definition charge_message :: wire_message where
  "charge_message = \<lparr>wm_UUID = ''n'', wm_Payload =
     Some (to_wire payment_json (NewTyped payment_event_type ''f'' (ChargeCompleted ''P'' ''aC'' ''X'' ''V'' 570) 1 ''P''))\<rparr>"

lemma sample_consumer_env_fields [simp]:
  "env_fault (sample_consumer_env pool fault) = fault" "ce_registry (sample_consumer_env pool fault) = app_registry"
  "ce_publisher (sample_consumer_env pool fault)" "ce_msub (sample_consumer_env pool fault) = sample_msub_env 0 pool"
  "ce_gateway (sample_consumer_env pool fault) = sample_gateway" "ce_checkout (sample_consumer_env pool fault) = sample_checkout_env"
  by (simp_all add: sample_consumer_env_def)

theorem every_message_is_settled_witness:
  "let ces = replicate 3 (sample_consumer_env [] (\<lambda>_. False)); s = sample_consumer;
       r = redeliver ces ''subscription.activated'' activated_message s in
   acked (fst r) \<and> fst r = StatusDLQ \<and> dead_lettered ''subscription.activated'' activated_message s (snd r)"
proof -
  let ?ces = "replicate 3 (sample_consumer_env [] (\<lambda>_. False))"
  have dlq: "fst (redeliver ?ces ''subscription.activated'' activated_message sample_consumer) = StatusDLQ" by code_simp
  have keys: "cn_keys sample_consumer = []" by (simp add: sample_consumer_def)
  have "acked (fst (redeliver ?ces ''subscription.activated'' activated_message sample_consumer))
    \<and> (if fst (redeliver ?ces ''subscription.activated'' activated_message sample_consumer) = StatusDLQ
       then dead_lettered ''subscription.activated'' activated_message sample_consumer
         (snd (redeliver ?ces ''subscription.activated'' activated_message sample_consumer))
       else cn_dlq (snd (redeliver ?ces ''subscription.activated'' activated_message sample_consumer)) = cn_dlq sample_consumer)"
    by (rule every_message_is_settled) (simp_all add: keys)
  with dlq show ?thesis unfolding Let_def by simp
qed

section \<open>At most once\<close>

lemma idempotency_key_ID: "ev_ID ev \<noteq> [] \<Longrightarrow> idempotency_key subject (Upcast r ev) = ev_ID ev"
  by (simp add: idempotency_key_def)

lemma handleMessage_keeps_key:
  assumes "has_key k (cn_keys s)" "\<not> env_fault ce ''try acquire''"
  shows "has_key k (cn_keys (snd (handleMessage ce subject msg s)))"
proof (cases "wm_Payload msg")
  case None
  with assms show ?thesis by (simp add: malformed)
next
  case (Some ev)
  obtain st s' where h: "handleMessage ce subject msg s = (st, s')" by force
  from h Some show ?thesis
  proof (cases rule: delivery_cases)
    case duplicate
    with h assms show ?thesis by simp
  next
    case (processed s1)
    from processEvent_keeps [OF processed(2)] processed(3) assms h show ?thesis by (simp add: idem.acquire_has)
  next
    case (failed s1 er s2)
    let ?j = "idempotency_key subject (Upcast (ce_registry ce) ev)"
    from failed(4) assms have "?j \<noteq> k" by auto
    moreover have "has_key k (cn_keys s2)"
      using processEvent_keeps [OF failed(1)] failed(3) assms by (simp add: idem.acquire_has)
    ultimately have "has_key k (cn_keys s')"
      using failed(2) by (auto simp: handle_failure_def Let_def idem.release_has split: if_splits prod.splits)
        (metis idem.bump_has idem.release_has snd_conv)+
    with h show ?thesis by simp
  qed
qed

lemma consume_keeps_key:
  "has_key k (cn_keys s) \<Longrightarrow> \<forall>(ce, _, _) \<in> set ds. \<not> env_fault ce ''try acquire'' \<Longrightarrow> has_key k (cn_keys (consume ds s))"
proof (induction ds arbitrary: s)
  case (Cons d ds)
  obtain ce subject msg where d: "d = (ce, subject, msg)" by (cases d)
  with Cons.prems have "has_key k (cn_keys (snd (handleMessage ce subject msg s)))"
    by (intro handleMessage_keeps_key) auto
  from Cons.IH [OF this] Cons.prems(2) d show ?case by simp
qed simp

lemma held_key_skips:
  assumes "has_key (ev_ID ev) (cn_keys s)" "wm_Payload msg = Some ev" "ev_ID ev \<noteq> []" "\<not> env_fault ce ''try acquire''"
  shows "handleMessage ce subject msg s = (StatusSkippedDuplicate, s)"
proof -
  have "fst (TryAcquire (env_dbnow ce) (ev_ID ev) (cn_keys s)) = False"
    using assms(1) idem.acquire_new by blast
  with assms show ?thesis
    by (auto simp: handleMessage_def Let_def idempotency_key_ID split: prod.split)
qed

text \<open>
  C19. At most once, while the keys are kept. After an event with an identifier was processed by a
  delivery that acquired its key, every further delivery of a message with that event, on any subject
  and whatever was consumed in between, is skipped as a duplicate and changes nothing: as long as no
  delivery finds the key store failing (the code then goes on without a key) and no key is cleaned up
  in between (keys expire after 24 hours; deliveries alone never run the clean-up).
\<close>

theorem processed_at_most_once:
  assumes "handleMessage ce subject msg s = (StatusSuccess, s1)"
    and "wm_Payload msg = Some ev" "wm_Payload msg' = Some ev'" "ev_ID ev' = ev_ID ev" "ev_ID ev \<noteq> []"
    and "\<not> env_fault ce ''try acquire''" "\<not> env_fault ce' ''try acquire''"
    and "\<forall>(c, _, _) \<in> set ds. \<not> env_fault c ''try acquire''"
  shows "handleMessage ce' subject' msg' (consume ds s1) = (StatusSkippedDuplicate, consume ds s1)"
proof -
  have "has_key (ev_ID ev) (cn_keys s1)"
    using assms(1,2)
  proof (cases rule: delivery_cases)
    case (processed t)
    with processEvent_keeps [OF processed(2)] assms(5,6) show ?thesis
      by (simp add: idem.acquire_has idempotency_key_ID)
  next
    case (failed t er s2)
    with failure_keeps [OF failed(2)] show ?thesis by simp
  qed simp
  from consume_keeps_key [OF this assms(8)] assms show ?thesis by (intro held_key_skips [of ev']) simp_all
qed

theorem processed_at_most_once_witness:
  "\<exists>s1. handleMessage (sample_consumer_env [] (\<lambda>_. False)) ''payment.charge_completed'' charge_message sample_consumer
       = (StatusSuccess, s1)
     \<and> handleMessage (sample_consumer_env [] (\<lambda>_. False)) ''payment.charge_completed'' charge_message
         (consume [(sample_consumer_env [] (\<lambda>_. False), ''subscription.activated'', activated_message)] s1)
       = (StatusSkippedDuplicate,
          consume [(sample_consumer_env [] (\<lambda>_. False), ''subscription.activated'', activated_message)] s1)"
proof -
  let ?e = "sample_consumer_env [] (\<lambda>_. False)"
  have "fst (handleMessage ?e ''payment.charge_completed'' charge_message sample_consumer) = StatusSuccess" by code_simp
  then obtain s1 where h: "handleMessage ?e ''payment.charge_completed'' charge_message sample_consumer = (StatusSuccess, s1)"
    by (metis surj_pair fst_conv)
  from processed_at_most_once [OF h, of _ charge_message _ ?e "[(?e, ''subscription.activated'', activated_message)]" "''payment.charge_completed''"]
  have "handleMessage ?e ''payment.charge_completed'' charge_message
      (consume [(?e, ''subscription.activated'', activated_message)] s1)
    = (StatusSkippedDuplicate, consume [(?e, ''subscription.activated'', activated_message)] s1)"
    by (simp add: charge_message_def)
  with h show ?thesis by blast
qed

section \<open>Completed payments\<close>

lemma charge_result:
  assumes "handleChargeCompleted ce e s = (r, s')"
    and "UnmarshalPayload decode_ChargeCompleted e = Inr (ChargeCompleted p i x v a)"
  shows "case r of Inl _ \<Rightarrow> cn_db s' = cn_db s
    | Inr _ \<Rightarrow> \<exists>q. pay_body (ck_billing (ce_checkout ce)) i (cn_db s) = Inr (q, cn_db s')"
  using assms
  by (auto simp: handleChargeCompleted_def Let_def complete_joined_def RunInTx_ok_iff
      split: if_splits prod.splits sum.splits dest!: RunInTx_error)

lemma MarkPending_draft: "inv_Status iv = InvoiceDraft \<Longrightarrow> \<exists>w. MarkPending t iv = Inr w \<and> inv_Status w = InvoicePending
    \<and> inv_SubscriptionID w = inv_SubscriptionID iv"
  by (simp add: MarkPending_def inv_CanTransitionTo_def)

lemma MarkPaid_pending: "inv_Status iv = InvoicePending \<Longrightarrow> \<exists>w. MarkPaid e t iv = Inr w \<and> inv_SubscriptionID w = inv_SubscriptionID iv"
  by (simp add: MarkPaid_def inv_CanTransitionTo_def RecordEvent_def)

lemma publish_succeeds: "(\<And>l. \<not> env_fault env l) \<Longrightarrow> \<exists>src' d'. publish env l src d = Inr (src', d')"
  by (auto simp: publish_def PublishAll_def tx_call_def DomainEvents_def Let_def split: prod.split)

lemma payable_body:
  assumes nf: "\<And>l. \<not> env_fault env l"
    and iv: "inv_GetByID i d = Inr iv" "inv_Status iv \<in> {InvoiceDraft, InvoicePending}"
    and s: "sub_GetByID (inv_SubscriptionID iv) d = Inr s"
  shows "\<exists>p d'. pay_body env i d = Inr (p, d')"
proof -
  obtain w where w: "(if inv_Status iv = InvoiceDraft then MarkPending (env_now env) iv else Inr iv) = Inr w"
    "inv_Status w = InvoicePending" "inv_SubscriptionID w = inv_SubscriptionID iv"
    using iv(2) MarkPending_draft [of iv "env_now env"] by auto
  obtain v where v: "MarkPaid (env_uuid env 0) (env_now env) w = Inr v" "inv_SubscriptionID v = inv_SubscriptionID iv"
    using MarkPaid_pending [OF w(2)] w(3) by force
  obtain src d1 where p: "publish env ''publish invoice'' v (inv_Update (env_dbnow env) v d) = Inr (src, d1)"
    using publish_succeeds [OF nf] by blast
  have s1: "sub_GetByID (inv_SubscriptionID iv) d1 = Inr s"
    using same_publish [OF p] s by (simp add: same_subs_def)
  have "\<exists>q d'. activate_paid env (inv_SubscriptionID iv) d1 = Inr (q, d')"
  proof (cases "sub_Status s = StatusTrial \<or> sub_Status s = StatusPastDue")
    case True
    then obtain t where t: "Activate (env_uuid env 1) (env_now env) s = Inr t"
      by (auto simp: Activate_def transitionTo_def CanTransitionTo_def)
    obtain src' d2 where "publish env ''publish subscription'' t (sub_Update (env_dbnow env) t d1) = Inr (src', d2)"
      using publish_succeeds [OF nf] by blast
    with True t s1 nf show ?thesis
      by (simp add: activate_paid_def tx_bind_def get_sub_def update_sub_def db_call_def tx_call_def tx_read_def tx_write_def
          tx_lift_def tx_return_def)
  next
    case False
    with s1 nf show ?thesis
      by (simp add: activate_paid_def tx_bind_def get_sub_def db_call_def tx_call_def tx_read_def tx_return_def)
  qed
  with iv w v p nf show ?thesis
    by (auto simp: pay_body_def tx_bind_def get_inv_def update_inv_def db_call_def tx_call_def tx_read_def tx_write_def
        tx_lift_def)
qed

text \<open>The invoice is paid between two states of the database, and its subscription activated.\<close>

definition invoice_settled :: "string \<Rightarrow> db \<Rightarrow> db \<Rightarrow> bool" where
  "invoice_settled i d d' \<longleftrightarrow> (\<exists>iv iv' sb sb'. inv_GetByID i d = Inr iv \<and> inv_Status iv \<in> {InvoiceDraft, InvoicePending}
     \<and> inv_GetByID i d' = Inr iv' \<and> inv_Status iv' = InvoicePaid \<and> Amount (inv_Total iv') = Amount (inv_Total iv)
     \<and> sub_GetByID (inv_SubscriptionID iv) d = Inr sb \<and> sub_GetByID (inv_SubscriptionID iv) d' = Inr sb'
     \<and> sub_Status sb' = (if sub_Status sb \<in> {StatusTrial, StatusPastDue} then StatusActive else sub_Status sb))"

lemma pay_body_settles: "pay_body env i d = Inr (q, d') \<Longrightarrow> invoice_settled i d d'"
  unfolding invoice_settled_def by (drule pay_body_spec) blast

lemma not_held: "\<not> has_key k (cn_keys s) \<Longrightarrow> TryAcquire t k (cn_keys s) = (True, cn_keys s @ [idem_row_new t k 0])"
  by (simp add: TryAcquire_def has_key_def)

text \<open>
  C20. From payment to billing. The completion event of a payment, as it arrives at the consumer:
  a delivery that is not counted as a success leaves billing as it was; one that is finds the
  payment's invoice draft or pending, and stores it as paid with its total, its subscription
  activated if it was in trial or past due. The bindings are not touched. If nothing is refused,
  the event is new and the invoice with its subscription is stored, then the first delivery is a
  success.
\<close>

theorem completed_payment_is_settled:
  assumes h: "handleMessage ce ''payment.charge_completed'' msg s = (st, s')"
    and msg: "wm_Payload msg = Some (to_wire payment_json ev)" "ev_Data ev = ChargeCompleted p i x v a" "ev_ID ev \<noteq> []"
    and reg: "ce_registry ce (ev_Type ev) = []" and i: "i \<noteq> []"
  shows "(if st = StatusSuccess then invoice_settled i (cn_db s) (cn_db s') else cn_db s' = cn_db s)
    \<and> cn_ms s' = cn_ms s
    \<and> ((\<forall>l. \<not> env_fault ce l) \<and> (\<forall>l. \<not> env_fault (ck_billing (ce_checkout ce)) l)
         \<and> ev_ID ev \<notin> ik_key ` set (cn_keys s)
         \<and> (\<exists>iv sb. inv_GetByID i (cn_db s) = Inr iv \<and> inv_Status iv \<in> {InvoiceDraft, InvoicePending}
              \<and> sub_GetByID (inv_SubscriptionID iv) (cn_db s) = Inr sb)
       \<longrightarrow> st = StatusSuccess)"
proof -
  let ?e = "to_wire payment_json ev"
  have up: "Upcast (ce_registry ce) ?e = ?e" using reg by simp
  have dec: "UnmarshalPayload decode_ChargeCompleted ?e = Inr (ChargeCompleted p i x v a)"
    using msg(2) charge_completed_roundtrip [of p i x v a] by simp
  have ev: "processEvent ce ''payment.charge_completed'' ?e t = handleChargeCompleted ce ?e t" for t
    by (simp add: processEvent_def)
  have main: "(if st = StatusSuccess then \<exists>q. pay_body (ck_billing (ce_checkout ce)) i (cn_db s) = Inr (q, cn_db s')
      else cn_db s' = cn_db s) \<and> cn_ms s' = cn_ms s"
    using h msg(1)
  proof (cases rule: delivery_cases)
    case duplicate
    then show ?thesis by simp
  next
    case (processed s1)
    from processed(2) have "handleChargeCompleted ce ?e s1 = (Inr (), s')" by (simp add: up ev)
    note r = charge_result [OF this dec] charge_keeps [OF this]
    have "cn_db s1 = cn_db s" "cn_ms s1 = cn_ms s" using processed(3) by simp_all
    with r processed(1) show ?thesis by simp
  next
    case (failed s1 er s2)
    from failed(1) have "handleChargeCompleted ce ?e s1 = (Inl er, s2)" by (simp add: up ev)
    note r = charge_result [OF this dec] charge_keeps [OF this] failure_keeps [OF failed(2)]
    have "cn_db s1 = cn_db s" "cn_ms s1 = cn_ms s" using failed(3) by simp_all
    with r show ?thesis by auto
  qed
  have "st = StatusSuccess" if nf: "\<And>l. \<not> env_fault ce l" "\<And>l. \<not> env_fault (ck_billing (ce_checkout ce)) l"
    and new: "ev_ID ev \<notin> ik_key ` set (cn_keys s)"
    and iv: "inv_GetByID i (cn_db s) = Inr iv" "inv_Status iv \<in> {InvoiceDraft, InvoicePending}"
      "sub_GetByID (inv_SubscriptionID iv) (cn_db s) = Inr sb" for iv sb
  proof -
    obtain q d' where "pay_body (ck_billing (ce_checkout ce)) i (cn_db s) = Inr (q, d')"
      using payable_body [OF nf(2) iv] by blast
    then have "\<exists>t'. handleChargeCompleted ce ?e t = (Inr (), t')" if "cn_db t = cn_db s" for t
      using that nf(1) i by (auto simp: handleChargeCompleted_def Let_def dec complete_joined_def tx_bind_def RunInTx_def)
    then obtain t' where "handleChargeCompleted ce ?e (s\<lparr>cn_keys := cn_keys s @ [idem_row_new (env_dbnow ce) (ev_ID ev) 0]\<rparr>) = (Inr (), t')"
      by force
    with h msg(1,3) nf(1) new show ?thesis
      by (simp add: handleMessage_def up Let_def idempotency_key_def not_held has_key_def ev)
  qed
  moreover have "if st = StatusSuccess then invoice_settled i (cn_db s) (cn_db s') else cn_db s' = cn_db s"
    using main by (auto dest: pay_body_settles)
  ultimately show ?thesis using main by blast
qed

theorem completed_payment_is_settled_witness:
  "\<exists>s'. handleMessage (sample_consumer_env [] (\<lambda>_. False)) ''payment.charge_completed'' charge_message sample_consumer
        = (StatusSuccess, s')
      \<and> invoice_settled ''aC'' (cn_db sample_consumer) (cn_db s') \<and> cn_ms s' = cn_ms sample_consumer"
proof -
  let ?e = "sample_consumer_env [] (\<lambda>_. False)"
  have ok: "fst (handleMessage ?e ''payment.charge_completed'' charge_message sample_consumer) = StatusSuccess" by code_simp
  then obtain s' where h: "handleMessage ?e ''payment.charge_completed'' charge_message sample_consumer = (StatusSuccess, s')"
    by (metis surj_pair fst_conv)
  from completed_payment_is_settled [OF h, of "NewTyped payment_event_type ''f'' (ChargeCompleted ''P'' ''aC'' ''X'' ''V'' 570) 1 ''P''"
      "''P''" "''aC''" "''X''" "''V''" 570] h
  show ?thesis by (simp add: charge_message_def app_registry_simps)
qed

section \<open>Deadlines\<close>

text \<open>
  C21. A handler that outlives the deadline of its message loses the event. When the context of the
  message has expired, the key can neither be released nor the attempt be counted; the message goes
  back to the broker, and every redelivery is acknowledged as a duplicate: the event is neither
  processed nor dead-lettered.
\<close>

theorem deadline_loses_the_event:
  assumes h: "handleMessage ce subject msg s = (st, s1)" "st \<noteq> StatusSuccess"
    and ev: "wm_Payload msg = Some ev" "ev_ID ev \<noteq> []" "ev_ID ev \<notin> ik_key ` set (cn_keys s)"
    and f: "\<not> env_fault ce ''try acquire''" "env_fault ce ''release key''" "env_fault ce ''increment retry''"
    and f': "\<not> env_fault ce' ''try acquire''"
  shows "\<not> acked st \<and> handleMessage ce' subject msg s1 = (StatusSkippedDuplicate, s1) \<and> acked StatusSkippedDuplicate
    \<and> cn_dlq s1 = cn_dlq s"
  using h(1) ev(1)
proof (cases rule: delivery_cases)
  case duplicate
  with ev f show ?thesis by (simp add: has_key_def idempotency_key_ID)
next
  case (processed t)
  with h show ?thesis by simp
next
  case (failed t er s2)
  have k: "cn_keys s2 = snd (TryAcquire (env_dbnow ce) (ev_ID ev) (cn_keys s))" "cn_dlq s2 = cn_dlq s"
    using processEvent_keeps [OF failed(1)] failed(3) f(1) ev(2) by (simp_all add: idempotency_key_ID)
  have "st = StatusFailed" "s1 = s2" using failed(2) f by (simp_all add: handle_failure_def Let_def)
  with k held_key_skips [OF _ ev(1,2) f', of s2 subject] show ?thesis by (simp add: idem.acquire_has)
qed

theorem deadline_loses_the_event_witness:
  "\<exists>s1. handleMessage (sample_consumer_env [] (\<lambda>l. l \<noteq> ''try acquire'')) ''payment.charge_completed'' charge_message sample_consumer
       = (StatusFailed, s1)
    \<and> handleMessage (sample_consumer_env [] (\<lambda>_. False)) ''payment.charge_completed'' charge_message s1
       = (StatusSkippedDuplicate, s1)"
proof -
  let ?e = "sample_consumer_env [] (\<lambda>l. l \<noteq> ''try acquire'')" and ?f = "sample_consumer_env [] (\<lambda>_. False)"
  have st: "fst (handleMessage ?e ''payment.charge_completed'' charge_message sample_consumer) = StatusFailed" by code_simp
  then obtain s1 where h: "handleMessage ?e ''payment.charge_completed'' charge_message sample_consumer = (StatusFailed, s1)"
    by (metis surj_pair fst_conv)
  have "cn_keys sample_consumer = []" by (simp add: sample_consumer_def)
  from deadline_loses_the_event [OF h, of _ ?f] this h show ?thesis by (simp add: charge_message_def)
qed

section \<open>Events that can never be handled\<close>

text \<open>
  If every attempt at an event fails, the message is dead-lettered, and what the attempts keep of
  the state is kept.
\<close>

lemma failing_delivery:
  assumes ev: "wm_Payload msg = Some ev"
    and new: "\<not> has_key (idempotency_key subject (Upcast r ev)) (cn_keys s)"
    and ce: "\<not> env_fault ce ''release key''" "ce_registry ce = r"
    and fails: "\<And>t res t'. f t = f s \<Longrightarrow> processEvent ce subject (Upcast r ev) t = (res, t') \<Longrightarrow> (\<exists>er. res = Inl er) \<and> f t' = f t"
    and keys: "\<And>t k. f (t\<lparr>cn_keys := k\<rparr>) = f t"
    and dlq: "\<And>t d. f (t\<lparr>cn_dlq := d\<rparr>) = f t"
    and h: "handleMessage ce subject msg s = (st, s')"
  shows "st \<in> {StatusFailed, StatusDLQ} \<and> f s' = f s \<and> \<not> has_key (idempotency_key subject (Upcast r ev)) (cn_keys s')"
  using h ev
proof (cases rule: delivery_cases)
  case duplicate
  with new ce show ?thesis by simp
next
  case (processed s1)
  have "f s1 = f s" using processed(3) keys by auto
  with fails [of s1 "Inr ()" s'] processed ce(2) show ?thesis by simp
next
  case (failed s1 er s2)
  let ?k = "idempotency_key subject (Upcast r ev)"
  have f1: "f s1 = f s" using failed(3) keys by auto
  have f2: "f s2 = f s1" using fails [OF f1] failed(1) ce(2) by blast
  have "f s' = f s2 \<and> \<not> has_key ?k (cn_keys s')"
    using failed(2) ce keys dlq
    by (auto simp: handle_failure_def sendToDLQ_def Let_def idem.release_has split: if_splits prod.splits)
      (metis append_self_conv2 idem.bump_has idem.release_has retry_prefix snd_conv)+
  with f1 f2 failure_keeps [OF failed(2)] show ?thesis by simp
qed

lemma failing_is_dead_lettered:
  assumes "wm_Payload msg = Some ev" "\<not> has_key (idempotency_key subject (Upcast r ev)) (cn_keys s)"
    and "\<And>ce. ce \<in> set ces \<Longrightarrow> \<not> env_fault ce ''release key'' \<and> ce_registry ce = r"
    and "\<And>ce t res t'. ce \<in> set ces \<Longrightarrow> f t = f s \<Longrightarrow> processEvent ce subject (Upcast r ev) t = (res, t')
           \<Longrightarrow> (\<exists>er. res = Inl er) \<and> f t' = f t"
    and keys: "\<And>t k. f (t\<lparr>cn_keys := k\<rparr>) = f t"
    and dlq: "\<And>t d. f (t\<lparr>cn_dlq := d\<rparr>) = f t"
  shows "fst (redeliver ces subject msg s) \<in> {StatusFailed, StatusDLQ} \<and> f (snd (redeliver ces subject msg s)) = f s"
  using assms(1-4)
proof (induction ces arbitrary: s)
  case (Cons ce ces)
  obtain st s' where h: "handleMessage ce subject msg s = (st, s')" by force
  have D: "st \<in> {StatusFailed, StatusDLQ} \<and> f s' = f s \<and> \<not> has_key (idempotency_key subject (Upcast r ev)) (cn_keys s')"
  proof (rule failing_delivery [where f = f, OF Cons.prems(1,2) _ _ _ keys dlq h])
    show "\<not> env_fault ce ''release key''" "ce_registry ce = r" using Cons.prems(3) [of ce] by simp_all
    show "(\<exists>er. res = Inl er) \<and> f t' = f t" if "f t = f s" "processEvent ce subject (Upcast r ev) t = (res, t')" for t res t'
      by (rule Cons.prems(4) [OF _ that]) simp
  qed
  have "fst (redeliver ces subject msg s') \<in> {StatusFailed, StatusDLQ} \<and> f (snd (redeliver ces subject msg s')) = f s'"
  proof (rule Cons.IH [OF Cons.prems(1)])
    show "\<not> has_key (idempotency_key subject (Upcast r ev)) (cn_keys s')" using D by blast
    show "\<not> env_fault c ''release key'' \<and> ce_registry c = r" if "c \<in> set ces" for c
      by (rule Cons.prems(3)) (simp add: that)
    show "(\<exists>er. res = Inl er) \<and> f t' = f t"
      if "c \<in> set ces" "f t = f s'" "processEvent c subject (Upcast r ev) t = (res, t')" for c t res t'
      by (rule Cons.prems(4) [OF _ _ that(3)]) (use that D in simp_all)
  qed
  with h D show ?case by auto
qed simp

text \<open>The attempts and the end of the redeliveries together.\<close>

lemma failing_ends_in_dlq:
  assumes n: "3 \<le> length ces" and pos: "\<forall>x \<in> set (cn_keys s). 0 \<le> ik_retry x"
    and ev: "wm_Payload msg = Some ev" "\<not> has_key (idempotency_key subject (Upcast r ev)) (cn_keys s)"
    and ce: "\<And>ce. ce \<in> set ces \<Longrightarrow> \<not> env_fault ce ''release key'' \<and> \<not> env_fault ce ''increment retry''
           \<and> \<not> env_fault ce ''publish to dlq'' \<and> ce_publisher ce \<and> ce_registry ce = r"
    and fails: "\<And>ce t res t'. ce \<in> set ces \<Longrightarrow> f t = f s \<Longrightarrow> processEvent ce subject (Upcast r ev) t = (res, t')
           \<Longrightarrow> (\<exists>er. res = Inl er) \<and> f t' = f t"
    and keys: "\<And>t k. f (t\<lparr>cn_keys := k\<rparr>) = f t"
    and dlq: "\<And>t d. f (t\<lparr>cn_dlq := d\<rparr>) = f t"
  shows "fst (redeliver ces subject msg s) = StatusDLQ \<and> dead_lettered subject msg s (snd (redeliver ces subject msg s))
    \<and> f (snd (redeliver ces subject msg s)) = f s"
proof -
  let ?rk = "retryKeyPrefix @ idempotency_key subject (Upcast r ev)"
  have "0 \<le> retry_count ?rk (cn_keys s)"
    using pos by (auto simp: retry_count_def split: option.split dest: select_by_Some)
  then have m: "MaxMessageRetries \<le> retry_count ?rk (cn_keys s) + int (length ces)" "ces \<noteq> []"
    using n by (auto simp: MaxMessageRetries_def)
  have "fst (redeliver ces subject msg s) \<in> {StatusFailed, StatusDLQ} \<and> f (snd (redeliver ces subject msg s)) = f s"
    using ce by (intro failing_is_dead_lettered [where f = f, OF ev _ fails keys dlq]) auto
  moreover have "fst (redeliver ces subject msg s) \<noteq> StatusFailed
    \<and> (if fst (redeliver ces subject msg s) = StatusDLQ then dead_lettered subject msg s (snd (redeliver ces subject msg s))
       else cn_dlq (snd (redeliver ces subject msg s)) = cn_dlq s)"
    using ce by (intro redeliver_settles [OF ev(1) m(2) _ m(1)]) auto
  ultimately show ?thesis by (auto split: if_splits)
qed

definition bindings_view :: "'g consumer \<Rightarrow> db \<times> binding_row list \<times> 'g \<times> binding_payload event list" where
  "bindings_view s = (cn_db s, ms_bindings (cn_ms s), ms_panel (cn_ms s), ms_outbox (cn_ms s))"

lemma bindings_view_keys [simp]:
  "bindings_view (t\<lparr>cn_keys := k\<rparr>) = bindings_view t" "bindings_view (t\<lparr>cn_dlq := d\<rparr>) = bindings_view t"
  by (simp_all add: bindings_view_def)

text \<open>
  C13. No activation gets through. While no stored binding is active (and none is ever stored, by
  C11), the activation event of any subscription that the lookups do not call terminal fails on every
  delivery, in every tenant scope and with any panel. With a key that is free, a releasable key, a
  writable retry counter and a reachable dead-letter stream, three deliveries put it into that
  stream, and billing, bindings, panel and binding outbox are as they were: a paid subscription
  stays without access.
\<close>

theorem activation_is_dead_lettered:
  assumes "3 \<le> length ces" "\<forall>x \<in> set (cn_keys s). 0 \<le> ik_retry x"
    and "wm_Payload msg = Some (to_wire billing_json ev)" "ev_Data ev = SubActivated i u" "ev_Type ev = ''subscription.activated''"
    and "ev_ID ev \<noteq> []" "ev_ID ev \<notin> ik_key ` set (cn_keys s)"
    and ce: "\<And>ce. ce \<in> set ces \<Longrightarrow> \<not> env_fault ce ''release key'' \<and> \<not> env_fault ce ''increment retry''
           \<and> \<not> env_fault ce ''publish to dlq'' \<and> ce_publisher ce \<and> ce_registry ce = app_registry"
    and none: "\<forall>r \<in> set (ms_bindings (cn_ms s)). br_status r \<noteq> BindingActive"
    and live: "\<And>ce j info. ce \<in> set ces \<Longrightarrow> me_subs (ce_msub ce) j = Inr info \<Longrightarrow> \<not> IsTerminal (si_Status info)"
  shows "fst (redeliver ces ''subscription.activated'' msg s) = StatusDLQ
    \<and> dead_lettered ''subscription.activated'' msg s (snd (redeliver ces ''subscription.activated'' msg s))
    \<and> bindings_view (snd (redeliver ces ''subscription.activated'' msg s)) = bindings_view s"
proof (rule failing_ends_in_dlq [where f = bindings_view and ces = ces, OF assms(1,2,3) _ ce])
  show "\<not> has_key (idempotency_key ''subscription.activated'' (Upcast app_registry (to_wire billing_json ev))) (cn_keys s)"
    using assms(6,7) by (simp add: has_key_def idempotency_key_ID)
next
  fix ce res and t t' :: "'a consumer"
  assume c: "ce \<in> set ces" and same: "bindings_view t = bindings_view s"
    and p: "processEvent ce ''subscription.activated'' (Upcast app_registry (to_wire billing_json ev)) t = (res, t')"
  let ?e = "Upcast app_registry (to_wire billing_json ev)"
  have d: "\<exists>fs. ev_Data ?e = JObj fs"
    using assms(4,5) by (auto simp: Upcast_def split: prod.split)
  have b: "bd_GetActiveBySubscriptionID guc j (cn_ms t) = []" for guc j
    using same none by (auto simp: bindings_view_def bd_GetActiveBySubscriptionID_def br_rows_def filter_empty_conv)
  have lifted: "\<exists>er m. lift_ms (OnSubscriptionActivated [] (ce_gateway ce) (ce_msub ce) req) t = (Inl er, m)
      \<and> bindings_view m = bindings_view t" for req
  proof -
    obtain r m where run: "OnSubscriptionActivated [] (ce_gateway ce) (ce_msub ce) req (cn_ms t) = (r, m)" by force
    with Activated_refused [OF run] b live [OF c] Activated_keeps [OF run] show ?thesis
      by (auto simp: lift_ms_def bindings_view_def)
  qed
  from p have "handleActivated ce ?e t = (res, t')" by (simp add: processEvent_def)
  with d show "(\<exists>er. res = Inl er) \<and> bindings_view t' = bindings_view t"
    unfolding handleActivated_def
    by (auto split: sum.splits prod.splits if_splits) (metis Pair_inject lifted)+
qed simp_all

theorem activation_is_dead_lettered_witness:
  "let ces = replicate 3 (sample_consumer_env PlatformScopeSentinel (\<lambda>_. False)); s = sample_consumer;
       r = redeliver ces ''subscription.activated'' activated_message s in
   fst r = StatusDLQ \<and> dead_lettered ''subscription.activated'' activated_message s (snd r)
   \<and> bindings_view (snd r) = bindings_view s"
  unfolding Let_def
proof (rule activation_is_dead_lettered)
  show "wm_Payload activated_message = Some (to_wire billing_json (new_event ''e'' (SubActivated ''aA'' ''u'') 1 ''aA''))"
    by (simp add: activated_message_def)
qed (auto simp: sample_consumer_def sample_msub_env_def tx_env.defs IsTerminal_def empty_msub_def)

lemma webhook_event_fields [simp]:
  "ev_ID (webhook_event p) = []" "ev_Type (webhook_event p) = []" "ev_Data (webhook_event p) = wp_Data p"
  by (simp_all add: webhook_event_def)

lemma unnamed_upcast [simp]: "Upcast app_registry (webhook_event p) = webhook_event p"
  by (rule Upcast_none) (simp add: app_registry_simps)

text \<open>
  The traffic events of the panel are never handled. What the webhook endpoint publishes under a
  traffic subject is the panel's own payload, whose data names no binding: after three deliveries
  it is in the dead-letter stream, and no binding was limited or unlimited and no notification sent.
\<close>

theorem panel_traffic_is_dead_lettered:
  assumes "3 \<le> length ces" "\<forall>x \<in> set (cn_keys s). 0 \<le> ik_retry x"
    and w: "webhook_message u p = (subject, msg)"
      "subject \<in> {''binding.traffic_exceeded'', ''subscription.traffic_cycle_reset'', ''subscription.traffic_warning''}"
    and data: "wp_Data p = JObj fs" "map_of fs ''binding_id'' = None"
    and new: "idempotency_key subject (webhook_event p) \<notin> ik_key ` set (cn_keys s)"
    and ce: "\<And>ce. ce \<in> set ces \<Longrightarrow> \<not> env_fault ce ''release key'' \<and> \<not> env_fault ce ''increment retry''
           \<and> \<not> env_fault ce ''publish to dlq'' \<and> ce_publisher ce \<and> ce_registry ce = app_registry"
  shows "fst (redeliver ces subject msg s) = StatusDLQ \<and> dead_lettered subject msg s (snd (redeliver ces subject msg s))
    \<and> cn_db (snd (redeliver ces subject msg s)) = cn_db s \<and> cn_ms (snd (redeliver ces subject msg s)) = cn_ms s
    \<and> cn_traffic (snd (redeliver ces subject msg s)) = cn_traffic s"
proof -
  let ?f = "\<lambda>s :: 'a consumer. (cn_db s, cn_ms s, cn_traffic s)"
  have msg: "wm_Payload msg = Some (webhook_event p)" using w(1) by (auto simp: webhook_message_def)
  have no: "str_field ''binding_id'' fs = Inr []" using data(2) by (simp add: str_field_def)
  have "fst (redeliver ces subject msg s) = StatusDLQ \<and> dead_lettered subject msg s (snd (redeliver ces subject msg s))
    \<and> ?f (snd (redeliver ces subject msg s)) = ?f s"
  proof (rule failing_ends_in_dlq [where f = ?f and ces = ces, OF assms(1,2) msg _ ce])
    show "\<not> has_key (idempotency_key subject (Upcast app_registry (webhook_event p))) (cn_keys s)"
      using new by (simp add: has_key_def)
  next
    fix ce res and t t' :: "'a consumer"
    assume p: "processEvent ce subject (Upcast app_registry (webhook_event p)) t = (res, t')"
    then show "(\<exists>er. res = Inl er) \<and> ?f t' = ?f t"
      using w(2) data(1) no
      by (auto simp: processEvent_def handleTrafficExceeded_def handleTrafficReset_def handleTrafficWarning_def
          decode_traffic_def decode_trafficWarning_def decode_BindingWebhook_def require_ids_def traffic_payload.defs
          split: sum.splits prod.splits option.splits if_splits)
  qed simp_all
  then show ?thesis by simp
qed

text \<open>A user of the panel that ran out of traffic.\<close>

definition limited_webhook :: webhook_payload where
  "limited_webhook = \<lparr>wp_Scope = ''user'', wp_Event = ''limited'', wp_Timestamp = 1,
     wp_Data = JObj [(''uuid'', JStr ''r''), (''username'', JStr ''p_u_base_0''), (''status'', JStr ''LIMITED'')],
     wp_Meta = \<lparr>wb_Expiration = None, wb_NotConnectedAfterHours = None\<rparr>\<rparr>"

theorem panel_traffic_is_dead_lettered_witness:
  "let ces = replicate 3 (sample_consumer_env [] (\<lambda>_. False)); s = sample_consumer; m = webhook_message ''w'' limited_webhook;
       r = redeliver ces (fst m) (snd m) s in
   fst m = ''binding.traffic_exceeded'' \<and> fst r = StatusDLQ \<and> cn_ms (snd r) = cn_ms s"
proof -
  let ?m = "webhook_message ''w'' limited_webhook" and ?ces = "replicate 3 (sample_consumer_env [] (\<lambda>_. False))"
  have sub: "fst ?m = ''binding.traffic_exceeded''" by code_simp
  then obtain msg where m: "?m = (''binding.traffic_exceeded'', msg)" by (metis prod.collapse)
  have keys: "cn_keys sample_consumer = []" by (simp add: sample_consumer_def)
  have data: "wp_Data limited_webhook = JObj [(''uuid'', JStr ''r''), (''username'', JStr ''p_u_base_0''), (''status'', JStr ''LIMITED'')]"
    by (simp add: limited_webhook_def)
  from panel_traffic_is_dead_lettered [of ?ces sample_consumer, OF _ _ m _ data]
  show ?thesis unfolding Let_def m by (simp add: keys)
qed

section \<open>Histories\<close>

text \<open>What one handler does: bindings evolve, and the billing database takes at most one payment.\<close>

definition db_step :: "db \<Rightarrow> db \<Rightarrow> bool" where
  "db_step d d' \<longleftrightarrow> (db_inv d \<longrightarrow> db_inv d') \<and> (\<exists>es. db_outbox d' = db_outbox d @ es)"

definition histories :: "'g consumer \<Rightarrow> 'g consumer \<Rightarrow> bool" where
  "histories s s' \<longleftrightarrow> evolves (cn_ms s) (cn_ms s') \<and> db_step (cn_db s) (cn_db s')"

lemma db_step_refl [simp]: "db_step d d"
  by (simp add: db_step_def)

lemma db_step_trans: "db_step a b \<Longrightarrow> db_step b c \<Longrightarrow> db_step a c"
  unfolding db_step_def by (metis append_assoc)

lemma db_step_pay:
  assumes b: "pay_body env i d = Inr (q, d')" shows "db_step d d'"
proof -
  have g: "tx_post (\<lambda>x. \<exists>es. db_outbox x = db_outbox d @ es) (pay_body env i) (\<lambda>_. True)"
    using grows_bodies(3) [of env i] by (simp add: grows_def body_keeps_def)
  have "\<exists>es. db_outbox d' = db_outbox d @ es" using tx_postD [OF g _ b] by simp
  moreover have "db_inv d \<longrightarrow> db_inv d'" using db_inv_pay [of env i] b by (auto simp: body_keeps_def dest: tx_postD)
  ultimately show ?thesis by (simp add: db_step_def)
qed

lemma histories_refl [simp]: "histories s s"
  by (simp add: histories_def)

lemma histories_trans: "histories a b \<Longrightarrow> histories b c \<Longrightarrow> histories a c"
  by (auto simp: histories_def intro: evolves_trans db_step_trans)

lemma histories_other:
  "cn_ms s' = cn_ms s \<Longrightarrow> cn_db s' = cn_db s \<Longrightarrow> histories s s'"
  by (simp add: histories_def)

lemma histories_ms: "lift_ms f s = (q, s') \<Longrightarrow> (\<And>m. evolves m (snd (f m))) \<Longrightarrow> histories s s'"
  by (auto simp: lift_ms_def histories_def split: prod.splits) (metis snd_conv)

lemma histories_traffic: "lift_traffic f s = (q, s') \<Longrightarrow> (\<And>m. evolves m (fst (snd (f m)))) \<Longrightarrow> histories s s'"
  by (auto simp: lift_traffic_def histories_def split: prod.splits) (metis fst_conv snd_conv)

lemma histories_activated:
  assumes "handleActivated ce e s = (r, s')"
  shows "histories s s'"
  using assms histories_ms [OF _ Activated_evolves]
  by (auto simp: handleActivated_def split: sum.splits prod.splits if_splits)

lemma histories_simple:
  assumes "handleSimple fn e s = (r, s')" "\<And>i m. evolves m (snd (fn i m))"
  shows "histories s s'"
  using assms(1) histories_ms [OF _ assms(2)] by (auto simp: handleSimple_def split: sum.splits if_splits)

lemma histories_exceeded: "handleTrafficExceeded ce e s = (r, s') \<Longrightarrow> histories s s'"
  using histories_traffic [OF _ Traffic_evolves(1)]
  by (auto simp: handleTrafficExceeded_def split: sum.splits option.splits)

lemma histories_reset: "handleTrafficReset ce e s = (r, s') \<Longrightarrow> histories s s'"
  using histories_traffic [OF _ Traffic_evolves(2)]
  by (auto simp: handleTrafficReset_def split: sum.splits option.splits)

lemma histories_warning: "handleTrafficWarning ce e s = (r, s') \<Longrightarrow> histories s s'"
  by (auto simp: handleTrafficWarning_def histories_other split: sum.splits option.splits)

lemma histories_charge:
  assumes h: "handleChargeCompleted ce e s = (r, s')"
  shows "histories s s'"
proof -
  have "cn_db s' = cn_db s \<or> (\<exists>i q. pay_body (ck_billing (ce_checkout ce)) i (cn_db s) = Inr (q, cn_db s'))"
    using h by (auto simp: handleChargeCompleted_def Let_def complete_joined_def RunInTx_ok_iff
        split: if_splits prod.splits sum.splits payment_payload.splits dest!: RunInTx_error)
  then show ?thesis using charge_keeps [OF h] by (auto simp: histories_def dest: db_step_pay)
qed

lemma processEvent_histories:
  assumes "processEvent ce subject e s = (r, s')"
  shows "histories s s'"
proof -
  note simple = histories_simple [OF _ Cancelled_evolves] histories_simple [OF _ lifecycle_evolves(1)]
    histories_simple [OF _ lifecycle_evolves(2)]
  show ?thesis
    using assms unfolding processEvent_def Let_def OnSubscriptionPaused_def OnSubscriptionResumed_def
    by (auto split: if_splits intro: histories_activated simple histories_charge histories_exceeded
        histories_reset histories_warning)
qed

lemma handleMessage_histories: "histories s (snd (handleMessage ce subject msg s))"
proof (cases "wm_Payload msg")
  case None
  then show ?thesis by (simp add: malformed histories_other)
next
  case (Some ev)
  obtain st s' where h: "handleMessage ce subject msg s = (st, s')" by force
  from h Some show ?thesis
  proof (cases rule: delivery_cases)
    case duplicate
    with h show ?thesis by simp
  next
    case (processed s1)
    have "histories s s1" using processed(3) by (simp add: histories_other)
    with histories_trans [OF _ processEvent_histories [OF processed(2)]] h show ?thesis by simp
  next
    case (failed s1 er s2)
    have "histories s s1" using failed(3) by (simp add: histories_other)
    moreover have "histories s2 s'" using failure_keeps [OF failed(2)] by (simp add: histories_other)
    ultimately show ?thesis
      using h processEvent_histories [OF failed(1)] by (auto intro: histories_trans)
  qed
qed

lemma consume_histories: "histories s (consume ds s)"
proof (induction ds arbitrary: s)
  case (Cons d ds)
  obtain ce subject msg where d: "d = (ce, subject, msg)" by (cases d)
  from histories_trans [OF handleMessage_histories Cons.IH] d show ?case by simp
qed simp

text \<open>
  C22. Billing and bindings under any stream of events. Whatever messages arrive, in whatever order,
  repeated or malformed, and with whatever faults: the stored subscriptions and invoices stay valid,
  the bindings stay valid with unique identifiers, and both outboxes only grow.
\<close>

theorem deliveries_keep_the_state:
  assumes "db_inv (cn_db s)" "ms_inv (cn_ms s)"
  shows "db_inv (cn_db (consume ds s)) \<and> ms_inv (cn_ms (consume ds s))
    \<and> (\<exists>es. db_outbox (cn_db (consume ds s)) = db_outbox (cn_db s) @ es)
    \<and> (\<exists>es. ms_outbox (cn_ms (consume ds s)) = ms_outbox (cn_ms s) @ es)"
  using consume_histories [of s ds] assms
  by (auto simp: histories_def db_step_def dest: evolves_inv evolves_outbox)

theorem deliveries_keep_the_state_witness:
  "let s = consume [(sample_consumer_env PlatformScopeSentinel (\<lambda>_. False), ''payment.charge_completed'', charge_message),
       (sample_consumer_env PlatformScopeSentinel (\<lambda>_. False), ''subscription.activated'', activated_message)] sample_consumer
   in db_inv (cn_db s) \<and> ms_inv (cn_ms s) \<and> (\<exists>es. ms_outbox (cn_ms s) = ms_outbox (cn_ms sample_consumer) @ es)"
  using deliveries_keep_the_state [of sample_consumer
    "[(sample_consumer_env PlatformScopeSentinel (\<lambda>_. False), ''payment.charge_completed'', charge_message),
      (sample_consumer_env PlatformScopeSentinel (\<lambda>_. False), ''subscription.activated'', activated_message)]"]
  by (simp add: Let_def sample_consumer_def created_db_inv empty_msub_inv)

end
