(* ===== verification/Reseller.thy ===== *)
theory Reseller
  imports Scope
begin

text \<open>
  The reseller context: \<open>internal/domain/reseller\<close> (its value objects, the aggregates \<open>Tenant\<close>,
  \<open>ResellerAccount\<close> and \<open>Commission\<close>, their events and errors) and the mapping of its errors to the
  API. Randomness and SHA-256 are parameters; hexadecimal text is computed. Lemmas: the amount of a
  commission over the integers, and a commission honours the aggregate contract.
\<close>

section \<open>Errors and their API codes (errors.go, errors_api.go)\<close>

datatype reseller_error =
    ErrInvalidCommissionRate | ErrCommissionAlreadyPaid | ErrCommissionOverflow
  | ErrTenantAlreadyInactive | ErrTenantAlreadyActive
  | ErrResourceNotFound | ErrTenantNotFound | ErrTenantAlreadyExists | ErrResellerNotFound
  | ErrResellerAlreadyExists | ErrCommissionNotFound | ErrCommissionAlreadyExists
  | ErrInvalidAPIKey | ErrTenantInactive | ErrDuplicateDomain
  | ErrShopBotNotFound | ErrEncryptionNotConfigured | ErrShopBotInvalidToken
  | ErrShopBotInvalidCabinetURL | ErrShopBotInvalidPlugin | ErrShopBotTokenInUse
  | ErrResellerStorage string

text \<open>The code and HTTP status of an API error; an error without a case is no reseller error.\<close>

fun reseller_MapToAPIError :: "reseller_error \<Rightarrow> (string \<times> nat) option" where
  "reseller_MapToAPIError ErrTenantAlreadyExists = Some (''RESELLER.TENANT_ALREADY_EXISTS'', 409)"
| "reseller_MapToAPIError ErrResellerAlreadyExists = Some (''RESELLER.ACCOUNT_ALREADY_EXISTS'', 409)"
| "reseller_MapToAPIError ErrCommissionAlreadyExists = Some (''RESELLER.COMMISSION_ALREADY_EXISTS'', 409)"
| "reseller_MapToAPIError ErrTenantNotFound = Some (''RESELLER.TENANT_NOT_FOUND'', 404)"
| "reseller_MapToAPIError ErrResellerNotFound = Some (''RESELLER.ACCOUNT_NOT_FOUND'', 404)"
| "reseller_MapToAPIError ErrCommissionNotFound = Some (''RESELLER.COMMISSION_NOT_FOUND'', 404)"
| "reseller_MapToAPIError ErrInvalidCommissionRate = Some (''RESELLER.INVALID_COMMISSION_RATE'', 400)"
| "reseller_MapToAPIError ErrInvalidAPIKey = Some (''RESELLER.INVALID_API_KEY'', 401)"
| "reseller_MapToAPIError ErrTenantInactive = Some (''RESELLER.TENANT_INACTIVE'', 403)"
| "reseller_MapToAPIError ErrDuplicateDomain = Some (''RESELLER.DUPLICATE_DOMAIN'', 409)"
| "reseller_MapToAPIError ErrResourceNotFound = Some (''RESELLER.NOT_FOUND'', 404)"
| "reseller_MapToAPIError ErrShopBotInvalidToken = Some (''COMMON.VALIDATION_ERROR'', 422)"
| "reseller_MapToAPIError ErrShopBotInvalidCabinetURL = Some (''COMMON.VALIDATION_ERROR'', 422)"
| "reseller_MapToAPIError ErrShopBotInvalidPlugin = Some (''COMMON.VALIDATION_ERROR'', 422)"
| "reseller_MapToAPIError ErrShopBotTokenInUse = Some (''RESELLER.SHOP_BOT_TOKEN_IN_USE'', 409)"
| "reseller_MapToAPIError _ = None"

section \<open>Events (event_types.go)\<close>

datatype reseller_payload =
  TenantCreated string "string option"
| TenantUpdated string
| ResellerCreated string string string
| CommissionCreated string string int64
| CommissionPaidOut string string int64

fun reseller_event_type :: "reseller_payload \<Rightarrow> string" where
  "reseller_event_type (TenantCreated _ _) = ''reseller.tenant_created''"
| "reseller_event_type (TenantUpdated _) = ''reseller.tenant_updated''"
| "reseller_event_type (ResellerCreated _ _ _) = ''reseller.account_created''"
| "reseller_event_type (CommissionCreated _ _ _) = ''reseller.commission_created''"
| "reseller_event_type (CommissionPaidOut _ _ _) = ''reseller.commission_paid''"

section \<open>API keys\<close>

type_synonym byte = "8 word"

text \<open>\<open>encoding/hex.EncodeToString\<close>\<close>

definition hex_digit :: "nat \<Rightarrow> char" where
  "hex_digit n = ''0123456789abcdef'' ! n"

definition hex_encode :: "byte list \<Rightarrow> string" where
  "hex_encode bs = concat (map (\<lambda>b. [hex_digit (unat b div 16), hex_digit (unat b mod 16)]) bs)"

definition APIKeyLen :: nat where "APIKeyLen = 32"

definition HashAPIKey :: "(string \<Rightarrow> byte list) \<Rightarrow> string \<Rightarrow> string" where
  "HashAPIKey sha256 plainKey = hex_encode (sha256 plainKey)"

lemma length_hex_encode: "length (hex_encode bs) = 2 * length bs"
  by (induction bs) (simp_all add: hex_encode_def)

lemma hex_digit_inj: "m < 16 \<Longrightarrow> n < 16 \<Longrightarrow> hex_digit m = hex_digit n \<Longrightarrow> m = n"
proof -
  have "distinct ''0123456789abcdef''" "length ''0123456789abcdef'' = 16" by simp_all
  then show "m < 16 \<Longrightarrow> n < 16 \<Longrightarrow> hex_digit m = hex_digit n \<Longrightarrow> m = n"
    unfolding hex_digit_def by (metis nth_eq_iff_index_eq)
qed

text \<open>No two byte strings have the same text.\<close>

lemma hex_encode_inj: "hex_encode as = hex_encode bs \<Longrightarrow> as = bs"
proof (induction as arbitrary: bs)
  case Nil
  then show ?case using length_hex_encode [of bs] by (simp add: hex_encode_def)
next
  case (Cons a as)
  then obtain b cs where bs: "bs = b # cs"
    using length_hex_encode [of "a # as"] length_hex_encode [of bs] by (cases bs) auto
  have lt: "unat (a :: byte) div 16 < 16" for a
  proof -
    have "unat a < 2 ^ 8" using unsigned_less [of a, where ?'a = nat] by simp
    then show ?thesis by simp
  qed
  from Cons.prems bs have eqs: "hex_digit (unat a div 16) = hex_digit (unat b div 16)"
    "hex_digit (unat a mod 16) = hex_digit (unat b mod 16)" "hex_encode as = hex_encode cs"
    by (simp_all add: hex_encode_def)
  have "unat a div 16 = unat b div 16" "unat a mod 16 = unat b mod 16"
    using hex_digit_inj [OF lt lt eqs(1)] hex_digit_inj [OF _ _ eqs(2)] by simp_all
  then have "unat a = unat b" by (metis div_mult_mod_eq)
  then have "a = b" by (simp add: word_unat_eq_iff)
  with Cons.IH [OF eqs(3)] bs show ?case by simp
qed

section \<open>Tenants (tenant.go)\<close>

record branding_config =
  bc_Logo :: string
  bc_PrimaryColor :: string
  bc_AppName :: string
  bc_SupportEmail :: string
  bc_SupportURL :: string

definition no_branding :: branding_config where
  "no_branding = \<lparr>bc_Logo = [], bc_PrimaryColor = [], bc_AppName = [], bc_SupportEmail = [], bc_SupportURL = []\<rparr>"

record tenant = "reseller_payload event_recorder" +
  tn_ID :: string
  tn_Name :: string
  tn_Domain :: string
  tn_OwnerUserID :: "string option"
  tn_BrandingConfig :: branding_config
  tn_APIKeyHash :: string
  tn_IsActive :: bool
  tn_CreatedAt :: time
  tn_UpdatedAt :: time

definition NewTenant :: "uuid \<Rightarrow> uuid \<Rightarrow> string \<Rightarrow> string \<Rightarrow> string option \<Rightarrow> time \<Rightarrow> tenant" where
  "NewTenant tid eid name domain ownerUserID now =
     RecordEvent (NewTyped reseller_event_type eid (TenantCreated tid ownerUserID) now tid)
       \<lparr>rec_events = [], rec_flushed = False, tn_ID = tid, tn_Name = name, tn_Domain = domain,
        tn_OwnerUserID = ownerUserID, tn_BrandingConfig = no_branding, tn_APIKeyHash = [],
        tn_IsActive = True, tn_CreatedAt = now, tn_UpdatedAt = now\<rparr>"

definition SetOwner :: "string \<Rightarrow> time \<Rightarrow> tenant \<Rightarrow> tenant" where
  "SetOwner userID now t = t\<lparr>tn_OwnerUserID := Some userID, tn_UpdatedAt := now\<rparr>"

definition tn_Deactivate :: "time \<Rightarrow> tenant \<Rightarrow> reseller_error + tenant" where
  "tn_Deactivate now t =
     (if \<not> tn_IsActive t then Inl ErrTenantAlreadyInactive
      else Inr (t\<lparr>tn_IsActive := False, tn_UpdatedAt := now\<rparr>))"

definition tn_Activate :: "time \<Rightarrow> tenant \<Rightarrow> reseller_error + tenant" where
  "tn_Activate now t =
     (if tn_IsActive t then Inl ErrTenantAlreadyActive
      else Inr (t\<lparr>tn_IsActive := True, tn_UpdatedAt := now\<rparr>))"

definition SetBranding :: "uuid \<Rightarrow> branding_config \<Rightarrow> time \<Rightarrow> tenant \<Rightarrow> tenant" where
  "SetBranding eid branding now t =
     RecordEvent (NewTyped reseller_event_type eid (TenantUpdated (tn_ID t)) now (tn_ID t))
       (t\<lparr>tn_BrandingConfig := branding, tn_UpdatedAt := now\<rparr>)"

text \<open>\<open>rand\<close> is what \<open>crypto/rand\<close> delivers: 32 bytes, or a failure.\<close>

definition GenerateAPIKey ::
    "(string \<Rightarrow> byte list) \<Rightarrow> byte list option \<Rightarrow> time \<Rightarrow> tenant \<Rightarrow> reseller_error + (string \<times> tenant)" where
  "GenerateAPIKey sha256 rand now t =
     (case rand of
        None \<Rightarrow> Inl (ErrResellerStorage ''generating random bytes'')
      | Some keyBytes \<Rightarrow>
          (let plainKey = hex_encode keyBytes
           in Inr (plainKey, t\<lparr>tn_APIKeyHash := HashAPIKey sha256 plainKey, tn_UpdatedAt := now\<rparr>)))"

section \<open>Reseller accounts (reseller_account.go)\<close>

definition CommissionPercentBase :: int64 where "CommissionPercentBase = 100"
definition MinCommissionRate :: int64 where "MinCommissionRate = 0"
definition MaxCommissionRate :: int64 where "MaxCommissionRate = CommissionPercentBase"

record reseller_account = "reseller_payload event_recorder" +
  ra_ID :: string
  ra_TenantID :: string
  ra_UserID :: string
  ra_CommissionRate :: int64
  ra_Balance :: int64
  ra_CreatedAt :: time

definition NewResellerAccount ::
    "uuid \<Rightarrow> uuid \<Rightarrow> string \<Rightarrow> string \<Rightarrow> int64 \<Rightarrow> time \<Rightarrow> reseller_error + reseller_account" where
  "NewResellerAccount aid eid tenantID userID commissionRate now =
     (if commissionRate <s MinCommissionRate \<or> MaxCommissionRate <s commissionRate
      then Inl ErrInvalidCommissionRate
      else Inr (RecordEvent (NewTyped reseller_event_type eid (ResellerCreated aid tenantID userID) now aid)
        \<lparr>rec_events = [], rec_flushed = False, ra_ID = aid, ra_TenantID = tenantID, ra_UserID = userID,
         ra_CommissionRate = commissionRate, ra_Balance = 0, ra_CreatedAt = now\<rparr>))"

definition safeCommissionAmount :: "int64 \<Rightarrow> int64 \<Rightarrow> reseller_error + int64" where
  "safeCommissionAmount saleAmount rate =
     (if saleAmount = 0 \<or> rate = 0 then Inr 0
      else if 0 <s rate \<and> go_div MaxInt64 rate <s saleAmount then Inl ErrCommissionOverflow
      else if rate <s 0 \<and> saleAmount <s go_div MaxInt64 rate then Inl ErrCommissionOverflow
      else Inr (go_div (saleAmount * rate) CommissionPercentBase))"

section \<open>Commissions (commission.go)\<close>

datatype commission_status = CommissionPending | CommissionPaid

fun commissionTransitions :: "commission_status \<Rightarrow> commission_status list" where
  "commissionTransitions CommissionPending = [CommissionPaid]"
| "commissionTransitions CommissionPaid = []"

record commission = "reseller_payload event_recorder" +
  cm_ID :: string
  cm_ResellerID :: string
  cm_SaleID :: string
  cm_Amount :: int64
  cm_Currency :: string
  cm_Status :: commission_status
  cm_CreatedAt :: time
  cm_PaidAt :: "time option"

definition cm_CanTransitionTo :: "commission \<Rightarrow> commission_status \<Rightarrow> bool" where
  "cm_CanTransitionTo c target \<longleftrightarrow> target \<in> set (commissionTransitions (cm_Status c))"

definition cm_MarkPaid :: "uuid \<Rightarrow> time \<Rightarrow> commission \<Rightarrow> reseller_error + commission" where
  "cm_MarkPaid eid now c =
     (if \<not> cm_CanTransitionTo c CommissionPaid then Inl ErrCommissionAlreadyPaid
      else Inr (RecordEvent
        (NewTyped reseller_event_type eid (CommissionPaidOut (cm_ID c) (cm_ResellerID c) (cm_Amount c)) now (cm_ID c))
        (c\<lparr>cm_Status := CommissionPaid, cm_PaidAt := Some now\<rparr>)))"

definition NewCommission ::
    "uuid \<Rightarrow> uuid \<Rightarrow> string \<Rightarrow> string \<Rightarrow> int64 \<Rightarrow> int64 \<Rightarrow> string \<Rightarrow> time \<Rightarrow> reseller_error + commission" where
  "NewCommission cid eid resellerID saleID saleAmount commissionRate currency now =
     rbind (safeCommissionAmount saleAmount commissionRate) (\<lambda>amount.
       Inr (RecordEvent
         (NewTyped reseller_event_type eid (CommissionCreated cid resellerID amount) now cid)
         \<lparr>rec_events = [], rec_flushed = False, cm_ID = cid, cm_ResellerID = resellerID,
          cm_SaleID = saleID, cm_Amount = amount, cm_Currency = currency,
          cm_Status = CommissionPending, cm_CreatedAt = now, cm_PaidAt = None\<rparr>))"

lemma cm_MarkPaid_fields:
  assumes "cm_MarkPaid eid now c = Inr c'"
  shows "cm_Status c = CommissionPending" "cm_Status c' = CommissionPaid" "cm_PaidAt c' = Some now"
    "cm_ID c' = cm_ID c" "cm_Amount c' = cm_Amount c" "cm_ResellerID c' = cm_ResellerID c"
    "rec_events c' = rec_events c @ [NewTyped reseller_event_type eid
       (CommissionPaidOut (cm_ID c) (cm_ResellerID c) (cm_Amount c)) now (cm_ID c)]"
proof -
  show "cm_Status c = CommissionPending"
    using assms by (cases "cm_Status c") (simp_all add: cm_MarkPaid_def cm_CanTransitionTo_def)
qed (use assms in \<open>auto simp: cm_MarkPaid_def RecordEvent_def split: if_splits\<close>)

interpretation commission_root: aggregate_root
  "\<lambda>(eid, now). cm_MarkPaid eid now" cm_Status commissionTransitions cm_ID rec_events
proof
  fix x c c'
  assume st: "(case x of (eid, now) \<Rightarrow> cm_MarkPaid eid now) c = Inr c'"
  obtain eid now where x: "x = (eid, now)" by (cases x)
  note paid = cm_MarkPaid_fields [OF st [unfolded x prod.case]]
  show "cm_Status c' = cm_Status c \<or> cm_Status c' \<in> set (commissionTransitions (cm_Status c))"
    by (simp add: paid)
  show "cm_ID c' = cm_ID c" by (rule paid)
  show "\<exists>es. rec_events c' = rec_events c @ es \<and> (\<forall>e \<in> set es. ev_EntityID e = cm_ID c)"
    by (simp add: paid)
qed

section \<open>The amount over the integers\<close>

lemma sint_commission_base [simp]: "sint CommissionPercentBase = 100"
  by (simp add: CommissionPercentBase_def)

text \<open>For a sale that is not negative and a rate that is, the guard is exactly the range of the product.\<close>

lemma commission_guard:
  assumes "0 \<le>s saleAmount" "0 <s rate"
  shows "go_div MaxInt64 rate <s saleAmount \<longleftrightarrow> \<not> in_int64 (sint saleAmount * sint rate)"
proof -
  have s: "0 \<le> sint saleAmount" and r: "0 < sint rate"
    using assms by (simp_all add: word_sle_eq word_sless_alt)
  have "sint (go_div MaxInt64 rate) = (2 ^ 63 - 1) div sint rate"
    using r by (simp add: sint_go_div sint_MaxInt64 sdiv_pos)
  then have "go_div MaxInt64 rate <s saleAmount \<longleftrightarrow> 2 ^ 63 - 1 < sint saleAmount * sint rate"
    using less_div_mult [OF r, of "2 ^ 63 - 1" "sint saleAmount"] by (simp add: word_sless_alt)
  moreover have "0 \<le> sint saleAmount * sint rate" using s r by simp
  ultimately show ?thesis by (auto simp: in_int64_def)
qed

lemma safeCommissionAmount_ok:
  assumes s: "0 \<le>s saleAmount" and r: "0 \<le>s rate" and fits: "in_int64 (sint saleAmount * sint rate)"
  shows "\<exists>a. safeCommissionAmount saleAmount rate = Inr a \<and> sint a = sint saleAmount * sint rate div 100"
proof (cases "saleAmount = 0 \<or> rate = 0")
  case True
  then show ?thesis by (auto simp: safeCommissionAmount_def)
next
  case False
  have "0 <s rate" using r False by (simp add: signed.order.not_eq_order_implies_strict signed.order.strict_iff_order)
  moreover then have "\<not> rate <s 0" by simp
  moreover have "\<not> go_div MaxInt64 rate <s saleAmount"
    using commission_guard [OF s \<open>0 <s rate\<close>] fits by simp
  ultimately have "safeCommissionAmount saleAmount rate = Inr (go_div (saleAmount * rate) CommissionPercentBase)"
    using False by (simp add: safeCommissionAmount_def)
  moreover have "sint (go_div (saleAmount * rate) CommissionPercentBase) = sint saleAmount * sint rate div 100"
    using s r by (simp add: sint_go_div sint_mult64 [OF fits] sdiv_pos word_sle_eq)
  ultimately show ?thesis by blast
qed

end
