(* ===== verification/Outbox.thy ===== *)
theory Outbox
  imports Wire
begin

text \<open>
  The transactional outbox: \<open>adapter/postgres/outbox_publisher.go\<close>, \<open>outbox_repo.go\<close>,
  \<open>partition_manager.go\<close>, \<open>queries/outbox.sql\<close> and \<open>pkg/timeutil\<close>. The table is the list of its rows in
  the order of insertion; a row lies in the named partition whose range holds its creation time, or in
  the default partition. A payload column is the event it holds.
\<close>

section \<open>Rows and events\<close>

record outbox_row =
  ob_ID :: uuid
  ob_EventType :: string
  ob_Payload :: wire_event
  ob_CreatedAt :: time
  ob_Sequence :: int
  ob_Attempts :: int
  ob_TraceParent :: string
  ob_EntityID :: string
  ob_Published :: bool
  ob_PublishedAt :: "time option"
  ob_Failed :: bool

record outbox_event =
  oe_ID :: uuid
  oe_EventType :: string
  oe_Payload :: wire_event
  oe_CreatedAt :: time
  oe_Sequence :: int
  oe_Attempts :: int
  oe_TraceParent :: string

record outbox_partition =
  pa_Name :: string
  pa_From :: time
  pa_To :: time

record outbox_db =
  od_Rows :: "outbox_row list"
  od_Seq :: int
  od_Partitions :: "outbox_partition list"

definition MaxRelayAttempts :: int where "MaxRelayAttempts = 10"

definition rowToOutboxEvent :: "outbox_row \<Rightarrow> outbox_event" where
  "rowToOutboxEvent r =
     \<lparr>oe_ID = ob_ID r, oe_EventType = ob_EventType r, oe_Payload = ob_Payload r, oe_CreatedAt = ob_CreatedAt r,
      oe_Sequence = ob_Sequence r, oe_Attempts = ob_Attempts r, oe_TraceParent = ob_TraceParent r\<rparr>"

section \<open>Publishing into the table\<close>

text \<open>The row that an insert creates; the primary key is the identifier with the creation time.\<close>

definition ob_key :: "outbox_row \<Rightarrow> uuid \<times> time" where "ob_key r = (ob_ID r, ob_CreatedAt r)"

definition outbox_row_of :: "'z tx_env_scheme \<Rightarrow> uuid \<Rightarrow> wire_event \<Rightarrow> int \<Rightarrow> outbox_row" where
  "outbox_row_of env u e n =
     \<lparr>ob_ID = u, ob_EventType = ev_Type e, ob_Payload = e, ob_CreatedAt = env_dbnow env, ob_Sequence = n,
      ob_Attempts = 0, ob_TraceParent = ev_TraceParent e, ob_EntityID = ev_EntityID e, ob_Published = False,
      ob_PublishedAt = None, ob_Failed = False\<rparr>"

datatype outbox_error = ErrOutboxStorage string | ErrInvalidPartitionName string

fun InsertOutboxEvents ::
    "'z tx_env_scheme \<Rightarrow> (uuid \<times> wire_event) list \<Rightarrow> (outbox_db, outbox_error, unit) tx" where
  "InsertOutboxEvents env [] d = Inr ((), d)"
| "InsertOutboxEvents env ((u, e) # es) d =
     rbind (insert_unique ob_key (ErrOutboxStorage ''outbox_pkey'') (outbox_row_of env u e (od_Seq d + 1)) (od_Rows d))
       (\<lambda>rows. InsertOutboxEvents env es (d\<lparr>od_Rows := rows, od_Seq := od_Seq d + 1\<rparr>))"

text \<open>
  \<open>PublishBatch\<close>: the events without an identifier are inserted one by one while the batch is built,
  under identifiers the database draws, and the batch follows.
\<close>

definition StoreBatch :: "'z tx_env_scheme \<Rightarrow> wire_event list \<Rightarrow> (outbox_db, outbox_error, unit) tx" where
  "StoreBatch env events =
     (if events = [] then tx_return ()
      else
        (let evs = map (with_trace (env_trace env)) events;
             noid = filter (\<lambda>e. ev_ID e = []) evs;
             batch = filter (\<lambda>e. ev_ID e \<noteq> []) evs
         in tx_bind (if noid = [] then tx_return ()
                     else tx_call ErrOutboxStorage env ''outbox publish (no-id)''
                            (InsertOutboxEvents env (zip (map (env_uuid env) [0..<length noid]) noid)))
              (\<lambda>_. if batch = [] then tx_return ()
                     else tx_call ErrOutboxStorage env ''outbox publish batch''
                            (InsertOutboxEvents env (map (\<lambda>e. (ev_ID e, e)) batch)))))"

section \<open>Queries of the relay\<close>

definition active :: "outbox_row \<Rightarrow> bool" where
  "active r \<longleftrightarrow> \<not> ob_Published r \<and> \<not> ob_Failed r"

definition GetUnpublished :: "int \<Rightarrow> outbox_db \<Rightarrow> outbox_event list" where
  "GetUnpublished n d = map rowToOutboxEvent (take (nat n) (sort_key ob_Sequence (filter active (od_Rows d))))"

text \<open>
  \<open>abs(hashtext(entity_id)) % n = w\<close>: \<open>hash\<close> is the database's text hash. The absolute value of the
  smallest 32-bit integer is out of range, which is an error of the statement.
\<close>

definition hash_overflows :: "(string \<Rightarrow> 32 word) \<Rightarrow> string \<Rightarrow> bool" where
  "hash_overflows hash ent \<longleftrightarrow> sint (hash ent) = - (2 ^ 31)"

definition worker_of :: "(string \<Rightarrow> 32 word) \<Rightarrow> int \<Rightarrow> string \<Rightarrow> int" where
  "worker_of hash n ent = \<bar>sint (hash ent)\<bar> mod n"

definition GetUnpublishedForWorker ::
    "(string \<Rightarrow> 32 word) \<Rightarrow> int \<Rightarrow> int \<Rightarrow> int \<Rightarrow> outbox_db \<Rightarrow> outbox_error + outbox_event list" where
  "GetUnpublishedForWorker hash n w workers d =
     (if list_ex (\<lambda>r. active r \<and> hash_overflows hash (ob_EntityID r)) (od_Rows d)
      then Inl (ErrOutboxStorage ''integer out of range'')
      else Inr (map rowToOutboxEvent (take (nat n) (sort_key ob_Sequence
             (filter (\<lambda>r. active r \<and> worker_of hash workers (ob_EntityID r) = w) (od_Rows d))))))"

definition update_row :: "uuid \<Rightarrow> time \<Rightarrow> (outbox_row \<Rightarrow> outbox_row) \<Rightarrow> outbox_db \<Rightarrow> outbox_db" where
  "update_row i c f d = d\<lparr>od_Rows := update_by ob_key (i, c) f (od_Rows d)\<rparr>"

definition IncrementRelayAttempts :: "uuid \<Rightarrow> time \<Rightarrow> outbox_db \<Rightarrow> outbox_db" where
  "IncrementRelayAttempts i c =
     update_row i c (\<lambda>r. r\<lparr>ob_Attempts := ob_Attempts r + 1, ob_Failed := ob_Attempts r + 1 \<ge> MaxRelayAttempts\<rparr>)"

definition MarkPublished :: "time \<Rightarrow> uuid \<Rightarrow> time \<Rightarrow> outbox_db \<Rightarrow> outbox_db" where
  "MarkPublished dbnow i c = update_row i c (\<lambda>r. r\<lparr>ob_Published := True, ob_PublishedAt := Some dbnow\<rparr>)"

definition partitionPruningPadding :: duration where "partitionPruningPadding = 1000000"

definition timeRange :: "time list \<Rightarrow> time \<times> time" where
  "timeRange ts =
     (case ts of [] \<Rightarrow> (zero_time, zero_time)
      | t # ts' \<Rightarrow> foldl (\<lambda>(lo, hi) u. (if Before u lo then u else lo, if After u hi then u else hi)) (t, t) ts')"

text \<open>The \<open>MERGE\<close>: it counts and marks the unpublished rows that match a pair within the range.\<close>

definition merge_matches :: "(uuid \<times> time) list \<Rightarrow> outbox_row \<Rightarrow> bool" where
  "merge_matches ps r =
     (let (lo, hi) = timeRange (map snd ps)
      in ob_key r \<in> set ps \<and> \<not> ob_Published r \<and> lo \<le> ob_CreatedAt r \<and> ob_CreatedAt r < hi + partitionPruningPadding)"

definition MarkPublishedBatch :: "time \<Rightarrow> (uuid \<times> time) list \<Rightarrow> outbox_db \<Rightarrow> int \<times> outbox_db" where
  "MarkPublishedBatch dbnow ps d =
     (if ps = [] then (0, d)
      else (int (length (filter (merge_matches ps) (od_Rows d))),
            d\<lparr>od_Rows := map (\<lambda>r. if merge_matches ps r then r\<lparr>ob_Published := True, ob_PublishedAt := Some dbnow\<rparr> else r)
                           (od_Rows d)\<rparr>))"

definition DeleteOld :: "time \<Rightarrow> duration \<Rightarrow> time \<Rightarrow> outbox_db \<Rightarrow> outbox_db" where
  "DeleteOld now olderThan minCreatedAt d =
     (let cutoff = now - olderThan in
      d\<lparr>od_Rows := filter (\<lambda>r. \<not> (ob_Published r \<and> (case ob_PublishedAt r of Some t \<Rightarrow> t < cutoff | None \<Rightarrow> False)
          \<and> ob_CreatedAt r < cutoff \<and> ob_CreatedAt r \<ge> minCreatedAt)) (od_Rows d)\<rparr>)"

definition CountUnpublished :: "outbox_db \<Rightarrow> int" where
  "CountUnpublished d = int (length (filter active (od_Rows d)))"

definition outboxCriticalThreshold :: int where "outboxCriticalThreshold = 50000"

definition CheckBackpressure :: "'z tx_env_scheme \<Rightarrow> outbox_db \<Rightarrow> bool" where
  "CheckBackpressure env d =
     (if env_fault env ''count unpublished outbox events'' then False
      else CountUnpublished d > outboxCriticalThreshold)"

definition GetLastPublishedSequence :: "outbox_db \<Rightarrow> int" where
  "GetLastPublishedSequence d =
     (case filter ob_Published (od_Rows d) of [] \<Rightarrow> 0 | r # rs \<Rightarrow> foldl max (ob_Sequence r) (map ob_Sequence rs))"

section \<open>Quarters (outbox_repo.go, pkg/timeutil)\<close>

text \<open>\<open>time.Date(y, m, 1, 0, 0, 0, 0, time.UTC)\<close> for a month between 1 and 12.\<close>

definition first_of_month :: "int \<Rightarrow> int \<Rightarrow> time" where
  "first_of_month y m = (month_start (12 * y + m - 3) - epoch_day) * ns_per_day"

definition MonthsPerQuarter :: int where "MonthsPerQuarter = 3"
definition quartersPerYear :: int where "quartersPerYear = 4"

definition QuarterStart :: "time \<Rightarrow> time" where
  "QuarterStart t =
     first_of_month (civil_year t) ((civil_month t - 1) div MonthsPerQuarter * MonthsPerQuarter + 1)"

definition quarterOf :: "time \<Rightarrow> int \<Rightarrow> int \<times> int" where
  "quarterOf t offset =
     (let currentQuarter = (civil_month t - 1) div MonthsPerQuarter;
          totalQuarters = currentQuarter + offset
      in (civil_year t + totalQuarters div quartersPerYear, totalQuarters mod quartersPerYear + 1))"

definition quarterStart :: "int \<Rightarrow> int \<Rightarrow> time" where
  "quarterStart year quarter = first_of_month year ((quarter - 1) * MonthsPerQuarter + 1)"

definition nextQuarterStart :: "int \<Rightarrow> int \<Rightarrow> time" where
  "nextQuarterStart year quarter =
     (if quarter = quartersPerYear then quarterStart (year + 1) 1 else quarterStart year (quarter + 1))"

section \<open>Partitions\<close>

definition default_partition :: string where "default_partition = ''outbox_default''"

text \<open>\<open>^outbox_(\d{4}_q[1-4]|default)$\<close>\<close>

definition outboxPartitionPattern :: "string \<Rightarrow> bool" where
  "outboxPartitionPattern s \<longleftrightarrow>
     s = default_partition
     \<or> (length s = 14 \<and> take 7 s = ''outbox_'' \<and> list_all (\<lambda>c. c \<in> set ''0123456789'') (take 4 (drop 7 s))
        \<and> take 2 (drop 11 s) = ''_q'' \<and> s ! 13 \<in> set ''1234'')"

definition partition_name :: "int \<Rightarrow> int \<Rightarrow> string" where
  "partition_name year quarter = ''outbox_'' @ dec_int year @ ''_q'' @ dec_int quarter"

definition in_partition :: "outbox_partition \<Rightarrow> outbox_row \<Rightarrow> bool" where
  "in_partition p r \<longleftrightarrow> pa_From p \<le> ob_CreatedAt r \<and> ob_CreatedAt r < pa_To p"

text \<open>
  \<open>CREATE TABLE .. PARTITION OF\<close> is refused when the range overlaps that of another partition, or
  when the default partition already has a row of that range.
\<close>

definition create_partition ::
    "'z tx_env_scheme \<Rightarrow> string \<Rightarrow> time \<Rightarrow> time \<Rightarrow> outbox_db \<Rightarrow> outbox_error + outbox_db" where
  "create_partition env name a b d =
     (if env_fault env (''create partition '' @ name)
         \<or> list_ex (\<lambda>p. a < pa_To p \<and> pa_From p < b) (od_Partitions d)
         \<or> list_ex (\<lambda>r. a \<le> ob_CreatedAt r \<and> ob_CreatedAt r < b \<and> \<not> list_ex (\<lambda>p. in_partition p r) (od_Partitions d)) (od_Rows d)
      then Inl (ErrOutboxStorage (''create partition '' @ name))
      else Inr (d\<lparr>od_Partitions := od_Partitions d @ [\<lparr>pa_Name = name, pa_From = a, pa_To = b\<rparr>]\<rparr>))"

definition ensure_one :: "'z tx_env_scheme \<Rightarrow> time \<Rightarrow> int \<Rightarrow> outbox_db \<Rightarrow> outbox_error + outbox_db" where
  "ensure_one env from i d =
     (let (year, quarter) = quarterOf from i;
          start = quarterStart year quarter;
          upto = nextQuarterStart year quarter;
          name = partition_name year quarter
      in if \<not> outboxPartitionPattern name then Inl (ErrInvalidPartitionName name)
         else if env_fault env (''check partition '' @ name) then Inl (ErrOutboxStorage (''check partition '' @ name))
         else if list_ex (\<lambda>p. pa_Name p = name) (od_Partitions d) then Inr d
         else create_partition env name start upto d)"

text \<open>Each statement commits on its own: a failure leaves the partitions made before it.\<close>

fun ensure_each :: "'z tx_env_scheme \<Rightarrow> time \<Rightarrow> int list \<Rightarrow> outbox_db \<Rightarrow> (outbox_error + unit) \<times> outbox_db" where
  "ensure_each env from [] d = (Inr (), d)"
| "ensure_each env from (i # is') d =
     (case ensure_one env from i d of Inl e \<Rightarrow> (Inl e, d) | Inr d' \<Rightarrow> ensure_each env from is' d')"

definition EnsurePartitions :: "'z tx_env_scheme \<Rightarrow> time \<Rightarrow> int \<Rightarrow> outbox_db \<Rightarrow> (outbox_error + unit) \<times> outbox_db" where
  "EnsurePartitions env from quartersAhead d = ensure_each env from [0..quartersAhead - 1] d"

text \<open>Detaching takes the rows out of the table at once; the drop that follows may still fail.\<close>

definition DetachAndDropPartition :: "'z tx_env_scheme \<Rightarrow> string \<Rightarrow> outbox_db \<Rightarrow> (outbox_error + unit) \<times> outbox_db" where
  "DetachAndDropPartition env name d =
     (if \<not> outboxPartitionPattern name then (Inl (ErrInvalidPartitionName name), d)
      else if env_fault env (''detach partition '' @ name) then (Inl (ErrOutboxStorage (''detach partition '' @ name)), d)
      else
        (let gone = (\<lambda>r. list_ex (\<lambda>p. pa_Name p = name \<and> in_partition p r) (od_Partitions d));
             d' = d\<lparr>od_Rows := filter (\<lambda>r. \<not> gone r) (od_Rows d),
                    od_Partitions := filter (\<lambda>p. pa_Name p \<noteq> name) (od_Partitions d)\<rparr>
         in if env_fault env (''drop partition '' @ name) then (Inl (ErrOutboxStorage (''drop partition '' @ name)), d')
            else (Inr (), d')))"

section \<open>The partition manager\<close>

record partition_manager =
  pm_lookahead :: int
  pm_retention :: duration

definition partition_rows :: "string \<Rightarrow> outbox_db \<Rightarrow> outbox_row list" where
  "partition_rows name d =
     filter (\<lambda>r. list_ex (\<lambda>p. pa_Name p = name \<and> in_partition p r) (od_Partitions d)) (od_Rows d)"

definition listExpiredPartitions :: "time \<Rightarrow> outbox_db \<Rightarrow> string list" where
  "listExpiredPartitions cutoff d =
     map pa_Name (filter (\<lambda>p. outboxPartitionPattern (pa_Name p) \<and> pa_Name p \<noteq> default_partition
        \<and> Before (pa_To p) cutoff) (od_Partitions d))"

definition hasUnpublished :: "string \<Rightarrow> outbox_db \<Rightarrow> bool" where
  "hasUnpublished name d = list_ex (\<lambda>r. \<not> ob_Published r) (partition_rows name d)"

definition max_sequence :: "outbox_row list \<Rightarrow> int" where
  "max_sequence rs = (case map ob_Sequence rs of [] \<Rightarrow> 0 | n # ns \<Rightarrow> foldl max n ns)"

definition min_sequence :: "outbox_row list \<Rightarrow> int" where
  "min_sequence rs = (case map ob_Sequence rs of [] \<Rightarrow> 2 ^ 63 - 1 | n # ns \<Rightarrow> foldl min n ns)"

definition isSafeToDrop :: "string \<Rightarrow> outbox_db \<Rightarrow> bool" where
  "isSafeToDrop name d \<longleftrightarrow>
     max_sequence (partition_rows name d) < min_sequence (filter (\<lambda>r. \<not> ob_Published r) (od_Rows d))"

fun drop_each :: "'z tx_env_scheme \<Rightarrow> string list \<Rightarrow> outbox_db \<Rightarrow> outbox_db" where
  "drop_each env [] d = d"
| "drop_each env (name # names) d =
     drop_each env names
       (if env_fault env (''check unpublished in '' @ name) \<or> hasUnpublished name d
           \<or> env_fault env (''check sequence safety for '' @ name) \<or> \<not> isSafeToDrop name d
        then d else snd (DetachAndDropPartition env name d))"

definition pm_ensure :: "'z tx_env_scheme \<Rightarrow> partition_manager \<Rightarrow> outbox_db \<Rightarrow> outbox_db" where
  "pm_ensure env pm d =
     (if env_fault env ''advisory lock'' then d
      else snd (EnsurePartitions env (env_now env) (pm_lookahead pm) d))"

definition pm_cleanup :: "'z tx_env_scheme \<Rightarrow> partition_manager \<Rightarrow> outbox_db \<Rightarrow> outbox_db" where
  "pm_cleanup env pm d =
     (if pm_retention pm = 0 then d
      else if env_fault env ''advisory lock'' then d
      else if env_fault env ''list outbox partitions'' then d
      else drop_each env (listExpiredPartitions (env_now env - pm_retention pm) d) d)"

text \<open>One round of \<open>PartitionManager.Run\<close>.\<close>

definition pm_round :: "'z tx_env_scheme \<Rightarrow> partition_manager \<Rightarrow> outbox_db \<Rightarrow> outbox_db" where
  "pm_round env pm d = pm_cleanup env pm (pm_ensure env pm d)"

end
