(* ===== verification/Relay.thy ===== *)
theory Relay
  imports Outbox Consumer
begin

text \<open>
  The relay from the outbox to the broker: \<open>adapter/nats/outbox_relay.go\<close>, \<open>publisher.go\<close>,
  \<open>dlq_replay.go\<close>, \<open>sequence_tracker.go\<close>, \<open>pkg/backoff\<close> and \<open>pkg/circuitbreaker\<close>. The broker client and
  the circuit breaker are third-party code: their operations are fields of the environment, over a
  state \<open>'n\<close> that is theirs.
\<close>

section \<open>Jitter (pkg/backoff)\<close>

text \<open>\<open>rnd\<close> is what \<open>rand.Int64N(jitterRange)\<close> returned.\<close>

definition WithJitter :: "int \<Rightarrow> duration \<Rightarrow> duration" where
  "WithJitter rnd d =
     (if d \<le> 0 then 0
      else (let jitterRange = d div 2 in
            if jitterRange = 0 then d
            else (let offset = rnd - d div 4; result = d + offset in if result < 0 then 0 else result)))"

section \<open>Circuit breaker configuration (pkg/circuitbreaker)\<close>

record cb_config =
  cb_MaxFailures :: nat
  cb_Timeout :: duration
  cb_MaxRequests :: nat
  cb_Interval :: duration

definition DefaultConfig :: cb_config where
  "DefaultConfig = \<lparr>cb_MaxFailures = 5, cb_Timeout = 10 * 10 ^ 9, cb_MaxRequests = 3, cb_Interval = 30 * 10 ^ 9\<rparr>"

definition DefaultConfigNoInterval :: cb_config where
  "DefaultConfigNoInterval = DefaultConfig\<lparr>cb_Interval := 0\<rparr>"

text \<open>The \<open>ReadyToTrip\<close> callback of \<open>Settings\<close>, on the breaker's count of consecutive failures.\<close>

definition ReadyToTrip :: "cb_config \<Rightarrow> nat \<Rightarrow> bool" where
  "ReadyToTrip cfg consecutiveFailures \<longleftrightarrow> consecutiveFailures \<ge> cb_MaxFailures cfg"

datatype breaker_state = StateClosed | StateHalfOpen | StateOpen

section \<open>The relay's environment and state\<close>

record relay_message = wire_message +
  rm_OutboxSequence :: int
  rm_EventType :: string
  rm_TraceParent :: "string option"

text \<open>
  \<open>re_publish\<close> is the client's \<open>Publish\<close>, \<open>re_execute\<close> the breaker's \<open>Execute\<close> on such a call,
  \<open>re_state\<close> its \<open>State\<close>; \<open>True\<close> is a nil error. \<open>re_text\<close> is the database's text of a payload.
  \<open>rl_acked\<close> lists what was published with a nil error, in order: it is not read by the code.
\<close>

record 'n relay_env = tx_env +
  re_state :: "'n \<Rightarrow> breaker_state"
  re_execute :: "('n \<Rightarrow> bool \<times> 'n) \<Rightarrow> 'n \<Rightarrow> bool \<times> 'n"
  re_publish :: "string \<Rightarrow> relay_message \<Rightarrow> 'n \<Rightarrow> bool \<times> 'n"
  re_hashtext :: "string \<Rightarrow> 32 word"
  re_text :: "wire_event \<Rightarrow> string"

record 'n relay =
  rl_db :: outbox_db
  rl_nats :: 'n
  rl_acked :: "(string \<times> relay_message) list"

definition MinOutboxRelayWorkers :: int where "MinOutboxRelayWorkers = 1"
definition MaxOutboxRelayWorkers :: int where "MaxOutboxRelayWorkers = 16"

definition relay_workers :: "int \<Rightarrow> int" where
  "relay_workers workerCount =
     (let n = (if workerCount < MinOutboxRelayWorkers then MinOutboxRelayWorkers else workerCount)
      in if n > MaxOutboxRelayWorkers then MaxOutboxRelayWorkers else n)"

section \<open>Messages\<close>

text \<open>\<open>bytes.Index\<close>, and what lies between the key and the next quote.\<close>

fun after_key :: "string \<Rightarrow> string \<Rightarrow> string option" where
  "after_key key [] = (if key = [] then Some [] else None)"
| "after_key key (c # cs) =
     (if take (length key) (c # cs) = key then Some (drop (length key) (c # cs)) else after_key key cs)"

definition traceParentKey :: string where
  "traceParentKey = [CHR 0x22] @ ''trace_parent'' @ [CHR 0x22, CHR '':'', CHR 0x22]"

definition extractTraceParent :: "string \<Rightarrow> string" where
  "extractTraceParent payload =
     (case after_key traceParentKey payload of
        None \<Rightarrow> []
      | Some rest \<Rightarrow> if CHR 0x22 \<in> set rest then takeWhile (\<lambda>c. c \<noteq> CHR 0x22) rest else [])"

definition relay_message_of :: "'n relay_env \<Rightarrow> outbox_event \<Rightarrow> relay_message" where
  "relay_message_of env e =
     \<lparr>wm_UUID = oe_ID e, wm_Payload = Some (oe_Payload e), rm_OutboxSequence = oe_Sequence e,
      rm_EventType = oe_EventType e,
      rm_TraceParent =
        (if oe_TraceParent e \<noteq> [] then Some (oe_TraceParent e)
         else (let tp = extractTraceParent (re_text env (oe_Payload e)) in if tp \<noteq> [] then Some tp else None))\<rparr>"

section \<open>One pass\<close>

text \<open>Every event of the batch is tried, in order; the results are those published and those not.\<close>

fun publish_each ::
    "'n relay_env \<Rightarrow> outbox_event list \<Rightarrow> 'n relay \<Rightarrow> (outbox_event list \<times> outbox_event list) \<times> 'n relay" where
  "publish_each env [] s = (([], []), s)"
| "publish_each env (e # es) s =
     (let msg = relay_message_of env e;
          (ok, n') = re_execute env (re_publish env (oe_EventType e) msg) (rl_nats s);
          s' = s\<lparr>rl_nats := n', rl_acked := rl_acked s @ (if ok then [(oe_EventType e, msg)] else [])\<rparr>;
          ((ps, fs), s'') = publish_each env es s'
      in if ok then ((e # ps, fs), s'') else ((ps, e # fs), s''))"

text \<open>
  The writes of the pass. A statement that the database refuses aborts its transaction: what the
  loop over the failed events skips then makes the batch update, or the commit, fail.
\<close>

definition settle_batch ::
    "'n relay_env \<Rightarrow> outbox_event list \<Rightarrow> outbox_event list \<Rightarrow> outbox_db \<Rightarrow> (int \<times> outbox_db) option" where
  "settle_batch env ps fs d =
     (if fs \<noteq> [] \<and> env_fault env ''increment relay attempts'' then None
      else (let d1 = fold (\<lambda>e. IncrementRelayAttempts (oe_ID e) (oe_CreatedAt e)) fs d in
            if ps = [] then Some (0, d1)
            else if env_fault env ''mark published batch'' then None
            else Some (MarkPublishedBatch (env_dbnow env) (map (\<lambda>e. (oe_ID e, oe_CreatedAt e)) ps) d1)))"

definition fetch_batch :: "'n relay_env \<Rightarrow> int \<Rightarrow> int \<Rightarrow> int \<Rightarrow> outbox_db \<Rightarrow> outbox_error + outbox_event list" where
  "fetch_batch env workers w n d =
     (if env_fault env ''get unpublished'' then Inl (ErrOutboxStorage ''get unpublished'')
      else if workers > 1 then GetUnpublishedForWorker (re_hashtext env) n w workers d
      else Inr (GetUnpublished n d))"

text \<open>
  \<open>relay\<close>: the number it returns is that of the rows marked, even if the commit fails. The broker
  keeps what it was sent when the transaction is rolled back.
\<close>

definition relay :: "'n relay_env \<Rightarrow> int \<Rightarrow> int \<Rightarrow> int \<Rightarrow> 'n relay \<Rightarrow> int \<times> 'n relay" where
  "relay env workers w n s =
     (if re_state env (rl_nats s) = StateOpen then (0, s)
      else if env_fault env ''begin tx'' then (0, s)
      else case fetch_batch env workers w n (rl_db s) of
        Inl _ \<Rightarrow> (0, s)
      | Inr events \<Rightarrow>
          (let ((ps, fs), s') = publish_each env events s in
           case settle_batch env ps fs (rl_db s) of
             None \<Rightarrow> (0, s')
           | Some (count, d') \<Rightarrow> (count, if env_fault env ''commit tx'' then s' else s'\<lparr>rl_db := d'\<rparr>)))"

section \<open>Workers\<close>

definition OutboxRelayBaseInterval :: duration where "OutboxRelayBaseInterval = 10 ^ 9"
definition OutboxRelayMaxInterval :: duration where "OutboxRelayMaxInterval = 30 * 10 ^ 9"
definition OutboxRelayBackoffMultiplier :: int where "OutboxRelayBackoffMultiplier = 2"
definition OutboxRelayBatchSize :: int where "OutboxRelayBatchSize = 100"
definition OutboxRelayMaxBatchSize :: int where "OutboxRelayMaxBatchSize = 500"

record relay_worker =
  wk_BatchSize :: int
  wk_Interval :: duration

definition initial_worker :: relay_worker where
  "initial_worker = \<lparr>wk_BatchSize = OutboxRelayBatchSize, wk_Interval = OutboxRelayBaseInterval\<rparr>"

definition worker_next :: "int \<Rightarrow> int \<Rightarrow> relay_worker \<Rightarrow> relay_worker" where
  "worker_next rnd published k =
     (if published = wk_BatchSize k then
        \<lparr>wk_BatchSize = min (wk_BatchSize k * OutboxRelayBackoffMultiplier) OutboxRelayMaxBatchSize,
         wk_Interval = OutboxRelayBaseInterval\<rparr>
      else if published = 0 then
        (let i = WithJitter rnd (wk_Interval k * OutboxRelayBackoffMultiplier)
         in \<lparr>wk_BatchSize = OutboxRelayBatchSize,
             wk_Interval = (if i > OutboxRelayMaxInterval then OutboxRelayMaxInterval else i)\<rparr>)
      else \<lparr>wk_BatchSize = OutboxRelayBatchSize, wk_Interval = OutboxRelayBaseInterval\<rparr>)"

text \<open>The ticks of \<open>runWorker\<close> after its first pass, each with its environment and random number.\<close>

fun run_ticks ::
    "int \<Rightarrow> int \<Rightarrow> ('n relay_env \<times> int) list \<Rightarrow> relay_worker \<Rightarrow> 'n relay \<Rightarrow> relay_worker \<times> 'n relay" where
  "run_ticks workers w [] k s = (k, s)"
| "run_ticks workers w ((env, rnd) # ts) k s =
     (let (published, s') = relay env workers w (wk_BatchSize k) s
      in run_ticks workers w ts (worker_next rnd published k) s')"

definition runWorker ::
    "int \<Rightarrow> int \<Rightarrow> 'n relay_env \<Rightarrow> ('n relay_env \<times> int) list \<Rightarrow> 'n relay \<Rightarrow> relay_worker \<times> 'n relay" where
  "runWorker workers w env ts s =
     run_ticks workers w ts initial_worker (snd (relay env workers w OutboxRelayBatchSize s))"

definition OutboxRetentionPeriod :: duration where "OutboxRetentionPeriod = 7 * 24 * 3600 * 10 ^ 9"

definition relay_cleanup :: "'z tx_env_scheme \<Rightarrow> outbox_db \<Rightarrow> outbox_db" where
  "relay_cleanup env d =
     (if env_fault env ''delete old outbox events'' then d
      else DeleteOld (env_now env) OutboxRetentionPeriod (QuarterStart (env_now env)) d)"

section \<open>Replaying dead letters (dlq_replay.go)\<close>

record replay_options =
  ro_Limit :: int
  ro_FilterSubject :: string
  ro_FilterEntity :: string
  ro_DryRun :: bool

record replay_result =
  rr_Replayed :: int
  rr_Skipped :: int
  rr_Errors :: int
  rr_Matched :: "dlq_payload list"

text \<open>A message is settled by an acknowledgement or by asking for its redelivery.\<close>

datatype verdict = Acked | Nacked

definition unlimitedReplayBound :: int where "unlimitedReplayBound = 1000000"

definition matchesFilter :: "dlq_payload \<Rightarrow> replay_options \<Rightarrow> bool" where
  "matchesFilter p opts =
     (if ro_FilterSubject opts \<noteq> [] \<and> after_key (ro_FilterSubject opts) (dq_OriginalSubject p) = None then False
      else if ro_FilterEntity opts \<noteq> [] \<and> dq_EntityID p \<noteq> ro_FilterEntity opts then False
      else True)"

text \<open>
  \<open>replayFromChannel\<close> over the messages that the channel yields before it is closed or the context is
  cancelled, \<open>None\<close> being a malformed one; the pause between messages is left out. \<open>k\<close> counts the
  messages processed, \<open>u\<close> is the identifier the library draws for the \<open>k\<close>-th one.
\<close>

fun replay_loop ::
    "(string \<Rightarrow> wire_message \<Rightarrow> 'n \<Rightarrow> bool \<times> 'n) \<Rightarrow> (int \<Rightarrow> uuid) \<Rightarrow> replay_options \<Rightarrow> int \<Rightarrow> int
     \<Rightarrow> dlq_payload option list \<Rightarrow> replay_result \<Rightarrow> 'n \<Rightarrow> replay_result \<times> 'n \<times> verdict list" where
  "replay_loop pub u opts limit k [] res n = (res, n, [])"
| "replay_loop pub u opts limit k (m # ms) res n =
     (if \<not> k < limit then (res, n, [])
      else case m of
        None \<Rightarrow> (case replay_loop pub u opts limit k ms res n of (r, n', vs) \<Rightarrow> (r, n', Acked # vs))
      | Some p \<Rightarrow>
          if \<not> matchesFilter p opts then
            (case replay_loop pub u opts limit k ms (res\<lparr>rr_Skipped := rr_Skipped res + 1\<rparr>) n of
               (r, n', vs) \<Rightarrow> (r, n', Nacked # vs))
          else
            (let res1 = res\<lparr>rr_Matched := rr_Matched res @ [p]\<rparr>;
                 res2 = res1\<lparr>rr_Replayed := rr_Replayed res1 + 1\<rparr>
             in if ro_DryRun opts then
                  (case replay_loop pub u opts limit (k + 1) ms res2 n of (r, n', vs) \<Rightarrow> (r, n', Acked # vs))
                else
                  (case pub (dq_OriginalSubject p)
                          \<lparr>wm_UUID = (if dq_MsgID p = [] then u k else dq_MsgID p), wm_Payload = dq_OriginalPayload p\<rparr> n of
                     (False, n') \<Rightarrow> (res1\<lparr>rr_Errors := rr_Errors res1 + 1\<rparr>, n', [Nacked])
                   | (True, n') \<Rightarrow>
                       (case replay_loop pub u opts limit (k + 1) ms res2 n' of
                          (r, n'', vs) \<Rightarrow> (r, n'', Acked # vs)))))"

definition empty_result :: replay_result where
  "empty_result = \<lparr>rr_Replayed = 0, rr_Skipped = 0, rr_Errors = 0, rr_Matched = []\<rparr>"

definition ReplayDLQMessages ::
    "(string \<Rightarrow> wire_message \<Rightarrow> 'n \<Rightarrow> bool \<times> 'n) \<Rightarrow> (int \<Rightarrow> uuid) \<Rightarrow> replay_options
     \<Rightarrow> dlq_payload option list \<Rightarrow> 'n \<Rightarrow> replay_result \<times> 'n \<times> verdict list" where
  "ReplayDLQMessages pub u opts ms n =
     replay_loop pub u opts (if ro_Limit opts \<le> 0 then unlimitedReplayBound else ro_Limit opts) 0 ms empty_result n"

section \<open>Gap detection (sequence_tracker.go)\<close>

text \<open>Sequence numbers last seen per entity, with the time; the result is the gap that is reported.\<close>

type_synonym sequence_tracker = "string \<Rightarrow> (int \<times> time) option"

definition sequenceTrackerTTL :: duration where "sequenceTrackerTTL = 30 * 60 * 10 ^ 9"

definition checkAndUpdate :: "time \<Rightarrow> string \<Rightarrow> int \<Rightarrow> sequence_tracker \<Rightarrow> int option \<times> sequence_tracker" where
  "checkAndUpdate now ent seq t =
     (if seq \<le> 0 \<or> ent = [] then (None, t)
      else (case t ent of
              None \<Rightarrow> None
            | Some (last_seen, _) \<Rightarrow> (let gap = seq - last_seen - 1 in if gap > 0 then Some gap else None),
            t(ent \<mapsto> (seq, now))))"

definition evictStale :: "time \<Rightarrow> sequence_tracker \<Rightarrow> sequence_tracker" where
  "evictStale now t =
     (\<lambda>ent. case t ent of Some (seq, upd) \<Rightarrow> if upd < now - sequenceTrackerTTL then None else Some (seq, upd) | None \<Rightarrow> None)"

end
