(* ===== verification/Catalog.thy ===== *)
theory Catalog
  imports Consumer
begin

text \<open>
  \<open>pkg/domainevent/catalog.go\<close>, \<open>internal/app/event_catalog.go\<close> and
  \<open>internal/adapter/nats/streams.go\<close>: the catalogue of the platform's event types, entry by entry in
  the order of the code, and the JetStream streams that carry them. Registering a type twice
  panics, which is the value \<open>None\<close>.
\<close>

section \<open>The catalogue\<close>

record catalog_entry =
  ca_Type :: string
  ca_Producer :: string
  ca_Consumers :: "string list"
  ca_PayloadType :: "string option"
  ca_Version :: int

text \<open>A Go map from types to entries; the list keeps the order of registration.\<close>

type_synonym event_catalog = "(string \<times> catalog_entry) list"

definition NewEventCatalog :: event_catalog where "NewEventCatalog = []"

definition catalog_Register :: "catalog_entry \<Rightarrow> event_catalog \<Rightarrow> event_catalog option" where
  "catalog_Register e c = (if map_of c (ca_Type e) \<noteq> None then None else Some (c @ [(ca_Type e, e)]))"

definition catalog_Get :: "event_catalog \<Rightarrow> string \<Rightarrow> catalog_entry option" where
  "catalog_Get c t = map_of c t"

definition catalog_Types :: "event_catalog \<Rightarrow> string list" where "catalog_Types c = map fst c"

definition catalog_Len :: "event_catalog \<Rightarrow> nat" where "catalog_Len c = length c"

fun register_all :: "catalog_entry list \<Rightarrow> event_catalog \<Rightarrow> event_catalog option" where
  "register_all [] c = Some c"
| "register_all (e # es) c = (case catalog_Register e c of None \<Rightarrow> None | Some c' \<Rightarrow> register_all es c')"

definition billing_entries_1 :: "catalog_entry list" where
  "billing_entries_1 =
     [catalog_entry.make ''subscription.created'' ''billing'' [] (Some ''billingaggregate.SubCreatedPayload'') 1,
      catalog_entry.make ''subscription.activated'' ''billing'' [''multisub''] (Some ''billingaggregate.SubActivatedPayload'') 1,
      catalog_entry.make ''subscription.cancelled'' ''billing'' [''multisub''] (Some ''billingaggregate.SubCancelledPayload'') 1,
      catalog_entry.make ''subscription.renewed'' ''billing'' [] (Some ''billingaggregate.SubRenewedPayload'') 1,
      catalog_entry.make ''subscription.paused'' ''billing'' [''multisub''] (Some ''billingaggregate.SubPausedPayload'') 1,
      catalog_entry.make ''subscription.resumed'' ''billing'' [''multisub''] (Some ''billingaggregate.SubResumedPayload'') 1,
      catalog_entry.make ''subscription.expired'' ''billing'' [] (Some ''billingaggregate.SubExpiredPayload'') 1,
      catalog_entry.make ''subscription.past_due'' ''billing'' [] (Some ''billingaggregate.SubPastDuePayload'') 1,
      catalog_entry.make ''subscription.upgraded'' ''billing'' [] (Some ''billingaggregate.SubUpgradedPayload'') 1,
      catalog_entry.make ''subscription.downgraded'' ''billing'' [] (Some ''billingaggregate.SubDowngradedPayload'') 1,
      catalog_entry.make ''subscription.trial_started'' ''billing'' [] (Some ''billingaggregate.SubTrialStartedPayload'') 1,
      catalog_entry.make ''subscription.trial_ending'' ''billing'' [] (Some ''billingaggregate.SubTrialEndingPayload'') 1,
      catalog_entry.make ''subscription.updated'' ''billing'' [] (Some ''billingaggregate.SubUpdatedPayload'') 1,
      catalog_entry.make ''invoice.created'' ''billing'' [] (Some ''billingaggregate.InvCreatedPayload'') 1,
      catalog_entry.make ''invoice.paid'' ''billing'' [] (Some ''billingaggregate.InvPaidPayload'') 1,
      catalog_entry.make ''invoice.failed'' ''billing'' [] (Some ''billingaggregate.InvFailedPayload'') 1]"

definition billing_entries_2 :: "catalog_entry list" where
  "billing_entries_2 =
     [catalog_entry.make ''invoice.refunded'' ''billing'' [] (Some ''billingaggregate.InvRefundedPayload'') 1,
      catalog_entry.make ''invoice.discount_applied'' ''billing'' [] (Some ''billingaggregate.InvDiscountAppliedPayload'') 1,
      catalog_entry.make ''invoice.total_overridden'' ''billing'' [] (Some ''billingaggregate.InvTotalOverriddenPayload'') 1,
      catalog_entry.make ''family.created'' ''billing'' [] (Some ''billingaggregate.FamilyCreatedPayload'') 1,
      catalog_entry.make ''family.member_added'' ''billing'' [] (Some ''billingaggregate.FamilyMemberAddedPayload'') 1,
      catalog_entry.make ''family.member_removed'' ''billing'' [] (Some ''billingaggregate.FamilyMemberRemovedPayload'') 1,
      catalog_entry.make ''plan.created'' ''billing'' [] (Some ''billingaggregate.PlanCreatedPayload'') 1,
      catalog_entry.make ''plan.updated'' ''billing'' [] (Some ''billingaggregate.PlanUpdatedPayload'') 1,
      catalog_entry.make ''plan.deactivated'' ''billing'' [] (Some ''billingaggregate.PlanDeactivatedPayload'') 1]"

definition registerBillingEvents :: "event_catalog \<Rightarrow> event_catalog option" where
  "registerBillingEvents = register_all (billing_entries_1 @ billing_entries_2)"

definition multisub_entries :: "catalog_entry list" where
  "multisub_entries =
     [catalog_entry.make ''binding.created'' ''multisub'' [] (Some ''multisubaggregate.BindingCreatedPayload'') 1,
      catalog_entry.make ''binding.provisioned'' ''multisub'' [] (Some ''multisubaggregate.BindingProvisionedPayload'') 1,
      catalog_entry.make ''binding.deprovisioned'' ''multisub'' [] (Some ''multisubaggregate.BindingDeprovisionedPayload'') 1,
      catalog_entry.make ''binding.failed'' ''multisub'' [] (Some ''multisubaggregate.BindingFailedPayload'') 1,
      catalog_entry.make ''binding.disabled'' ''multisub'' [] (Some ''multisubaggregate.BindingDisabledPayload'') 1,
      catalog_entry.make ''binding.enabled'' ''multisub'' [] (Some ''multisubaggregate.BindingEnabledPayload'') 1,
      catalog_entry.make ''binding.limited'' ''multisub'' [] (Some ''multisubaggregate.BindingLimitedPayload'') 1,
      catalog_entry.make ''binding.unlimited'' ''multisub'' [] (Some ''multisubaggregate.BindingUnlimitedPayload'') 1,
      catalog_entry.make ''binding.sync_failed'' ''multisub'' [] (Some ''multisub.BindingSyncFailedPayload'') 1,
      catalog_entry.make ''binding.sync_completed'' ''multisub'' [] (Some ''multisub.BindingSyncCompletedPayload'') 1,
      catalog_entry.make ''binding.traffic_exceeded'' ''multisub'' [''billing''] (Some ''multisub.BindingTrafficExceededPayload'') 1]"

definition registerMultisubEvents :: "event_catalog \<Rightarrow> event_catalog option" where
  "registerMultisubEvents = register_all multisub_entries"

definition payment_entries :: "catalog_entry list" where
  "payment_entries =
     [catalog_entry.make ''payment.charge_created'' ''payment'' [] (Some ''payment.ChargeCreatedPayload'') 1,
      catalog_entry.make ''payment.charge_completed'' ''payment'' [''billing''] (Some ''payment.ChargeCompletedPayload'') 1,
      catalog_entry.make ''payment.charge_failed'' ''payment'' [] (Some ''payment.ChargeFailedPayload'') 1,
      catalog_entry.make ''payment.refund_completed'' ''payment'' [''billing''] (Some ''payment.RefundCompletedPayload'') 1,
      catalog_entry.make ''payment.webhook_received'' ''payment'' [] (Some ''payment.WebhookReceivedPayload'') 1]"

definition registerPaymentEvents :: "event_catalog \<Rightarrow> event_catalog option" where
  "registerPaymentEvents = register_all payment_entries"

definition identity_entries :: "catalog_entry list" where
  "identity_entries =
     [catalog_entry.make ''user.registered'' ''identity'' [] (Some ''identity.UserRegisteredPayload'') 1,
      catalog_entry.make ''user.email_verified'' ''identity'' [] (Some ''identity.EmailVerifiedPayload'') 1,
      catalog_entry.make ''user.logged_in'' ''identity'' [] (Some ''identity.UserLoggedInPayload'') 1,
      catalog_entry.make ''user.profile_updated'' ''identity'' [] None 1,
      catalog_entry.make ''user.token_refreshed'' ''identity'' [] (Some ''identity.TokenRefreshedPayload'') 1,
      catalog_entry.make ''user.password_reset_requested'' ''identity'' [] (Some ''identity.PasswordResetRequestedPayload'') 1,
      catalog_entry.make ''user.password_reset'' ''identity'' [] (Some ''identity.PasswordResetPayload'') 1,
      catalog_entry.make ''user.password_changed'' ''identity'' [] (Some ''identity.PasswordChangedPayload'') 1,
      catalog_entry.make ''user.telegram_linked'' ''identity'' [] (Some ''identity.TelegramLinkedPayload'') 1,
      catalog_entry.make ''user.telegram_unlinked'' ''identity'' [] (Some ''identity.TelegramUnlinkedPayload'') 1]"

definition registerIdentityEvents :: "event_catalog \<Rightarrow> event_catalog option" where
  "registerIdentityEvents = register_all identity_entries"

definition reseller_entries :: "catalog_entry list" where
  "reseller_entries =
     [catalog_entry.make ''reseller.tenant_created'' ''reseller'' [] (Some ''reseller.TenantCreatedPayload'') 1,
      catalog_entry.make ''reseller.tenant_updated'' ''reseller'' [] (Some ''reseller.TenantUpdatedPayload'') 1,
      catalog_entry.make ''reseller.account_created'' ''reseller'' [] (Some ''reseller.ResellerCreatedPayload'') 1,
      catalog_entry.make ''reseller.commission_created'' ''reseller'' [] (Some ''reseller.CommissionCreatedPayload'') 1,
      catalog_entry.make ''reseller.commission_paid'' ''reseller'' [] (Some ''reseller.CommissionPaidPayload'') 1]"

definition registerResellerEvents :: "event_catalog \<Rightarrow> event_catalog option" where
  "registerResellerEvents = register_all reseller_entries"

definition plugin_entries :: "catalog_entry list" where
  "plugin_entries =
     [catalog_entry.make ''plugin.installed'' ''plugin'' [] None 1,
      catalog_entry.make ''plugin.enabled'' ''plugin'' [] None 1,
      catalog_entry.make ''plugin.disabled'' ''plugin'' [] None 1,
      catalog_entry.make ''plugin.uninstalled'' ''plugin'' [] None 1,
      catalog_entry.make ''plugin.hot_reloaded'' ''plugin'' [] None 1,
      catalog_entry.make ''plugin.error'' ''plugin'' [] None 1,
      catalog_entry.make ''plugin.hook.executed'' ''plugin'' [] None 1,
      catalog_entry.make ''plugin.hook.failed'' ''plugin'' [] None 1]"

definition registerPluginEvents :: "event_catalog \<Rightarrow> event_catalog option" where
  "registerPluginEvents = register_all plugin_entries"

definition infra_entries :: "catalog_entry list" where
  "infra_entries =
     [catalog_entry.make ''node.health.changed'' ''infra'' [] None 1]"

definition registerInfraEvents :: "event_catalog \<Rightarrow> event_catalog option" where
  "registerInfraEvents = register_all infra_entries"

definition webhook_entries_1 :: "catalog_entry list" where
  "webhook_entries_1 =
     [catalog_entry.make ''remnawave.user.modified'' ''remnawave'' [] None 1,
      catalog_entry.make ''remnawave.user.deleted'' ''remnawave'' [] None 1,
      catalog_entry.make ''subscription.binding_revoked'' ''remnawave'' [] None 1,
      catalog_entry.make ''subscription.expired_24h_ago'' ''remnawave'' [] None 1,
      catalog_entry.make ''subscription.user_not_connected'' ''remnawave'' [] None 1,
      catalog_entry.make ''subscription.traffic_warning_max_reached'' ''remnawave'' [] None 1,
      catalog_entry.make ''security.hwid_device_added'' ''security'' [] None 1,
      catalog_entry.make ''security.hwid_device_deleted'' ''security'' [] None 1,
      catalog_entry.make ''security.login_attempt_failed'' ''security'' [] None 1,
      catalog_entry.make ''security.login_attempt_success'' ''security'' [] None 1,
      catalog_entry.make ''security.torrent_blocker_report'' ''security'' [] None 1,
      catalog_entry.make ''infra.node_created'' ''infra'' [] None 1,
      catalog_entry.make ''infra.node_modified'' ''infra'' [] None 1,
      catalog_entry.make ''infra.node_disabled'' ''infra'' [] None 1,
      catalog_entry.make ''infra.node_enabled'' ''infra'' [] None 1,
      catalog_entry.make ''infra.node_deleted'' ''infra'' [] None 1,
      catalog_entry.make ''infra.node_traffic_notify'' ''infra'' [] None 1]"

definition webhook_entries_2 :: "catalog_entry list" where
  "webhook_entries_2 =
     [catalog_entry.make ''infra.subpage_config_changed'' ''infra'' [] None 1,
      catalog_entry.make ''billing.node_payment_due_7d'' ''remnawave'' [] None 1,
      catalog_entry.make ''billing.node_payment_due_48h'' ''remnawave'' [] None 1,
      catalog_entry.make ''billing.node_payment_due_24h'' ''remnawave'' [] None 1,
      catalog_entry.make ''billing.node_payment_due_today'' ''remnawave'' [] None 1,
      catalog_entry.make ''billing.node_payment_overdue_24h'' ''remnawave'' [] None 1,
      catalog_entry.make ''billing.node_payment_overdue_48h'' ''remnawave'' [] None 1,
      catalog_entry.make ''billing.node_payment_overdue_7d'' ''remnawave'' [] None 1]"

definition registerWebhookEvents :: "event_catalog \<Rightarrow> event_catalog option" where
  "registerWebhookEvents = register_all (webhook_entries_1 @ webhook_entries_2)"

definition BuildEventCatalog :: "event_catalog option" where
  "BuildEventCatalog =
     Option.bind (registerBillingEvents NewEventCatalog) (\<lambda>c.
     Option.bind (registerMultisubEvents c) (\<lambda>c.
     Option.bind (registerPaymentEvents c) (\<lambda>c.
     Option.bind (registerIdentityEvents c) (\<lambda>c.
     Option.bind (registerResellerEvents c) (\<lambda>c.
     Option.bind (registerPluginEvents c) (\<lambda>c.
     Option.bind (registerInfraEvents c) (\<lambda>c.
     registerWebhookEvents c)))))))"

section \<open>Streams\<close>

datatype stream_storage = FileStorage | MemoryStorage

record stream_config =
  st_Name :: string
  st_Subjects :: "string list"
  st_Storage :: stream_storage
  st_MaxAge :: duration
  st_Duplicates :: duration

definition RetentionDay :: duration where "RetentionDay = 24 * 3600000000000"
definition RetentionWeek :: duration where "RetentionWeek = 7 * RetentionDay"
definition RetentionMonth :: duration where "RetentionMonth = 30 * RetentionDay"
definition RetentionQuarter :: duration where "RetentionQuarter = 90 * RetentionDay"
definition DedupWindow :: duration where "DedupWindow = 60 * 60000000000"

definition dlqSubscribeSubject :: string where "dlqSubscribeSubject = ''dlq.>''"

definition StreamConfigs :: "stream_config list" where
  "StreamConfigs =
     [stream_config.make ''IDENTITY'' [''user.>''] FileStorage RetentionWeek DedupWindow,
      stream_config.make ''BILLING'' [''invoice.>'', ''subscription.>'', ''family.>''] FileStorage RetentionMonth DedupWindow,
      stream_config.make ''REMNAWAVE'' [''remnawave.>'', ''binding.>''] FileStorage RetentionWeek DedupWindow,
      stream_config.make ''PAYMENT'' [''payment.>''] FileStorage RetentionMonth DedupWindow,
      stream_config.make ''INFRA'' [''infra.>'', ''node.>''] MemoryStorage RetentionDay 0,
      stream_config.make ''RESELLER'' [''reseller.>''] FileStorage RetentionMonth DedupWindow,
      stream_config.make ''PLUGINS'' [''plugin.>''] FileStorage RetentionWeek DedupWindow,
      stream_config.make ''DLQ'' [dlqSubscribeSubject] FileStorage RetentionQuarter DedupWindow]"

text \<open>
  The subject language of the broker as its manual defines it: tokens between dots, \<open>*\<close> stands for
  one token and a final \<open>>\<close> for one or more. It only says which stream a subject belongs to.
\<close>

fun tokens :: "string \<Rightarrow> string list" where
  "tokens [] = [[]]"
| "tokens (c # cs) = (if c = CHR ''.'' then [] # tokens cs
                      else case tokens cs of t # ts \<Rightarrow> (c # t) # ts | [] \<Rightarrow> [[c]])"

fun tokens_match :: "string list \<Rightarrow> string list \<Rightarrow> bool" where
  "tokens_match [] ts = (ts = [])"
| "tokens_match (p # ps) ts =
     (if p = ''>'' \<and> ps = [] then ts \<noteq> []
      else case ts of [] \<Rightarrow> False | t # ts' \<Rightarrow> (p = ''*'' \<or> p = t) \<and> tokens_match ps ts')"

definition subject_matches :: "string \<Rightarrow> string \<Rightarrow> bool" where
  "subject_matches pat subj = tokens_match (tokens pat) (tokens subj)"

definition streams_of :: "string \<Rightarrow> string list" where
  "streams_of subj = map st_Name (filter (\<lambda>st. list_ex (\<lambda>p. subject_matches p subj) (st_Subjects st)) StreamConfigs)"

section \<open>What the catalogue holds\<close>

definition catalog_entries :: "catalog_entry list" where
  "catalog_entries = billing_entries_1 @ billing_entries_2 @ multisub_entries @ payment_entries @ identity_entries
     @ reseller_entries @ plugin_entries @ infra_entries @ webhook_entries_1 @ webhook_entries_2"

lemma register_all_iff:
  "register_all es c =
     (if distinct (map ca_Type es) \<and> set (map ca_Type es) \<inter> fst ` set c = {}
      then Some (c @ map (\<lambda>e. (ca_Type e, e)) es) else None)"
proof (induction es arbitrary: c)
  case (Cons e es)
  show ?case
    by (auto simp: Cons.IH catalog_Register_def map_of_eq_None_iff split: if_splits)
qed simp

lemma register_all_append:
  "register_all (xs @ ys) c = Option.bind (register_all xs c) (register_all ys)"
  by (induction xs arbitrary: c) (auto split: option.split)

lemma BuildEventCatalog_entries: "BuildEventCatalog = register_all catalog_entries NewEventCatalog"
  by (simp add: BuildEventCatalog_def catalog_entries_def register_all_append [abs_def] registerBillingEvents_def
      registerMultisubEvents_def registerPaymentEvents_def registerIdentityEvents_def registerResellerEvents_def
      registerPluginEvents_def registerInfraEvents_def registerWebhookEvents_def bind_assoc)

lemmas entry_defs = billing_entries_1_def billing_entries_2_def multisub_entries_def payment_entries_def
  identity_entries_def reseller_entries_def plugin_entries_def infra_entries_def webhook_entries_1_def webhook_entries_2_def

text \<open>The entries once the catalogue is built.\<close>

definition app_catalog :: event_catalog where
  "app_catalog = (case BuildEventCatalog of Some c \<Rightarrow> c | None \<Rightarrow> [])"

end
