(* ===== verification/RelaySpec.thy ===== *)
theory RelaySpec
  imports Relay Catalog ConsumerSpec "HOL-Library.Multiset"
begin

text \<open>
  What the outbox and its relay guarantee: the lifecycle of a row, what a pass does to the rows it
  fetched, histories of passes and clean-ups, the worker's bounds, partitions, and dead letters.
\<close>

section \<open>The lifecycle of a row\<close>

definition row_ok :: "outbox_row \<Rightarrow> bool" where
  "row_ok r \<longleftrightarrow> 0 \<le> ob_Attempts r \<and> ob_Attempts r \<le> MaxRelayAttempts
     \<and> (ob_Failed r \<longleftrightarrow> ob_Attempts r = MaxRelayAttempts) \<and> (ob_Published r \<longrightarrow> \<not> ob_Failed r)
     \<and> (ob_PublishedAt r \<noteq> None \<longleftrightarrow> ob_Published r)"

definition outbox_inv :: "outbox_db \<Rightarrow> bool" where
  "outbox_inv d \<longleftrightarrow> distinct (map ob_key (od_Rows d)) \<and> sorted_wrt (<) (map ob_Sequence (od_Rows d))
     \<and> (\<forall>r \<in> set (od_Rows d). row_ok r \<and> ob_Sequence r \<le> od_Seq d)"

text \<open>A row keeps its event; a published row and a dead-lettered row never change again.\<close>

definition row_moves :: "outbox_row \<Rightarrow> outbox_row \<Rightarrow> bool" where
  "row_moves r r' \<longleftrightarrow> ob_key r' = ob_key r \<and> ob_EventType r' = ob_EventType r \<and> ob_Payload r' = ob_Payload r
     \<and> ob_Sequence r' = ob_Sequence r \<and> ob_TraceParent r' = ob_TraceParent r \<and> ob_EntityID r' = ob_EntityID r
     \<and> ob_Attempts r \<le> ob_Attempts r' \<and> (ob_Published r \<or> ob_Failed r \<longrightarrow> r' = r)"

lemma row_moves_refl [simp]: "row_moves r r"
  by (simp add: row_moves_def)

lemma row_moves_trans: "row_moves r r' \<Longrightarrow> row_moves r' r'' \<Longrightarrow> row_moves r r''"
  unfolding row_moves_def by (metis order_trans)

text \<open>Every row of the first table moved on, and it can only be missing once it is published.\<close>

definition rows_follow :: "outbox_row list \<Rightarrow> outbox_row list \<Rightarrow> bool" where
  "rows_follow rs rs' \<longleftrightarrow> (\<forall>r \<in> set rs. \<exists>r'. row_moves r r' \<and> (r' \<in> set rs' \<or> ob_Published r'))"

lemma rows_follow_refl [simp]: "rows_follow rs rs"
  unfolding rows_follow_def by (metis row_moves_refl)

lemma rows_follow_trans: "rows_follow rs rs' \<Longrightarrow> rows_follow rs' rs'' \<Longrightarrow> rows_follow rs rs''"
  unfolding rows_follow_def by (metis row_moves_trans)

lemma rows_follow_append: "rows_follow rs (rs @ xs)"
  unfolding rows_follow_def by (metis row_moves_refl UnCI set_append)

lemma rows_follow_filter: "(\<And>r. r \<in> set rs \<Longrightarrow> \<not> P r \<Longrightarrow> ob_Published r) \<Longrightarrow> rows_follow rs (filter P rs)"
  unfolding rows_follow_def by (metis row_moves_refl mem_Collect_eq set_filter)

lemma rows_follow_map: "(\<And>r. r \<in> set rs \<Longrightarrow> row_moves r (f r)) \<Longrightarrow> rows_follow rs (map f rs)"
  unfolding rows_follow_def by (metis imageI list.set_map)

text \<open>A dead-lettered row stays in the table as it is.\<close>

lemma dead_row_stays:
  assumes "rows_follow rs rs'" "r \<in> set rs" "ob_Failed r" "\<not> ob_Published r"
  shows "r \<in> set rs'"
  using assms unfolding rows_follow_def row_moves_def by (metis (full_types))

lemma outbox_invI:
  "distinct (map ob_key (od_Rows d)) \<Longrightarrow> sorted_wrt (<) (map ob_Sequence (od_Rows d)) \<Longrightarrow>
     (\<And>r. r \<in> set (od_Rows d) \<Longrightarrow> row_ok r \<and> ob_Sequence r \<le> od_Seq d) \<Longrightarrow> outbox_inv d"
  by (simp add: outbox_inv_def)

lemma outbox_invD:
  assumes "outbox_inv d"
  shows "distinct (map ob_key (od_Rows d))" "sorted_wrt (<) (map ob_Sequence (od_Rows d))"
    "r \<in> set (od_Rows d) \<Longrightarrow> row_ok r" "r \<in> set (od_Rows d) \<Longrightarrow> ob_Sequence r \<le> od_Seq d"
  using assms by (simp_all add: outbox_inv_def)

text \<open>Writes that map the rows, and deletions.\<close>

lemma outbox_inv_map:
  assumes "outbox_inv d" "\<And>r. r \<in> set (od_Rows d) \<Longrightarrow> row_moves r (f r) \<and> row_ok (f r)"
  shows "outbox_inv (d\<lparr>od_Rows := map f (od_Rows d)\<rparr>)"
proof (rule outbox_invI)
  from assms(2) have "map ob_key (map f (od_Rows d)) = map ob_key (od_Rows d)"
    "map ob_Sequence (map f (od_Rows d)) = map ob_Sequence (od_Rows d)"
    by (simp_all add: row_moves_def)
  with outbox_invD(1,2) [OF assms(1)] show "distinct (map ob_key (od_Rows (d\<lparr>od_Rows := map f (od_Rows d)\<rparr>)))"
    "sorted_wrt (<) (map ob_Sequence (od_Rows (d\<lparr>od_Rows := map f (od_Rows d)\<rparr>)))"
    by (simp_all del: map_map)
qed (use assms(2) outbox_invD(4) [OF assms(1)] in \<open>auto simp: row_moves_def\<close>)

lemma outbox_inv_filter: "outbox_inv d \<Longrightarrow> outbox_inv (d\<lparr>od_Rows := filter P (od_Rows d), od_Partitions := ps\<rparr>)"
  unfolding outbox_inv_def by (auto simp: distinct_map_filter sorted_wrt_filter sorted_wrt_map)

lemma outbox_inv_filter_rows: "outbox_inv d \<Longrightarrow> outbox_inv (d\<lparr>od_Rows := filter P (od_Rows d)\<rparr>)"
  unfolding outbox_inv_def by (auto simp: distinct_map_filter sorted_wrt_filter sorted_wrt_map)

section \<open>What a pass fetches\<close>

definition fetchable :: "'n relay_env \<Rightarrow> int \<Rightarrow> int \<Rightarrow> outbox_row \<Rightarrow> bool" where
  "fetchable env workers w r \<longleftrightarrow>
     active r \<and> (workers > 1 \<longrightarrow> worker_of (re_hashtext env) workers (ob_EntityID r) = w)"

lemma sort_rows:
  assumes "outbox_inv d"
  shows "sort_key ob_Sequence (filter P (od_Rows d)) = filter P (od_Rows d)"
proof (rule sort_key_id_if_sorted)
  have "sorted_wrt (<) (map ob_Sequence (filter P (od_Rows d)))"
    using outbox_invD(2) [OF assms] by (auto simp: sorted_wrt_map sorted_wrt_filter)
  then show "sorted (map ob_Sequence (filter P (od_Rows d)))" by (rule strict_sorted_imp_sorted)
qed

lemma fetch_batch_rows:
  assumes "outbox_inv d" "fetch_batch env workers w n d = Inr es"
  shows "es = map rowToOutboxEvent (take (nat n) (filter (fetchable env workers w) (od_Rows d)))"
  using assms(2) sort_rows [OF assms(1)]
  by (auto simp: fetch_batch_def GetUnpublishedForWorker_def GetUnpublished_def fetchable_def split: if_splits
      intro!: arg_cong [where f = "map rowToOutboxEvent"] arg_cong [where f = "take (nat n)"] filter_cong)

definition oe_key :: "outbox_event \<Rightarrow> uuid \<times> time" where "oe_key e = (oe_ID e, oe_CreatedAt e)"

lemma oe_key_row [simp]: "oe_key (rowToOutboxEvent r) = ob_key r"
  by (simp add: oe_key_def ob_key_def rowToOutboxEvent_def)

lemma fetched_keys:
  assumes "outbox_inv d" "fetch_batch env workers w n d = Inr es"
  shows "distinct (map oe_key es)"
proof -
  have "distinct (map ob_key (take (nat n) (filter (fetchable env workers w) (od_Rows d))))"
    using outbox_invD(1) [OF assms(1)] by (metis distinct_map_filter distinct_take take_map)
  then show ?thesis by (simp add: fetch_batch_rows [OF assms] o_def)
qed

section \<open>Publishing the batch\<close>

lemma publish_each_result:
  "publish_each env es s = ((ps, fs), s') \<Longrightarrow>
     rl_db s' = rl_db s \<and> mset ps + mset fs = mset es
     \<and> rl_acked s' = rl_acked s @ map (\<lambda>e. (oe_EventType e, relay_message_of env e)) ps"
proof (induction es arbitrary: s ps fs s')
  case Nil
  then show ?case by simp
next
  case (Cons e es)
  obtain ok n' where x: "re_execute env (re_publish env (oe_EventType e) (relay_message_of env e)) (rl_nats s) = (ok, n')"
    by force
  define s1 where "s1 = s\<lparr>rl_nats := n', rl_acked := rl_acked s @ (if ok then [(oe_EventType e, relay_message_of env e)] else [])\<rparr>"
  obtain ps' fs' s2 where p: "publish_each env es s1 = ((ps', fs'), s2)" by (metis prod.exhaust)
  from Cons.prems x p have "(ps, fs) = (if ok then (e # ps', fs') else (ps', e # fs'))" "s' = s2"
    by (auto simp: Let_def s1_def split: if_splits)
  with Cons.IH [OF p] show ?case by (auto simp: s1_def split: if_splits)
qed

lemma publish_each_sets:
  assumes "publish_each env es s = ((ps, fs), s')"
  shows "set ps \<union> set fs = set es"
  using publish_each_result [OF assms] by (metis set_mset_mset set_mset_union)

lemma publish_each_sub:
  assumes "publish_each env es s = ((ps, fs), s')"
  shows "oe_key ` set ps \<subseteq> oe_key ` set es" "oe_key ` set fs \<subseteq> oe_key ` set es"
  by (simp_all add: image_mono flip: publish_each_sets [OF assms])

lemma publish_each_disjoint:
  assumes "publish_each env es s = ((ps, fs), s')" "distinct (map oe_key es)"
  shows "distinct (map oe_key ps)" "distinct (map oe_key fs)" "oe_key ` set ps \<inter> oe_key ` set fs = {}"
proof -
  from publish_each_result [OF assms(1)] have "mset ps + mset fs = mset es" by simp
  then have "mset (map oe_key (ps @ fs)) = mset (map oe_key es)" by (metis image_mset_union mset_append mset_map)
  with assms(2) have "distinct (map oe_key (ps @ fs))" by (metis mset_eq_imp_distinct_iff)
  then show "distinct (map oe_key ps)" "distinct (map oe_key fs)" "oe_key ` set ps \<inter> oe_key ` set fs = {}"
    by auto
qed

section \<open>Settling the batch\<close>

text \<open>What a pass does to a row, given the keys published and the keys that failed.\<close>

definition bump :: "outbox_row \<Rightarrow> outbox_row" where
  "bump r = r\<lparr>ob_Attempts := ob_Attempts r + 1, ob_Failed := ob_Attempts r + 1 \<ge> MaxRelayAttempts\<rparr>"

definition publish_row :: "time \<Rightarrow> outbox_row \<Rightarrow> outbox_row" where
  "publish_row t r = r\<lparr>ob_Published := True, ob_PublishedAt := Some t\<rparr>"

definition settle_row :: "time \<Rightarrow> (uuid \<times> time) set \<Rightarrow> (uuid \<times> time) set \<Rightarrow> outbox_row \<Rightarrow> outbox_row" where
  "settle_row t P F r =
     (if ob_key r \<in> P \<and> \<not> ob_Published r then publish_row t r else if ob_key r \<in> F then bump r else r)"

lemma row_keys [simp]: "ob_key (bump r) = ob_key r" "ob_key (publish_row t r) = ob_key r"
  by (simp_all add: bump_def publish_row_def ob_key_def)

lemma row_flags [simp]:
  "ob_Published (bump r) = ob_Published r" "ob_Published (publish_row t r)"
  "ob_CreatedAt (bump r) = ob_CreatedAt r"
  by (simp_all add: bump_def publish_row_def)

lemma bump_all:
  "distinct (map oe_key fs) \<Longrightarrow>
     fold (\<lambda>e. IncrementRelayAttempts (oe_ID e) (oe_CreatedAt e)) fs d
       = d\<lparr>od_Rows := map (\<lambda>r. if ob_key r \<in> oe_key ` set fs then bump r else r) (od_Rows d)\<rparr>"
proof (induction fs arbitrary: d)
  case Nil
  then show ?case by (simp add: update_row_def)
next
  case (Cons e fs)
  have inc: "IncrementRelayAttempts (oe_ID e) (oe_CreatedAt e) d
      = d\<lparr>od_Rows := map (\<lambda>r. if ob_key r = oe_key e then bump r else r) (od_Rows d)\<rparr>"
    by (simp add: IncrementRelayAttempts_def update_row_def update_by_def oe_key_def bump_def)
  from Cons.prems have "distinct (map oe_key fs)" "oe_key e \<notin> oe_key ` set fs" by auto
  with Cons.IH show ?case by (auto simp: inc)
qed

lemma timeRange_bounds:
  assumes "t \<in> set ts"
  shows "fst (timeRange ts) \<le> t \<and> t \<le> snd (timeRange ts)"
proof -
  have *: "fst (foldl (\<lambda>(lo, hi) u. (if u < lo then u else lo, if hi < u then u else hi)) (a, b) us) \<le> a
      \<and> b \<le> snd (foldl (\<lambda>(lo, hi) u. (if u < lo then u else lo, if hi < u then u else hi)) (a, b) us)
      \<and> (\<forall>u \<in> set us. fst (foldl (\<lambda>(lo, hi) u. (if u < lo then u else lo, if hi < u then u else hi)) (a, b) us) \<le> u
          \<and> u \<le> snd (foldl (\<lambda>(lo, hi) u. (if u < lo then u else lo, if hi < u then u else hi)) (a, b) us))"
    for a b :: time and us
  proof (induction us arbitrary: a b)
    case (Cons u us)
    show ?case using Cons.IH [of "if u < a then u else a" "if b < u then u else b"] by (auto split: if_splits)
  qed simp
  from assms obtain x xs where "ts = x # xs" by (cases ts) auto
  with assms * [of x x xs] show ?thesis by (auto simp: timeRange_def)
qed

lemma merge_matches_key:
  "merge_matches ps r \<longleftrightarrow> ob_key r \<in> set ps \<and> \<not> ob_Published r"
  using timeRange_bounds [of "ob_CreatedAt r" "map snd ps"]
  by (force simp: merge_matches_def ob_key_def partitionPruningPadding_def split: prod.splits)

lemma settle_batch_result:
  assumes "settle_batch env ps fs d = Some (c, d')" "distinct (map oe_key fs)" "oe_key ` set ps \<inter> oe_key ` set fs = {}"
  shows "d' = d\<lparr>od_Rows := map (settle_row (env_dbnow env) (oe_key ` set ps) (oe_key ` set fs)) (od_Rows d)\<rparr>
    \<and> c = int (length (filter (\<lambda>r. ob_key r \<in> oe_key ` set ps \<and> \<not> ob_Published r) (od_Rows d)))"
proof (cases "ps = []")
  case True
  with assms(1) show ?thesis
    by (auto simp: settle_batch_def bump_all [OF assms(2)] settle_row_def [abs_def] split: if_splits)
next
  case False
  have keys: "set (map (\<lambda>e. (oe_ID e, oe_CreatedAt e)) ps) = oe_key ` set ps" by (auto simp: oe_key_def)
  have row: "(if ob_key r' \<in> oe_key ` set ps \<and> \<not> ob_Published r' then publish_row t r' else r')
      = settle_row t (oe_key ` set ps) (oe_key ` set fs) r"
    if "r' = (if ob_key r \<in> oe_key ` set fs then bump r else r)" for r r' t
    using that assms(3) by (auto simp: settle_row_def)
  have match: "merge_matches (map (\<lambda>e. (oe_ID e, oe_CreatedAt e)) ps) r \<longleftrightarrow> ob_key r \<in> oe_key ` set ps \<and> \<not> ob_Published r" for r
    by (simp only: merge_matches_key keys)
  from assms(1) False have d': "(c, d') = MarkPublishedBatch (env_dbnow env) (map (\<lambda>e. (oe_ID e, oe_CreatedAt e)) ps)
      (d\<lparr>od_Rows := map (\<lambda>r. if ob_key r \<in> oe_key ` set fs then bump r else r) (od_Rows d)\<rparr>)"
    by (auto simp: settle_batch_def bump_all [OF assms(2)] split: if_splits)
  have same: "(if ob_key (if ob_key r \<in> oe_key ` set fs then bump r else r) \<in> oe_key ` set ps
      \<and> \<not> ob_Published (if ob_key r \<in> oe_key ` set fs then bump r else r)
      then (if ob_key r \<in> oe_key ` set fs then bump r else r)\<lparr>ob_Published := True, ob_PublishedAt := Some t\<rparr>
      else (if ob_key r \<in> oe_key ` set fs then bump r else r))
      = settle_row t (oe_key ` set ps) (oe_key ` set fs) r" for r t
    using row [OF refl, of r t] unfolding publish_row_def .
  show ?thesis
    using d' False by (simp add: MarkPublishedBatch_def match o_def same filter_map)
qed

section \<open>The effect of a pass\<close>

definition ack_of :: "'n relay_env \<Rightarrow> outbox_event \<Rightarrow> string \<times> relay_message" where
  "ack_of env e = (oe_EventType e, relay_message_of env e)"

text \<open>The keys of the published and of the failed events of a pass that fetched \<open>es\<close>.\<close>

lemma relay_cases:
  assumes "relay env workers w n s = (c, s')"
  obtains (idle) "s' = s" "c = 0"
  | (sending) es ps fs where "fetch_batch env workers w n (rl_db s) = Inr es" "publish_each env es s = ((ps, fs), s')"
  | (settled) es ps fs s1 d' where "fetch_batch env workers w n (rl_db s) = Inr es"
      "publish_each env es s = ((ps, fs), s1)" "settle_batch env ps fs (rl_db s) = Some (c, d')" "s' = s1\<lparr>rl_db := d'\<rparr>"
      "re_state env (rl_nats s) \<noteq> StateOpen"
  using assms unfolding relay_def
  by (auto simp: Let_def split: if_splits sum.splits prod.splits option.splits)

lemma settle_row_moves:
  assumes inv: "outbox_inv d" and es: "fetch_batch env workers w n d = Inr es"
    and P: "P \<subseteq> oe_key ` set es" and F: "F \<subseteq> oe_key ` set es" and r: "r \<in> set (od_Rows d)"
  shows "row_moves r (settle_row t P F r) \<and> row_ok (settle_row t P F r)"
proof -
  have act: "active r" if "ob_key r \<in> oe_key ` set es"
  proof -
    from that obtain r' where r': "r' \<in> set (od_Rows d)" "active r'" "ob_key r' = ob_key r"
      by (auto simp: fetch_batch_rows [OF inv es] fetchable_def dest!: in_set_takeD)
    with outbox_invD(1) [OF inv] r have "r' = r" by (metis distinct_map inj_on_eq_iff)
    with r' show ?thesis by simp
  qed
  show ?thesis
    using act P F outbox_invD(3) [OF inv r]
    by (auto simp: settle_row_def row_moves_def row_ok_def active_def bump_def publish_row_def ob_key_def
        MaxRelayAttempts_def)
qed

lemma pass_keeps:
  assumes inv: "outbox_inv (rl_db s)" and pass: "relay env workers w n s = (c, s')"
  shows "outbox_inv (rl_db s') \<and> rows_follow (od_Rows (rl_db s)) (od_Rows (rl_db s'))"
  using pass
proof (cases rule: relay_cases)
  case idle
  with inv show ?thesis by simp
next
  case (sending es ps fs)
  with inv show ?thesis by (simp add: publish_each_result)
next
  case (settled es ps fs s1 d')
  note dis = publish_each_disjoint [OF settled(2) fetched_keys [OF inv settled(1)]]
  note keys = publish_each_sub [OF settled(2)]
  have d': "d' = (rl_db s)\<lparr>od_Rows := map (settle_row (env_dbnow env) (oe_key ` set ps) (oe_key ` set fs)) (od_Rows (rl_db s))\<rparr>"
    using settle_batch_result [OF settled(3) dis(2,3)] by simp
  note moves = settle_row_moves [OF inv settled(1) keys, of _ "env_dbnow env"]
  show ?thesis
    unfolding settled(4) d'
    using outbox_inv_map [OF inv moves] rows_follow_map [of "od_Rows (rl_db s)"] moves by simp
qed

lemma pass_acks:
  assumes pass: "relay env workers w n s = (c, s')"
  shows "\<exists>ps. rl_acked s' = rl_acked s @ map (ack_of env) ps"
  using pass
proof (cases rule: relay_cases)
  case idle
  then show ?thesis by (metis append_Nil2 list.simps(8))
next
  case (sending es ps fs)
  then show ?thesis using publish_each_result [OF sending(2)] by (auto simp: ack_of_def [abs_def])
next
  case (settled es ps fs s1 d')
  then show ?thesis using publish_each_result [OF settled(2)] by (auto simp: ack_of_def [abs_def])
qed

text \<open>A published row was sent: its message was accepted under its identifier and type.\<close>

definition sent :: "(string \<times> relay_message) list \<Rightarrow> outbox_row \<Rightarrow> bool" where
  "sent l r \<longleftrightarrow> (\<exists>m. (ob_EventType r, m) \<in> set l \<and> wm_UUID m = ob_ID r \<and> wm_Payload m = Some (ob_Payload r))"

definition published_sent :: "'n relay \<Rightarrow> bool" where
  "published_sent s \<longleftrightarrow> (\<forall>r \<in> set (od_Rows (rl_db s)). ob_Published r \<longrightarrow> sent (rl_acked s) r)"

lemma sent_append: "sent l r \<Longrightarrow> sent (l @ xs) r"
  by (auto simp: sent_def)

lemma sent_moves: "row_moves r r' \<Longrightarrow> sent l r' = sent l r"
  by (simp add: sent_def row_moves_def ob_key_def)

lemma pass_published_sent:
  assumes inv: "outbox_inv (rl_db s)" and ps: "published_sent s" and pass: "relay env workers w n s = (c, s')"
  shows "published_sent s'"
  using pass
proof (cases rule: relay_cases)
  case idle
  with ps show ?thesis by simp
next
  case (sending es ps' fs)
  then show ?thesis using ps publish_each_result [OF sending(2)] by (auto simp: published_sent_def sent_append)
next
  case (settled es ps' fs s1 d')
  note dis = publish_each_disjoint [OF settled(2) fetched_keys [OF inv settled(1)]]
  note keys = publish_each_sub [OF settled(2)]
  have acked: "rl_acked s' = rl_acked s @ map (ack_of env) ps'"
    using publish_each_result [OF settled(2)] settled(4) by (simp add: ack_of_def [abs_def])
  define f where "f = settle_row (env_dbnow env) (oe_key ` set ps') (oe_key ` set fs)"
  have rows: "od_Rows (rl_db s') = map f (od_Rows (rl_db s))"
    using settle_batch_result [OF settled(3) dis(2,3)] by (simp add: settled(4) f_def)
  have "sent (rl_acked s') (f r)" if r: "r \<in> set (od_Rows (rl_db s))" "ob_Published (f r)" for r
  proof -
    have mv: "row_moves r (f r)" using settle_row_moves [OF inv settled(1) keys r(1)] by (simp add: f_def)
    have "sent (rl_acked s') r"
    proof (cases "ob_Published r")
      case True
      with ps r(1) show ?thesis by (simp add: published_sent_def acked sent_append)
    next
      case False
      with r(2) have "ob_key r \<in> oe_key ` set ps'" by (auto simp: f_def settle_row_def split: if_splits)
      then obtain e where e: "e \<in> set ps'" "oe_key e = ob_key r" by auto
      from e(1) have "e \<in> set es" using publish_each_sets [OF settled(2)] by auto
      then obtain r' where r': "r' \<in> set (od_Rows (rl_db s))" "e = rowToOutboxEvent r'"
        by (auto simp: fetch_batch_rows [OF inv settled(1)] dest!: in_set_takeD)
      with e(2) have "ob_key r' = ob_key r" by simp
      with outbox_invD(1) [OF inv] r(1) r'(1) have "r' = r" by (metis distinct_map inj_on_eq_iff)
      then have "fst (ack_of env e) = ob_EventType r" "wm_UUID (snd (ack_of env e)) = ob_ID r"
        "wm_Payload (snd (ack_of env e)) = Some (ob_Payload r)"
        by (simp_all add: r'(2) ack_of_def relay_message_of_def rowToOutboxEvent_def)
      moreover from e(1) have "ack_of env e \<in> set (rl_acked s')" by (simp add: acked)
      ultimately show ?thesis unfolding sent_def by (metis prod.collapse)
    qed
    with sent_moves [OF mv] show ?thesis by simp
  qed
  then show ?thesis by (auto simp: published_sent_def rows)
qed

section \<open>Histories of the outbox\<close>

text \<open>
  Everything the program does to the table: storing a batch in a transaction, a relay pass of any
  worker, the hourly deletion and a round of the partition manager.
\<close>

datatype relay_job =
    JobStore "wire_event list"
  | JobPass int int int
  | JobCleanup
  | JobPartitions partition_manager

fun relay_exec :: "'n relay_env \<Rightarrow> relay_job \<Rightarrow> 'n relay \<Rightarrow> 'n relay" where
  "relay_exec env (JobStore es) s = s\<lparr>rl_db := snd (RunInTx ErrOutboxStorage env (StoreBatch env es) (rl_db s))\<rparr>"
| "relay_exec env (JobPass workers w n) s = snd (relay env workers w n s)"
| "relay_exec env JobCleanup s = s\<lparr>rl_db := relay_cleanup env (rl_db s)\<rparr>"
| "relay_exec env (JobPartitions pm) s = s\<lparr>rl_db := pm_round env pm (rl_db s)\<rparr>"

fun relay_run :: "('n relay_env \<times> relay_job) list \<Rightarrow> 'n relay \<Rightarrow> 'n relay" where
  "relay_run [] s = s"
| "relay_run ((env, j) # js) s = relay_run js (relay_exec env j s)"

text \<open>What the jobs other than a pass keep: they publish nothing and only remove published rows.\<close>

definition quiet :: "outbox_db \<Rightarrow> outbox_db \<Rightarrow> bool" where
  "quiet d d' \<longleftrightarrow> outbox_inv d' \<and> rows_follow (od_Rows d) (od_Rows d')
     \<and> (\<forall>r \<in> set (od_Rows d'). ob_Published r \<longrightarrow> r \<in> set (od_Rows d))"

lemma quiet_refl: "outbox_inv d \<Longrightarrow> quiet d d"
  by (simp add: quiet_def)

lemma quiet_trans: "quiet d d' \<Longrightarrow> quiet d' d'' \<Longrightarrow> quiet d d''"
  unfolding quiet_def by (meson rows_follow_trans)

lemma quiet_inv: "quiet d d' \<Longrightarrow> outbox_inv d'"
  by (simp add: quiet_def)

text \<open>New rows are unpublished and carry the next numbers.\<close>

lemma Insert_keeps:
  "InsertOutboxEvents env es d = Inr ((), d') \<Longrightarrow> outbox_inv d \<Longrightarrow>
     outbox_inv d' \<and> od_Seq d \<le> od_Seq d' \<and> (\<exists>new. od_Rows d' = od_Rows d @ new \<and> (\<forall>r \<in> set new. \<not> ob_Published r))"
proof (induction env es d rule: InsertOutboxEvents.induct)
  case (1 env d)
  then show ?case by simp
next
  case (2 env u e es d)
  let ?r = "outbox_row_of env u e (od_Seq d + 1)"
  from "2.prems"(1) obtain rows where rows: "insert_unique ob_key (ErrOutboxStorage ''outbox_pkey'') ?r (od_Rows d) = Inr rows"
    and rest: "InsertOutboxEvents env es (d\<lparr>od_Rows := rows, od_Seq := od_Seq d + 1\<rparr>) = Inr ((), d')"
    by (auto simp: rbind_Inr_iff)
  have app: "rows = od_Rows d @ [?r]" using rows by (rule insert_unique_set)
  have key: "ob_key ?r \<notin> ob_key ` set (od_Rows d)" using keys_insert [OF rows] by simp
  have new: "row_ok ?r" "ob_Sequence ?r = od_Seq d + 1" "\<not> ob_Published ?r"
    by (simp_all add: row_ok_def outbox_row_of_def MaxRelayAttempts_def)
  have "outbox_inv (d\<lparr>od_Rows := rows, od_Seq := od_Seq d + 1\<rparr>)"
  proof (rule outbox_invI)
    show "distinct (map ob_key (od_Rows (d\<lparr>od_Rows := rows, od_Seq := od_Seq d + 1\<rparr>)))"
      using outbox_invD(1) [OF "2.prems"(2)] key by (simp add: app)
    show "sorted_wrt (<) (map ob_Sequence (od_Rows (d\<lparr>od_Rows := rows, od_Seq := od_Seq d + 1\<rparr>)))"
      using outbox_invD(2,4) [OF "2.prems"(2)] new(2) by (fastforce simp: app sorted_wrt_append)
  qed (use outbox_invD(3,4) [OF "2.prems"(2)] new in \<open>fastforce simp: app\<close>)
  from "2.IH" [OF rows rest this] new(3) show ?case by (auto simp: app)
qed

lemma Insert_quiet:
  assumes "InsertOutboxEvents env es d = Inr (u, d')" "outbox_inv d"
  shows "quiet d d'"
  using Insert_keeps [OF _ assms(2), of env es d'] assms(1)
  by (auto simp: quiet_def rows_follow_append)

lemma Store_quiet:
  assumes "outbox_inv d"
  shows "quiet d (snd (RunInTx ErrOutboxStorage env (StoreBatch env es) d))"
proof (cases "\<exists>a d'. RunInTx ErrOutboxStorage env (StoreBatch env es) d = (Inr a, d')")
  case False
  then have "snd (RunInTx ErrOutboxStorage env (StoreBatch env es) d) = d"
    by (metis RunInTx_error old.sum.exhaust prod.collapse)
  with assms show ?thesis by (simp add: quiet_refl)
next
  case True
  then obtain a d' where run: "RunInTx ErrOutboxStorage env (StoreBatch env es) d = (Inr a, d')" by blast
  then have body: "StoreBatch env es d = Inr (a, d')" by (simp add: RunInTx_ok_iff)
  have step: "quiet d1 d2"
    if "(if c then tx_return () else tx_call ErrOutboxStorage env l (InsertOutboxEvents env xs)) d1 = Inr (u, d2)"
      "outbox_inv d1" for c l xs d1 d2 u
    using that by (auto simp: tx_return_iff tx_call_iff quiet_refl Insert_quiet split: if_splits)
  from body have "quiet d d'"
    unfolding StoreBatch_def Let_def
    by (cases "es = []") (auto simp: tx_return_iff tx_bind_iff quiet_refl [OF assms]
        dest!: step intro: quiet_trans dest: quiet_inv simp: assms)
  then show ?thesis by (simp add: run)
qed

text \<open>Deletions.\<close>

lemma filter_quiet:
  assumes "outbox_inv d" "\<And>r. r \<in> set (od_Rows d) \<Longrightarrow> \<not> P r \<Longrightarrow> ob_Published r"
    and "od_Rows d' = filter P (od_Rows d)" "od_Seq d' = od_Seq d"
  shows "quiet d d'"
proof -
  have "outbox_inv d'"
    using assms(1) unfolding outbox_inv_def assms(3,4)
    by (auto simp: distinct_map_filter sorted_wrt_filter sorted_wrt_map)
  then show ?thesis
    using rows_follow_filter [of "od_Rows d" P] assms(2) by (simp add: quiet_def assms(3))
qed

lemmas filter_quiets = filter_quiet [where d' = "d\<lparr>od_Rows := filter P (od_Rows d)\<rparr>" and P = P and d = d for P d, simplified]
  filter_quiet [where d' = "d\<lparr>od_Rows := filter P (od_Rows d), od_Partitions := ps\<rparr>" and P = P and d = d for P d ps, simplified]

lemma cleanup_quiet: "outbox_inv d \<Longrightarrow> quiet d (relay_cleanup env d)"
  by (auto simp: relay_cleanup_def DeleteOld_def Let_def quiet_refl simp del: de_Morgan_conj intro!: filter_quiets(1))

lemma ensure_rows:
  "ensure_each env t ks d = (r, d') \<Longrightarrow> od_Rows d' = od_Rows d \<and> od_Seq d' = od_Seq d"
proof (induction env t ks d rule: ensure_each.induct)
  case (2 env t i ks d)
  then show ?case
    by (auto simp: ensure_one_def create_partition_def Let_def split: sum.splits if_splits prod.splits)
qed simp

lemma pm_ensure_rows [simp]: "od_Rows (pm_ensure env pm d) = od_Rows d" "od_Seq (pm_ensure env pm d) = od_Seq d"
  using ensure_rows [of env "env_now env" "[0..pm_lookahead pm - 1]" d]
  by (auto simp: pm_ensure_def EnsurePartitions_def) (metis prod.collapse)+

lemma pm_ensure_inv: "outbox_inv d \<Longrightarrow> outbox_inv (pm_ensure env pm d)"
  by (simp add: outbox_inv_def)

lemma drop_quiet:
  assumes "outbox_inv d" "\<not> hasUnpublished name d"
  shows "quiet d (snd (DetachAndDropPartition env name d))"
  using assms
  by (auto simp: DetachAndDropPartition_def hasUnpublished_def partition_rows_def Let_def list_ex_iff quiet_refl
      intro!: filter_quiets(2))

lemma drop_each_quiet: "outbox_inv d \<Longrightarrow> quiet d (drop_each env names d)"
proof (induction env names d rule: drop_each.induct)
  case (1 env d)
  then show ?case by (simp add: quiet_refl)
next
  case (2 env name names d)
  define d1 where "d1 = (if env_fault env (''check unpublished in '' @ name) \<or> hasUnpublished name d
           \<or> env_fault env (''check sequence safety for '' @ name) \<or> \<not> isSafeToDrop name d
        then d else snd (DetachAndDropPartition env name d))"
  have "quiet d d1" using "2.prems" by (simp add: d1_def quiet_refl drop_quiet)
  with "2.IH" quiet_inv quiet_trans show ?case unfolding drop_each.simps d1_def by blast
qed

lemma pm_round_quiet: "outbox_inv d \<Longrightarrow> quiet d (pm_round env pm d)"
proof -
  assume inv: "outbox_inv d"
  have "quiet d (pm_ensure env pm d)"
    using inv by (simp add: quiet_def pm_ensure_inv)
  moreover have "quiet (pm_ensure env pm d) (pm_round env pm d)"
    by (auto simp: pm_round_def pm_cleanup_def intro!: quiet_refl drop_each_quiet pm_ensure_inv inv)
  ultimately show ?thesis by (rule quiet_trans)
qed

text \<open>What every job keeps.\<close>

definition relay_keeps :: "'n relay \<Rightarrow> 'n relay \<Rightarrow> bool" where
  "relay_keeps s s' \<longleftrightarrow> outbox_inv (rl_db s') \<and> published_sent s' \<and> rows_follow (od_Rows (rl_db s)) (od_Rows (rl_db s'))
     \<and> (\<exists>new. rl_acked s' = rl_acked s @ new)"

lemma quiet_keeps:
  assumes "quiet (rl_db s) d" "published_sent s"
  shows "relay_keeps s (s\<lparr>rl_db := d\<rparr>)"
  using assms by (auto simp: relay_keeps_def quiet_def published_sent_def)

lemma relay_exec_keeps:
  assumes "outbox_inv (rl_db s)" "published_sent s"
  shows "relay_keeps s (relay_exec env j s)"
proof (cases j)
  case (JobPass workers w n)
  obtain c s' where pass: "relay env workers w n s = (c, s')" by force
  then show ?thesis
    using pass_keeps [OF assms(1) pass] pass_published_sent [OF assms pass] pass_acks [OF pass]
    by (auto simp: relay_keeps_def JobPass)
qed (use assms in \<open>simp_all add: quiet_keeps Store_quiet cleanup_quiet pm_round_quiet\<close>)

lemma relay_keeps_trans: "relay_keeps s s' \<Longrightarrow> relay_keeps s' s'' \<Longrightarrow> relay_keeps s s''"
  unfolding relay_keeps_def using rows_follow_trans by force

lemma relay_run_keeps:
  "outbox_inv (rl_db s) \<Longrightarrow> published_sent s \<Longrightarrow> relay_keeps s (relay_run js s)"
proof (induction js s rule: relay_run.induct)
  case (1 s)
  then show ?case by (simp add: relay_keeps_def)
next
  case (2 env j js s)
  have step: "relay_keeps s (relay_exec env j s)" by (rule relay_exec_keeps [OF "2.prems"])
  moreover from step have "relay_keeps (relay_exec env j s) (relay_run js (relay_exec env j s))"
    by (intro "2.IH") (simp_all add: relay_keeps_def)
  ultimately show ?case unfolding relay_run.simps by (rule relay_keeps_trans)
qed

section \<open>Passes over the first batch\<close>

definition no_fault :: "'n relay_env \<Rightarrow> bool" where
  "no_fault env \<longleftrightarrow> (\<forall>l. \<not> env_fault env l)"

definition first_active :: "int \<Rightarrow> outbox_db \<Rightarrow> outbox_row list" where
  "first_active n d = take (nat n) (filter active (od_Rows d))"

text \<open>What a single-worker pass does in full when the database is up and the breaker lets it poll.\<close>

lemma full_pass:
  assumes inv: "outbox_inv (rl_db s)" and up: "no_fault env" and shut: "re_state env (rl_nats s) \<noteq> StateOpen"
    and pass: "relay env 1 0 n s = (c, s')"
    and pub: "publish_each env (map rowToOutboxEvent (first_active n (rl_db s))) s = ((ps, fs), s1)"
  shows "rl_db s' = (rl_db s)\<lparr>od_Rows := map (settle_row (env_dbnow env) (oe_key ` set ps) (oe_key ` set fs)) (od_Rows (rl_db s))\<rparr>"
    and "rl_acked s' = rl_acked s @ map (ack_of env) ps" and "rl_nats s' = rl_nats s1"
    and "c = int (length (filter (\<lambda>r. ob_key r \<in> oe_key ` set ps \<and> \<not> ob_Published r) (od_Rows (rl_db s))))"
proof -
  have es: "fetch_batch env 1 0 n (rl_db s) = Inr (map rowToOutboxEvent (first_active n (rl_db s)))"
    using up by (simp add: fetch_batch_def no_fault_def GetUnpublished_def first_active_def sort_rows [OF inv])
  note dis = publish_each_disjoint [OF pub fetched_keys [OF inv es]]
  obtain c' d' where settle: "settle_batch env ps fs (rl_db s) = Some (c', d')"
    using up by (cases "settle_batch env ps fs (rl_db s)") (auto simp: settle_batch_def no_fault_def Let_def split: if_splits)
  have "(c, s') = (c', s1\<lparr>rl_db := d'\<rparr>)"
    using pass shut up by (simp add: relay_def no_fault_def es pub settle)
  then show "rl_db s' = (rl_db s)\<lparr>od_Rows := map (settle_row (env_dbnow env) (oe_key ` set ps) (oe_key ` set fs)) (od_Rows (rl_db s))\<rparr>"
    "rl_acked s' = rl_acked s @ map (ack_of env) ps" "rl_nats s' = rl_nats s1"
    "c = int (length (filter (\<lambda>r. ob_key r \<in> oe_key ` set ps \<and> \<not> ob_Published r) (od_Rows (rl_db s))))"
    using settle_batch_result [OF settle dis(2,3)] publish_each_result [OF pub]
    by (simp_all add: ack_of_def [abs_def])
qed

lemma first_active_mem:
  "r \<in> set (first_active n d) \<Longrightarrow> r \<in> set (od_Rows d) \<and> active r"
  by (auto simp: first_active_def dest!: in_set_takeD)

lemma take_filter_mono: "x \<in> set (take n xs) \<Longrightarrow> P x \<Longrightarrow> x \<in> set (take n (filter P xs))"
proof (induction xs arbitrary: n)
  case (Cons y ys)
  then show ?case
  proof (cases n)
    case (Suc m)
    have "x \<in> set (take m ys) \<Longrightarrow> x \<in> set (take n (filter P ys))"
      using Cons.IH [of m] Cons.prems(2) set_take_subset_set_take [of m n "filter P ys"] Suc by auto
    with Cons Suc show ?thesis by auto
  qed simp
qed simp

text \<open>A row of the first batch that stays active is in the first batch after the writes of the pass.\<close>

lemma first_active_stays:
  assumes "r \<in> set (first_active n d)" "active (f r)" "\<And>x. x \<in> set (od_Rows d) \<Longrightarrow> row_moves x (f x)"
  shows "f r \<in> set (first_active n (d\<lparr>od_Rows := map f (od_Rows d)\<rparr>))"
proof -
  have "filter active (map f (od_Rows d)) = map f (filter (\<lambda>x. active (f x)) (filter active (od_Rows d)))"
    using assms(3) by (auto simp: filter_map o_def row_moves_def active_def
        intro!: arg_cong [where f = "map f"] filter_cong)
  moreover from assms(1,2) have "r \<in> set (take (nat n) (filter (\<lambda>x. active (f x)) (filter active (od_Rows d))))"
    unfolding first_active_def by (rule take_filter_mono)
  ultimately show ?thesis by (simp add: first_active_def take_map)
qed

section \<open>Doomed events\<close>

text \<open>The publish of an event of type \<open>t\<close> never succeeds, whatever the state of broker and breaker.\<close>

definition doomed :: "'n relay_env \<Rightarrow> string \<Rightarrow> bool" where
  "doomed env t \<longleftrightarrow> (\<forall>m n. \<not> fst (re_execute env (re_publish env t m) n))"

definition refused :: "'n relay_env \<Rightarrow> outbox_event \<Rightarrow> bool" where
  "refused env e \<longleftrightarrow> (\<forall>n. \<not> fst (re_execute env (re_publish env (oe_EventType e) (relay_message_of env e)) n))"

definition accepted :: "'n relay_env \<Rightarrow> outbox_event \<Rightarrow> bool" where
  "accepted env e \<longleftrightarrow> (\<forall>n. fst (re_execute env (re_publish env (oe_EventType e) (relay_message_of env e)) n))"

lemma publish_outcome:
  "publish_each env es s = ((ps, fs), s') \<Longrightarrow> e \<in> set es \<Longrightarrow>
     (refused env e \<longrightarrow> e \<in> set fs) \<and> (accepted env e \<longrightarrow> e \<in> set ps)"
proof (induction es arbitrary: s ps fs s')
  case (Cons x es)
  obtain ok n' where ex: "re_execute env (re_publish env (oe_EventType x) (relay_message_of env x)) (rl_nats s) = (ok, n')"
    by force
  obtain ps' fs' s2 where p: "publish_each env es
      (s\<lparr>rl_nats := n', rl_acked := rl_acked s @ (if ok then [(oe_EventType x, relay_message_of env x)] else [])\<rparr>)
      = ((ps', fs'), s2)" by (metis prod.exhaust)
  from Cons.prems(1) ex p have res: "(ps, fs) = (if ok then (x # ps', fs') else (ps', x # fs'))"
    by (auto simp: Let_def split: if_splits)
  show ?case
  proof (cases "e \<in> set es")
    case True
    from Cons.IH [OF p True] res show ?thesis by (auto split: if_splits)
  next
    case False
    with Cons.prems(2) have "e = x" by simp
    have "refused env x \<Longrightarrow> \<not> ok" "accepted env x \<Longrightarrow> ok"
      using ex unfolding refused_def accepted_def by (metis fst_conv)+
    with res \<open>e = x\<close> show ?thesis by auto
  qed
qed simp

lemma doomed_fails:
  assumes "publish_each env es s = ((ps, fs), s')" "e \<in> set es" "doomed env (oe_EventType e)"
  shows "e \<in> set fs"
  using publish_outcome [OF assms(1,2)] assms(3) by (auto simp: refused_def doomed_def)

text \<open>How often a run of passes found the breaker not open.\<close>

fun probes :: "int \<Rightarrow> int \<Rightarrow> ('n relay_env \<times> int) list \<Rightarrow> relay_worker \<Rightarrow> 'n relay \<Rightarrow> nat" where
  "probes workers w [] k s = 0"
| "probes workers w ((env, rnd) # ts) k s =
     (case relay env workers w (wk_BatchSize k) s of (published, s') \<Rightarrow>
       (if re_state env (rl_nats s) = StateOpen then 0 else 1) + probes workers w ts (worker_next rnd published k) s')"

definition batch_ok :: "relay_worker \<Rightarrow> bool" where
  "batch_ok k \<longleftrightarrow> OutboxRelayBatchSize \<le> wk_BatchSize k \<and> wk_BatchSize k \<le> OutboxRelayMaxBatchSize"

lemma batch_ok_next: "batch_ok k \<Longrightarrow> batch_ok (worker_next rnd c k)"
  by (auto simp: batch_ok_def worker_next_def Let_def OutboxRelayBatchSize_def OutboxRelayMaxBatchSize_def
      OutboxRelayBackoffMultiplier_def)

lemma batch_ok_initial: "batch_ok initial_worker"
  by (simp add: batch_ok_def initial_worker_def OutboxRelayBatchSize_def OutboxRelayMaxBatchSize_def)

text \<open>The row \<open>r\<close> has failed at least \<open>a\<close> times, and it is dead or next in line.\<close>

definition failing :: "outbox_row \<Rightarrow> int \<Rightarrow> outbox_db \<Rightarrow> bool" where
  "failing r a d \<longleftrightarrow> (\<exists>r'. row_moves r r' \<and> a \<le> ob_Attempts r' \<and> r' \<in> set (od_Rows d) \<and> \<not> ob_Published r'
     \<and> (ob_Failed r' \<or> r' \<in> set (first_active OutboxRelayBatchSize d)))"

lemma failing_pass:
  assumes inv: "outbox_inv (rl_db s)" and f: "failing r a (rl_db s)" and up: "no_fault env" and doom: "doomed env (ob_EventType r)"
    and batch: "OutboxRelayBatchSize \<le> n" and pass: "relay env 1 0 n s = (c, s')"
  shows "failing r (min MaxRelayAttempts (a + (if re_state env (rl_nats s) = StateOpen then 0 else 1))) (rl_db s')"
proof (cases "re_state env (rl_nats s) = StateOpen")
  case True
  with pass have "s' = s" by (simp add: relay_def)
  with f True show ?thesis by (auto simp: failing_def)
next
  case False
  from f obtain r' where r': "row_moves r r'" "a \<le> ob_Attempts r'" "r' \<in> set (od_Rows (rl_db s))" "\<not> ob_Published r'"
    "ob_Failed r' \<or> r' \<in> set (first_active OutboxRelayBatchSize (rl_db s))" by (auto simp: failing_def)
  obtain ps fs s1 where pub: "publish_each env (map rowToOutboxEvent (first_active n (rl_db s))) s = ((ps, fs), s1)"
    by (metis prod.exhaust)
  note full = full_pass [OF inv up False pass pub]
  define g where "g = settle_row (env_dbnow env) (oe_key ` set ps) (oe_key ` set fs)"
  have db: "rl_db s' = (rl_db s)\<lparr>od_Rows := map g (od_Rows (rl_db s))\<rparr>" using full(1) by (simp add: g_def)
  have follow: "rows_follow (od_Rows (rl_db s)) (od_Rows (rl_db s'))" using pass_keeps [OF inv pass] by simp
  show ?thesis
  proof (cases "ob_Failed r'")
    case True
    have "r' \<in> set (od_Rows (rl_db s'))" by (rule dead_row_stays [OF follow r'(3) True r'(4)])
    moreover have "ob_Attempts r' = MaxRelayAttempts"
      using outbox_invD(3) [OF inv r'(3)] True by (simp add: row_ok_def)
    moreover have "min MaxRelayAttempts x \<le> MaxRelayAttempts" for x by simp
    ultimately show ?thesis using r'(1,4) True unfolding failing_def by metis
  next
    case notdead: False
    with r'(5) have first: "r' \<in> set (first_active OutboxRelayBatchSize (rl_db s))" by simp
    have "r' \<in> set (first_active n (rl_db s))"
      using first set_take_subset_set_take [OF nat_mono [OF batch]] unfolding first_active_def by (rule rev_subsetD)
    then have "rowToOutboxEvent r' \<in> set fs"
      using doom r'(1) by (intro doomed_fails [OF pub]) (auto simp: rowToOutboxEvent_def row_moves_def)
    then have key: "ob_key r' \<in> oe_key ` set fs" by (metis image_eqI oe_key_row)
    have es: "fetch_batch env 1 0 n (rl_db s) = Inr (map rowToOutboxEvent (first_active n (rl_db s)))"
      using up by (simp add: fetch_batch_def no_fault_def GetUnpublished_def first_active_def sort_rows [OF inv])
    from key publish_each_disjoint(3) [OF pub fetched_keys [OF inv es]] have "ob_key r' \<notin> oe_key ` set ps" by auto
    with key have g: "g r' = bump r'" by (simp add: g_def settle_row_def)
    note sub = publish_each_sub [OF pub]
    have moves: "row_moves x (g x)" if "x \<in> set (od_Rows (rl_db s))" for x
      using settle_row_moves [OF inv es sub that] unfolding g_def by (rule conjunct1)
    have mv: "row_moves r' (bump r')"
      using r'(4) notdead by (simp add: row_moves_def bump_def ob_key_def)
    have mem: "g r' \<in> set (od_Rows (rl_db s'))" using r'(3) by (simp add: db)
    have next_one: "ob_Failed (g r') \<or> g r' \<in> set (first_active OutboxRelayBatchSize (rl_db s'))"
    proof (cases "ob_Failed (g r')")
      case False
      with r'(4) have "active (g r')" by (simp add: active_def g)
      from first_active_stays [OF first this moves] show ?thesis unfolding db by simp
    qed simp
    have "a + 1 \<le> ob_Attempts (g r')" using r'(2) by (simp add: g bump_def)
    then have att: "min MaxRelayAttempts (a + (if re_state env (rl_nats s) = StateOpen then 0 else 1)) \<le> ob_Attempts (g r')"
      using False by simp
    have "row_moves r (g r')" unfolding g by (rule row_moves_trans [OF r'(1) mv])
    moreover have "\<not> ob_Published (g r')" using r'(4) by (simp add: g)
    ultimately show ?thesis unfolding failing_def using att mem next_one by blast
  qed
qed

lemma failing_run:
  assumes "outbox_inv (rl_db s)" "failing r a (rl_db s)" "batch_ok k"
    and "\<forall>(env, rnd) \<in> set ts. no_fault env \<and> doomed env (ob_EventType r)"
    and "run_ticks 1 0 ts k s = (k', s')"
  shows "failing r (min MaxRelayAttempts (a + int (probes 1 0 ts k s))) (rl_db s')"
  using assms
proof (induction ts arbitrary: a k s)
  case Nil
  then show ?case by (auto simp: failing_def)
next
  case (Cons t ts)
  obtain env rnd where t: "t = (env, rnd)" by force
  obtain c s1 where pass: "relay env 1 0 (wk_BatchSize k) s = (c, s1)" by force
  define b where "b = (if re_state env (rl_nats s) = StateOpen then 0 else 1 :: int)"
  have inv1: "outbox_inv (rl_db s1)" using pass_keeps [OF Cons.prems(1) pass] by simp
  have f1: "failing r (min MaxRelayAttempts (a + b)) (rl_db s1)"
    unfolding b_def using Cons.prems by (intro failing_pass [OF _ _ _ _ _ pass]) (auto simp: t batch_ok_def)
  have run: "run_ticks 1 0 ts (worker_next rnd c k) s1 = (k', s')"
    using Cons.prems(5) by (simp add: t pass)
  have "failing r (min MaxRelayAttempts (min MaxRelayAttempts (a + b) + int (probes 1 0 ts (worker_next rnd c k) s1))) (rl_db s')"
    by (rule Cons.IH [OF inv1 f1 batch_ok_next [OF Cons.prems(3)] _ run]) (use Cons.prems(4) in auto)
  moreover have "min MaxRelayAttempts (min MaxRelayAttempts (a + b) + int (probes 1 0 ts (worker_next rnd c k) s1))
      = min MaxRelayAttempts (a + int (probes 1 0 (t # ts) k s))"
    by (auto simp: t pass b_def min_def)
  ultimately show ?case by simp
qed

text \<open>Ten probing passes kill it for good.\<close>

lemma doomed_row_dies:
  assumes inv: "outbox_inv (rl_db s)" and r: "r \<in> set (first_active OutboxRelayBatchSize (rl_db s))"
    and envs: "\<forall>(e, rnd) \<in> set ts. no_fault e \<and> doomed e (ob_EventType r)" and k: "batch_ok k"
    and ten: "10 \<le> probes 1 0 ts k s" and run: "run_ticks 1 0 ts k s = (k', s')"
  shows "\<exists>r' \<in> set (od_Rows (rl_db s')). row_moves r r' \<and> ob_Failed r' \<and> \<not> ob_Published r'"
proof -
  have "row_ok r" "\<not> ob_Published r"
    using first_active_mem [OF r] outbox_invD(3) [OF inv] by (auto simp: active_def)
  then have "failing r 0 (rl_db s)"
    using r first_active_mem [OF r] by (auto simp: failing_def row_ok_def intro!: exI [of _ r])
  from failing_run [OF inv this k envs run] ten
  have "failing r MaxRelayAttempts (rl_db s')" by (simp add: MaxRelayAttempts_def min_def split: if_splits)
  then obtain r' where r': "row_moves r r'" "MaxRelayAttempts \<le> ob_Attempts r'" "r' \<in> set (od_Rows (rl_db s'))" "\<not> ob_Published r'"
    by (auto simp: failing_def)
  have "outbox_inv (rl_db s')"
    using run inv
  proof (induction ts arbitrary: k s)
    case (Cons t ts)
    obtain env rnd c s1 where t: "t = (env, rnd)" "relay env 1 0 (wk_BatchSize k) s = (c, s1)"
      by (metis prod.exhaust)
    with Cons show ?case using pass_keeps [OF Cons.prems(2) t(2)] by simp
  qed simp
  then have "ob_Failed r'" using r'(2,3) outbox_invD(3) by (fastforce simp: row_ok_def)
  with r' show ?thesis by blast
qed

end
