(* ===== verification/RelayProps.thy ===== *)
theory RelayProps
  imports RelaySpec
begin

text \<open>
  The properties of the outbox, its relay, its partitions and the dead-letter replay, with a small
  broker and breaker on which they are instantiated.
\<close>

section \<open>A broker and a breaker for the witnesses\<close>

text \<open>
  The state counts consecutive failures and keeps the accepted messages; the breaker refuses from the
  fifth failure on until it is allowed a probe. \<open>sample_relay_env up probe t\<close> is the environment at time
  \<open>t\<close> of a broker that accepts subjects satisfying \<open>up\<close>.
\<close>

record sample_nats =
  sn_failures :: nat
  sn_stream :: "(string \<times> string) list"

definition sample_state :: "bool \<Rightarrow> sample_nats \<Rightarrow> breaker_state" where
  "sample_state probe n =
     (if \<not> ReadyToTrip DefaultConfigNoInterval (sn_failures n) then StateClosed else if probe then StateHalfOpen else StateOpen)"

definition sample_execute :: "bool \<Rightarrow> (sample_nats \<Rightarrow> bool \<times> sample_nats) \<Rightarrow> sample_nats \<Rightarrow> bool \<times> sample_nats" where
  "sample_execute probe f n =
     (if sample_state probe n = StateOpen then (False, n)
      else case f n of (True, n') \<Rightarrow> (True, n'\<lparr>sn_failures := 0\<rparr>) | (False, n') \<Rightarrow> (False, n'\<lparr>sn_failures := Suc (sn_failures n')\<rparr>))"

definition sample_publish :: "(string \<Rightarrow> bool) \<Rightarrow> string \<Rightarrow> relay_message \<Rightarrow> sample_nats \<Rightarrow> bool \<times> sample_nats" where
  "sample_publish up t m n = (if up t then (True, n\<lparr>sn_stream := sn_stream n @ [(t, wm_UUID m)]\<rparr>) else (False, n))"

definition sample_relay_env :: "(string \<Rightarrow> bool) \<Rightarrow> bool \<Rightarrow> time \<Rightarrow> sample_nats relay_env" where
  "sample_relay_env up probe t = \<lparr>env_now = t, env_dbnow = t, env_uuid = (\<lambda>k. [CHR ''z'', char_of (65 + k)]),
     env_trace = [], env_fault = (\<lambda>_. False), re_state = sample_state probe, re_execute = sample_execute probe,
     re_publish = sample_publish up, re_hashtext = (\<lambda>s. if s = ''i'' then 0 else 1), re_text = (\<lambda>_. [])\<rparr>"

definition sample_wire :: "string \<Rightarrow> string \<Rightarrow> string \<Rightarrow> wire_event" where
  "sample_wire i t ent = \<lparr>ev_ID = i, ev_Type = t, ev_Version = 1, ev_Timestamp = 0, ev_Data = JObj [], ev_EntityID = ent,
     ev_TraceParent = []\<rparr>"

definition empty_relay :: "sample_nats relay" where
  "empty_relay = \<lparr>rl_db = \<lparr>od_Rows = [], od_Seq = 0, od_Partitions = []\<rparr>, rl_nats = \<lparr>sn_failures = 0, sn_stream = []\<rparr>, rl_acked = []\<rparr>"

definition stored_relay :: "wire_event list \<Rightarrow> sample_nats relay" where
  "stored_relay es = relay_exec (sample_relay_env (\<lambda>_. True) False 0) (JobStore es) empty_relay"

lemma empty_relay_inv: "outbox_inv (rl_db empty_relay)" "published_sent empty_relay"
  by (simp_all add: empty_relay_def outbox_inv_def published_sent_def)

lemma stored_relay_inv: "outbox_inv (rl_db (stored_relay es))" "published_sent (stored_relay es)"
  using relay_exec_keeps [OF empty_relay_inv] by (simp_all add: stored_relay_def relay_keeps_def del: relay_exec.simps)

lemma sample_relay_fields [simp]:
  "re_state (sample_relay_env up p t) = sample_state p" "re_execute (sample_relay_env up p t) = sample_execute p"
  "re_publish (sample_relay_env up p t) = sample_publish up"
  by (simp_all add: sample_relay_env_def)

lemma sample_relay_no_fault [simp]: "no_fault (sample_relay_env up probe t)"
  by (simp add: no_fault_def sample_relay_env_def)

lemma sample_execute_success: "fst (sample_execute probe f n) \<Longrightarrow> \<exists>n'. fst (f n')"
  by (cases "f n") (auto simp: sample_execute_def split: if_splits bool.splits intro!: exI [of _ n])

lemma sample_relay_doomed: "\<not> up t \<Longrightarrow> doomed (sample_relay_env up probe u) t"
  unfolding doomed_def using sample_execute_success [of probe "sample_publish up t m" for m]
  by (auto simp: sample_relay_env_def sample_publish_def split: if_splits)

section \<open>Histories\<close>

text \<open>
  C23. At-least-once, the safe half: through every history of stores, relay passes of any workers,
  deletions and partition rounds, under any faults and any behaviour of broker and breaker, a row marked
  published was accepted by the broker, with its identifier as the message identifier, its type as
  the subject and its payload.
\<close>

theorem published_events_were_sent:
  assumes "outbox_inv (rl_db s)" "published_sent s" "r \<in> set (od_Rows (rl_db (relay_run js s)))" "ob_Published r"
  shows "\<exists>m. (ob_EventType r, m) \<in> set (rl_acked (relay_run js s)) \<and> wm_UUID m = ob_ID r \<and> wm_Payload m = Some (ob_Payload r)"
  using relay_run_keeps [OF assms(1,2)] assms(3,4) by (auto simp: relay_keeps_def published_sent_def sent_def)

lemma published_events_were_sent_witness:
  "\<exists>m. (''invoice.paid'', m) \<in> set (rl_acked (relay_run [(sample_relay_env (\<lambda>_. True) False 5, JobPass 1 0 100)]
      (stored_relay [sample_wire ''a'' ''invoice.paid'' ''i''])))
    \<and> wm_UUID m = ''a'' \<and> wm_Payload m = Some (sample_wire ''a'' ''invoice.paid'' ''i'')"
proof -
  let ?js = "[(sample_relay_env (\<lambda>_. True) False 5, JobPass 1 0 100)]"
  let ?s = "stored_relay [sample_wire ''a'' ''invoice.paid'' ''i'']"
  let ?r = "hd (od_Rows (rl_db (relay_run ?js ?s)))"
  have "od_Rows (rl_db (relay_run ?js ?s)) \<noteq> [] \<and> ob_Published ?r \<and> ob_EventType ?r = ''invoice.paid'' \<and> ob_ID ?r = ''a''
      \<and> ob_Payload ?r = sample_wire ''a'' ''invoice.paid'' ''i''" by code_simp
  with published_events_were_sent [OF stored_relay_inv, where r = ?r and js = ?js] show ?thesis by (metis hd_in_set)
qed

text \<open>
  C24. The lifecycle of an event: through every history the table stays well formed (distinct keys,
  increasing sequence numbers, at most ten attempts, dead-lettered exactly at the tenth), every row keeps its
  event, a published or dead-lettered row never changes, and a row only leaves the table once
  it is published.
\<close>

theorem outbox_history:
  assumes "outbox_inv (rl_db s)" "published_sent s"
  shows "outbox_inv (rl_db (relay_run js s)) \<and> rows_follow (od_Rows (rl_db s)) (od_Rows (rl_db (relay_run js s)))"
  using relay_run_keeps [OF assms] by (simp add: relay_keeps_def)

lemma outbox_history_witness:
  "outbox_inv (rl_db (relay_run [(sample_relay_env (\<lambda>_. False) False 5, JobPass 1 0 100)] (stored_relay [sample_wire ''a'' ''t'' ''i''])))"
  using outbox_history [OF stored_relay_inv] by blast

section \<open>A healthy relay drains the outbox\<close>

text \<open>
  The broker accepts every publish, and a closed breaker passes successful requests through and stays
  closed.
\<close>

definition healthy :: "('n \<Rightarrow> breaker_state) \<Rightarrow> 'n relay_env \<Rightarrow> bool" where
  "healthy st env \<longleftrightarrow> no_fault env \<and> re_state env = st \<and> (\<forall>t m n. fst (re_publish env t m n))
     \<and> (\<forall>f n. st n = StateClosed \<longrightarrow> (\<forall>n'. fst (f n')) \<longrightarrow>
          fst (re_execute env f n) \<and> st (snd (re_execute env f n)) = StateClosed)"

lemma healthy_publishes:
  assumes "healthy st env"
  shows "st (rl_nats s) = StateClosed \<Longrightarrow> \<exists>s'. publish_each env es s = ((es, []), s') \<and> st (rl_nats s') = StateClosed"
proof (induction es arbitrary: s)
  case (Cons e es)
  obtain ok n' where ex: "re_execute env (re_publish env (oe_EventType e) (relay_message_of env e)) (rl_nats s) = (ok, n')"
    by force
  with assms Cons.prems have "ok" "st n' = StateClosed" unfolding healthy_def by (metis fst_conv, metis snd_conv)
  with Cons.IH [of "s\<lparr>rl_nats := n', rl_acked := rl_acked s @ [(oe_EventType e, relay_message_of env e)]\<rparr>"] ex
  show ?case by auto
qed simp

text \<open>What an acknowledged message shows of its row.\<close>

definition ack_id :: "string \<times> relay_message \<Rightarrow> string \<times> uuid" where
  "ack_id a = (fst a, wm_UUID (snd a))"

lemma ack_id_row: "ack_id (ack_of env (rowToOutboxEvent r)) = (ob_EventType r, ob_ID r)"
  by (simp add: ack_id_def ack_of_def relay_message_of_def rowToOutboxEvent_def)

lemma keys_of_take:
  assumes "distinct (map k xs)"
  shows "filter (\<lambda>x. k x \<notin> k ` set (take n xs)) xs = drop n xs" "filter (\<lambda>x. k x \<in> k ` set (take n xs)) xs = take n xs"
proof -
  have split: "xs = take n xs @ drop n xs" by simp
  have out: "k x \<notin> k ` set (take n xs)" if "x \<in> set (drop n xs)" for x
  proof
    assume "k x \<in> k ` set (take n xs)"
    then obtain y where "y \<in> set (take n xs)" "k y = k x" by auto
    moreover have "set (map k (take n xs)) \<inter> set (map k (drop n xs)) = {}"
      using assms by (metis distinct_append map_append split)
    ultimately show False using that by fastforce
  qed
  show "filter (\<lambda>x. k x \<notin> k ` set (take n xs)) xs = drop n xs"
    by (subst (2) split, unfold filter_append) (use out in \<open>simp add: filter_empty_conv filter_id_conv\<close>)
  show "filter (\<lambda>x. k x \<in> k ` set (take n xs)) xs = take n xs"
    by (subst (2) split, unfold filter_append) (use out in \<open>auto simp: filter_empty_conv filter_id_conv\<close>)
qed

lemma settle_published:
  "filter active (map (settle_row t P {}) rs) = filter (\<lambda>r. active r \<and> ob_key r \<notin> P) rs"
  by (induction rs) (auto simp: settle_row_def active_def publish_row_def)

lemma healthy_pass:
  assumes inv: "outbox_inv (rl_db s)" and h: "healthy st env" and closed: "st (rl_nats s) = StateClosed"
    and pass: "relay env 1 0 n s = (c, s')"
  shows "filter active (od_Rows (rl_db s')) = drop (nat n) (filter active (od_Rows (rl_db s)))"
    and "rl_acked s' = rl_acked s @ map (\<lambda>r. ack_of env (rowToOutboxEvent r)) (first_active n (rl_db s))"
    and "st (rl_nats s') = StateClosed" and "c = int (length (first_active n (rl_db s)))"
proof -
  let ?es = "map rowToOutboxEvent (first_active n (rl_db s))" and ?rows = "od_Rows (rl_db s)"
  obtain s1 where pub: "publish_each env ?es s = ((?es, []), s1)" "st (rl_nats s1) = StateClosed"
    using healthy_publishes [OF h closed] by blast
  have h': "no_fault env" "re_state env (rl_nats s) \<noteq> StateOpen" using h closed by (auto simp: healthy_def)
  note full = full_pass [OF inv h' pass pub(1)]
  have keys: "oe_key ` set ?es = ob_key ` set (first_active n (rl_db s))" by force
  have dist: "distinct (map ob_key (filter active ?rows))"
    using outbox_invD(1) [OF inv] by (rule distinct_map_filter)
  have "filter active (od_Rows (rl_db s')) = filter (\<lambda>r. active r \<and> ob_key r \<notin> ob_key ` set (first_active n (rl_db s))) ?rows"
    using settle_published [of "env_dbnow env" "oe_key ` set ?es" ?rows] unfolding full(1) keys by simp
  also have "\<dots> = filter (\<lambda>r. ob_key r \<notin> ob_key ` set (first_active n (rl_db s))) (filter active ?rows)"
    by (simp add: conj_commute)
  also have "\<dots> = drop (nat n) (filter active ?rows)"
    unfolding first_active_def by (rule keys_of_take(1) [OF dist])
  finally show "filter active (od_Rows (rl_db s')) = drop (nat n) (filter active ?rows)" .
  show "rl_acked s' = rl_acked s @ map (\<lambda>r. ack_of env (rowToOutboxEvent r)) (first_active n (rl_db s))"
    using full(2) by (simp add: o_def)
  show "st (rl_nats s') = StateClosed" using full(3) pub(2) by simp
  have act: "active r" if "r \<in> set ?rows" "ob_key r \<in> ob_key ` set (first_active n (rl_db s))" for r
  proof -
    from that(2) obtain r' where "ob_key r' = ob_key r" "r' \<in> set ?rows" "active r'" by (auto dest!: first_active_mem)
    with that(1) outbox_invD(1) [OF inv] show ?thesis by (metis distinct_map inj_on_eq_iff)
  qed
  have "filter (\<lambda>r. ob_key r \<in> ob_key ` set (first_active n (rl_db s)) \<and> \<not> ob_Published r) ?rows
      = filter (\<lambda>r. ob_key r \<in> ob_key ` set (first_active n (rl_db s))) (filter active ?rows)"
    using act by (auto simp: active_def intro!: filter_cong)
  also have "\<dots> = first_active n (rl_db s)"
    unfolding first_active_def by (rule keys_of_take(2) [OF dist])
  finally show "c = int (length (first_active n (rl_db s)))" using full(4) unfolding keys by simp
qed

lemma healthy_run:
  assumes "outbox_inv (rl_db s)" "st (rl_nats s) = StateClosed" "batch_ok k" "\<forall>t \<in> set ts. healthy st (fst t)"
    and "run_ticks 1 0 ts k s = (k', s')"
  shows "\<exists>m. 100 * length ts \<le> m \<and> filter active (od_Rows (rl_db s')) = drop m (filter active (od_Rows (rl_db s)))
    \<and> map ack_id (rl_acked s') = map ack_id (rl_acked s)
        @ map (\<lambda>r. (ob_EventType r, ob_ID r)) (take m (filter active (od_Rows (rl_db s))))"
  using assms
proof (induction ts arbitrary: k s)
  case Nil
  then show ?case by (auto intro!: exI [of _ 0])
next
  case (Cons t ts)
  obtain env rnd where t: "t = (env, rnd)" by force
  let ?n = "wk_BatchSize k" and ?act = "filter active (od_Rows (rl_db s))"
  obtain c s1 where pass: "relay env 1 0 ?n s = (c, s1)" by force
  have h: "healthy st env" using Cons.prems(4) t by simp
  note p = healthy_pass [OF Cons.prems(1) h Cons.prems(2) pass]
  have inv1: "outbox_inv (rl_db s1)" using pass_keeps [OF Cons.prems(1) pass] by simp
  have run: "run_ticks 1 0 ts (worker_next rnd c k) s1 = (k', s')" using Cons.prems(5) by (simp add: t pass)
  from Cons.IH [OF inv1 p(3) batch_ok_next [OF Cons.prems(3)] _ run] Cons.prems(4)
  obtain m where m: "100 * length ts \<le> m" "filter active (od_Rows (rl_db s')) = drop m (drop (nat ?n) ?act)"
    "map ack_id (rl_acked s') = map ack_id (rl_acked s1) @ map (\<lambda>r. (ob_EventType r, ob_ID r)) (take m (drop (nat ?n) ?act))"
    unfolding p(1) by auto
  have n: "100 \<le> nat ?n" using Cons.prems(3) by (auto simp: batch_ok_def OutboxRelayBatchSize_def le_nat_iff)
  have acks: "map ack_id (rl_acked s1) = map ack_id (rl_acked s) @ map (\<lambda>r. (ob_EventType r, ob_ID r)) (take (nat ?n) ?act)"
    unfolding p(2) first_active_def by (simp add: ack_id_row)
  show ?case
    using m n add.commute [of m "nat ?n"] by (intro exI [of _ "nat ?n + m"]) (simp add: acks take_add)
qed

text \<open>
  C25. While the database is up, the broker accepts and the breaker is closed, a single worker that
  starts and ticks often enough (one pass per hundred events) empties the outbox, and the
  messages it sends are exactly the waiting events, in the order of their sequence numbers.
\<close>

theorem healthy_relay_drains:
  assumes "outbox_inv (rl_db s)" "st (rl_nats s) = StateClosed" "healthy st env" "\<forall>t \<in> set ts. healthy st (fst t)"
    and "length (filter active (od_Rows (rl_db s))) \<le> 100 * (1 + length ts)"
  shows "filter active (od_Rows (rl_db (snd (runWorker 1 0 env ts s)))) = []
    \<and> map ack_id (rl_acked (snd (runWorker 1 0 env ts s)))
        = map ack_id (rl_acked s) @ map (\<lambda>r. (ob_EventType r, ob_ID r)) (filter active (od_Rows (rl_db s)))"
proof -
  let ?act = "filter active (od_Rows (rl_db s))"
  obtain c s1 where pass: "relay env 1 0 OutboxRelayBatchSize s = (c, s1)" by force
  note p = healthy_pass [OF assms(1,3,2) pass]
  have inv1: "outbox_inv (rl_db s1)" using pass_keeps [OF assms(1) pass] by simp
  obtain k' s' where run: "run_ticks 1 0 ts initial_worker s1 = (k', s')" by force
  from healthy_run [OF inv1 p(3) batch_ok_initial assms(4) run]
  obtain m where m: "100 * length ts \<le> m" "filter active (od_Rows (rl_db s')) = drop m (drop 100 ?act)"
    "map ack_id (rl_acked s') = map ack_id (rl_acked s1) @ map (\<lambda>r. (ob_EventType r, ob_ID r)) (take m (drop 100 ?act))"
    unfolding p(1) by (auto simp: OutboxRelayBatchSize_def)
  have acks: "map ack_id (rl_acked s1) = map ack_id (rl_acked s) @ map (\<lambda>r. (ob_EventType r, ob_ID r)) (take 100 ?act)"
    unfolding p(2) first_active_def by (simp add: ack_id_row OutboxRelayBatchSize_def)
  have all: "take 100 ?act @ take m (drop 100 ?act) = ?act"
    using m(1) assms(5) by (simp flip: take_add)
  have "map (\<lambda>r. (ob_EventType r, ob_ID r)) ?act = map (\<lambda>r. (ob_EventType r, ob_ID r)) (take 100 ?act)
      @ map (\<lambda>r. (ob_EventType r, ob_ID r)) (take m (drop 100 ?act))"
    unfolding map_append [symmetric] all ..
  then show ?thesis
    using m assms(5) by (simp add: runWorker_def pass run acks)
qed

lemma sample_relay_healthy: "healthy (sample_state p) (sample_relay_env (\<lambda>_. True) p t)"
proof -
  have "fst (sample_execute p f n) \<and> sample_state p (snd (sample_execute p f n)) = StateClosed"
    if "sample_state p n = StateClosed" "\<forall>n'. fst (f n')" for f n
  proof -
    from that(2) obtain n' where "f n = (True, n')" by (metis prod.collapse)
    with that(1) show ?thesis
      by (simp add: sample_execute_def sample_state_def ReadyToTrip_def DefaultConfigNoInterval_def DefaultConfig_def)
  qed
  then show ?thesis by (simp add: healthy_def sample_publish_def)
qed

lemma healthy_relay_drains_witness:
  "rl_acked (snd (runWorker 1 0 (sample_relay_env (\<lambda>_. True) True 1) []
       (stored_relay [sample_wire ''a'' ''invoice.paid'' ''i'', sample_wire ''b'' ''user.created'' ''u'']))) \<noteq> []"
proof -
  let ?s = "stored_relay [sample_wire ''a'' ''invoice.paid'' ''i'', sample_wire ''b'' ''user.created'' ''u'']"
  have act: "map ob_ID (filter active (od_Rows (rl_db ?s))) = [''a'', ''b'']" by code_simp
  then have "length (filter active (od_Rows (rl_db ?s))) = 2" by (metis length_map list.size(3,4) One_nat_def Suc_1 add.right_neutral add_Suc_right)
  moreover have "sample_state True (rl_nats ?s) = StateClosed" by code_simp
  ultimately have "map ack_id (rl_acked (snd (runWorker 1 0 (sample_relay_env (\<lambda>_. True) True 1) [] ?s)))
      = map ack_id (rl_acked ?s) @ map (\<lambda>r. (ob_EventType r, ob_ID r)) (filter active (od_Rows (rl_db ?s)))"
    using healthy_relay_drains [OF stored_relay_inv(1) _ sample_relay_healthy, where ts = "[]"] by simp
  with act show ?thesis by auto
qed

section \<open>Dead letters\<close>

lemma run_ticks_keeps:
  "outbox_inv (rl_db s) \<Longrightarrow> published_sent s \<Longrightarrow> relay_keeps s (snd (run_ticks workers w ts k s))"
proof (induction ts arbitrary: k s)
  case Nil
  then show ?case by (simp add: relay_keeps_def)
next
  case (Cons t ts)
  obtain env rnd c s1 where t: "t = (env, rnd)" "relay env workers w (wk_BatchSize k) s = (c, s1)"
    by (metis prod.exhaust)
  have step: "relay_keeps s s1"
    using relay_exec_keeps [OF Cons.prems, of env "JobPass workers w (wk_BatchSize k)"] by (simp add: t(2))
  then have "relay_keeps s1 (snd (run_ticks workers w ts (worker_next rnd c k) s1))"
    by (intro Cons.IH) (simp_all add: relay_keeps_def)
  with step show ?case by (simp add: t relay_keeps_trans)
qed

text \<open>Ten probing passes of doomed publishes, and nothing the program does later brings the event back.\<close>

lemma doomed_for_ever:
  assumes "outbox_inv (rl_db s)" "published_sent s" "r \<in> set (first_active OutboxRelayBatchSize (rl_db s))"
    and "\<forall>(e, rnd) \<in> set ts. no_fault e \<and> doomed e (ob_EventType r)" "10 \<le> probes 1 0 ts initial_worker s"
  shows "\<exists>r'. row_moves r r' \<and> ob_Failed r' \<and> \<not> ob_Published r'
    \<and> (\<forall>js. r' \<in> set (od_Rows (rl_db (relay_run js (snd (run_ticks 1 0 ts initial_worker s))))))"
proof -
  obtain k' s' where run: "run_ticks 1 0 ts initial_worker s = (k', s')" by force
  from doomed_row_dies [OF assms(1,3,4) batch_ok_initial assms(5) run]
  obtain r' where r': "r' \<in> set (od_Rows (rl_db s'))" "row_moves r r'" "ob_Failed r'" "\<not> ob_Published r'" by blast
  have "outbox_inv (rl_db s')" "published_sent s'"
    using run_ticks_keeps [OF assms(1,2), of 1 0 ts initial_worker] run by (simp_all add: relay_keeps_def)
  then have "r' \<in> set (od_Rows (rl_db (relay_run js s')))" for js
    using relay_run_keeps [of s' js] dead_row_stays [OF _ r'(1,3,4)] by (auto simp: relay_keeps_def)
  with r' run show ?thesis by auto
qed

text \<open>
  The broker refuses every publish, and the breaker reports success only for a request that
  succeeded. What the breaker does while it is open counts as a failed attempt too.
\<close>

definition transparent :: "'n relay_env \<Rightarrow> bool" where
  "transparent env \<longleftrightarrow> (\<forall>f n. fst (re_execute env f n) \<longrightarrow> (\<exists>n'. fst (f n')))"

definition broker_down :: "'n relay_env \<Rightarrow> bool" where
  "broker_down env \<longleftrightarrow> transparent env \<and> (\<forall>t m n. \<not> fst (re_publish env t m n))"

lemma down_doomed: "broker_down env \<Longrightarrow> doomed env t"
  unfolding broker_down_def transparent_def doomed_def by blast

text \<open>
  C26. An outage of the broker is not survived: as soon as ten polls found the breaker not open (with
  the default settings a few minutes), every one of the hundred oldest waiting events is
  dead-lettered, and no later pass, clean-up or partition round of the program ever publishes
  or removes it.
\<close>

theorem outage_dead_letters_the_batch:
  assumes "outbox_inv (rl_db s)" "published_sent s" "\<forall>(e, rnd) \<in> set ts. no_fault e \<and> broker_down e"
    and "10 \<le> probes 1 0 ts initial_worker s" "r \<in> set (take 100 (filter active (od_Rows (rl_db s))))"
  shows "\<exists>r'. row_moves r r' \<and> ob_Failed r' \<and> \<not> ob_Published r'
    \<and> (\<forall>js. r' \<in> set (od_Rows (rl_db (relay_run js (snd (run_ticks 1 0 ts initial_worker s))))))"
  by (rule doomed_for_ever [OF assms(1,2) _ _ assms(4)])
    (use assms(3,5) in \<open>auto simp: first_active_def OutboxRelayBatchSize_def down_doomed\<close>)

definition outage_ticks :: "(sample_nats relay_env \<times> int) list" where
  "outage_ticks = map (\<lambda>i. (sample_relay_env (\<lambda>_. False) True (30 * 10 ^ 9 * int i), 0)) [1..<11]"

lemma sample_transparent: "transparent (sample_relay_env up p t)"
  unfolding transparent_def using sample_execute_success by (auto simp: sample_relay_env_def)

lemma outage_dead_letters_the_batch_witness:
  "\<exists>r'. ob_ID r' = ''a'' \<and> ob_Failed r' \<and> (\<forall>js. r' \<in> set (od_Rows (rl_db (relay_run js
      (snd (run_ticks 1 0 outage_ticks initial_worker (stored_relay [sample_wire ''a'' ''invoice.paid'' ''i''])))))))"
proof -
  let ?s = "stored_relay [sample_wire ''a'' ''invoice.paid'' ''i'']"
  let ?r = "hd (od_Rows (rl_db ?s))"
  have r: "map ob_ID (take 100 (filter active (od_Rows (rl_db ?s)))) = [''a''] \<and> ?r = hd (take 100 (filter active (od_Rows (rl_db ?s))))
      \<and> ob_ID ?r = ''a'' \<and> 10 \<le> probes 1 0 outage_ticks initial_worker ?s" by code_simp
  then have "?r \<in> set (take 100 (filter active (od_Rows (rl_db ?s))))" by (metis hd_in_set list.map_disc_iff list.distinct(1))
  moreover have "\<forall>(e, rnd) \<in> set outage_ticks. no_fault e \<and> broker_down e"
    by (auto simp: outage_ticks_def broker_down_def sample_transparent sample_publish_def)
  ultimately obtain r' where "row_moves ?r r'" "ob_Failed r'"
    "\<forall>js. r' \<in> set (od_Rows (rl_db (relay_run js (snd (run_ticks 1 0 outage_ticks initial_worker ?s)))))"
    using outage_dead_letters_the_batch [OF stored_relay_inv, where ts = outage_ticks and r = ?r] r by blast
  then show ?thesis using r by (auto simp: row_moves_def ob_key_def)
qed

text \<open>A broker that refuses the subjects no stream carries.\<close>

definition refuses_uncarried :: "'n relay_env \<Rightarrow> bool" where
  "refuses_uncarried env \<longleftrightarrow> transparent env \<and> (\<forall>t m n. streams_of t = [] \<longrightarrow> \<not> fst (re_publish env t m n))"

text \<open>
  An event whose type belongs to no configured stream (a plan event, for one) is never
  delivered: after ten probing passes it is dead-lettered for good, however healthy broker and
  database are for the others.
\<close>

theorem uncarried_event_is_dead_lettered:
  assumes "outbox_inv (rl_db s)" "published_sent s" "\<forall>(e, rnd) \<in> set ts. no_fault e \<and> refuses_uncarried e"
    and "10 \<le> probes 1 0 ts initial_worker s" "r \<in> set (take 100 (filter active (od_Rows (rl_db s))))"
    and "streams_of (ob_EventType r) = []"
  shows "\<exists>r'. row_moves r r' \<and> ob_Failed r' \<and> \<not> ob_Published r'
    \<and> (\<forall>js. r' \<in> set (od_Rows (rl_db (relay_run js (snd (run_ticks 1 0 ts initial_worker s))))))"
proof (rule doomed_for_ever [OF assms(1,2) _ _ assms(4)])
  show "r \<in> set (first_active OutboxRelayBatchSize (rl_db s))"
    using assms(5) by (simp add: first_active_def OutboxRelayBatchSize_def)
  show "\<forall>(e, rnd) \<in> set ts. no_fault e \<and> doomed e (ob_EventType r)"
    using assms(3,6) unfolding refuses_uncarried_def transparent_def doomed_def by blast
qed

definition carried_ticks :: "(sample_nats relay_env \<times> int) list" where
  "carried_ticks = map (\<lambda>i. (sample_relay_env (\<lambda>t. streams_of t \<noteq> []) True (30 * 10 ^ 9 * int i), 0)) [1..<11]"

lemma uncarried_event_is_dead_lettered_witness:
  "\<exists>r'. ob_EventType r' = ''plan.created'' \<and> ob_Failed r' \<and> (\<forall>js. r' \<in> set (od_Rows (rl_db (relay_run js
      (snd (run_ticks 1 0 carried_ticks initial_worker
        (stored_relay [sample_wire ''p'' ''plan.created'' ''p'', sample_wire ''a'' ''invoice.paid'' ''i''])))))))"
proof -
  let ?s = "stored_relay [sample_wire ''p'' ''plan.created'' ''p'', sample_wire ''a'' ''invoice.paid'' ''i'']"
  let ?r = "hd (od_Rows (rl_db ?s))"
  have r: "map ob_ID (take 100 (filter active (od_Rows (rl_db ?s)))) = [''p'', ''a''] \<and> ?r = hd (take 100 (filter active (od_Rows (rl_db ?s))))" by code_simp
  then have mem: "?r \<in> set (take 100 (filter active (od_Rows (rl_db ?s))))" by (metis hd_in_set list.map_disc_iff list.distinct(1))
  have ticks: "\<forall>(e, rnd) \<in> set carried_ticks. no_fault e \<and> refuses_uncarried e"
    by (auto simp: carried_ticks_def refuses_uncarried_def sample_transparent sample_publish_def)
  have ten: "10 \<le> probes 1 0 carried_ticks initial_worker ?s" and type: "ob_EventType ?r = ''plan.created''"
    and none: "streams_of ''plan.created'' = []" by (code_simp, code_simp, code_simp)
  from none have "streams_of (ob_EventType ?r) = []" unfolding type .
  from uncarried_event_is_dead_lettered [OF stored_relay_inv ticks ten mem this]
  show ?thesis using type unfolding row_moves_def by metis
qed

section \<open>Workers\<close>

text \<open>The waiting rows whose entity hashes to a worker, in the order of the table, which is that of the sequence.\<close>

definition worker_share :: "(string \<Rightarrow> 32 word) \<Rightarrow> int \<Rightarrow> int \<Rightarrow> outbox_db \<Rightarrow> outbox_row list" where
  "worker_share hashtext workers w d = filter (\<lambda>r. active r \<and> worker_of hashtext workers (ob_EntityID r) = w) (od_Rows d)"

text \<open>
  C27. Several workers share the outbox without overlap and without gaps: provided that no database call
  fails and that no waiting entity hashes to the smallest integer, every worker fetches the first \<open>n\<close>
  events of its own share, in the order of their sequence; every waiting event is in the share of exactly
  one of the workers, with all the events of its entity, so that no event is fetched by two.
\<close>

theorem workers_partition_the_outbox:
  assumes "outbox_inv d" "1 < workers" "no_fault env"
    and "\<not> list_ex (\<lambda>r. active r \<and> hash_overflows (re_hashtext env) (ob_EntityID r)) (od_Rows d)"
  shows "(\<forall>w. fetch_batch env workers w n d = Inr (map rowToOutboxEvent (take (nat n) (worker_share (re_hashtext env) workers w d)))
        \<and> sorted_wrt (<) (map ob_Sequence (worker_share (re_hashtext env) workers w d)))
    \<and> (\<forall>r \<in> set (od_Rows d). active r \<longrightarrow>
        (\<exists>w. 0 \<le> w \<and> w < workers \<and> (\<forall>r' \<in> set (od_Rows d). active r' \<and> ob_EntityID r' = ob_EntityID r
            \<longrightarrow> r' \<in> set (worker_share (re_hashtext env) workers w d))))
    \<and> (\<forall>w w' es es' e. fetch_batch env workers w n d = Inr es \<longrightarrow> fetch_batch env workers w' n d = Inr es'
        \<longrightarrow> e \<in> set es \<longrightarrow> e \<in> set es' \<longrightarrow> w = w')"
proof -
  let ?h = "\<lambda>r. worker_of (re_hashtext env) workers (ob_EntityID r)" and ?share = "\<lambda>w. worker_share (re_hashtext env) workers w d"
  have fetch: "fetch_batch env workers w n d = Inr (map rowToOutboxEvent (take (nat n) (?share w)))" for w
    using assms(2-4) by (simp add: fetch_batch_def no_fault_def GetUnpublishedForWorker_def sort_rows [OF assms(1)] worker_share_def)
  have inj: "r = r'" if "r \<in> set (od_Rows d)" "r' \<in> set (od_Rows d)" "rowToOutboxEvent r = rowToOutboxEvent r'" for r r'
    using that outbox_invD(1) [OF assms(1)] by (metis oe_key_row distinct_map inj_on_eq_iff)
  have range: "0 \<le> ?h r \<and> ?h r < workers" for r using assms(2) by (simp add: worker_of_def)
  have member: "\<exists>r. e = rowToOutboxEvent r \<and> r \<in> set (?share w)"
    if "fetch_batch env workers w n d = Inr es" "e \<in> set es" for w es e
  proof -
    have "es = map rowToOutboxEvent (take (nat n) (?share w))" using that(1) fetch by simp
    then have "e \<in> rowToOutboxEvent ` set (take (nat n) (?share w))" using that(2) by simp
    then show ?thesis using set_take_subset by fastforce
  qed
  show ?thesis
  proof (intro conjI allI impI ballI)
    show "fetch_batch env workers w n d = Inr (map rowToOutboxEvent (take (nat n) (?share w)))" for w by (rule fetch)
    show "sorted_wrt (<) (map ob_Sequence (?share w))" for w
      using outbox_invD(2) [OF assms(1)] by (simp add: worker_share_def sorted_wrt_map sorted_wrt_filter)
    show "\<exists>w. 0 \<le> w \<and> w < workers \<and> (\<forall>r' \<in> set (od_Rows d). active r' \<and> ob_EntityID r' = ob_EntityID r \<longrightarrow> r' \<in> set (?share w))" for r
      by (rule exI [of _ "?h r"]) (simp add: range worker_share_def)
    show "w = w'" if "fetch_batch env workers w n d = Inr es" "fetch_batch env workers w' n d = Inr es'" "e \<in> set es" "e \<in> set es'"
      for w w' es es' e
    proof -
      from member [OF that(1,3)] obtain r where r: "e = rowToOutboxEvent r" "r \<in> set (?share w)" by blast
      from member [OF that(2,4)] obtain r' where r': "e = rowToOutboxEvent r'" "r' \<in> set (?share w')" by blast
      from r r' inj [of r r'] show ?thesis by (auto simp: worker_share_def)
    qed
  qed
qed

lemma workers_partition_the_outbox_witness:
  "\<exists>w es. 0 \<le> w \<and> w < 2 \<and> fetch_batch (sample_relay_env (\<lambda>_. True) True 1) 2 w 1
      (rl_db (stored_relay [sample_wire ''a'' ''invoice.paid'' ''i'', sample_wire ''b'' ''user.created'' ''uu''])) = Inr es \<and> length es = 1"
proof -
  let ?d = "rl_db (stored_relay [sample_wire ''a'' ''invoice.paid'' ''i'', sample_wire ''b'' ''user.created'' ''uu''])"
  let ?env = "sample_relay_env (\<lambda>_. True) True 1"
  let ?share = "\<lambda>w. worker_share (re_hashtext ?env) 2 w ?d"
  have hash: "\<not> list_ex (\<lambda>r. active r \<and> hash_overflows (re_hashtext ?env) (ob_EntityID r)) (od_Rows ?d)"
    by (simp add: list_ex_iff hash_overflows_def sample_relay_env_def)
  have r: "hd (od_Rows ?d) \<in> set (od_Rows ?d) \<and> active (hd (od_Rows ?d))" by code_simp
  have "(1::int) < 2" by simp
  note parts = workers_partition_the_outbox [OF stored_relay_inv(1) this sample_relay_no_fault hash, of 1]
  from conjunct1 [OF conjunct2 [OF parts]] r obtain w where w: "0 \<le> w" "w < 2" "hd (od_Rows ?d) \<in> set (?share w)" by blast
  then have "length (take (nat 1) (?share w)) = 1" by (cases "?share w") auto
  with conjunct1 [OF parts] w show ?thesis by (metis length_map)
qed

text \<open>
  One waiting event whose entity hashes to the smallest 32-bit integer stops every worker of a
  relay with several workers: the query fails for all of them, and no pass changes anything.
\<close>

theorem smallest_hash_stops_every_worker:
  assumes "r \<in> set (od_Rows (rl_db s))" "active r" "hash_overflows (re_hashtext env) (ob_EntityID r)" "1 < workers"
  shows "relay env workers w n s = (0, s)"
proof -
  have "list_ex (\<lambda>r. active r \<and> hash_overflows (re_hashtext env) (ob_EntityID r)) (od_Rows (rl_db s))"
    using assms(1-3) by (auto simp: list_ex_iff)
  then have "\<exists>e. fetch_batch env workers w n (rl_db s) = Inl e"
    using assms(4) by (auto simp: fetch_batch_def GetUnpublishedForWorker_def)
  then show ?thesis by (auto simp: relay_def)
qed

lemma smallest_hash_stops_every_worker_witness:
  "relay (sample_relay_env (\<lambda>_. True) True 1\<lparr>re_hashtext := \<lambda>s. if s = ''i'' then word_of_int (- (2 ^ 31)) else 0\<rparr>) 2 1 100
      (stored_relay [sample_wire ''a'' ''invoice.paid'' ''i'', sample_wire ''b'' ''user.created'' ''u''])
    = (0, stored_relay [sample_wire ''a'' ''invoice.paid'' ''i'', sample_wire ''b'' ''user.created'' ''u''])"
proof -
  let ?s = "stored_relay [sample_wire ''a'' ''invoice.paid'' ''i'', sample_wire ''b'' ''user.created'' ''u'']"
  have row: "od_Rows (rl_db ?s) \<noteq> [] \<and> active (hd (od_Rows (rl_db ?s))) \<and> ob_EntityID (hd (od_Rows (rl_db ?s))) = ''i''" by code_simp
  have "sint (word_of_int (- (2 ^ 31)) :: 32 word) = - (2 ^ 31)" by code_simp
  with row show ?thesis
    by (intro smallest_hash_stops_every_worker [of "hd (od_Rows (rl_db ?s))"]) (auto simp: hash_overflows_def)
qed

text \<open>
  The adaptive polling stays within its bounds: after any number of ticks the batch size is
  between 100 and 500 and the interval between one and thirty seconds, whatever was published and
  whatever the random generator returned.
\<close>

theorem relay_worker_bounds:
  assumes "list_all (\<lambda>t. 0 \<le> snd t) ts"
  shows "100 \<le> wk_BatchSize (fst (runWorker workers w env ts s)) \<and> wk_BatchSize (fst (runWorker workers w env ts s)) \<le> 500
    \<and> 10 ^ 9 \<le> wk_Interval (fst (runWorker workers w env ts s)) \<and> wk_Interval (fst (runWorker workers w env ts s)) \<le> 30 * 10 ^ 9"
proof -
  have jitter: "10 ^ 9 \<le> WithJitter rnd (i * 2)" if "0 \<le> rnd" "10 ^ 9 \<le> i" for rnd i :: int
  proof -
    have "4 * (2 * i div 4) \<le> 2 * i" using div_bounds [of 4 "2 * i"] by linarith
    with that show ?thesis by (auto simp: WithJitter_def Let_def mult.commute)
  qed
  have tick: "OutboxRelayBaseInterval \<le> wk_Interval (worker_next rnd c k) \<and> wk_Interval (worker_next rnd c k) \<le> OutboxRelayMaxInterval"
    if "0 \<le> rnd" "OutboxRelayBaseInterval \<le> wk_Interval k" for rnd c k
    using jitter [of rnd "wk_Interval k"] that
    by (auto simp: worker_next_def Let_def OutboxRelayBaseInterval_def OutboxRelayMaxInterval_def OutboxRelayBackoffMultiplier_def)
  have run: "batch_ok (fst (run_ticks workers w ts k s)) \<and> OutboxRelayBaseInterval \<le> wk_Interval (fst (run_ticks workers w ts k s))
      \<and> wk_Interval (fst (run_ticks workers w ts k s)) \<le> OutboxRelayMaxInterval"
    if "batch_ok k" "OutboxRelayBaseInterval \<le> wk_Interval k" "wk_Interval k \<le> OutboxRelayMaxInterval" for k s
    using that assms
  proof (induction ts arbitrary: k s)
    case (Cons t ts)
    obtain e rnd c s1 where t: "t = (e, rnd)" "relay e workers w (wk_BatchSize k) s = (c, s1)" by (metis prod.exhaust)
    with Cons.prems tick [of rnd k c] Cons.IH [of "worker_next rnd c k" s1] batch_ok_next show ?case by simp
  qed simp
  show ?thesis
    using run [of initial_worker "snd (relay env workers w OutboxRelayBatchSize s)"] batch_ok_initial
    by (simp add: runWorker_def batch_ok_def initial_worker_def OutboxRelayBaseInterval_def OutboxRelayMaxInterval_def
        OutboxRelayBatchSize_def OutboxRelayMaxBatchSize_def)
qed

lemma relay_worker_bounds_witness:
  "wk_Interval (fst (runWorker 1 0 (sample_relay_env (\<lambda>_. False) True 1) outage_ticks empty_relay)) \<le> 30 * 10 ^ 9"
  using relay_worker_bounds [of outage_ticks 1 0] by (simp add: outage_ticks_def list_all_iff)

text \<open>
  Failures reorder the events of an entity: if the first of two waiting events is refused and the
  second accepted in one pass, and the next pass succeeds, the second is delivered before
  the first, although one worker handles both.
\<close>

theorem failed_event_is_overtaken:
  assumes inv: "outbox_inv (rl_db s)" and up: "no_fault env" and shut: "re_state env (rl_nats s) \<noteq> StateOpen"
    and r1: "r1 \<in> set (take 100 (filter active (od_Rows (rl_db s))))" "refused env (rowToOutboxEvent r1)" "ob_Attempts r1 < 9"
    and r2: "r2 \<in> set (take 100 (filter active (od_Rows (rl_db s))))" "accepted env (rowToOutboxEvent r2)"
    and next_pass: "healthy st env'" "st (rl_nats (snd (relay env 1 0 100 s))) = StateClosed"
  shows "\<exists>xs ys. rl_acked (snd (relay env' 1 0 100 (snd (relay env 1 0 100 s)))) = rl_acked s @ xs @ ys
    \<and> ob_Sequence r2 \<in> set (map (\<lambda>a. rm_OutboxSequence (snd a)) xs) \<and> ob_Sequence r1 \<notin> set (map (\<lambda>a. rm_OutboxSequence (snd a)) xs)
    \<and> ob_Sequence r1 \<in> set (map (\<lambda>a. rm_OutboxSequence (snd a)) ys)"
proof -
  let ?rows = "od_Rows (rl_db s)"
  have first: "r1 \<in> set (first_active 100 (rl_db s))" "r2 \<in> set (first_active 100 (rl_db s))"
    using r1(1) r2(1) by (simp_all add: first_active_def)
  obtain c s1 where pass: "relay env 1 0 100 s = (c, s1)" by force
  obtain ps fs s0 where pub: "publish_each env (map rowToOutboxEvent (first_active 100 (rl_db s))) s = ((ps, fs), s0)"
    by (metis prod.exhaust)
  note full = full_pass [OF inv up shut pass pub]
  have es: "fetch_batch env 1 0 100 (rl_db s) = Inr (map rowToOutboxEvent (first_active 100 (rl_db s)))"
    using up by (simp add: fetch_batch_def no_fault_def GetUnpublished_def first_active_def sort_rows [OF inv])
  note dis = publish_each_disjoint(3) [OF pub fetched_keys [OF inv es]]
  have fails: "rowToOutboxEvent r1 \<in> set fs" and works: "rowToOutboxEvent r2 \<in> set ps"
    using publish_outcome [OF pub, of "rowToOutboxEvent r1"] publish_outcome [OF pub, of "rowToOutboxEvent r2"] first r1(2) r2(2)
    by auto
  have key1: "ob_key r1 \<in> oe_key ` set fs" using fails by (metis image_eqI oe_key_row)
  with dis have key1': "ob_key r1 \<notin> oe_key ` set ps" by auto
  define g where "g = settle_row (env_dbnow env) (oe_key ` set ps) (oe_key ` set fs)"
  have db: "rl_db s1 = (rl_db s)\<lparr>od_Rows := map g ?rows\<rparr>" using full(1) by (simp add: g_def)
  have g1: "g r1 = bump r1" using key1 key1' by (simp add: g_def settle_row_def)
  have "active (g r1)" using first_active_mem [OF first(1)] r1(3) by (simp add: g1 active_def bump_def MaxRelayAttempts_def)
  then have waiting: "bump r1 \<in> set (first_active 100 (rl_db s1))"
    using first_active_stays [OF first(1), of g] settle_row_moves [OF inv es publish_each_sub [OF pub]]
    unfolding db g1 [symmetric] g_def by blast
  have inv1: "outbox_inv (rl_db s1)" using pass_keeps [OF inv pass] by simp
  obtain c' s2 where pass': "relay env' 1 0 100 s1 = (c', s2)" by force
  note p' = healthy_pass [OF inv1 next_pass(1) _ pass']
  have seq: "rm_OutboxSequence (snd (ack_of e (rowToOutboxEvent r))) = ob_Sequence r" for e :: "'a relay_env" and r
    by (simp add: ack_of_def relay_message_of_def rowToOutboxEvent_def)
  have seq_next: "rm_OutboxSequence (snd (ack_of env' (rowToOutboxEvent (bump r1)))) = ob_Sequence r1"
    by (simp add: ack_of_def relay_message_of_def rowToOutboxEvent_def bump_def)
  have seqs: "ob_Sequence r1 \<notin> set (map (\<lambda>a. rm_OutboxSequence (snd a)) (map (ack_of env) ps))"
  proof
    assume "ob_Sequence r1 \<in> set (map (\<lambda>a. rm_OutboxSequence (snd a)) (map (ack_of env) ps))"
    then obtain e where e: "e \<in> set ps" "rm_OutboxSequence (snd (ack_of env e)) = ob_Sequence r1" by auto
    with publish_each_sets [OF pub] obtain r where r: "e = rowToOutboxEvent r" "r \<in> set (first_active 100 (rl_db s))" by auto
    with e(2) have "ob_Sequence r = ob_Sequence r1" by (simp add: seq)
    moreover have "distinct (map ob_Sequence ?rows)"
      using outbox_invD(2) [OF inv] by (simp add: strict_sorted_iff)
    ultimately have "r = r1" using first_active_mem [OF r(2)] first_active_mem [OF first(1)] by (metis distinct_map inj_on_eq_iff)
    with e(1) r(1) have "ob_key r1 \<in> oe_key ` set ps" by (metis image_eqI oe_key_row)
    with key1' show False by simp
  qed
  show ?thesis
  proof (intro exI conjI)
    show "rl_acked (snd (relay env' 1 0 100 (snd (relay env 1 0 100 s)))) = rl_acked s @ map (ack_of env) ps
        @ map (\<lambda>r. ack_of env' (rowToOutboxEvent r)) (first_active 100 (rl_db s1))"
      using p'(2) next_pass(2) full(2) by (simp add: pass pass')
    show "ob_Sequence r2 \<in> set (map (\<lambda>a. rm_OutboxSequence (snd a)) (map (ack_of env) ps))"
      using works seq [of env r2] by (metis (no_types, lifting) image_eqI list.set_map)
    show "ob_Sequence r1 \<in> set (map (\<lambda>a. rm_OutboxSequence (snd a)) (map (\<lambda>r. ack_of env' (rowToOutboxEvent r)) (first_active 100 (rl_db s1))))"
      using waiting seq_next by (metis (no_types, lifting) image_eqI list.set_map)
  qed (rule seqs)
qed

text \<open>Passes and stores remove nothing.\<close>

lemma pass_rows:
  assumes inv: "outbox_inv (rl_db s)" and pass: "relay env workers w n s = (c, s')" and r: "r \<in> set (od_Rows (rl_db s))"
  shows "\<exists>r'. row_moves r r' \<and> r' \<in> set (od_Rows (rl_db s'))"
  using pass
proof (cases rule: relay_cases)
  case idle
  with r show ?thesis by (auto intro: exI [of _ r])
next
  case (sending es ps fs)
  with r show ?thesis by (auto simp: publish_each_result intro: exI [of _ r])
next
  case (settled es ps fs s1 d')
  note dis = publish_each_disjoint [OF settled(2) fetched_keys [OF inv settled(1)]]
  have "od_Rows (rl_db s') = map (settle_row (env_dbnow env) (oe_key ` set ps) (oe_key ` set fs)) (od_Rows (rl_db s))"
    using settle_batch_result [OF settled(3) dis(2,3)] by (simp add: settled(4))
  with settle_row_moves [OF inv settled(1) publish_each_sub [OF settled(2)] r] r show ?thesis by (metis image_eqI list.set_map)
qed

lemma insert_appends: "InsertOutboxEvents env es d = Inr (u, d') \<Longrightarrow> \<exists>new. od_Rows d' = od_Rows d @ new"
proof (induction env es d rule: InsertOutboxEvents.induct)
  case (2 env i e es d)
  from "2.prems" obtain rows
    where rows: "insert_unique ob_key (ErrOutboxStorage ''outbox_pkey'') (outbox_row_of env i e (od_Seq d + 1)) (od_Rows d) = Inr rows"
    and rest: "InsertOutboxEvents env es (d\<lparr>od_Rows := rows, od_Seq := od_Seq d + 1\<rparr>) = Inr (u, d')"
    by (auto simp: rbind_Inr_iff)
  from "2.IH" [OF rows rest] show ?case by (auto simp: insert_unique_set [OF rows])
qed simp

lemma store_appends: "\<exists>new. od_Rows (snd (RunInTx ErrOutboxStorage env (StoreBatch env es) d)) = od_Rows d @ new"
proof (cases "\<exists>a d'. RunInTx ErrOutboxStorage env (StoreBatch env es) d = (Inr a, d')")
  case False
  then have "snd (RunInTx ErrOutboxStorage env (StoreBatch env es) d) = d"
    by (metis RunInTx_error old.sum.exhaust prod.collapse)
  then show ?thesis by simp
next
  case True
  then obtain a d' where run: "RunInTx ErrOutboxStorage env (StoreBatch env es) d = (Inr a, d')" by blast
  then have body: "StoreBatch env es d = Inr (a, d')" by (simp add: RunInTx_ok_iff)
  have step: "\<exists>new. od_Rows d2 = od_Rows d1 @ new"
    if "(if c then tx_return () else tx_call ErrOutboxStorage env l (InsertOutboxEvents env xs)) d1 = Inr (u, d2)" for c l xs d1 d2 u
    using that insert_appends by (auto simp: tx_return_iff tx_call_iff split: if_splits)
  from body have "\<exists>new. od_Rows d' = od_Rows d @ new"
  proof (cases "es = []")
    case False
    with body show ?thesis unfolding StoreBatch_def Let_def by (auto simp: tx_bind_iff dest!: step)
  qed (simp add: StoreBatch_def tx_return_iff)
  then show ?thesis by (simp add: run)
qed
section \<open>Partitions\<close>

text \<open>The number of the month that holds an instant, and the first of a quarter as a month number.\<close>

lemma civil_months:
  "12 * civil_year t + civil_month t - 3 = month_of_day (t div ns_per_day + epoch_day)"
  by (simp add: civil_year_def civil_month_def Let_def)

lemma month_start_le:
  assumes "i \<le> j"
  shows "month_start i \<le> month_start j"
proof -
  have idx: "i + int (nat (j - i)) = j" using assms by simp
  from month_start_mono [of i "nat (j - i)"] have "month_start i + 27 * int (nat (j - i)) \<le> month_start j"
    unfolding idx .
  then show ?thesis by linarith
qed

lemma quarter_first:
  assumes "0 \<le> i"
  shows "(case quarterOf t i of (y, q) \<Rightarrow> 1 \<le> q \<and> q \<le> 4 \<and> 12 * y + (q - 1) * 3 = 12 * civil_year t + 3 * ((civil_month t - 1) div 3 + i))"
proof -
  define c where "c = (civil_month t - 1) div 3 + i"
  have "c mod 4 \<le> 3 \<and> 12 * (c div 4) + c mod 4 * 3 = 3 * c" by presburger
  then show ?thesis
    by (simp add: quarterOf_def Let_def MonthsPerQuarter_def quartersPerYear_def flip: c_def)
qed

lemma quarterStart_month: "quarterStart y q = (month_start (12 * y + (q - 1) * 3 - 2) - epoch_day) * ns_per_day"
  by (simp add: quarterStart_def first_of_month_def MonthsPerQuarter_def algebra_simps)

lemma nextQuarterStart_month:
  "nextQuarterStart y q = (month_start (12 * y + (q - 1) * 3 + 1) - epoch_day) * ns_per_day"
  by (auto simp: nextQuarterStart_def quarterStart_month quartersPerYear_def algebra_simps)

text \<open>
  The partitions that are created ahead tile the calendar: the first one holds the present instant
  and starts where the relay's own clean-up thinks the quarter starts, each one ends where the
  next begins, and quarters are numbered one to four.
\<close>

theorem partitions_tile_the_calendar:
  assumes "0 \<le> i"
  shows "QuarterStart t = (case quarterOf t 0 of (y, q) \<Rightarrow> quarterStart y q)
    \<and> (case quarterOf t 0 of (y, q) \<Rightarrow> quarterStart y q \<le> t \<and> t < nextQuarterStart y q)
    \<and> (case quarterOf t i of (y, q) \<Rightarrow> 1 \<le> q \<and> q \<le> 4 \<and>
         nextQuarterStart y q = (case quarterOf t (i + 1) of (y', q') \<Rightarrow> quarterStart y' q'))"
proof -
  let ?d = "t div ns_per_day + epoch_day"
  define n where "n = month_of_day ?d"
  define f where "f = 12 * civil_year t + 3 * ((civil_month t - 1) div 3) - 2"
  have months: "12 * civil_year t + civil_month t - 3 = n" by (simp add: civil_months n_def)
  have "3 * ((civil_month t - 1) div 3) \<le> civil_month t - 1" "civil_month t - 1 < 3 * ((civil_month t - 1) div 3) + 3"
    using div_bounds [of 3 "civil_month t - 1"] by simp_all
  with months have f: "f \<le> n" "n + 1 \<le> f + 3" by (simp_all add: f_def)
  have day: "month_start n \<le> ?d" "?d < month_start (n + 1)" using month_of_day_correct [of ?d] by (simp_all add: n_def)
  have "month_start f \<le> ?d" "?d < month_start (f + 3)"
    using day month_start_le [OF f(1)] month_start_le [OF f(2)] by linarith+
  then have "month_start f - epoch_day \<le> t div ns_per_day" "t div ns_per_day + 1 \<le> month_start (f + 3) - epoch_day"
    by linarith+
  then have bounds: "(month_start f - epoch_day) * ns_per_day \<le> t" "t < (month_start (f + 3) - epoch_day) * ns_per_day"
    using div_bounds [of ns_per_day t] ns_per_day_pos
      mult_right_mono [of "month_start f - epoch_day" "t div ns_per_day" ns_per_day]
      mult_right_mono [of "t div ns_per_day + 1" "month_start (f + 3) - epoch_day" ns_per_day]
    by (simp_all add: algebra_simps)
  obtain y q where q0: "quarterOf t 0 = (y, q)" by force
  with quarter_first [of 0 t] have first: "12 * y + (q - 1) * 3 = f + 2" by (simp add: f_def)
  obtain yi qi where qi: "quarterOf t i = (yi, qi)" by force
  obtain yj qj where qj: "quarterOf t (i + 1) = (yj, qj)" by force
  have tile: "12 * yi + (qi - 1) * 3 + 3 = 12 * yj + (qj - 1) * 3" "1 \<le> qi \<and> qi \<le> 4"
    using quarter_first [OF assms, of t] quarter_first [of "i + 1" t] assms by (simp_all add: qi qj)
  have "QuarterStart t = (month_start f - epoch_day) * ns_per_day"
    by (simp add: QuarterStart_def first_of_month_def MonthsPerQuarter_def f_def algebra_simps)
  moreover have "quarterStart y q = (month_start f - epoch_day) * ns_per_day"
    "nextQuarterStart y q = (month_start (f + 3) - epoch_day) * ns_per_day"
    unfolding quarterStart_month nextQuarterStart_month first by (simp_all add: add.commute)
  moreover have "nextQuarterStart yi qi = quarterStart yj qj"
    unfolding quarterStart_month nextQuarterStart_month tile(1) [symmetric] by (simp add: algebra_simps)
  ultimately show ?thesis using bounds tile(2) by (simp add: q0 qi qj)
qed

lemma partitions_tile_the_calendar_witness:
  "case quarterOf 0 5 of (y, q) \<Rightarrow> 1 \<le> q \<and> q \<le> 4 \<and>
     nextQuarterStart y q = (case quarterOf 0 (5 + 1) of (y', q') \<Rightarrow> quarterStart y' q')"
  using partitions_tile_the_calendar [of 5 0] by simp

text \<open>The extremes of the sequence numbers.\<close>

lemma foldl_max_ge: "(n::int) \<le> foldl max n ns \<and> (\<forall>x \<in> set ns. x \<le> foldl max n ns)"
proof (induction ns arbitrary: n)
  case (Cons a ns)
  from Cons.IH [of "max n a"] show ?case by auto
qed simp

lemma foldl_min_le: "foldl min n ns \<le> (n::int) \<and> (\<forall>x \<in> set ns. foldl min n ns \<le> x)"
proof (induction ns arbitrary: n)
  case (Cons a ns)
  from Cons.IH [of "min n a"] show ?case by auto
qed simp

lemma max_sequence_ge: "r \<in> set rs \<Longrightarrow> ob_Sequence r \<le> max_sequence rs"
  using foldl_max_ge by (cases rs) (auto simp: max_sequence_def)

lemma min_sequence_le: "r \<in> set rs \<Longrightarrow> min_sequence rs \<le> ob_Sequence r"
  using foldl_min_le by (cases rs) (auto simp: min_sequence_def)

text \<open>A partition with a row after an unpublished one is never dropped.\<close>

lemma unpublished_pins:
  assumes "dead \<in> set (od_Rows d)" "\<not> ob_Published dead" "r \<in> set (od_Rows d)" "ob_Sequence dead \<le> ob_Sequence r"
  shows "r \<in> set (od_Rows (drop_each env names d)) \<and> dead \<in> set (od_Rows (drop_each env names d))"
  using assms
proof (induction names arbitrary: d)
  case (Cons name names)
  have step: "r \<in> set (od_Rows (snd (DetachAndDropPartition env name d))) \<and> dead \<in> set (od_Rows (snd (DetachAndDropPartition env name d)))"
    if "\<not> hasUnpublished name d" "isSafeToDrop name d"
  proof -
    have "r \<notin> set (partition_rows name d)"
    proof
      assume "r \<in> set (partition_rows name d)"
      then have "ob_Sequence r \<le> max_sequence (partition_rows name d)" by (rule max_sequence_ge)
      moreover have "min_sequence (filter (\<lambda>r. \<not> ob_Published r) (od_Rows d)) \<le> ob_Sequence dead"
        using Cons.prems(1,2) by (intro min_sequence_le) simp
      ultimately show False using that(2) Cons.prems(4) by (simp add: isSafeToDrop_def)
    qed
    moreover have "dead \<notin> set (partition_rows name d)"
      using that(1) Cons.prems(2) by (auto simp: hasUnpublished_def list_ex_iff)
    ultimately show ?thesis
      using Cons.prems(1,3) by (auto simp: DetachAndDropPartition_def partition_rows_def Let_def list_ex_iff)
  qed
  show ?case
    unfolding drop_each.simps using Cons.IH Cons.prems step by simp
qed simp

text \<open>
  A dead-lettered event stops the clean-up behind it for good: a row with a later sequence number
  whose quarter is over stays in the table through every history of the program, whether it is
  published or not, because the manager refuses to drop its partition and the relay only
  deletes rows of the current quarter.
\<close>

theorem dead_event_pins_later_rows:
  assumes "outbox_inv (rl_db s)" "published_sent s"
    and "dead \<in> set (od_Rows (rl_db s))" "ob_Failed dead"
    and "r \<in> set (od_Rows (rl_db s))" "ob_Sequence dead \<le> ob_Sequence r"
    and "list_all (\<lambda>(env, j). ob_CreatedAt r < QuarterStart (env_now env)) js"
  shows "\<exists>r'. row_moves r r' \<and> r' \<in> set (od_Rows (rl_db (relay_run js s)))"
  using assms
proof (induction js arbitrary: s r)
  case Nil
  then show ?case by (auto intro: exI [of _ r])
next
  case (Cons ej js)
  obtain env j where ej: "ej = (env, j)" by force
  define s1 where "s1 = relay_exec env j s"
  have step: "relay_keeps s s1" unfolding s1_def by (rule relay_exec_keeps [OF Cons.prems(1,2)])
  have unpub: "\<not> ob_Published dead"
    using outbox_invD(3) [OF Cons.prems(1,3)] Cons.prems(4) by (auto simp: row_ok_def)
  have follow: "rows_follow (od_Rows (rl_db s)) (od_Rows (rl_db s1))" using step by (simp add: relay_keeps_def)
  have dead: "dead \<in> set (od_Rows (rl_db s1))" by (rule dead_row_stays [OF follow Cons.prems(3,4) unpub])
  have "\<exists>r'. row_moves r r' \<and> r' \<in> set (od_Rows (rl_db s1))"
  proof (cases j)
    case (JobStore es)
    have "\<exists>new. od_Rows (rl_db s1) = od_Rows (rl_db s) @ new"
      unfolding s1_def JobStore relay_exec.simps by (simp add: store_appends)
    then show ?thesis using Cons.prems(5) row_moves_refl by (metis UnCI set_append)
  next
    case (JobPass workers w n)
    obtain c where "relay env workers w n s = (c, s1)" by (metis JobPass prod.collapse relay_exec.simps(2) s1_def)
    from pass_rows [OF Cons.prems(1) this Cons.prems(5)] show ?thesis .
  next
    case JobCleanup
    have "r \<in> set (od_Rows (rl_db s1))"
      using Cons.prems(5,7) by (auto simp: s1_def JobCleanup ej relay_cleanup_def DeleteOld_def Let_def)
    then show ?thesis using row_moves_refl by blast
  next
    case (JobPartitions pm)
    have "r \<in> set (od_Rows (rl_db s1))"
      using unpublished_pins [of dead "pm_ensure env pm (rl_db s)" r env] Cons.prems(3,5,6) unpub
      by (simp add: s1_def JobPartitions pm_round_def pm_cleanup_def)
    then show ?thesis using row_moves_refl by blast
  qed
  then obtain r1 where r1: "row_moves r r1" "r1 \<in> set (od_Rows (rl_db s1))" by blast
  have "\<exists>r'. row_moves r1 r' \<and> r' \<in> set (od_Rows (rl_db (relay_run js s1)))"
    using step Cons.prems(4,6,7) dead r1
    by (intro Cons.IH) (auto simp: relay_keeps_def row_moves_def ob_key_def ej list_all_iff)
  with r1(1) show ?case unfolding ej relay_run.simps s1_def [symmetric] by (metis row_moves_trans)
qed

lemma dead_event_pins_later_rows_witness:
  "\<exists>r'. ob_ID r' = ''a'' \<and> ob_Published r' \<and> r' \<in> set (od_Rows (rl_db (relay_run
      [(sample_relay_env (\<lambda>_. True) True (400 * ns_per_day), JobCleanup),
       (sample_relay_env (\<lambda>_. True) True (400 * ns_per_day), JobPartitions \<lparr>pm_lookahead = 2, pm_retention = 90 * ns_per_day\<rparr>)]
      (snd (run_ticks 1 0 carried_ticks initial_worker
        (stored_relay [sample_wire ''p'' ''plan.created'' ''p'', sample_wire ''a'' ''invoice.paid'' ''i'']))))))"
proof -
  let ?s = "snd (run_ticks 1 0 carried_ticks initial_worker
      (stored_relay [sample_wire ''p'' ''plan.created'' ''p'', sample_wire ''a'' ''invoice.paid'' ''i'']))"
  let ?rows = "od_Rows (rl_db ?s)"
  let ?js = "[(sample_relay_env (\<lambda>_. True) True (400 * ns_per_day), JobCleanup),
       (sample_relay_env (\<lambda>_. True) True (400 * ns_per_day), JobPartitions \<lparr>pm_lookahead = 2, pm_retention = 90 * ns_per_day\<rparr>)]"
  have inv: "outbox_inv (rl_db ?s)" "published_sent ?s"
    using run_ticks_keeps [OF stored_relay_inv] by (simp_all add: relay_keeps_def)
  have rows: "map (\<lambda>r. (ob_ID r, ob_Sequence r, ob_Failed r, ob_Published r, ob_CreatedAt r)) ?rows
      = [(''p'', 1, True, False, 0), (''a'', 2, False, True, 0)]" by code_simp
  then obtain dead r where dr: "?rows = [dead, r]" "ob_Failed dead" "ob_Sequence dead = 1" "ob_ID r = ''a''" "ob_Sequence r = 2"
    "ob_Published r" "ob_CreatedAt r = 0" by (auto simp: map_eq_Cons_conv)
  have "0 < QuarterStart (400 * ns_per_day)" by code_simp
  then have "list_all (\<lambda>(env, j). ob_CreatedAt r < QuarterStart (env_now env)) ?js"
    by (simp add: dr sample_relay_env_def)
  from dead_event_pins_later_rows [OF inv _ dr(2) _ _ this] dr
  obtain r' where "row_moves r r'" "r' \<in> set (od_Rows (rl_db (relay_run ?js ?s)))" by auto
  with dr(4,6) show ?thesis by (auto simp: row_moves_def ob_key_def)
qed

lemma failed_event_is_overtaken_witness:
  "\<exists>xs ys. rl_acked (snd (relay (sample_relay_env (\<lambda>_. True) True 2) 1 0 100
      (snd (relay (sample_relay_env (\<lambda>t. t = ''invoice.paid'') True 1) 1 0 100
        (stored_relay [sample_wire ''a'' ''invoice.created'' ''i'', sample_wire ''b'' ''invoice.paid'' ''i'']))))) = xs @ ys
    \<and> (2::int) \<in> set (map (\<lambda>a. rm_OutboxSequence (snd a)) xs) \<and> (1::int) \<notin> set (map (\<lambda>a. rm_OutboxSequence (snd a)) xs)
    \<and> (1::int) \<in> set (map (\<lambda>a. rm_OutboxSequence (snd a)) ys)"
proof -
  let ?s = "stored_relay [sample_wire ''a'' ''invoice.created'' ''i'', sample_wire ''b'' ''invoice.paid'' ''i'']"
  let ?e = "sample_relay_env (\<lambda>t. t = ''invoice.paid'') True 1"
  have "map (\<lambda>r. (ob_EventType r, ob_Sequence r, ob_Attempts r)) (take 100 (filter active (od_Rows (rl_db ?s))))
      = [(''invoice.created'', 1, 0), (''invoice.paid'', 2, 0)]" by code_simp
  then obtain r1 r2 where r: "take 100 (filter active (od_Rows (rl_db ?s))) = [r1, r2]" "ob_EventType r1 = ''invoice.created''"
    "ob_Sequence r1 = 1" "ob_Attempts r1 = 0" "ob_EventType r2 = ''invoice.paid''" "ob_Sequence r2 = 2"
    by (auto simp: map_eq_Cons_conv)
  have ref: "refused ?e (rowToOutboxEvent r1)"
    using sample_relay_doomed [of "\<lambda>t. t = ''invoice.paid''" "''invoice.created''"] r(2)
    by (simp add: refused_def doomed_def rowToOutboxEvent_def)
  have acc: "accepted ?e (rowToOutboxEvent r2)"
    using r(5) by (simp add: accepted_def rowToOutboxEvent_def sample_execute_def sample_publish_def sample_state_def)
  have closed: "re_state ?e (rl_nats ?s) \<noteq> StateOpen" "sample_state True (rl_nats (snd (relay ?e 1 0 100 ?s))) = StateClosed"
    by (code_simp, code_simp)
  have "rl_acked ?s = []" by code_simp
  with failed_event_is_overtaken [OF stored_relay_inv(1) sample_relay_no_fault closed(1) _ ref _ _ acc sample_relay_healthy closed(2), of 2] r
  show ?thesis by (simp only: append_Nil) force
qed

end
