(* ===== verification/DeliverySpec.thy ===== *)
theory DeliverySpec
  imports Reseller RelayProps
begin

text \<open>
  Where the parts of event delivery meet: the catalogue and the streams, the consumer's dead letters and
  their replay.
\<close>

section \<open>The catalogue and the streams\<close>

text \<open>The types that the modelled aggregates emit.\<close>

definition emitted_types :: "string list" where
  "emitted_types =
     [''subscription.created'', ''subscription.activated'', ''subscription.cancelled'',
      ''subscription.renewed'', ''subscription.paused'', ''subscription.resumed'', ''subscription.expired'',
      ''subscription.past_due'', ''subscription.upgraded'', ''subscription.downgraded'',
      ''subscription.trial_started'', ''subscription.trial_ending'', ''subscription.updated'',
      ''invoice.created'', ''invoice.paid'', ''invoice.failed'', ''invoice.refunded'',
      ''invoice.discount_applied'', ''invoice.total_overridden'', ''family.created'',
      ''family.member_added'', ''family.member_removed'', ''plan.created'', ''plan.updated'',
      ''plan.deactivated'', ''binding.created'', ''binding.provisioned'', ''binding.deprovisioned'',
      ''binding.failed'', ''binding.disabled'', ''binding.enabled'', ''binding.limited'',
      ''binding.unlimited'', ''binding.sync_failed'', ''binding.sync_completed'', ''payment.charge_created'',
      ''payment.charge_completed'', ''payment.charge_failed'', ''payment.refund_completed'',
      ''payment.webhook_received'', ''reseller.tenant_created'', ''reseller.tenant_updated'',
      ''reseller.account_created'', ''reseller.commission_created'', ''reseller.commission_paid'']"

lemma catalog_distinct: "distinct (map ca_Type catalog_entries)"
  by (simp add: catalog_entries_def entry_defs catalog_entry.defs)

lemma built_catalog: "BuildEventCatalog = Some (map (\<lambda>e. (ca_Type e, e)) catalog_entries)"
  using catalog_distinct by (simp add: BuildEventCatalog_entries register_all_iff NewEventCatalog_def)

lemma app_catalog_built: "app_catalog = map (\<lambda>e. (ca_Type e, e)) catalog_entries"
  by (simp add: app_catalog_def built_catalog)

lemma emitted_types_listed: "set emitted_types \<subseteq> set (map ca_Type catalog_entries)"
  by (simp add: emitted_types_def catalog_entries_def entry_defs catalog_entry.defs)

lemma entry_versions: "list_all (\<lambda>e. ca_Version e = DefaultEventVersion) catalog_entries"
  by (simp add: catalog_entries_def entry_defs catalog_entry.defs DefaultEventVersion_def)

lemma emitted_registered:
  assumes "t \<in> set emitted_types"
  shows "map_option ca_Version (catalog_Get app_catalog t) = Some DefaultEventVersion"
proof -
  from assms emitted_types_listed obtain e where e: "e \<in> set catalog_entries" "ca_Type e = t" by auto
  then have "(t, e) \<in> set app_catalog" by (auto simp: app_catalog_built)
  moreover have "distinct (map fst app_catalog)" using catalog_distinct by (simp add: app_catalog_built o_def)
  ultimately have "map_of app_catalog t = Some e" by simp
  with e entry_versions show ?thesis by (simp add: catalog_Get_def list_all_iff)
qed

text \<open>
  C28. The catalogue can be built (no type is registered twice), has ninety entries, and registers every event
  type of billing, payment, binding and reseller payloads, under the version with which they are emitted.
  The one exception is the payload with which \<open>HandleWebhookEvent\<close> forwards a webhook of the panel: it is
  published under whatever type it arrived with.
\<close>

theorem catalogue_knows_every_event:
  "BuildEventCatalog = Some app_catalog \<and> catalog_Len app_catalog = 90 \<and> distinct (catalog_Types app_catalog)
   \<and> (\<forall>p. map_option ca_Version (catalog_Get app_catalog (EventType p)) = Some DefaultEventVersion)
   \<and> (\<forall>p. map_option ca_Version (catalog_Get app_catalog (payment_event_type p)) = Some DefaultEventVersion)
   \<and> (\<forall>p. map_option ca_Version (catalog_Get app_catalog (reseller_event_type p)) = Some DefaultEventVersion)
   \<and> (\<forall>p. case p of BindingWebhook _ _ _ _ \<Rightarrow> True
        | _ \<Rightarrow> map_option ca_Version (catalog_Get app_catalog (binding_event_type p)) = Some DefaultEventVersion)"
proof (intro conjI allI)
  show "BuildEventCatalog = Some app_catalog" by (simp add: app_catalog_def built_catalog)
  show "catalog_Len app_catalog = 90" by (simp add: app_catalog_built catalog_Len_def catalog_entries_def entry_defs)
  show "distinct (catalog_Types app_catalog)" using catalog_distinct by (simp add: app_catalog_built catalog_Types_def o_def)
  note known = emitted_registered [unfolded emitted_types_def]
  show "map_option ca_Version (catalog_Get app_catalog (EventType p)) = Some DefaultEventVersion" for p
    by (cases p) (simp_all add: known)
  show "map_option ca_Version (catalog_Get app_catalog (payment_event_type p)) = Some DefaultEventVersion" for p
    by (cases p) (simp_all add: known)
  show "map_option ca_Version (catalog_Get app_catalog (reseller_event_type p)) = Some DefaultEventVersion" for p
    by (cases p) (simp_all add: known)
  show "case p of BindingWebhook _ _ _ _ \<Rightarrow> True
        | _ \<Rightarrow> map_option ca_Version (catalog_Get app_catalog (binding_event_type p)) = Some DefaultEventVersion" for p
    by (cases p) (simp_all add: known)
qed

text \<open>The types and subjects that no stream carries.\<close>

definition uncarried_types :: "string list" where
  "uncarried_types =
     [''plan.created'', ''plan.updated'', ''plan.deactivated'',
      ''security.hwid_device_added'', ''security.hwid_device_deleted'', ''security.login_attempt_failed'',
      ''security.login_attempt_success'', ''security.torrent_blocker_report'',
      ''billing.node_payment_due_7d'', ''billing.node_payment_due_48h'', ''billing.node_payment_due_24h'',
      ''billing.node_payment_due_today'', ''billing.node_payment_overdue_24h'', ''billing.node_payment_overdue_48h'',
      ''billing.node_payment_overdue_7d'']"

lemma tokens_nonempty [simp]: "tokens s \<noteq> []"
  by (induction s) (auto split: list.split)

text \<open>Which stream a subject belongs to depends on its first token, once it has a second one.\<close>

lemma tokens_prefix: "CHR ''.'' \<notin> set p \<Longrightarrow> tokens (p @ CHR ''.'' # s) = p # tokens s"
  by (induction p) (auto split: list.split)

lemma prefix_matches:
  assumes "CHR ''.'' \<notin> set p" "p \<noteq> ''>''" "p \<noteq> ''*''" "tokens t = q # ts"
  shows "subject_matches (p @ ''.>'') t \<longleftrightarrow> p = q \<and> ts \<noteq> []"
  using assms by (simp add: subject_matches_def tokens_prefix)

definition stream_prefixes :: "(string \<times> string) list" where
  "stream_prefixes = [(''user'', ''IDENTITY''), (''invoice'', ''BILLING''), (''subscription'', ''BILLING''), (''family'', ''BILLING''),
     (''remnawave'', ''REMNAWAVE''), (''binding'', ''REMNAWAVE''), (''payment'', ''PAYMENT''), (''infra'', ''INFRA''), (''node'', ''INFRA''),
     (''reseller'', ''RESELLER''), (''plugin'', ''PLUGINS''), (''dlq'', ''DLQ'')]"

lemma streams_of_tokens:
  "streams_of t = (case tokens t of q # s # ss \<Rightarrow> (case map_of stream_prefixes q of Some n \<Rightarrow> [n] | None \<Rightarrow> []) | _ \<Rightarrow> [])"
proof -
  obtain q ts where t: "tokens t = q # ts" by (metis list.exhaust tokens_nonempty)
  have m: "subject_matches (p @ ''.>'') t \<longleftrightarrow> p = q \<and> ts \<noteq> []" if "CHR ''.'' \<notin> set p" "p \<noteq> ''>''" "p \<noteq> ''*''" for p
    using prefix_matches [OF that t] .
  note ms = m [of "''user''", simplified] m [of "''invoice''", simplified] m [of "''subscription''", simplified]
    m [of "''family''", simplified] m [of "''remnawave''", simplified] m [of "''binding''", simplified]
    m [of "''payment''", simplified] m [of "''infra''", simplified] m [of "''node''", simplified]
    m [of "''reseller''", simplified] m [of "''plugin''", simplified] m [of "''dlq''", simplified]
  show ?thesis
    by (cases ts) (auto simp: streams_of_def StreamConfigs_def stream_config.defs dlqSubscribeSubject_def ms t stream_prefixes_def)
qed

text \<open>
  No type of the catalogue belongs to two streams, and fifteen of them belong to none: the three plan events
  of the billing context and the webhook types of the scopes \<open>security\<close> and \<open>billing\<close>. The subject that
  the webhook endpoint publishes under is carried exactly when it is not one of these, so twelve
  kinds of panel webhooks, answered with status 200, are published to no stream at all.
\<close>

theorem uncarried_subjects:
  "list_all (\<lambda>t. length (streams_of t) \<le> 1 \<and> (streams_of t = []) = (t \<in> set uncarried_types)) (catalog_Types app_catalog)
   \<and> (\<forall>p. (streams_of (MapWebhookEvent p) = []) = (MapWebhookEvent p \<in> set uncarried_types))"
proof (intro conjI allI)
  show "list_all (\<lambda>t. length (streams_of t) \<le> 1 \<and> (streams_of t = []) = (t \<in> set uncarried_types)) (catalog_Types app_catalog)"
    by (simp add: app_catalog_built catalog_Types_def catalog_entries_def entry_defs catalog_entry.defs streams_of_tokens
        stream_prefixes_def uncarried_types_def)
next
  fix p
  have lit: "list_all (\<lambda>t. (streams_of t = []) = (t \<in> set uncarried_types))
      (''subscription.expired_24h_ago'' # ''subscription.expiring_soon'' # map snd webhookEventMap)"
    by (simp add: webhookEventMap_def streams_of_tokens stream_prefixes_def uncarried_types_def)
  show "(streams_of (MapWebhookEvent p) = []) = (MapWebhookEvent p \<in> set uncarried_types)"
  proof (cases "MapWebhookEvent p \<in> set (''subscription.expired_24h_ago'' # ''subscription.expiring_soon'' # map snd webhookEventMap)")
    case True
    with lit show ?thesis by (simp only: list_all_iff)
  next
    case False
    then have "MapWebhookEvent p = ''remnawave.'' @ wp_Scope p @ ''.'' @ wp_Event p"
      by (auto simp: MapWebhookEvent_def image_iff split: if_splits option.splits dest!: map_of_SomeD)
    moreover have "streams_of (''remnawave.'' @ s) = [''REMNAWAVE'']" for s
      using tokens_prefix [of "''remnawave''" s] by (cases "tokens s") (simp_all add: streams_of_tokens stream_prefixes_def)
    moreover have "''remnawave.'' @ s \<notin> set uncarried_types" for s by (simp add: uncarried_types_def)
    ultimately show ?thesis by simp
  qed
qed

section \<open>Dead letters and their replay\<close>

text \<open>A dead letter keeps the message's identifier.\<close>

lemma dlq_entry:
  assumes "handleMessage ce subject msg s = (StatusDLQ, s')" "ce_publisher ce" "\<not> env_fault ce ''publish to dlq''"
  shows "\<exists>d. cn_dlq s' = cn_dlq s @ [(DLQSubjectPrefix @ subject, d)] \<and> dq_OriginalSubject d = subject
    \<and> dq_OriginalPayload d = wm_Payload msg \<and> dq_MsgID d = wm_UUID msg"
proof -
  have sent: "\<exists>d. cn_dlq (sendToDLQ ce subject msg er n ev t) = cn_dlq t @ [(DLQSubjectPrefix @ subject, d)] \<and> dq_OriginalSubject d = subject
      \<and> dq_OriginalPayload d = wm_Payload msg \<and> dq_MsgID d = wm_UUID msg" for er n ev t
    using assms(2,3) by (simp add: sendToDLQ_def)
  show ?thesis
  proof (cases "wm_Payload msg")
    case None
    then have "s' = sendToDLQ ce subject msg ErrMalformed 0 None s" using assms(1) malformed [OF None, of ce subject s] by simp
    with sent [of ErrMalformed 0 None s] show ?thesis by simp
  next
    case (Some ev)
    from assms(1) Some show ?thesis
    proof (cases rule: delivery_cases)
      case (failed s1 er s2)
      have dlq: "cn_dlq s2 = cn_dlq s" using processEvent_keeps [OF failed(1)] failed(3) by simp
      obtain n t where "s' = sendToDLQ ce subject msg er n (Some (Upcast (ce_registry ce) ev)) t" "cn_dlq t = cn_dlq s2"
        using failed(2) by (auto simp: handle_failure_def Let_def split: if_splits prod.splits)
      with sent [of er n "Some (Upcast (ce_registry ce) ev)" t] dlq show ?thesis by simp
    qed simp_all
  qed
qed

definition replay_everything :: replay_options where
  "replay_everything = \<lparr>ro_Limit = 0, ro_FilterSubject = [], ro_FilterEntity = [], ro_DryRun = False\<rparr>"

text \<open>
  A replay within the deduplication window loses the event. The broker confirms a publish whose message
  identifier it accepted within the window without storing it (\<open>recent n\<close> are those identifiers). The
  consumer's dead letter keeps the identifier of the message; replaying it reports one message
  replayed and acknowledges the dead letter, and the broker's streams are what they were.
\<close>

theorem early_replay_loses_the_event:
  assumes "\<And>t m n. wm_UUID m \<in> recent n \<Longrightarrow> publish_raw t m n = (True, n)"
    and "handleMessage ce subject msg s = (StatusDLQ, s')" "ce_publisher ce" "\<not> env_fault ce ''publish to dlq''"
    and "wm_UUID msg \<noteq> []" "wm_UUID msg \<in> recent n"
  shows "\<exists>d. cn_dlq s' = cn_dlq s @ [(DLQSubjectPrefix @ subject, d)]
    \<and> ReplayDLQMessages publish_raw u replay_everything [Some d] n
        = (\<lparr>rr_Replayed = 1, rr_Skipped = 0, rr_Errors = 0, rr_Matched = [d]\<rparr>, n, [Acked])"
proof -
  obtain d where d: "cn_dlq s' = cn_dlq s @ [(DLQSubjectPrefix @ subject, d)]" "dq_MsgID d = wm_UUID msg"
    using dlq_entry [OF assms(2-4)] by blast
  have "publish_raw (dq_OriginalSubject d) \<lparr>wm_UUID = dq_MsgID d, wm_Payload = dq_OriginalPayload d\<rparr> n = (True, n)"
    using d(2) assms(1,6) by simp
  with d assms(5) show ?thesis
    by (intro exI [of _ d]) (simp add: ReplayDLQMessages_def replay_everything_def matchesFilter_def empty_result_def
        unlimitedReplayBound_def Let_def)
qed

definition malformed_message :: wire_message where
  "malformed_message = \<lparr>wm_UUID = ''m'', wm_Payload = None\<rparr>"

lemma early_replay_loses_the_event_witness:
  "\<exists>d. ReplayDLQMessages (\<lambda>t m n. (True, if wm_UUID m \<in> set n then n else n @ [wm_UUID m])) (\<lambda>_. ''z'') replay_everything [Some d] [''m'']
     = (\<lparr>rr_Replayed = 1, rr_Skipped = 0, rr_Errors = 0, rr_Matched = [d]\<rparr>, [''m''], [Acked])"
proof -
  obtain s' where "handleMessage (sample_consumer_env [] (\<lambda>_. False)) ''subscription.activated'' malformed_message sample_consumer = (StatusDLQ, s')"
    using malformed [of malformed_message "sample_consumer_env [] (\<lambda>_. False)" "''subscription.activated''" sample_consumer]
    by (auto simp: malformed_message_def)
  from early_replay_loses_the_event [where recent = set and n = "[''m'']" and u = "\<lambda>_. ''z''"
      and publish_raw = "\<lambda>t m n. (True, if wm_UUID m \<in> set n then n else n @ [wm_UUID m])", OF _ this]
  show ?thesis by (fastforce simp: malformed_message_def)
qed

text \<open>The environment's key store answers.\<close>

definition keys_up :: "'g consumer_env \<Rightarrow> bool" where
  "keys_up ce \<longleftrightarrow> \<not> env_fault ce ''try acquire'' \<and> \<not> env_fault ce ''release key'' \<and> \<not> env_fault ce ''increment retry''"

text \<open>
  A replayed dead letter gets one attempt: after a message was dead-lettered for its failures, a
  delivery of the same event (replayed under its subject, however much later within the life of the
  retry key) either succeeds or is dead-lettered again at once; the three attempts of a new event
  are not granted, and it is not dropped as a duplicate either.
\<close>

theorem replayed_event_gets_one_attempt:
  assumes "handleMessage ce subject msg s = (StatusDLQ, s1)" "wm_Payload msg = Some ev" "ev_ID ev \<noteq> []"
    and "keys_up ce" "keys_up ce'" "wm_Payload msg' = Some ev"
  shows "fst (handleMessage ce' subject msg' s1) \<in> {StatusSuccess, StatusDLQ}"
proof -
  let ?k = "ev_ID ev"
  have key: "idempotency_key subject (Upcast r ev) = ?k" for r by (rule idempotency_key_ID [OF assms(3)])
  have after: "MaxMessageRetries \<le> retry_count (retryKeyPrefix @ ?k) (cn_keys s1) \<and> \<not> has_key ?k (cn_keys s1)"
    using assms(1,2)
  proof (cases rule: delivery_cases)
    case (failed t er t')
    note res = failure_result [OF failed(2), unfolded key]
    have up: "\<not> env_fault ce ''increment retry''" "\<not> env_fault ce ''release key''" using assms(4) by (simp_all add: keys_up_def)
    obtain n ks where bump: "IncrementRetry (env_dbnow ce) (retryKeyPrefix @ ?k) (Release ?k (cn_keys t')) = (n, ks)" by force
    have "cn_keys s1 = ks"
      using failed(2) up bump by (auto simp: handle_failure_def key Let_def split: if_splits)
    moreover have "\<not> has_key ?k ks"
      using idem.bump_has [of ?k "env_dbnow ce" "retryKeyPrefix @ ?k" "Release ?k (cn_keys t')"] bump
      by (simp add: idem.release_has)
    ultimately show ?thesis using res [OF up(1)] by (auto split: if_splits)
  qed simp_all
  obtain st s2 where h: "handleMessage ce' subject msg' s1 = (st, s2)" by force
  then show ?thesis
    using assms(6)
  proof (cases rule: delivery_cases)
    case duplicate
    with after show ?thesis by (simp add: key)
  next
    case (processed t)
    with h show ?thesis by simp
  next
    case (failed t er t')
    have "retry_count (retryKeyPrefix @ ?k) (cn_keys t') = retry_count (retryKeyPrefix @ ?k) (cn_keys s1)"
      using processEvent_keeps [OF failed(1)] failed(3) by (simp add: idem.acquire_counter key)
    with failure_result [OF failed(2), unfolded key] assms(5) after h show ?thesis by (auto simp: keys_up_def split: if_splits)
  qed
qed

lemma replayed_event_gets_one_attempt_witness:
  "let ce = sample_consumer_env [] (\<lambda>_. False);
       s2 = snd (handleMessage ce ''subscription.activated'' activated_message
              (snd (handleMessage ce ''subscription.activated'' activated_message sample_consumer)));
       s3 = snd (handleMessage ce ''subscription.activated'' activated_message s2)
   in fst (handleMessage ce ''subscription.activated'' activated_message s3) \<in> {StatusSuccess, StatusDLQ}"
proof -
  let ?ce = "sample_consumer_env [] (\<lambda>_. False)"
  let ?s2 = "snd (handleMessage ?ce ''subscription.activated'' activated_message
      (snd (handleMessage ?ce ''subscription.activated'' activated_message sample_consumer)))"
  have "fst (handleMessage ?ce ''subscription.activated'' activated_message ?s2) = StatusDLQ" by code_simp
  then obtain s3 where s3: "handleMessage ?ce ''subscription.activated'' activated_message ?s2 = (StatusDLQ, s3)"
    by (metis prod.collapse)
  obtain ev where ev: "wm_Payload activated_message = Some ev" "ev_ID ev \<noteq> []"
    by (simp add: activated_message_def new_event_def to_wire_def)
  have "keys_up ?ce" by (simp add: keys_up_def)
  from replayed_event_gets_one_attempt [OF s3 ev this this ev(1)] show ?thesis by (simp add: s3)
qed

end
