(* ===== verification/ResellerService.thy ===== *)
theory ResellerService
  imports Reseller "HOL-Library.Char_ord" "HOL-Library.List_Lexorder"
begin

text \<open>
  The reseller repositories \<open>adapter/postgres/reseller_repo.go\<close> and \<open>shop_bot_repo.go\<close> with the
  tables, constraints and policies of migrations 006, 039, 040, 043, 044, 045 and 048,
  the service \<open>domain/reseller/service/reseller_service.go\<close>, and the tenant resolver
  \<open>gateway/middleware/tenant.go\<close>. Tenants are not under row-level security, the other tables are.
  The encryption box, SHA-256, randomness and the plugin registry are fields of the environment.
  Lemmas: commissions honour the repository contract in every scope.
\<close>

section \<open>Rows and tables\<close>

record tenant_row =
  tr_id :: string
  tr_name :: string
  tr_domain :: "string option"
  tr_owner_user_id :: "string option"
  tr_branding_config :: branding_config
  tr_api_key_hash :: "string option"
  tr_is_active :: bool
  tr_created_at :: time
  tr_updated_at :: time

record account_row =
  ar_id :: string
  ar_tenant_id :: string
  ar_user_id :: string
  ar_commission_rate :: int64
  ar_balance :: int64
  ar_created_at :: time

record commission_row =
  cr_id :: string
  cr_reseller_id :: string
  cr_sale_id :: string
  cr_amount :: int64
  cr_currency :: string
  cr_status :: commission_status
  cr_created_at :: time
  cr_paid_at :: "time option"
  cr_tenant_id :: "string option"

record shop_bot_row =
  sb_tenant_id :: string
  sb_token_enc :: string
  sb_token_hash :: "string option"
  sb_webhook_secret :: string
  sb_cabinet_url :: string
  sb_bot_username :: "string option"
  sb_enabled :: bool
  sb_plugin_slug :: "string option"

text \<open>The columns of \<open>identity.platform_users\<close> and \<open>billing.subscriptions\<close> that are read here.\<close>

record customer_row =
  cu_id :: string
  cu_email :: string
  cu_display_name :: string
  cu_created_at :: time
  cu_tenant_id :: "string option"

record customer_sub_row =
  cb_user_id :: string
  cb_status :: string
  cb_tenant_id :: "string option"

record resellers =
  rd_tenants :: "tenant_row list"
  rd_accounts :: "account_row list"
  rd_commissions :: "commission_row list"
  rd_shop_bots :: "shop_bot_row list"
  rd_users :: "customer_row list"
  rd_subs :: "customer_sub_row list"
  rd_outbox :: "reseller_payload event list"

section \<open>The environment\<close>

text \<open>
  \<open>pkg/secretbox.Box\<close>: authenticated encryption under a random nonce (which may fail), and a keyed
  hash. No box means that no encryption key is configured.
\<close>

record secret_box =
  bx_Seal :: "string \<Rightarrow> string option"
  bx_Open :: "string \<Rightarrow> string option"
  bx_HMAC :: "string \<Rightarrow> string"

record reseller_env = tx_env +
  re_ctx :: string
  re_pool :: string
  re_rand :: "byte list option"
  re_sha256 :: "string \<Rightarrow> byte list"
  re_box :: "secret_box option"
  re_IsValidBotPlugin :: "string \<Rightarrow> reseller_error + bool"

definition re_scope :: "reseller_env \<Rightarrow> string" where
  "re_scope e = tx_scope (re_pool e) (re_ctx e)"

abbreviation re_call :: "reseller_env \<Rightarrow> string \<Rightarrow> ('s, reseller_error, 'a) tx \<Rightarrow> ('s, reseller_error, 'a) tx" where
  "re_call \<equiv> tx_call ErrResellerStorage"

abbreviation re_tx :: "reseller_env \<Rightarrow> ('s, reseller_error, 'a) tx \<Rightarrow> 's \<Rightarrow> (reseller_error + 'a) \<times> 's" where
  "re_tx \<equiv> RunInTx ErrResellerStorage"

text \<open>\<open>domainevent.PublishAll\<close> with the outbox as publisher.\<close>

definition re_publish ::
    "reseller_env \<Rightarrow> (reseller_payload, 'z) event_recorder_scheme \<Rightarrow> resellers
     \<Rightarrow> reseller_error + ((reseller_payload, 'z) event_recorder_scheme \<times> resellers)" where
  "re_publish e src s = PublishAll (\<lambda>es d.
     if env_fault e ''publish events'' then Inl (ErrResellerStorage ''publish events'')
     else Inr (d\<lparr>rd_outbox := PublishBatch (env_trace e) es (rd_outbox d)\<rparr>)) src s"

section \<open>Tenants (reseller_repo.go)\<close>

definition tenantRowToDomain :: "tenant_row \<Rightarrow> tenant" where
  "tenantRowToDomain r =
     \<lparr>rec_events = [], rec_flushed = False, tn_ID = tr_id r, tn_Name = tr_name r,
      tn_Domain = DerefStr (tr_domain r), tn_OwnerUserID = tr_owner_user_id r,
      tn_BrandingConfig = tr_branding_config r, tn_APIKeyHash = DerefStr (tr_api_key_hash r),
      tn_IsActive = tr_is_active r, tn_CreatedAt = tr_created_at r, tn_UpdatedAt = tr_updated_at r\<rparr>"

definition tenant_to_row :: "tenant \<Rightarrow> tenant_row" where
  "tenant_to_row t =
     \<lparr>tr_id = tn_ID t, tr_name = tn_Name t, tr_domain = StrPtrOrNil (tn_Domain t),
      tr_owner_user_id = tn_OwnerUserID t, tr_branding_config = tn_BrandingConfig t,
      tr_api_key_hash = StrPtrOrNil (tn_APIKeyHash t), tr_is_active = tn_IsActive t,
      tr_created_at = tn_CreatedAt t, tr_updated_at = tn_UpdatedAt t\<rparr>"

text \<open>The identifier is the primary key, and a domain that is present is unique.\<close>

definition CreateTenantRow :: "tenant \<Rightarrow> resellers \<Rightarrow> reseller_error + resellers" where
  "CreateTenantRow t s =
     (let r = tenant_to_row t in
      if tr_domain r \<noteq> None \<and> tr_domain r \<in> tr_domain ` set (rd_tenants s) then Inl ErrTenantAlreadyExists
      else rbind (insert_unique tr_id ErrTenantAlreadyExists r (rd_tenants s)) (\<lambda>ts.
        Inr (s\<lparr>rd_tenants := ts\<rparr>)))"

definition GetTenantByID :: "string \<Rightarrow> resellers \<Rightarrow> reseller_error + tenant" where
  "GetTenantByID i s = MapErr ErrTenantNotFound (map_option tenantRowToDomain (select_by tr_id i (rd_tenants s)))"

definition GetTenantByIDForUpdate :: "string \<Rightarrow> resellers \<Rightarrow> reseller_error + tenant" where
  "GetTenantByIDForUpdate i s =
     MapErr ErrTenantNotFound (map_option tenantRowToDomain (select_by tr_id i (rd_tenants s)))"

definition GetTenantByDomainRow :: "string \<Rightarrow> resellers \<Rightarrow> reseller_error + tenant" where
  "GetTenantByDomainRow domain s =
     MapErr ErrTenantNotFound (map_option tenantRowToDomain (select_by tr_domain (Some domain) (rd_tenants s)))"

definition GetTenantByAPIKeyHash :: "string \<Rightarrow> resellers \<Rightarrow> reseller_error + tenant" where
  "GetTenantByAPIKeyHash keyHash s =
     MapErr ErrTenantNotFound (map_option tenantRowToDomain (select_by tr_api_key_hash (Some keyHash) (rd_tenants s)))"

text \<open>
  The owner is not among the columns written, and the trigger sets \<open>updated_at\<close>. A domain that
  another tenant has is refused, with the storage error.
\<close>

definition UpdateTenant :: "time \<Rightarrow> tenant \<Rightarrow> resellers \<Rightarrow> reseller_error + resellers" where
  "UpdateTenant dbnow t s =
     (let upd = (\<lambda>r. r\<lparr>tr_name := tn_Name t, tr_domain := StrPtrOrNil (tn_Domain t),
                       tr_branding_config := tn_BrandingConfig t,
                       tr_api_key_hash := StrPtrOrNil (tn_APIKeyHash t),
                       tr_is_active := tn_IsActive t, tr_updated_at := dbnow\<rparr>)
      in if tn_Domain t \<noteq> [] \<and> list_ex (\<lambda>r. tr_id r \<noteq> tn_ID t \<and> tr_domain r = Some (tn_Domain t)) (rd_tenants s)
            \<and> list_ex (\<lambda>r. tr_id r = tn_ID t) (rd_tenants s)
         then Inl (ErrResellerStorage ''update tenant'')
         else Inr (s\<lparr>rd_tenants := update_by tr_id (tn_ID t) upd (rd_tenants s)\<rparr>))"

definition ListTenantRows :: "nat \<Rightarrow> nat \<Rightarrow> resellers \<Rightarrow> tenant list" where
  "ListTenantRows limit offset s =
     map tenantRowToDomain (take limit (drop offset (sort_key (\<lambda>r. - tr_created_at r) (rd_tenants s))))"

definition SetTenantOwnerUserID :: "time \<Rightarrow> string \<Rightarrow> string \<Rightarrow> resellers \<Rightarrow> resellers" where
  "SetTenantOwnerUserID dbnow tenantID userID s =
     s\<lparr>rd_tenants := update_by tr_id tenantID
          (\<lambda>r. r\<lparr>tr_owner_user_id := Some userID, tr_updated_at := dbnow\<rparr>) (rd_tenants s)\<rparr>"

section \<open>Accounts and commissions (reseller_repo.go)\<close>

definition resellerAccountRowToDomain :: "account_row \<Rightarrow> reseller_account" where
  "resellerAccountRowToDomain r =
     \<lparr>rec_events = [], rec_flushed = False, ra_ID = ar_id r, ra_TenantID = ar_tenant_id r,
      ra_UserID = ar_user_id r, ra_CommissionRate = ar_commission_rate r, ra_Balance = ar_balance r,
      ra_CreatedAt = ar_created_at r\<rparr>"

definition account_rows :: "string \<Rightarrow> resellers \<Rightarrow> account_row list" where
  "account_rows guc s = filter (\<lambda>r. rls_visible guc (Some (ar_tenant_id r))) (rd_accounts s)"

text \<open>
  The policy checks the new row against the scope; the tenant is a foreign key; the identifier and
  the pair of tenant and user are unique.
\<close>

definition CreateResellerAccountRow :: "string \<Rightarrow> reseller_account \<Rightarrow> resellers \<Rightarrow> reseller_error + resellers" where
  "CreateResellerAccountRow guc a s =
     (let r = \<lparr>ar_id = ra_ID a, ar_tenant_id = ra_TenantID a, ar_user_id = ra_UserID a,
               ar_commission_rate = ra_CommissionRate a, ar_balance = ra_Balance a,
               ar_created_at = ra_CreatedAt a\<rparr> in
      if \<not> rls_visible guc (Some (ra_TenantID a)) \<or> ra_TenantID a \<notin> tr_id ` set (rd_tenants s)
      then Inl (ErrResellerStorage ''create reseller account'')
      else if (ra_TenantID a, ra_UserID a) \<in> (\<lambda>r. (ar_tenant_id r, ar_user_id r)) ` set (rd_accounts s)
      then Inl ErrResellerAlreadyExists
      else rbind (insert_unique ar_id ErrResellerAlreadyExists r (rd_accounts s)) (\<lambda>t.
        Inr (s\<lparr>rd_accounts := t\<rparr>)))"

definition GetResellerAccountByID :: "string \<Rightarrow> string \<Rightarrow> resellers \<Rightarrow> reseller_error + reseller_account" where
  "GetResellerAccountByID guc i s =
     MapErr ErrResellerNotFound (map_option resellerAccountRowToDomain (select_by ar_id i (account_rows guc s)))"

definition GetResellerAccountByUserAndTenant ::
    "string \<Rightarrow> string \<Rightarrow> string \<Rightarrow> resellers \<Rightarrow> reseller_error + reseller_account" where
  "GetResellerAccountByUserAndTenant guc userID tenantID s =
     MapErr ErrResellerNotFound (map_option resellerAccountRowToDomain
       (select_by (\<lambda>r. (ar_user_id r, ar_tenant_id r)) (userID, tenantID) (account_rows guc s)))"

definition UpdateResellerBalance :: "string \<Rightarrow> string \<Rightarrow> int64 \<Rightarrow> resellers \<Rightarrow> resellers" where
  "UpdateResellerBalance guc resellerID balance s =
     s\<lparr>rd_accounts := map (\<lambda>r. if rls_visible guc (Some (ar_tenant_id r)) \<and> ar_id r = resellerID
                               then r\<lparr>ar_balance := balance\<rparr> else r) (rd_accounts s)\<rparr>"

definition commissionRowToDomain :: "commission_row \<Rightarrow> commission" where
  "commissionRowToDomain r =
     \<lparr>rec_events = [], rec_flushed = False, cm_ID = cr_id r, cm_ResellerID = cr_reseller_id r,
      cm_SaleID = cr_sale_id r, cm_Amount = cr_amount r, cm_Currency = cr_currency r,
      cm_Status = cr_status r, cm_CreatedAt = cr_created_at r, cm_PaidAt = cr_paid_at r\<rparr>"

definition commission_to_row :: "string option \<Rightarrow> commission \<Rightarrow> commission_row" where
  "commission_to_row tenant c =
     \<lparr>cr_id = cm_ID c, cr_reseller_id = cm_ResellerID c, cr_sale_id = cm_SaleID c,
      cr_amount = cm_Amount c, cr_currency = cm_Currency c, cr_status = cm_Status c,
      cr_created_at = cm_CreatedAt c, cr_paid_at = cm_PaidAt c, cr_tenant_id = tenant\<rparr>"

definition commission_rows :: "string \<Rightarrow> resellers \<Rightarrow> commission_row list" where
  "commission_rows guc s = filter (\<lambda>r. rls_visible guc (cr_tenant_id r)) (rd_commissions s)"

text \<open>The row takes the tenant of the scope, whatever tenant the account has.\<close>

definition CreateCommission :: "string \<Rightarrow> commission \<Rightarrow> resellers \<Rightarrow> reseller_error + resellers" where
  "CreateCommission guc c s =
     (case rls_stamp guc of
        None \<Rightarrow> Inl (ErrResellerStorage ''create commission'')
      | Some tenant \<Rightarrow>
          if cm_ResellerID c \<notin> ar_id ` set (rd_accounts s) then Inl (ErrResellerStorage ''create commission'')
          else rbind (insert_unique cr_id ErrCommissionAlreadyExists (commission_to_row tenant c) (rd_commissions s))
            (\<lambda>t. Inr (s\<lparr>rd_commissions := t\<rparr>)))"

definition GetCommissionByID :: "string \<Rightarrow> string \<Rightarrow> resellers \<Rightarrow> reseller_error + commission" where
  "GetCommissionByID guc i s =
     MapErr ErrCommissionNotFound (map_option commissionRowToDomain (select_by cr_id i (commission_rows guc s)))"

definition GetCommissionByIDForUpdate :: "string \<Rightarrow> string \<Rightarrow> resellers \<Rightarrow> reseller_error + commission" where
  "GetCommissionByIDForUpdate guc i s =
     MapErr ErrCommissionNotFound (map_option commissionRowToDomain (select_by cr_id i (commission_rows guc s)))"

definition cr_pending :: "commission_row \<Rightarrow> bool" where
  "cr_pending r \<longleftrightarrow> cr_status r = CommissionPending"

definition GetPendingCommissionRows :: "string \<Rightarrow> string \<Rightarrow> resellers \<Rightarrow> commission list" where
  "GetPendingCommissionRows guc resellerID s =
     map commissionRowToDomain (sort_key (\<lambda>r. - cr_created_at r)
       (filter (\<lambda>r. cr_reseller_id r = resellerID \<and> cr_pending r) (commission_rows guc s)))"

definition ListCommissionsByTenant :: "string \<Rightarrow> string \<Rightarrow> string \<Rightarrow> resellers \<Rightarrow> commission list" where
  "ListCommissionsByTenant guc tenantID resellerID s =
     map commissionRowToDomain (sort_key (\<lambda>r. - cr_created_at r)
       (filter (\<lambda>r. cr_tenant_id r = Some tenantID \<and> cr_reseller_id r = resellerID) (commission_rows guc s)))"

definition UpdateCommission :: "string \<Rightarrow> commission \<Rightarrow> resellers \<Rightarrow> resellers" where
  "UpdateCommission guc c s =
     s\<lparr>rd_commissions := map (\<lambda>r. if rls_visible guc (cr_tenant_id r) \<and> cr_id r = cm_ID c
          then r\<lparr>cr_status := cm_Status c, cr_paid_at := cm_PaidAt c\<rparr> else r) (rd_commissions s)\<rparr>"

section \<open>Shop bots (shop_bot_repo.go)\<close>

record shop_bot_config =
  bt_Token :: string
  bt_WebhookSecret :: string
  bt_CabinetURL :: string
  bt_BotUsername :: string
  bt_Enabled :: bool
  bt_BotPluginSlug :: string

definition bot_to_row :: "string \<Rightarrow> string \<Rightarrow> string \<Rightarrow> shop_bot_config \<Rightarrow> shop_bot_row" where
  "bot_to_row tenantID enc tokenHash cfg =
     \<lparr>sb_tenant_id = tenantID, sb_token_enc = enc, sb_token_hash = Some tokenHash,
      sb_webhook_secret = bt_WebhookSecret cfg, sb_cabinet_url = bt_CabinetURL cfg,
      sb_bot_username = StrPtrOrNil (bt_BotUsername cfg), sb_enabled = bt_Enabled cfg,
      sb_plugin_slug = StrPtrOrNil (bt_BotPluginSlug cfg)\<rparr>"

text \<open>
  The statement inserts, or overwrites the row of the same tenant. A tenant that does not exist or
  that the scope may not write is refused, and so is a token hash that another tenant has.
\<close>

definition bot_Upsert ::
    "secret_box option \<Rightarrow> string \<Rightarrow> string \<Rightarrow> shop_bot_config \<Rightarrow> resellers \<Rightarrow> reseller_error + resellers" where
  "bot_Upsert box guc tenantID cfg s =
     (case box of
        None \<Rightarrow> Inl ErrEncryptionNotConfigured
      | Some b \<Rightarrow>
          (case bx_Seal b (bt_Token cfg) of
             None \<Rightarrow> Inl (ErrResellerStorage ''encrypt bot token'')
           | Some enc \<Rightarrow>
               (let r = bot_to_row tenantID enc (bx_HMAC b (bt_Token cfg)) cfg in
                if \<not> rls_visible guc (Some tenantID) \<or> tenantID \<notin> tr_id ` set (rd_tenants s)
                then Inl (ErrResellerStorage ''upsert shop bot'')
                else if list_ex (\<lambda>q. sb_tenant_id q \<noteq> tenantID \<and> sb_token_hash q = sb_token_hash r) (rd_shop_bots s)
                then Inl ErrShopBotTokenInUse
                else if tenantID \<in> sb_tenant_id ` set (rd_shop_bots s)
                then Inr (s\<lparr>rd_shop_bots := update_by sb_tenant_id tenantID (\<lambda>_. r) (rd_shop_bots s)\<rparr>)
                else Inr (s\<lparr>rd_shop_bots := rd_shop_bots s @ [r]\<rparr>))))"

definition bot_rows :: "string \<Rightarrow> resellers \<Rightarrow> shop_bot_row list" where
  "bot_rows guc s = filter (\<lambda>r. rls_visible guc (Some (sb_tenant_id r))) (rd_shop_bots s)"

definition bot_of_row :: "string \<Rightarrow> shop_bot_row \<Rightarrow> shop_bot_config" where
  "bot_of_row plain r =
     \<lparr>bt_Token = plain, bt_WebhookSecret = sb_webhook_secret r, bt_CabinetURL = sb_cabinet_url r,
      bt_BotUsername = DerefStr (sb_bot_username r), bt_Enabled = sb_enabled r,
      bt_BotPluginSlug = DerefStr (sb_plugin_slug r)\<rparr>"

definition bot_GetByTenant ::
    "secret_box option \<Rightarrow> string \<Rightarrow> string \<Rightarrow> resellers \<Rightarrow> reseller_error + shop_bot_config" where
  "bot_GetByTenant box guc tenantID s =
     (case box of
        None \<Rightarrow> Inl ErrEncryptionNotConfigured
      | Some b \<Rightarrow>
          rbind (MapErr ErrShopBotNotFound (select_by sb_tenant_id tenantID (bot_rows guc s))) (\<lambda>r.
            case bx_Open b (sb_token_enc r) of
              None \<Rightarrow> Inl (ErrResellerStorage ''decrypt bot token'')
            | Some plain \<Rightarrow> Inr (bot_of_row plain r)))"

text \<open>A row whose token does not decrypt is skipped.\<close>

definition bot_ListEnabled ::
    "secret_box option \<Rightarrow> string \<Rightarrow> resellers \<Rightarrow> reseller_error + (string \<times> shop_bot_config) list" where
  "bot_ListEnabled box guc s =
     (case box of
        None \<Rightarrow> Inl ErrEncryptionNotConfigured
      | Some b \<Rightarrow>
          Inr (List.map_filter (\<lambda>r. map_option (\<lambda>plain. (sb_tenant_id r, bot_of_row plain r)) (bx_Open b (sb_token_enc r)))
            (filter sb_enabled (bot_rows guc s))))"

section \<open>Customers (reseller_repo.go)\<close>

record customer_summary =
  cs_UserID :: string
  cs_Email :: string
  cs_DisplayName :: string
  cs_ActiveSubsCount :: nat
  cs_CreatedAt :: time

definition cb_active :: "customer_sub_row \<Rightarrow> bool" where
  "cb_active r \<longleftrightarrow> cb_status r \<in> {''trial'', ''active''}"

definition sub_rows :: "string \<Rightarrow> resellers \<Rightarrow> customer_sub_row list" where
  "sub_rows guc s = filter (\<lambda>r. rls_visible guc (cb_tenant_id r)) (rd_subs s)"

definition user_rows :: "string \<Rightarrow> resellers \<Rightarrow> customer_row list" where
  "user_rows guc s = filter (\<lambda>r. rls_visible guc (cu_tenant_id r)) (rd_users s)"

definition ListCustomersByTenant :: "string \<Rightarrow> string \<Rightarrow> nat \<Rightarrow> nat \<Rightarrow> resellers \<Rightarrow> customer_summary list" where
  "ListCustomersByTenant guc tenantID limit offset s =
     map (\<lambda>u. \<lparr>cs_UserID = cu_id u, cs_Email = cu_email u, cs_DisplayName = cu_display_name u,
               cs_ActiveSubsCount =
                 length (filter (\<lambda>r. cb_user_id r = cu_id u \<and> cb_active r) (sub_rows guc s)),
               cs_CreatedAt = cu_created_at u\<rparr>)
       (take limit (drop offset (sort_key (\<lambda>u. - cu_created_at u)
         (filter (\<lambda>u. cu_tenant_id u = Some tenantID) (user_rows guc s)))))"

definition CountActiveCustomersByTenant :: "string \<Rightarrow> string \<Rightarrow> resellers \<Rightarrow> nat" where
  "CountActiveCustomersByTenant guc tenantID s =
     length (filter (\<lambda>u. cu_tenant_id u = Some tenantID) (user_rows guc s))"

definition CountActiveSubscriptionsByTenant :: "string \<Rightarrow> string \<Rightarrow> resellers \<Rightarrow> nat" where
  "CountActiveSubscriptionsByTenant guc tenantID s =
     length (filter (\<lambda>r. cb_tenant_id r = Some tenantID \<and> cb_active r) (sub_rows guc s))"

text \<open>
  The sum of the database is exact; scanning it into an \<open>int64\<close> fails when it does not fit. The
  currency is the greatest of the pending rows', empty when there is none.
\<close>

definition SumPendingCommissionByTenant :: "string \<Rightarrow> string \<Rightarrow> resellers \<Rightarrow> reseller_error + (int64 \<times> string)" where
  "SumPendingCommissionByTenant guc tenantID s =
     (let rs = filter (\<lambda>r. cr_tenant_id r = Some tenantID \<and> cr_pending r) (commission_rows guc s);
          amount = sum_list (map (\<lambda>r. sint (cr_amount r)) rs)
      in if in_int64 amount then Inr (word_of_int amount, fold max (map cr_currency rs) [])
         else Inl (ErrResellerStorage ''sum pending commission by tenant''))"

section \<open>The service: tenants and accounts\<close>

definition re_CreateTenant ::
    "reseller_env \<Rightarrow> string \<Rightarrow> string \<Rightarrow> string option \<Rightarrow> resellers
     \<Rightarrow> (reseller_error + (tenant \<times> string)) \<times> resellers" where
  "re_CreateTenant e name domain ownerUserID s =
     (case GenerateAPIKey (re_sha256 e) (re_rand e) (env_now e)
             (NewTenant (env_uuid e 0) (env_uuid e 1) name domain ownerUserID (env_now e)) of
        Inl er \<Rightarrow> (Inl er, s)
      | Inr (plainKey, t) \<Rightarrow>
          re_tx e (tx_bind (re_call e ''create tenant'' (tx_write (CreateTenantRow t))) (\<lambda>_.
                   tx_bind (re_publish e t) (\<lambda>t'. tx_return (t', plainKey)))) s)"

definition SetTenantOwner :: "reseller_env \<Rightarrow> string \<Rightarrow> string \<Rightarrow> resellers \<Rightarrow> (reseller_error + unit) \<times> resellers" where
  "SetTenantOwner e tenantID userID s =
     re_tx e (tx_bind (re_call e ''find tenant'' (tx_read (GetTenantByIDForUpdate tenantID))) (\<lambda>t.
       (let t' = SetOwner userID (env_now e) t in
        re_call e ''set tenant owner'' (tx_write (\<lambda>d. Inr (SetTenantOwnerUserID (env_dbnow e) (tn_ID t') userID d)))))) s"

definition re_GetTenant :: "reseller_env \<Rightarrow> string \<Rightarrow> resellers \<Rightarrow> reseller_error + tenant" where
  "re_GetTenant e tenantID s = map_sum id fst (re_call e ''get tenant'' (tx_read (GetTenantByID tenantID)) s)"

definition GetTenantByDomain :: "reseller_env \<Rightarrow> string \<Rightarrow> resellers \<Rightarrow> reseller_error + tenant" where
  "GetTenantByDomain e domain s =
     map_sum id fst (re_call e ''get tenant by domain'' (tx_read (GetTenantByDomainRow domain)) s)"

definition re_ListTenants :: "reseller_env \<Rightarrow> nat \<Rightarrow> nat \<Rightarrow> resellers \<Rightarrow> reseller_error + tenant list" where
  "re_ListTenants e limit offset s =
     map_sum id fst (re_call e ''list tenants'' (tx_read (\<lambda>d. Inr (ListTenantRows limit offset d))) s)"

definition UpdateBranding ::
    "reseller_env \<Rightarrow> string \<Rightarrow> branding_config \<Rightarrow> resellers \<Rightarrow> (reseller_error + tenant) \<times> resellers" where
  "UpdateBranding e tenantID branding s =
     re_tx e (tx_bind (re_call e ''find tenant'' (tx_read (GetTenantByIDForUpdate tenantID))) (\<lambda>t.
       (let t' = SetBranding (env_uuid e 0) branding (env_now e) t in
        tx_bind (re_call e ''update tenant'' (tx_write (UpdateTenant (env_dbnow e) t'))) (\<lambda>_.
        re_publish e t')))) s"

definition CreateResellerAccount ::
    "reseller_env \<Rightarrow> string \<Rightarrow> string \<Rightarrow> int64 \<Rightarrow> resellers \<Rightarrow> (reseller_error + reseller_account) \<times> resellers" where
  "CreateResellerAccount e tenantID userID rate s =
     (case NewResellerAccount (env_uuid e 0) (env_uuid e 1) tenantID userID rate (env_now e) of
        Inl er \<Rightarrow> (Inl er, s)
      | Inr a \<Rightarrow>
          re_tx e (tx_bind (re_call e ''create account'' (tx_write (CreateResellerAccountRow (re_scope e) a))) (\<lambda>_.
                   re_publish e a)) s)"

text \<open>Any failure of the lookup is an invalid key.\<close>

definition ValidateAPIKey :: "reseller_env \<Rightarrow> string \<Rightarrow> resellers \<Rightarrow> reseller_error + tenant" where
  "ValidateAPIKey e plainKey s =
     (case re_call e ''get tenant by key'' (tx_read (GetTenantByAPIKeyHash (HashAPIKey (re_sha256 e) plainKey))) s of
        Inl _ \<Rightarrow> Inl ErrInvalidAPIKey
      | Inr (t, _) \<Rightarrow> if \<not> tn_IsActive t then Inl ErrTenantInactive else Inr t)"

section \<open>The service: commissions\<close>

text \<open>
  The body of \<open>RecordCommission\<close>: the account is read without a lock, and the new balance is the
  wrapping sum. The event is published after the transaction; a failure to publish is only logged.
\<close>

definition record_body :: "reseller_env \<Rightarrow> commission \<Rightarrow> string \<Rightarrow> (resellers, reseller_error, unit) tx" where
  "record_body e c resellerID =
     tx_bind (re_call e ''create commission'' (tx_write (CreateCommission (re_scope e) c))) (\<lambda>_.
     tx_bind (re_call e ''find account'' (tx_read (GetResellerAccountByID (re_scope e) resellerID))) (\<lambda>a.
     re_call e ''update balance'' (tx_write (\<lambda>d.
       Inr (UpdateResellerBalance (re_scope e) resellerID (ra_Balance a + cm_Amount c) d)))))"

definition RecordCommission ::
    "reseller_env \<Rightarrow> string \<Rightarrow> string \<Rightarrow> int64 \<Rightarrow> int64 \<Rightarrow> string \<Rightarrow> resellers
     \<Rightarrow> (reseller_error + commission) \<times> resellers" where
  "RecordCommission e resellerID saleID saleAmount rate currency s =
     (case NewCommission (env_uuid e 0) (env_uuid e 1) resellerID saleID saleAmount rate currency (env_now e) of
        Inl er \<Rightarrow> (Inl er, s)
      | Inr c \<Rightarrow>
          (case re_tx e (record_body e c resellerID) s of
             (Inl er, s') \<Rightarrow> (Inl er, s')
           | (Inr _, s') \<Rightarrow>
               (case re_publish e c s' of
                  Inl _ \<Rightarrow> (Inr (snd (DomainEvents c)), s')
                | Inr (c', s'') \<Rightarrow> (Inr c', s''))))"

definition MarkCommissionPaid :: "reseller_env \<Rightarrow> string \<Rightarrow> resellers \<Rightarrow> (reseller_error + commission) \<times> resellers" where
  "MarkCommissionPaid e commissionID s =
     re_tx e (tx_bind (re_call e ''find commission'' (tx_read (GetCommissionByIDForUpdate (re_scope e) commissionID))) (\<lambda>c.
       tx_bind (tx_lift (cm_MarkPaid (env_uuid e 0) (env_now e) c)) (\<lambda>c'.
       tx_bind (re_call e ''update commission'' (tx_write (\<lambda>d. Inr (UpdateCommission (re_scope e) c' d)))) (\<lambda>_.
       re_publish e c')))) s"

text \<open>Outside a transaction: the scope is the pooled connection's.\<close>

definition GetPendingCommissions :: "reseller_env \<Rightarrow> string \<Rightarrow> resellers \<Rightarrow> reseller_error + commission list" where
  "GetPendingCommissions e resellerID s =
     map_sum id fst (re_call e ''get pending'' (tx_read (\<lambda>d. Inr (GetPendingCommissionRows (re_pool e) resellerID d))) s)"

definition ListCommissions :: "reseller_env \<Rightarrow> string \<Rightarrow> string \<Rightarrow> resellers \<Rightarrow> reseller_error + commission list" where
  "ListCommissions e userID tenantID s =
     fst (re_tx e (tx_bind (re_call e ''find account''
                     (tx_read (GetResellerAccountByUserAndTenant (re_scope e) userID tenantID))) (\<lambda>a.
       re_call e ''list commissions''
         (tx_read (\<lambda>d. Inr (ListCommissionsByTenant (re_scope e) tenantID (ra_ID a) d))))) s)"

definition ListCustomers :: "reseller_env \<Rightarrow> string \<Rightarrow> nat \<Rightarrow> nat \<Rightarrow> resellers \<Rightarrow> reseller_error + customer_summary list" where
  "ListCustomers e tenantID limit offset s =
     fst (re_tx e (re_call e ''list customers''
       (tx_read (\<lambda>d. Inr (ListCustomersByTenant (re_scope e) tenantID limit offset d)))) s)"

record dashboard_summary =
  ds_ActiveCustomers :: nat
  ds_ActiveSubscriptions :: nat
  ds_PendingCommission :: int64
  ds_Currency :: string

definition DashboardSummary :: "reseller_env \<Rightarrow> string \<Rightarrow> resellers \<Rightarrow> reseller_error + dashboard_summary" where
  "DashboardSummary e tenantID s =
     fst (re_tx e
       (tx_bind (re_call e ''count customers'' (tx_read (\<lambda>d. Inr (CountActiveCustomersByTenant (re_scope e) tenantID d)))) (\<lambda>customers.
        tx_bind (re_call e ''count subscriptions'' (tx_read (\<lambda>d. Inr (CountActiveSubscriptionsByTenant (re_scope e) tenantID d)))) (\<lambda>subs.
        tx_bind (re_call e ''sum pending'' (tx_read (SumPendingCommissionByTenant (re_scope e) tenantID))) (\<lambda>(pending, currency).
        tx_return \<lparr>ds_ActiveCustomers = customers, ds_ActiveSubscriptions = subs,
                   ds_PendingCommission = pending, ds_Currency = currency\<rparr>)))) s)"

section \<open>The service: shop bots\<close>

definition is_digit_char :: "char \<Rightarrow> bool" where
  "is_digit_char c \<longleftrightarrow> CHR ''0'' \<le> c \<and> c \<le> CHR ''9''"

definition is_token_char :: "char \<Rightarrow> bool" where
  "is_token_char c \<longleftrightarrow> is_digit_char c \<or> (CHR ''A'' \<le> c \<and> c \<le> CHR ''Z'') \<or> (CHR ''a'' \<le> c \<and> c \<le> CHR ''z'')
     \<or> c = CHR ''_'' \<or> c = CHR ''-''"

text \<open>\<open>^\d+:[A-Za-z0-9_-]{35,}$\<close>; a colon is no digit, so the digits end at the first one.\<close>

definition botTokenRe :: "string \<Rightarrow> bool" where
  "botTokenRe s \<longleftrightarrow>
     takeWhile is_digit_char s \<noteq> [] \<and>
     (case dropWhile is_digit_char s of
        [] \<Rightarrow> False
      | c # suffix \<Rightarrow> c = CHR '':'' \<and> 35 \<le> length suffix \<and> list_all is_token_char suffix)"

definition cabinetURLPrefix :: string where "cabinetURLPrefix = ''https://''"

definition HasPrefix :: "string \<Rightarrow> string \<Rightarrow> bool" where
  "HasPrefix s p \<longleftrightarrow> take (length p) s = p"

record set_shop_bot_input =
  bi_BotToken :: string
  bi_CabinetURL :: string
  bi_Enabled :: bool
  bi_BotPlugin :: string

definition generateWebhookSecret :: "byte list option \<Rightarrow> reseller_error + string" where
  "generateWebhookSecret rand =
     (case rand of None \<Rightarrow> Inl (ErrResellerStorage ''generating webhook secret'') | Some b \<Rightarrow> Inr (hex_encode b))"

definition SetShopBot :: "reseller_env \<Rightarrow> string \<Rightarrow> set_shop_bot_input \<Rightarrow> resellers \<Rightarrow> (reseller_error + unit) \<times> resellers" where
  "SetShopBot e tenantID i s =
     (if \<not> HasPrefix (bi_CabinetURL i) cabinetURLPrefix then (Inl ErrShopBotInvalidCabinetURL, s)
      else case (if bi_BotPlugin i = [] then Inr True else re_IsValidBotPlugin e (bi_BotPlugin i)) of
        Inl er \<Rightarrow> (Inl er, s)
      | Inr False \<Rightarrow> (Inl ErrShopBotInvalidPlugin, s)
      | Inr True \<Rightarrow>
          if bi_BotToken i \<noteq> [] then
            (if \<not> botTokenRe (bi_BotToken i) then (Inl ErrShopBotInvalidToken, s)
             else case generateWebhookSecret (re_rand e) of
               Inl er \<Rightarrow> (Inl er, s)
             | Inr webhookSecret \<Rightarrow>
                 re_tx e (re_call e ''upsert shop bot'' (tx_write (bot_Upsert (re_box e) (re_scope e) tenantID
                   \<lparr>bt_Token = bi_BotToken i, bt_WebhookSecret = webhookSecret, bt_CabinetURL = bi_CabinetURL i,
                    bt_BotUsername = [], bt_Enabled = bi_Enabled i, bt_BotPluginSlug = bi_BotPlugin i\<rparr>))) s)
          else
            re_tx e (\<lambda>d.
              case re_call e ''get shop bot'' (tx_read (bot_GetByTenant (re_box e) (re_scope e) tenantID)) d of
                Inl er \<Rightarrow> Inl (if er = ErrShopBotNotFound then ErrShopBotInvalidToken else er)
              | Inr (existing, d') \<Rightarrow>
                  re_call e ''upsert shop bot'' (tx_write (bot_Upsert (re_box e) (re_scope e) tenantID
                    \<lparr>bt_Token = bt_Token existing, bt_WebhookSecret = bt_WebhookSecret existing,
                     bt_CabinetURL = bi_CabinetURL i, bt_BotUsername = [], bt_Enabled = bi_Enabled i,
                     bt_BotPluginSlug = bi_BotPlugin i\<rparr>)) d') s)"

definition GetShopBot :: "reseller_env \<Rightarrow> string \<Rightarrow> resellers \<Rightarrow> reseller_error + shop_bot_config" where
  "GetShopBot e tenantID s =
     fst (re_tx e (re_call e ''get shop bot'' (tx_read (bot_GetByTenant (re_box e) (re_scope e) tenantID))) s)"

definition ListEnabledShopBots :: "reseller_env \<Rightarrow> resellers \<Rightarrow> reseller_error + (string \<times> shop_bot_config) list" where
  "ListEnabledShopBots e s =
     fst (re_tx e (re_call e ''list shop bots'' (tx_read (bot_ListEnabled (re_box e) PlatformScopeSentinel))) s)"

section \<open>The bot endpoints (reseller_handler.go)\<close>

record get_bot_response =
  gb_Enabled :: bool
  gb_CabinetURL :: string
  gb_BotUsername :: string
  gb_HasToken :: bool
  gb_BotPlugin :: string

text \<open>A configuration that does not exist is answered by the empty one.\<close>

definition respondBotConfig :: "reseller_env \<Rightarrow> string \<Rightarrow> resellers \<Rightarrow> reseller_error + get_bot_response" where
  "respondBotConfig e tenantID s =
     (case GetShopBot e tenantID s of
        Inl er \<Rightarrow>
          (if er = ErrShopBotNotFound
           then Inr \<lparr>gb_Enabled = False, gb_CabinetURL = [], gb_BotUsername = [], gb_HasToken = False, gb_BotPlugin = []\<rparr>
           else Inl er)
      | Inr cfg \<Rightarrow>
          Inr \<lparr>gb_Enabled = bt_Enabled cfg, gb_CabinetURL = bt_CabinetURL cfg, gb_BotUsername = bt_BotUsername cfg,
               gb_HasToken = (bt_Token cfg \<noteq> []), gb_BotPlugin = bt_BotPluginSlug cfg\<rparr>)"

section \<open>The tenant of a request (gateway/middleware/tenant.go)\<close>

fun after_scheme :: "string \<Rightarrow> string option" where
  "after_scheme [] = None"
| "after_scheme (c # cs) = (if take 3 (c # cs) = ''://'' then Some (drop 3 (c # cs)) else after_scheme cs)"

definition strip_port :: "string \<Rightarrow> string" where
  "strip_port h = takeWhile (\<lambda>c. c \<noteq> CHR '':'') h"

definition extractDomain :: "string \<Rightarrow> string \<Rightarrow> string" where
  "extractDomain origin host =
     (if origin \<noteq> [] then strip_port (case after_scheme origin of None \<Rightarrow> origin | Some o' \<Rightarrow> o')
      else if host = [] then [] else strip_port host)"

text \<open>
  \<open>Inl\<close> is the 401 of an invalid key, whatever the service answered; otherwise the request goes on,
  with the tenant in its context if one was found.
\<close>

definition TenantResolver ::
    "reseller_env \<Rightarrow> string \<Rightarrow> string \<Rightarrow> string \<Rightarrow> resellers \<Rightarrow> nat + tenant option" where
  "TenantResolver e apiKey origin host s =
     (if apiKey \<noteq> [] then
        (case ValidateAPIKey e apiKey s of Inl _ \<Rightarrow> Inl 401 | Inr t \<Rightarrow> Inr (Some t))
      else
        (let domain = extractDomain origin host in
         if domain = [] then Inr None
         else case GetTenantByDomain e domain s of
           Inl _ \<Rightarrow> Inr None
         | Inr t \<Rightarrow> Inr (if tn_IsActive t then Some t else None)))"

section \<open>Commissions honour the repository contract\<close>

text \<open>An update restricted to the visible rows is an update of the table of visible rows.\<close>

lemma scoped_update:
  assumes "\<And>r. P (f r) = P r"
  shows "filter P (map (\<lambda>r. if P r \<and> key r = k then f r else r) t) = update_by key k f (filter P t)"
  using assms by (induction t) (auto simp: update_by_def)

lemma scoped_absent:
  "select_by key k (filter P t) = None \<Longrightarrow> map (\<lambda>r. if P r \<and> key r = k then f r else r) t = t"
  by (intro map_idI) (auto simp: select_by_None)

definition resellers_wf :: "resellers \<Rightarrow> bool" where
  "resellers_wf s \<longleftrightarrow> distinct (map cr_id (rd_commissions s))"

definition cm_stored :: "commission \<Rightarrow> commission" where
  "cm_stored c = c\<lparr>rec_events := [], rec_flushed := False\<rparr>"

definition cm_merge :: "commission \<Rightarrow> commission \<Rightarrow> commission" where
  "cm_merge old c = old\<lparr>rec_events := [], rec_flushed := False, cm_Status := cm_Status c, cm_PaidAt := cm_PaidAt c\<rparr>"

lemma commission_row_fields [simp]:
  "cr_id (commission_to_row t c) = cm_ID c" "cr_reseller_id (commission_to_row t c) = cm_ResellerID c"
  "cr_amount (commission_to_row t c) = cm_Amount c" "cr_tenant_id (commission_to_row t c) = t"
  "cr_status (commission_to_row t c) = cm_Status c"
  "cm_ID (commissionRowToDomain r) = cr_id r" "cm_Status (commissionRowToDomain r) = cr_status r"
  "rec_events (commissionRowToDomain r) = []"
  by (simp_all add: commission_to_row_def commissionRowToDomain_def)

lemma commission_roundtrips:
  "commissionRowToDomain (commission_to_row t c) = cm_stored c"
  "commissionRowToDomain (r\<lparr>cr_status := cm_Status c, cr_paid_at := cm_PaidAt c\<rparr>) = cm_merge (commissionRowToDomain r) c"
  by (simp_all add: commissionRowToDomain_def commission_to_row_def cm_stored_def cm_merge_def)

lemma CreateCommission_ok:
  "CreateCommission guc c s = Inr s' \<Longrightarrow>
     \<exists>t. rls_stamp guc = Some t \<and> s' = s\<lparr>rd_commissions := rd_commissions s @ [commission_to_row t c]\<rparr>
       \<and> cm_ID c \<notin> cr_id ` set (rd_commissions s) \<and> cm_ResellerID c \<in> ar_id ` set (rd_accounts s)"
  by (auto simp: CreateCommission_def insert_unique_def split: option.splits if_splits)

lemma commission_rows_update:
  "commission_rows guc (UpdateCommission guc c s) =
     update_by cr_id (cm_ID c) (\<lambda>r. r\<lparr>cr_status := cm_Status c, cr_paid_at := cm_PaidAt c\<rparr>) (commission_rows guc s)"
  unfolding commission_rows_def UpdateCommission_def by (simp add: scoped_update)

lemma commission_rows_Create:
  "CreateCommission guc c s = Inr s' \<Longrightarrow>
     \<exists>t. commission_rows guc s' = commission_rows guc s @ [commission_to_row t c]
       \<and> cm_ID c \<notin> cr_id ` set (commission_rows guc s)"
  by (drule CreateCommission_ok) (auto simp: commission_rows_def rls_stamp_visible)

lemma UpdateCommission_ids: "map cr_id (rd_commissions (UpdateCommission guc c s)) = map cr_id (rd_commissions s)"
  by (auto simp: UpdateCommission_def)

interpretation commission_repo: repository resellers_wf "GetCommissionByID guc" "CreateCommission guc"
    "\<lambda>c s. UpdateCommission guc c s" cm_ID cm_stored cm_merge
  for guc
proof
  fix k s a s' old e
  show "GetCommissionByID guc k s = Inr a \<Longrightarrow> cm_ID a = k"
    by (auto simp: GetCommissionByID_def dest: select_by_Some)
  show "resellers_wf s \<Longrightarrow> CreateCommission guc a s = Inr s' \<Longrightarrow> resellers_wf s'"
    by (auto simp: resellers_wf_def dest!: CreateCommission_ok)
  show "resellers_wf s \<Longrightarrow> resellers_wf (UpdateCommission guc a s)"
    by (simp add: resellers_wf_def UpdateCommission_ids)
  show "CreateCommission guc a s = Inr s' \<Longrightarrow> GetCommissionByID guc (cm_ID a) s' = Inr (cm_stored a)"
    by (fastforce simp: GetCommissionByID_def select_by_append select_by_Cons commission_roundtrips image_iff
        dest!: commission_rows_Create split: option.splits dest!: select_by_Some)
  show "CreateCommission guc a s = Inr s' \<Longrightarrow> k \<noteq> cm_ID a \<Longrightarrow> GetCommissionByID guc k s' = GetCommissionByID guc k s"
    by (auto simp: GetCommissionByID_def select_by_append select_by_Cons dest!: commission_rows_Create split: option.splits)
  show "GetCommissionByID guc (cm_ID a) s = Inr old \<Longrightarrow>
      GetCommissionByID guc (cm_ID a) (UpdateCommission guc a s) = Inr (cm_merge old a)"
    by (auto simp: GetCommissionByID_def commission_rows_update select_update commission_roundtrips)
  show "k \<noteq> cm_ID a \<Longrightarrow> GetCommissionByID guc k (UpdateCommission guc a s) = GetCommissionByID guc k s"
    by (simp add: GetCommissionByID_def commission_rows_update select_update)
  assume "GetCommissionByID guc (cm_ID a) s = Inl e"
  then have "select_by cr_id (cm_ID a) (commission_rows guc s) = None"
    by (cases "select_by cr_id (cm_ID a) (commission_rows guc s)") (auto simp: GetCommissionByID_def)
  then show "UpdateCommission guc a s = s"
    by (simp add: commission_rows_def UpdateCommission_def scoped_absent)
qed

end
