(* ===== verification/ResellerSpec.thy ===== *)
theory ResellerSpec
  imports ResellerService
begin

text \<open>
  What the reseller context promises: the amount of a commission, the balance of an account against
  its commissions through any history of the service, one payment per commission, one token per bot,
  and what the scope of a request hides.
\<close>

section \<open>Histories of the service\<close>

datatype reseller_op =
    OpCreateTenant string string "string option"
  | OpSetOwner string string
  | OpBranding string branding_config
  | OpCreateAccount string string int64
  | OpRecord string string int64 int64 string
  | OpMarkPaid string
  | OpSetBot string set_shop_bot_input

fun reseller_step :: "reseller_env \<Rightarrow> reseller_op \<Rightarrow> resellers \<Rightarrow> resellers" where
  "reseller_step e (OpCreateTenant n d ow) s = snd (re_CreateTenant e n d ow s)"
| "reseller_step e (OpSetOwner t u) s = snd (SetTenantOwner e t u s)"
| "reseller_step e (OpBranding t b) s = snd (UpdateBranding e t b s)"
| "reseller_step e (OpCreateAccount t u r) s = snd (CreateResellerAccount e t u r s)"
| "reseller_step e (OpRecord rid sale amount rate cur) s = snd (RecordCommission e rid sale amount rate cur s)"
| "reseller_step e (OpMarkPaid c) s = snd (MarkCommissionPaid e c s)"
| "reseller_step e (OpSetBot t i) s = snd (SetShopBot e t i s)"

fun reseller_history :: "(reseller_env \<times> reseller_op) list \<Rightarrow> resellers \<Rightarrow> resellers" where
  "reseller_history [] s = s"
| "reseller_history ((e, x) # xs) s = reseller_history xs (reseller_step e x s)"

lemma history_keeps:
  assumes "\<And>e x s. P e \<Longrightarrow> I s \<Longrightarrow> I (reseller_step e x s)"
  shows "list_all (\<lambda>(e, x). P e) xs \<Longrightarrow> I s \<Longrightarrow> I (reseller_history xs s)"
  by (induction xs arbitrary: s) (auto simp: assms)

section \<open>What an operation leaves alone\<close>

text \<open>A body that changes neither of two projections of the state, and keeps the outbox as a prefix.\<close>

lemma re_publish_ok:
  assumes "re_publish e src s = Inr (src', s')"
  shows "s' = s\<lparr>rd_outbox := rd_outbox s @ map (with_trace (env_trace e)) (rec_events src)\<rparr>"
proof (cases "rec_events src = []")
  case True
  then show ?thesis using PublishAll_ok [OF assms [unfolded re_publish_def]] by simp
next
  case False
  then show ?thesis using PublishAll_ok [OF assms [unfolded re_publish_def]]
    by (auto simp: PublishBatch_def split: if_splits)
qed

lemma CreateTenantRow_ok:
  "CreateTenantRow t s = Inr s' \<Longrightarrow> \<exists>ts. s' = s\<lparr>rd_tenants := ts\<rparr> \<and> ts = rd_tenants s @ [tenant_to_row t]"
  by (auto simp: CreateTenantRow_def Let_def dest: insert_unique_set split: if_splits)

lemma UpdateTenant_ok: "UpdateTenant now t s = Inr s' \<Longrightarrow> \<exists>ts. s' = s\<lparr>rd_tenants := ts\<rparr>"
  by (auto simp: UpdateTenant_def Let_def split: if_splits)

lemma CreateAccountRow_ok:
  "CreateResellerAccountRow guc a s = Inr s' \<Longrightarrow>
     \<exists>r. s' = s\<lparr>rd_accounts := rd_accounts s @ [r]\<rparr> \<and> ar_id r = ra_ID a \<and> ar_balance r = ra_Balance a
       \<and> ra_ID a \<notin> ar_id ` set (rd_accounts s)"
  by (auto simp: CreateResellerAccountRow_def Let_def insert_unique_def split: if_splits)

lemma Upsert_ok: "bot_Upsert box guc t cfg s = Inr s' \<Longrightarrow> \<exists>bs. s' = s\<lparr>rd_shop_bots := bs\<rparr>"
  by (auto simp: bot_Upsert_def Let_def split: option.splits if_splits)

text \<open>The new state of each operation in terms of the old one.\<close>

lemma CreateTenant_state:
  "\<exists>ts es. snd (re_CreateTenant e n d ow s) = s\<lparr>rd_tenants := ts, rd_outbox := rd_outbox s @ es\<rparr>
     \<and> list_all (\<lambda>v. case ev_Data v of TenantCreated _ _ \<Rightarrow> True | _ \<Rightarrow> False) es"
proof -
  let ?P = "\<lambda>s'. \<exists>ts es. s' = s\<lparr>rd_tenants := ts, rd_outbox := rd_outbox s @ es\<rparr>
     \<and> list_all (\<lambda>v. case ev_Data v of TenantCreated _ _ \<Rightarrow> True | _ \<Rightarrow> False) es"
  have keep: "?P s" by (intro exI [of _ "rd_tenants s"] exI [of _ "[]"]) simp
  show ?thesis
  proof (cases "GenerateAPIKey (re_sha256 e) (re_rand e) (env_now e)
      (NewTenant (env_uuid e 0) (env_uuid e 1) n d ow (env_now e))")
    case (Inl er)
    then show ?thesis using keep by (simp add: re_CreateTenant_def)
  next
    case (Inr kt)
    obtain key t where kt: "kt = (key, t)" by (cases kt)
    have ev: "rec_events t = [NewTyped reseller_event_type (env_uuid e 1)
        (TenantCreated (env_uuid e 0) ow) (env_now e) (env_uuid e 0)]"
      using Inr kt by (auto simp: GenerateAPIKey_def NewTenant_def RecordEvent_def Let_def split: option.splits)
    show ?thesis
      unfolding re_CreateTenant_def Inr kt sum.case prod.case
      by (rule RunInTx_keeps, rule keep) (fastforce dest: CreateTenantRow_ok re_publish_ok simp: ev)
  qed
qed

lemma SetOwner_state: "\<exists>ts. snd (SetTenantOwner e t u s) = s\<lparr>rd_tenants := ts\<rparr>"
  unfolding SetTenantOwner_def
  by (rule RunInTx_keeps, rule exI [of _ "rd_tenants s"]) (auto simp: SetTenantOwnerUserID_def Let_def)

lemma Branding_state:
  "\<exists>ts es. snd (UpdateBranding e t b s) = s\<lparr>rd_tenants := ts, rd_outbox := rd_outbox s @ es\<rparr>
     \<and> list_all (\<lambda>v. case ev_Data v of TenantUpdated _ \<Rightarrow> True | _ \<Rightarrow> False) es"
  unfolding UpdateBranding_def
  apply (rule RunInTx_keeps)
   apply (intro exI [of _ "rd_tenants s"] exI [of _ "[]"], simp)
  apply (auto simp: Let_def GetTenantByIDForUpdate_def dest!: UpdateTenant_ok re_publish_ok)
  apply (auto simp: SetBranding_def tenantRowToDomain_def intro!: exI)
  done

lemma CreateAccount_state:
  "snd (CreateResellerAccount e t u rate s) = s \<or>
   (\<exists>r es. snd (CreateResellerAccount e t u rate s) = s\<lparr>rd_accounts := rd_accounts s @ [r], rd_outbox := rd_outbox s @ es\<rparr>
     \<and> ar_id r \<notin> ar_id ` set (rd_accounts s) \<and> ar_balance r = 0
     \<and> list_all (\<lambda>v. case ev_Data v of ResellerCreated _ _ _ \<Rightarrow> True | _ \<Rightarrow> False) es)"
proof (cases "NewResellerAccount (env_uuid e 0) (env_uuid e 1) t u rate (env_now e)")
  case (Inl er)
  then show ?thesis by (simp add: CreateResellerAccount_def)
next
  case (Inr a)
  have a: "ra_Balance a = 0" "rec_events a = [NewTyped reseller_event_type (env_uuid e 1)
      (ResellerCreated (env_uuid e 0) t u) (env_now e) (env_uuid e 0)]"
    using Inr by (auto simp: NewResellerAccount_def RecordEvent_def split: if_splits)
  show ?thesis
    unfolding CreateResellerAccount_def Inr sum.case
    by (rule RunInTx_keeps) (auto simp: a dest!: CreateAccountRow_ok re_publish_ok, fastforce)
qed

lemma SetBot_state: "\<exists>bs. snd (SetShopBot e t i s) = s\<lparr>rd_shop_bots := bs\<rparr>"
proof -
  let ?P = "\<lambda>s'. \<exists>bs. s' = s\<lparr>rd_shop_bots := bs\<rparr>"
  have keep: "?P s" by (rule exI [of _ "rd_shop_bots s"]) simp
  have "?P (snd (re_tx e (re_call e l (tx_write (bot_Upsert b g tn cfg))) s))" for l b g tn cfg
    by (rule RunInTx_keeps, rule keep) (auto dest: Upsert_ok)
  moreover have "?P (snd (re_tx e (\<lambda>d. case re_call e l (tx_read (bot_GetByTenant b g tn)) d of
      Inl er \<Rightarrow> Inl (h er) | Inr (x, d') \<Rightarrow> re_call e l' (tx_write (bot_Upsert b g tn (cfg x))) d') s))" for l b g tn h l' cfg
    by (rule RunInTx_keeps, rule keep) (auto split: sum.splits dest: Upsert_ok)
  ultimately show ?thesis
    using keep unfolding SetShopBot_def generateWebhookSecret_def
    by (simp split: sum.split bool.split option.split)
qed

lemma NewCommission_fields:
  "NewCommission cid eid rid sale amount rate cur now = Inr c \<Longrightarrow>
     cm_ID c = cid \<and> cm_ResellerID c = rid \<and> cm_SaleID c = sale \<and> cm_Currency c = cur \<and> cm_Status c = CommissionPending
     \<and> cm_CreatedAt c = now \<and> cm_PaidAt c = None
     \<and> safeCommissionAmount amount rate = Inr (cm_Amount c)
     \<and> rec_events c = [NewTyped reseller_event_type eid (CommissionCreated cid rid (cm_Amount c)) now cid]"
  by (auto simp: NewCommission_def RecordEvent_def)

text \<open>A recording that succeeds: one row, one balance, and perhaps one event.\<close>

lemma Record_state:
  "snd (RecordCommission e rid sale amount rate cur s) = s \<or>
   (\<exists>c t a es. NewCommission (env_uuid e 0) (env_uuid e 1) rid sale amount rate cur (env_now e) = Inr c
     \<and> rls_stamp (re_scope e) = Some t \<and> cm_ID c \<notin> cr_id ` set (rd_commissions s)
     \<and> a \<in> set (rd_accounts s) \<and> ar_id a = rid \<and> rls_visible (re_scope e) (Some (ar_tenant_id a))
     \<and> select_by ar_id rid (account_rows (re_scope e) s) = Some a
     \<and> list_all (\<lambda>v. case ev_Data v of CommissionCreated _ _ _ \<Rightarrow> True | _ \<Rightarrow> False) es
     \<and> snd (RecordCommission e rid sale amount rate cur s) =
         (UpdateResellerBalance (re_scope e) rid (ar_balance a + cm_Amount c)
            (s\<lparr>rd_commissions := rd_commissions s @ [commission_to_row t c], rd_outbox := rd_outbox s @ es\<rparr>)))"
proof (cases "NewCommission (env_uuid e 0) (env_uuid e 1) rid sale amount rate cur (env_now e)")
  case (Inl er)
  then show ?thesis by (simp add: RecordCommission_def)
next
  case (Inr c)
  obtain r s' where tx: "re_tx e (record_body e c rid) s = (r, s')" by fastforce
  show ?thesis
  proof (cases r)
    case (Inl er)
    with tx RunInTx_error [of _ e "record_body e c rid" s er s'] Inr show ?thesis
      by (simp add: RecordCommission_def)
  next
    case (Inr u)
    then have ok: "record_body e c rid s = Inr (u, s')" using tx by (simp add: RunInTx_ok_iff)
    then obtain s1 a where s1: "CreateCommission (re_scope e) c s = Inr s1"
      and a: "select_by ar_id rid (account_rows (re_scope e) s1) = Some a"
      and s': "s' = UpdateResellerBalance (re_scope e) rid (ar_balance a + cm_Amount c) s1"
      by (auto simp: record_body_def GetResellerAccountByID_def resellerAccountRowToDomain_def)
    from CreateCommission_ok [OF s1] obtain t where t: "rls_stamp (re_scope e) = Some t"
      and s1': "s1 = s\<lparr>rd_commissions := rd_commissions s @ [commission_to_row t c]\<rparr>"
      and new: "cm_ID c \<notin> cr_id ` set (rd_commissions s)" by blast
    have rows: "account_rows (re_scope e) s1 = account_rows (re_scope e) s"
      by (simp add: s1' account_rows_def)
    have vis: "a \<in> set (rd_accounts s)" "ar_id a = rid" "rls_visible (re_scope e) (Some (ar_tenant_id a))"
      using select_by_Some [OF a] by (auto simp: s1' account_rows_def)
    have pub: "snd (RecordCommission e rid sale amount rate cur s) =
        (case re_publish e c s' of Inl _ \<Rightarrow> s' | Inr (_, s'') \<Rightarrow> s'')"
      using \<open>NewCommission _ _ _ _ _ _ _ _ = Inr c\<close> tx Inr
      by (auto simp: RecordCommission_def split: sum.split)
    have "\<exists>es. (es = [] \<or> es = map (with_trace (env_trace e)) (rec_events c))
        \<and> snd (RecordCommission e rid sale amount rate cur s) = s'\<lparr>rd_outbox := rd_outbox s' @ es\<rparr>"
    proof (cases "re_publish e c s'")
      case (Inl er)
      then show ?thesis using pub by (intro exI [of _ "[]"]) simp
    next
      case (Inr p)
      obtain c' s'' where p: "p = (c', s'')" by (cases p)
      show ?thesis using pub re_publish_ok [of e c s' c' s''] Inr p by auto
    qed
    then obtain es where es: "es = [] \<or> es = map (with_trace (env_trace e)) (rec_events c)"
      "snd (RecordCommission e rid sale amount rate cur s) = s'\<lparr>rd_outbox := rd_outbox s' @ es\<rparr>" by blast
    have "s'\<lparr>rd_outbox := rd_outbox s' @ es\<rparr> = UpdateResellerBalance (re_scope e) rid (ar_balance a + cm_Amount c)
        (s\<lparr>rd_commissions := rd_commissions s @ [commission_to_row t c], rd_outbox := rd_outbox s @ es\<rparr>)"
      by (simp add: s' s1' UpdateResellerBalance_def)
    moreover have "list_all (\<lambda>v. case ev_Data v of CommissionCreated _ _ _ \<Rightarrow> True | _ \<Rightarrow> False) es"
      using es(1) NewCommission_fields [OF \<open>NewCommission _ _ _ _ _ _ _ _ = Inr c\<close>] by (elim disjE conjE) simp_all
    ultimately show ?thesis
      using es(2) t new vis a rows \<open>NewCommission _ _ _ _ _ _ _ _ = Inr c\<close> by auto
  qed
qed

lemma MarkPaid_state:
  "snd (MarkCommissionPaid e cid s) = s \<or>
   (\<exists>c c'. GetCommissionByID (re_scope e) cid s = Inr c \<and> cm_MarkPaid (env_uuid e 0) (env_now e) c = Inr c'
     \<and> snd (MarkCommissionPaid e cid s) =
         (UpdateCommission (re_scope e) c' s)
           \<lparr>rd_outbox := rd_outbox s @ map (with_trace (env_trace e)) (rec_events c')\<rparr>)"
  unfolding MarkCommissionPaid_def
  by (rule RunInTx_keeps)
     (auto simp: GetCommissionByIDForUpdate_def GetCommissionByID_def UpdateCommission_def dest!: re_publish_ok)

lemmas reseller_states = CreateTenant_state SetOwner_state Branding_state CreateAccount_state SetBot_state
  Record_state MarkPaid_state

section \<open>Balances\<close>

definition commissions_of :: "string \<Rightarrow> commission_row list \<Rightarrow> int64" where
  "commissions_of rid rs = sum_list (map cr_amount (filter (\<lambda>r. cr_reseller_id r = rid) rs))"

text \<open>Account by account, the balance is the sum of the commissions recorded for it (both wrap).\<close>

definition balances_ok :: "resellers \<Rightarrow> bool" where
  "balances_ok s \<longleftrightarrow>
     distinct (map ar_id (rd_accounts s)) \<and>
     list_all (\<lambda>r. cr_reseller_id r \<in> ar_id ` set (rd_accounts s)) (rd_commissions s) \<and>
     list_all (\<lambda>a. ar_balance a = commissions_of (ar_id a) (rd_commissions s)) (rd_accounts s)"

lemma commissions_of_simps [simp]:
  "commissions_of rid [] = 0"
  "commissions_of rid (rs @ [r]) = commissions_of rid rs + (if cr_reseller_id r = rid then cr_amount r else 0)"
  by (simp_all add: commissions_of_def)

lemma commissions_of_other: "rid \<notin> cr_reseller_id ` set rs \<Longrightarrow> commissions_of rid rs = 0"
  by (induction rs) (auto simp: commissions_of_def)

lemma commissions_of_map:
  "(\<And>r. cr_reseller_id (f r) = cr_reseller_id r \<and> cr_amount (f r) = cr_amount r) \<Longrightarrow>
     commissions_of rid (map f rs) = commissions_of rid rs"
  by (simp add: commissions_of_def filter_map o_def)

lemma balances_Record:
  assumes ok: "balances_ok s" and a: "a \<in> set (rd_accounts s)" "rls_visible guc (Some (ar_tenant_id a))"
    and r: "cr_reseller_id r = ar_id a"
  shows "balances_ok (UpdateResellerBalance guc (ar_id a) (ar_balance a + cr_amount r)
           (s\<lparr>rd_commissions := rd_commissions s @ [r], rd_outbox := ob\<rparr>))"
proof -
  let ?f = "\<lambda>x. if rls_visible guc (Some (ar_tenant_id x)) \<and> ar_id x = ar_id a
                then x\<lparr>ar_balance := ar_balance a + cr_amount r\<rparr> else x"
  have ids: "map ar_id (map ?f t) = map ar_id t" for t by (induction t) auto
  have set_ids: "ar_id ` set (map ?f t) = ar_id ` set t" for t by (metis ids list.set_map)
  have d: "distinct (map ar_id (rd_accounts s))" using ok by (simp add: balances_ok_def)
  have bal: "ar_balance (?f x) = commissions_of (ar_id (?f x)) (rd_commissions s @ [r])"
    if x: "x \<in> set (rd_accounts s)" for x
  proof (cases "ar_id x = ar_id a")
    case True
    then have "x = a" using d x a(1) by (metis distinct_map inj_on_def)
    then show ?thesis using ok a r by (auto simp: balances_ok_def list_all_iff)
  next
    case False
    then show ?thesis using ok x r by (auto simp: balances_ok_def list_all_iff)
  qed
  have refs: "list_all (\<lambda>q. cr_reseller_id q \<in> ar_id ` set (map ?f (rd_accounts s))) (rd_commissions s @ [r])"
    unfolding set_ids using ok a(1) r by (simp add: balances_ok_def)
  have "list_all (\<lambda>x. ar_balance x = commissions_of (ar_id x) (rd_commissions s @ [r])) (map ?f (rd_accounts s))"
    unfolding list_all_iff set_map using bal by blast
  with refs ids [of "rd_accounts s"] d show ?thesis
    by (simp add: balances_ok_def UpdateResellerBalance_def del: map_map list_all_append)
qed

lemma balances_frame:
  "rd_accounts s' = rd_accounts s \<Longrightarrow> rd_commissions s' = rd_commissions s \<Longrightarrow> balances_ok s \<Longrightarrow> balances_ok s'"
  by (simp add: balances_ok_def)

lemma balances_CreateAccount:
  "balances_ok s \<Longrightarrow> ar_id r \<notin> ar_id ` set (rd_accounts s) \<Longrightarrow> ar_balance r = 0 \<Longrightarrow>
     balances_ok (s\<lparr>rd_accounts := rd_accounts s @ [r], rd_outbox := ob\<rparr>)"
  using commissions_of_other [of "ar_id r" "rd_commissions s"]
  by (fastforce simp: balances_ok_def list_all_iff)

lemma balances_MarkPaid:
  "balances_ok s \<Longrightarrow> balances_ok ((UpdateCommission guc c s)\<lparr>rd_outbox := ob\<rparr>)"
  by (auto simp: balances_ok_def UpdateCommission_def list_all_iff commissions_of_map)

lemma balances_step: "balances_ok s \<Longrightarrow> balances_ok (reseller_step e x s)"
proof (cases x)
  case (OpRecord rid sale amount rate cur)
  assume ok: "balances_ok s"
  show ?thesis
  proof (rule disjE [OF Record_state [of e rid sale amount rate cur s]], goal_cases)
    case 1
    then show ?case using ok OpRecord by simp
  next
    case 2
    then obtain c t a es where
      c: "NewCommission (env_uuid e 0) (env_uuid e 1) rid sale amount rate cur (env_now e) = Inr c"
      and a: "a \<in> set (rd_accounts s)" "ar_id a = rid" "rls_visible (re_scope e) (Some (ar_tenant_id a))"
      and s': "snd (RecordCommission e rid sale amount rate cur s) =
         (UpdateResellerBalance (re_scope e) rid (ar_balance a + cm_Amount c)
            (s\<lparr>rd_commissions := rd_commissions s @ [commission_to_row t c], rd_outbox := rd_outbox s @ es\<rparr>))"
      by blast
    show ?case
      using balances_Record [OF ok a(1,3), of "commission_to_row t c"] NewCommission_fields [OF c] a(2) s' OpRecord
      by simp
  qed
next
  case (OpCreateTenant n d ow)
  then show "balances_ok s \<Longrightarrow> ?thesis" using CreateTenant_state [of e n d ow s] by (auto intro: balances_frame)
next
  case (OpSetOwner t u)
  then show "balances_ok s \<Longrightarrow> ?thesis" using SetOwner_state [of e t u s] by (auto intro: balances_frame)
next
  case (OpBranding t b)
  then show "balances_ok s \<Longrightarrow> ?thesis" using Branding_state [of e t b s] by (auto intro: balances_frame)
next
  case (OpCreateAccount t u rate)
  then show "balances_ok s \<Longrightarrow> ?thesis"
    using CreateAccount_state [of e t u rate s] by (auto simp: balances_CreateAccount)
next
  case (OpMarkPaid c)
  then show "balances_ok s \<Longrightarrow> ?thesis"
    using MarkPaid_state [of e c s] by (auto simp: balances_MarkPaid)
next
  case (OpSetBot t i)
  then show "balances_ok s \<Longrightarrow> ?thesis" using SetBot_state [of e t i s] by (auto intro: balances_frame)
qed

section \<open>Payments\<close>

definition paid_out :: "reseller_payload event \<Rightarrow> (string \<times> string \<times> int64) option" where
  "paid_out v = (case ev_Data v of CommissionPaidOut i rid a \<Rightarrow> Some (i, rid, a) | _ \<Rightarrow> None)"

definition paid_events :: "resellers \<Rightarrow> (string \<times> string \<times> int64) list" where
  "paid_events s = List.map_filter paid_out (rd_outbox s)"

definition commission_key :: "commission_row \<Rightarrow> string \<times> string \<times> int64" where
  "commission_key r = (cr_id r, cr_reseller_id r, cr_amount r)"

text \<open>The announced payments are the paid commissions, each once, with its account and amount.\<close>

definition payments_ok :: "resellers \<Rightarrow> bool" where
  "payments_ok s \<longleftrightarrow>
     distinct (map cr_id (rd_commissions s)) \<and> distinct (map fst (paid_events s)) \<and>
     set (paid_events s) = commission_key ` set (filter (\<lambda>r. cr_status r = CommissionPaid) (rd_commissions s))"

lemma map_filter_append: "List.map_filter f (xs @ ys) = List.map_filter f xs @ List.map_filter f ys"
  by (simp add: List.map_filter_def)

lemma map_filter_none: "list_all (\<lambda>v. paid_out v = None) es \<Longrightarrow> List.map_filter paid_out es = []"
  by (induction es) (simp_all add: List.map_filter_simps)

lemma payments_frame:
  "payments_ok s \<Longrightarrow> rd_commissions s' = rd_commissions s \<Longrightarrow> rd_outbox s' = rd_outbox s @ es \<Longrightarrow>
     list_all (\<lambda>v. paid_out v = None) es \<Longrightarrow> payments_ok s'"
  by (simp add: payments_ok_def paid_events_def map_filter_append map_filter_none)

lemma not_paid_out:
  "list_all (\<lambda>v. case ev_Data v of TenantCreated _ _ \<Rightarrow> True | _ \<Rightarrow> False) es \<Longrightarrow> list_all (\<lambda>v. paid_out v = None) es"
  "list_all (\<lambda>v. case ev_Data v of TenantUpdated _ \<Rightarrow> True | _ \<Rightarrow> False) es \<Longrightarrow> list_all (\<lambda>v. paid_out v = None) es"
  "list_all (\<lambda>v. case ev_Data v of ResellerCreated _ _ _ \<Rightarrow> True | _ \<Rightarrow> False) es \<Longrightarrow> list_all (\<lambda>v. paid_out v = None) es"
  "list_all (\<lambda>v. case ev_Data v of CommissionCreated _ _ _ \<Rightarrow> True | _ \<Rightarrow> False) es \<Longrightarrow> list_all (\<lambda>v. paid_out v = None) es"
  by (auto simp: list_all_iff paid_out_def split: reseller_payload.split dest!: bspec split: reseller_payload.splits)

lemma payments_Record:
  assumes ok: "payments_ok s" and new: "cr_id r \<notin> cr_id ` set (rd_commissions s)" "cr_status r = CommissionPending"
    and es: "list_all (\<lambda>v. paid_out v = None) es"
    and s': "rd_commissions s' = rd_commissions s @ [r]" "rd_outbox s' = rd_outbox s @ es"
  shows "payments_ok s'"
  using ok new es by (simp add: payments_ok_def paid_events_def s' map_filter_append map_filter_none)

lemma payments_MarkPaid:
  assumes ok: "payments_ok s" and r: "GetCommissionByID guc cid s = Inr c" and paid: "cm_MarkPaid eid now c = Inr c'"
    and s': "s' = (UpdateCommission guc c' s)\<lparr>rd_outbox := rd_outbox s @ map (with_trace tp) (rec_events c')\<rparr>"
  shows "payments_ok s'"
proof -
  note m = cm_MarkPaid_fields [OF paid]
  from r obtain q where q: "q \<in> set (rd_commissions s)" "rls_visible guc (cr_tenant_id q)" "cr_id q = cid"
    and c: "c = commissionRowToDomain q"
    by (auto simp: GetCommissionByID_def commission_rows_def dest!: select_by_Some)
  let ?f = "\<lambda>x. if rls_visible guc (cr_tenant_id x) \<and> cr_id x = cm_ID c'
                then x\<lparr>cr_status := cm_Status c', cr_paid_at := cm_PaidAt c'\<rparr> else x"
  have ids: "map cr_id (map ?f t) = map cr_id t" for t by (induction t) auto
  have d: "distinct (map cr_id (rd_commissions s))" using ok by (simp add: payments_ok_def)
  have pend: "cr_status q = CommissionPending" "cm_ID c' = cr_id q"
    using m c by (simp_all add: commissionRowToDomain_def)
  have only: "x = q" if "x \<in> set (rd_commissions s)" "cr_id x = cr_id q" for x
    using d that q(1) by (metis distinct_map inj_on_def)
  have key: "commission_key (?f x) = commission_key x" for x by (simp add: commission_key_def)
  have stat: "cr_status (?f x) = CommissionPaid \<longleftrightarrow> cr_status x = CommissionPaid \<or> x = q"
    if "x \<in> set (rd_commissions s)" for x
    using only [OF that] pend q(2) m(2) by auto
  have rows: "commission_key ` set (filter (\<lambda>r. cr_status r = CommissionPaid) (map ?f (rd_commissions s)))
      = insert (commission_key q) (commission_key ` set (filter (\<lambda>r. cr_status r = CommissionPaid) (rd_commissions s)))"
    (is "?L = ?R")
  proof
    show "?L \<subseteq> ?R" using stat key by (fastforce simp: image_iff simp del: if_image_distrib)
    show "?R \<subseteq> ?L"
    proof
      fix k assume "k \<in> ?R"
      then obtain x where x: "x \<in> set (rd_commissions s)" "k = commission_key x" "cr_status x = CommissionPaid \<or> x = q"
        using q(1) by auto
      then have "?f x \<in> set (filter (\<lambda>r. cr_status r = CommissionPaid) (map ?f (rd_commissions s)))"
        using stat [OF x(1)] by auto
      moreover have "k = commission_key (?f x)" using x(2) key [of x] by simp
      ultimately show "k \<in> ?L" by (rule rev_image_eqI)
    qed
  qed
  have ev: "paid_events s' = paid_events s @ [commission_key q]"
    using m c by (simp add: paid_events_def s' map_filter_append List.map_filter_simps paid_out_def commission_key_def
        commissionRowToDomain_def)
  have "fst (commission_key q) \<notin> fst ` set (paid_events s)"
  proof
    assume "fst (commission_key q) \<in> fst ` set (paid_events s)"
    then obtain x where "x \<in> set (rd_commissions s)" "cr_status x = CommissionPaid" "cr_id x = cr_id q"
      using ok by (auto simp: payments_ok_def commission_key_def)
    then have "x = q" using only by blast
    with pend \<open>cr_status x = CommissionPaid\<close> show False by simp
  qed
  then show ?thesis
    using ok rows ev ids [of "rd_commissions s"] unfolding payments_ok_def
    by (simp add: s' UpdateCommission_def del: map_map)
qed

lemma payments_step: "payments_ok s \<Longrightarrow> payments_ok (reseller_step e x s)"
proof (cases x)
  case (OpRecord rid sale amount rate cur)
  assume ok: "payments_ok s"
  show ?thesis
  proof (rule disjE [OF Record_state [of e rid sale amount rate cur s]], goal_cases)
    case 1
    then show ?case using ok OpRecord by simp
  next
    case 2
    then obtain c t a es where
      c: "NewCommission (env_uuid e 0) (env_uuid e 1) rid sale amount rate cur (env_now e) = Inr c"
      and a: "a \<in> set (rd_accounts s)"
      and new: "cm_ID c \<notin> cr_id ` set (rd_commissions s)"
      and es: "list_all (\<lambda>v. case ev_Data v of CommissionCreated _ _ _ \<Rightarrow> True | _ \<Rightarrow> False) es"
      and s': "snd (RecordCommission e rid sale amount rate cur s) =
         (UpdateResellerBalance (re_scope e) rid (ar_balance a + cm_Amount c)
            (s\<lparr>rd_commissions := rd_commissions s @ [commission_to_row t c], rd_outbox := rd_outbox s @ es\<rparr>))"
      by blast
    have st: "cm_Status c = CommissionPending" using NewCommission_fields [OF c] by simp
    show ?case
      by (intro payments_Record [OF ok, of "commission_to_row t c" es])
        (simp_all add: new st not_paid_out(4) [OF es] s' OpRecord UpdateResellerBalance_def)
  qed
next
  case (OpCreateTenant n d ow)
  obtain ts es where st: "snd (re_CreateTenant e n d ow s) = s\<lparr>rd_tenants := ts, rd_outbox := rd_outbox s @ es\<rparr>"
    and es: "list_all (\<lambda>v. case ev_Data v of TenantCreated _ _ \<Rightarrow> True | _ \<Rightarrow> False) es"
    using CreateTenant_state [of e n d ow s] by blast
  show "payments_ok s \<Longrightarrow> ?thesis"
    by (rule payments_frame [of s _ es]) (simp_all add: OpCreateTenant st not_paid_out(1) [OF es])
next
  case (OpSetOwner t u)
  obtain ts where st: "snd (SetTenantOwner e t u s) = s\<lparr>rd_tenants := ts\<rparr>"
    using SetOwner_state [of e t u s] by blast
  show "payments_ok s \<Longrightarrow> ?thesis"
    by (rule payments_frame [of s _ "[]"]) (simp_all add: OpSetOwner st)
next
  case (OpBranding t b)
  obtain ts es where st: "snd (UpdateBranding e t b s) = s\<lparr>rd_tenants := ts, rd_outbox := rd_outbox s @ es\<rparr>"
    and es: "list_all (\<lambda>v. case ev_Data v of TenantUpdated _ \<Rightarrow> True | _ \<Rightarrow> False) es"
    using Branding_state [of e t b s] by blast
  show "payments_ok s \<Longrightarrow> ?thesis"
    by (rule payments_frame [of s _ es]) (simp_all add: OpBranding st not_paid_out(2) [OF es])
next
  case (OpCreateAccount t u rate)
  assume ok: "payments_ok s"
  show ?thesis
  proof (rule disjE [OF CreateAccount_state [of e t u rate s]], goal_cases)
    case 1
    then show ?case using ok OpCreateAccount by simp
  next
    case 2
    then obtain r es where
      st: "snd (CreateResellerAccount e t u rate s) = s\<lparr>rd_accounts := rd_accounts s @ [r], rd_outbox := rd_outbox s @ es\<rparr>"
      and es: "list_all (\<lambda>v. case ev_Data v of ResellerCreated _ _ _ \<Rightarrow> True | _ \<Rightarrow> False) es"
      by blast
    show ?case
      by (rule payments_frame [OF ok, of _ es]) (simp_all add: OpCreateAccount st not_paid_out(3) [OF es])
  qed
next
  case (OpMarkPaid cid)
  assume ok: "payments_ok s"
  show ?thesis
  proof (rule disjE [OF MarkPaid_state [of e cid s]], goal_cases)
    case 1
    then show ?case using ok OpMarkPaid by simp
  next
    case 2
    then obtain c c' where "GetCommissionByID (re_scope e) cid s = Inr c"
      "cm_MarkPaid (env_uuid e 0) (env_now e) c = Inr c'"
      "snd (MarkCommissionPaid e cid s) = (UpdateCommission (re_scope e) c' s)
           \<lparr>rd_outbox := rd_outbox s @ map (with_trace (env_trace e)) (rec_events c')\<rparr>"
      by blast
    then show ?case unfolding OpMarkPaid reseller_step.simps by (rule payments_MarkPaid [OF ok])
  qed
next
  case (OpSetBot t i)
  obtain bs where st: "snd (SetShopBot e t i s) = s\<lparr>rd_shop_bots := bs\<rparr>"
    using SetBot_state [of e t i s] by blast
  show "payments_ok s \<Longrightarrow> ?thesis"
    by (rule payments_frame [of s _ "[]"]) (simp_all add: OpSetBot st)
qed


section \<open>Bot tokens\<close>

text \<open>
  Under a box whose \<open>Open\<close> undoes its \<open>Seal\<close>: one row per tenant, each row's hash is that of its
  token, and no two rows have the same hash.
\<close>

definition bots_ok :: "secret_box \<Rightarrow> resellers \<Rightarrow> bool" where
  "bots_ok b s \<longleftrightarrow>
     distinct (map sb_tenant_id (rd_shop_bots s)) \<and> distinct (map sb_token_hash (rd_shop_bots s)) \<and>
     list_all (\<lambda>r. case bx_Open b (sb_token_enc r) of None \<Rightarrow> False
                   | Some plain \<Rightarrow> sb_token_hash r = Some (bx_HMAC b plain)) (rd_shop_bots s)"

lemma distinct_map_update_by:
  assumes "distinct (map key t)" "distinct (map f t)" "\<And>q. q \<in> set t \<Longrightarrow> key q \<noteq> k \<Longrightarrow> f q \<noteq> f r"
  shows "distinct (map f (update_by key k (\<lambda>_. r) t))"
  using assms
proof (induction t)
  case Nil
  then show ?case by (simp add: update_by_def)
next
  case (Cons a t)
  have ih: "distinct (map f (update_by key k (\<lambda>_. r) t))" using Cons by simp
  show ?case
  proof (cases "key a = k")
    case True
    then have "update_by key k (\<lambda>_. r) t = t"
      using Cons.prems(1) unfolding update_by_def by (intro map_idI) (auto simp: image_iff)
    moreover have "\<forall>q \<in> set t. f q \<noteq> f r"
      using Cons.prems(1) True by (intro ballI Cons.prems(3)) (auto simp: image_iff)
    ultimately show ?thesis using True ih by (force simp: update_by_def)
  next
    case False
    then have "f a \<notin> f ` set (update_by key k (\<lambda>_. r) t)"
      using Cons.prems(2,3) by (auto simp: update_by_def image_iff split: if_splits)
    moreover have "update_by key k (\<lambda>_. r) (a # t) = a # update_by key k (\<lambda>_. r) t"
      using False by (simp add: update_by_def)
    ultimately show ?thesis using ih by simp
  qed
qed

lemma bots_Upsert:
  assumes ok: "bots_ok b s" and law: "\<And>x enc. bx_Seal b x = Some enc \<Longrightarrow> bx_Open b enc = Some x"
    and up: "bot_Upsert (Some b) guc tid cfg s = Inr s'"
  shows "bots_ok b s'"
proof -
  from up obtain enc where enc: "bx_Seal b (bt_Token cfg) = Some enc"
    and fresh: "\<not> list_ex (\<lambda>q. sb_tenant_id q \<noteq> tid \<and> sb_token_hash q = Some (bx_HMAC b (bt_Token cfg))) (rd_shop_bots s)"
    and s': "s' = (let r = bot_to_row tid enc (bx_HMAC b (bt_Token cfg)) cfg
                   in if tid \<in> sb_tenant_id ` set (rd_shop_bots s)
                      then s\<lparr>rd_shop_bots := update_by sb_tenant_id tid (\<lambda>_. r) (rd_shop_bots s)\<rparr>
                      else s\<lparr>rd_shop_bots := rd_shop_bots s @ [r]\<rparr>)"
    by (auto simp: bot_Upsert_def Let_def bot_to_row_def split: option.splits if_splits)
  let ?r = "bot_to_row tid enc (bx_HMAC b (bt_Token cfg)) cfg"
  have r: "sb_tenant_id ?r = tid" "sb_token_hash ?r = Some (bx_HMAC b (bt_Token cfg))" "sb_token_enc ?r = enc"
    by (simp_all add: bot_to_row_def)
  have other: "q \<in> set (rd_shop_bots s) \<Longrightarrow> sb_tenant_id q \<noteq> tid \<Longrightarrow> sb_token_hash q \<noteq> sb_token_hash ?r" for q
    using fresh r by (auto simp: list_ex_iff)
  have open_r: "bx_Open b (sb_token_enc ?r) = Some (bt_Token cfg)" using law [OF enc] r by simp
  show ?thesis
  proof (cases "tid \<in> sb_tenant_id ` set (rd_shop_bots s)")
    case True
    have rows: "rd_shop_bots s' = update_by sb_tenant_id tid (\<lambda>_. ?r) (rd_shop_bots s)"
      using True by (simp add: s')
    have "distinct (map sb_tenant_id (rd_shop_bots s'))" unfolding rows
      using ok r(1) by (intro distinct_map_update_by) (auto simp: bots_ok_def)
    moreover have "distinct (map sb_token_hash (rd_shop_bots s'))" unfolding rows
      using ok other by (intro distinct_map_update_by) (auto simp: bots_ok_def)
    ultimately show ?thesis
      using ok open_r r by (auto simp: bots_ok_def list_all_iff rows update_by_def)
  next
    case False
    then have "rd_shop_bots s' = rd_shop_bots s @ [?r]" by (simp add: s')
    moreover have "sb_token_hash ?r \<notin> sb_token_hash ` set (rd_shop_bots s)"
      using other False by (metis (no_types, lifting) image_iff)
    ultimately show ?thesis using ok open_r r False by (auto simp: bots_ok_def)
  qed
qed

lemma bots_SetBot:
  assumes ok: "bots_ok b s" and law: "\<And>x enc. bx_Seal b x = Some enc \<Longrightarrow> bx_Open b enc = Some x"
    and box: "re_box e = Some b"
  shows "bots_ok b (snd (SetShopBot e tid i s))"
proof -
  have "bots_ok b (snd (re_tx e (re_call e l (tx_write (bot_Upsert (Some b) g tn cfg))) s))" for l g tn cfg
    by (rule RunInTx_keeps, rule ok) (auto intro: bots_Upsert [OF ok law])
  moreover have "bots_ok b (snd (re_tx e (\<lambda>d. case re_call e l (tx_read (bot_GetByTenant (Some b) g tn)) d of
      Inl er \<Rightarrow> Inl (h er) | Inr (x, d') \<Rightarrow> re_call e l' (tx_write (bot_Upsert (Some b) g tn (cfg x))) d') s))" for l g tn h l' cfg
    by (rule RunInTx_keeps, rule ok) (auto split: sum.splits intro: bots_Upsert [OF ok law])
  ultimately show ?thesis
    using ok unfolding SetShopBot_def generateWebhookSecret_def box
    by (simp split: sum.split bool.split option.split)
qed

lemma bots_frame: "bots_ok b s \<Longrightarrow> rd_shop_bots s' = rd_shop_bots s \<Longrightarrow> bots_ok b s'"
  by (simp add: bots_ok_def)

lemma bots_step:
  assumes law: "\<And>x enc. bx_Seal b x = Some enc \<Longrightarrow> bx_Open b enc = Some x"
    and box: "re_box e = Some b" and ok: "bots_ok b s"
  shows "bots_ok b (reseller_step e x s)"
proof (cases x)
  case (OpSetBot t i)
  then show ?thesis using bots_SetBot [OF ok law box] by simp
next
  case (OpCreateTenant n d ow)
  then show ?thesis using CreateTenant_state [of e n d ow s] by (auto intro: bots_frame [OF ok])
next
  case (OpSetOwner t u)
  then show ?thesis using SetOwner_state [of e t u s] by (auto intro: bots_frame [OF ok])
next
  case (OpBranding t br)
  then show ?thesis using Branding_state [of e t br s] by (auto intro: bots_frame [OF ok])
next
  case (OpCreateAccount t u rate)
  then show ?thesis using CreateAccount_state [of e t u rate s] ok by (auto intro: bots_frame)
next
  case (OpMarkPaid c)
  then show ?thesis using MarkPaid_state [of e c s] ok by (auto simp: UpdateCommission_def intro: bots_frame)
next
  case (OpRecord rid sale amount rate cur)
  have "rd_shop_bots (snd (RecordCommission e rid sale amount rate cur s)) = rd_shop_bots s"
    using Record_state [of e rid sale amount rate cur s] by (elim disjE exE conjE) (simp_all add: UpdateResellerBalance_def)
  then show ?thesis using OpRecord by (simp add: bots_frame [OF ok])
qed

end
