(* ===== verification/ResellerLocks.thy ===== *)
theory ResellerLocks
  imports ResellerSpec
begin

text \<open>
  \<open>RecordCommission\<close> (\<open>internal/domain/reseller/service/reseller_service.go\<close>) as several transactions at
  once. Elsewhere a transaction runs alone; here each recording is a program of the four statements of
  its body, and the steps of several recordings interleave under the rules of PostgreSQL's read-committed
  isolation: what a transaction has not committed is invisible to the others, an \<open>UPDATE\<close> and a
  \<open>SELECT .. FOR UPDATE\<close> wait for the lock of the row, a plain \<open>SELECT\<close> waits for nothing, and the locks are
  released at the end. The key-share lock of the foreign key does not conflict with the \<open>UPDATE\<close> of a
  balance, so it is left out. Lemmas: a recording that is not interrupted is \<open>record_body\<close>; with a
  locking read every state of every interleaving has the right balances.
\<close>

section \<open>Interleaved recordings\<close>

datatype row_read = PlainRead | LockingRead

text \<open>
  The body reads the account with \<open>GetResellerAccountByID\<close>, whose query has no \<open>FOR UPDATE\<close>; the query
  \<open>GetResellerAccountByIDForUpdate\<close> exists, but nothing uses it.
\<close>

definition record_read :: row_read where
  "record_read = PlainRead"

text \<open>How far a recording is: the balance that it read, the balance that it wrote.\<close>

datatype sale_stage = Begun | Inserted | HasRead int64 | HasWritten int64 | Committed | RolledBack

record sale =
  sx_Scope :: string
  sx_Commission :: commission
  sx_Stage :: sale_stage

text \<open>The committed tables, the row locks on accounts with the recording that holds them, the recordings.\<close>

record sale_state =
  sl_db :: resellers
  sl_locks :: "string \<rightharpoonup> nat"
  sl_sales :: "sale list"

abbreviation sx_account :: "sale \<Rightarrow> string" where
  "sx_account x \<equiv> cm_ResellerID (sx_Commission x)"

definition may_lock :: "nat \<Rightarrow> string \<Rightarrow> sale_state \<Rightarrow> bool" where
  "may_lock i k s \<longleftrightarrow> sl_locks s k = None \<or> sl_locks s k = Some i"

definition release :: "nat \<Rightarrow> (string \<rightharpoonup> nat) \<Rightarrow> (string \<rightharpoonup> nat)" where
  "release i m = (\<lambda>k. if m k = Some i then None else m k)"

definition enters :: "nat \<Rightarrow> sale_stage \<Rightarrow> sale_state \<Rightarrow> sale_state" where
  "enters i st s = s\<lparr>sl_sales := (sl_sales s)[i := (sl_sales s ! i)\<lparr>sx_Stage := st\<rparr>]\<rparr>"

text \<open>
  One step of the \<open>i\<close>-th recording: the insert of the commission, the read of the account, the update of
  its balance, the commit that makes both writes visible, or a rollback, possible at every point. The
  insert is checked when it is executed and, against what was committed meanwhile, when it commits.
\<close>

inductive sale_step :: "row_read \<Rightarrow> sale_state \<Rightarrow> sale_state \<Rightarrow> bool" for mode where
  step_insert: "\<lbrakk>i < length (sl_sales s); x = sl_sales s ! i; sx_Stage x = Begun;
      CreateCommission (sx_Scope x) (sx_Commission x) (sl_db s) = Inr d\<rbrakk>
    \<Longrightarrow> sale_step mode s (enters i Inserted s)"
| step_read: "\<lbrakk>i < length (sl_sales s); x = sl_sales s ! i; sx_Stage x = Inserted; mode = PlainRead;
      GetResellerAccountByID (sx_Scope x) (sx_account x) (sl_db s) = Inr a\<rbrakk>
    \<Longrightarrow> sale_step mode s (enters i (HasRead (ra_Balance a)) s)"
| step_read_locking: "\<lbrakk>i < length (sl_sales s); x = sl_sales s ! i; sx_Stage x = Inserted; mode = LockingRead;
      may_lock i (sx_account x) s; GetResellerAccountByID (sx_Scope x) (sx_account x) (sl_db s) = Inr a\<rbrakk>
    \<Longrightarrow> sale_step mode s (enters i (HasRead (ra_Balance a)) (s\<lparr>sl_locks := (sl_locks s)(sx_account x \<mapsto> i)\<rparr>))"
| step_write: "\<lbrakk>i < length (sl_sales s); x = sl_sales s ! i; sx_Stage x = HasRead b; may_lock i (sx_account x) s\<rbrakk>
    \<Longrightarrow> sale_step mode s (enters i (HasWritten (b + cm_Amount (sx_Commission x)))
          (s\<lparr>sl_locks := (sl_locks s)(sx_account x \<mapsto> i)\<rparr>))"
| step_commit: "\<lbrakk>i < length (sl_sales s); x = sl_sales s ! i; sx_Stage x = HasWritten b;
      CreateCommission (sx_Scope x) (sx_Commission x) (sl_db s) = Inr d\<rbrakk>
    \<Longrightarrow> sale_step mode s (enters i Committed
          (s\<lparr>sl_db := UpdateResellerBalance (sx_Scope x) (sx_account x) b d, sl_locks := release i (sl_locks s)\<rparr>))"
| step_rollback: "\<lbrakk>i < length (sl_sales s); sx_Stage (sl_sales s ! i) \<noteq> Committed\<rbrakk>
    \<Longrightarrow> sale_step mode s (enters i RolledBack (s\<lparr>sl_locks := release i (sl_locks s)\<rparr>))"

abbreviation sale_runs :: "row_read \<Rightarrow> sale_state \<Rightarrow> sale_state \<Rightarrow> bool" where
  "sale_runs mode \<equiv> (sale_step mode)\<^sup>*\<^sup>*"

text \<open>Recordings that are about to begin on a database.\<close>

definition beginning :: "resellers \<Rightarrow> (string \<times> commission) list \<Rightarrow> sale_state" where
  "beginning d xs = \<lparr>sl_db = d, sl_locks = Map.empty,
     sl_sales = map (\<lambda>(g, c). \<lparr>sx_Scope = g, sx_Commission = c, sx_Stage = Begun\<rparr>) xs\<rparr>"

lemma enters_simps [simp]:
  "sl_db (enters i st s) = sl_db s" "sl_locks (enters i st s) = sl_locks s"
  "length (sl_sales (enters i st s)) = length (sl_sales s)"
  by (simp_all add: enters_def)

lemma release_own [simp]: "release i [k \<mapsto> i] = Map.empty"
  by (auto simp: release_def)

lemma enters_sale:
  "j < length (sl_sales s) \<Longrightarrow> sl_sales (enters i st s) ! j
     = (if j = i then (sl_sales s ! j)\<lparr>sx_Stage := st\<rparr> else sl_sales s ! j)"
  by (simp add: enters_def nth_list_update)

section \<open>A recording alone is the body of the service\<close>

lemma CreateCommission_accounts:
  assumes "CreateCommission g c d = Inr d'"
  shows "GetResellerAccountByID h k d' = GetResellerAccountByID h k d"
proof -
  from CreateCommission_ok [OF assms] obtain t where "d' = d\<lparr>rd_commissions := rd_commissions d @ [commission_to_row t c]\<rparr>" by blast
  then show ?thesis by (simp add: GetResellerAccountByID_def account_rows_def)
qed

lemma record_body_parts:
  assumes "record_body e c rid d = Inr (u, d')"
  obtains d1 a where "CreateCommission (re_scope e) c d = Inr d1" "GetResellerAccountByID (re_scope e) rid d1 = Inr a"
    "d' = UpdateResellerBalance (re_scope e) rid (ra_Balance a + cm_Amount c) d1"
    "GetResellerAccountByID (re_scope e) rid d = Inr a"
proof -
  from assms obtain d1 a where p: "CreateCommission (re_scope e) c d = Inr d1" "GetResellerAccountByID (re_scope e) rid d1 = Inr a"
    "d' = UpdateResellerBalance (re_scope e) rid (ra_Balance a + cm_Amount c) d1"
    by (auto simp: record_body_def)
  with CreateCommission_accounts [OF p(1)] that show thesis by simp
qed

lemma uninterrupted_sale:
  assumes "record_body e c (cm_ResellerID c) d = Inr (u, d')"
  shows "\<exists>s'. sale_runs record_read (beginning d [(re_scope e, c)]) s' \<and> sl_db s' = d' \<and> map sx_Stage (sl_sales s') = [Committed]"
proof -
  obtain d1 a where p: "CreateCommission (re_scope e) c d = Inr d1" "GetResellerAccountByID (re_scope e) (cm_ResellerID c) d = Inr a"
    "d' = UpdateResellerBalance (re_scope e) (cm_ResellerID c) (ra_Balance a + cm_Amount c) d1"
    by (rule record_body_parts [OF assms]) blast
  let ?at = "\<lambda>st. \<lparr>sx_Scope = re_scope e, sx_Commission = c, sx_Stage = st\<rparr>"
  let ?l = "[cm_ResellerID c \<mapsto> 0]"
  let ?s = "\<lambda>d l st. \<lparr>sl_db = d, sl_locks = l, sl_sales = [?at st]\<rparr>"
  have 1: "sale_step record_read (?s d Map.empty Begun) (?s d Map.empty Inserted)"
    using sale_step.step_insert [of 0 "?s d Map.empty Begun", OF _ refl] p by (simp add: enters_def)
  have 2: "sale_step record_read (?s d Map.empty Inserted) (?s d Map.empty (HasRead (ra_Balance a)))"
    using sale_step.step_read [of 0 "?s d Map.empty Inserted", OF _ refl] p by (simp add: enters_def record_read_def)
  have 3: "sale_step record_read (?s d Map.empty (HasRead (ra_Balance a))) (?s d ?l (HasWritten (ra_Balance a + cm_Amount c)))"
    using sale_step.step_write [of 0 "?s d Map.empty (HasRead (ra_Balance a))", OF _ refl] by (simp add: enters_def may_lock_def)
  have 4: "sale_step record_read (?s d ?l (HasWritten (ra_Balance a + cm_Amount c))) (?s d' Map.empty Committed)"
    using sale_step.step_commit [of 0 "?s d ?l (HasWritten (ra_Balance a + cm_Amount c))", OF _ refl] p by (simp add: enters_def)
  have "sale_runs record_read (?s d Map.empty Begun) (?s d' Map.empty Committed)"
    by (rule converse_rtranclp_into_rtranclp, rule 1, rule converse_rtranclp_into_rtranclp, rule 2,
        rule converse_rtranclp_into_rtranclp, rule 3, rule r_into_rtranclp, rule 4)
  then show ?thesis by (intro exI [of _ "?s d' Map.empty Committed"]) (simp add: beginning_def)
qed

section \<open>With a locking read nothing is lost\<close>

text \<open>A recording past its read holds the lock of the account, and knows its committed balance.\<close>

definition sale_ok :: "sale_state \<Rightarrow> nat \<Rightarrow> sale \<Rightarrow> bool" where
  "sale_ok s i x \<longleftrightarrow>
     (case sx_Stage x of
        HasRead b \<Rightarrow> sl_locks s (sx_account x) = Some i
          \<and> (\<exists>a. GetResellerAccountByID (sx_Scope x) (sx_account x) (sl_db s) = Inr a \<and> b = ra_Balance a)
      | HasWritten b \<Rightarrow> sl_locks s (sx_account x) = Some i
          \<and> (\<exists>a. GetResellerAccountByID (sx_Scope x) (sx_account x) (sl_db s) = Inr a
               \<and> b = ra_Balance a + cm_Amount (sx_Commission x))
      | _ \<Rightarrow> True)"

definition sales_ok :: "sale_state \<Rightarrow> bool" where
  "sales_ok s \<longleftrightarrow> balances_ok (sl_db s) \<and> (\<forall>j < length (sl_sales s). sale_ok s j (sl_sales s ! j))"

lemma GetResellerAccountByID_other:
  "k \<noteq> rid \<Longrightarrow> GetResellerAccountByID g k (UpdateResellerBalance h rid b s) = GetResellerAccountByID g k s"
proof -
  assume k: "k \<noteq> rid"
  let ?f = "\<lambda>x. if rls_visible h (Some (ar_tenant_id x)) \<and> ar_id x = rid then x\<lparr>ar_balance := b\<rparr> else x"
  have "select_by ar_id k (filter (\<lambda>r. rls_visible g (Some (ar_tenant_id r))) (map ?f t))
      = select_by ar_id k (filter (\<lambda>r. rls_visible g (Some (ar_tenant_id r))) t)" for t
    using k by (induction t) (auto simp: select_by_Cons)
  from this [of "rd_accounts s"] show ?thesis by (simp add: GetResellerAccountByID_def account_rows_def UpdateResellerBalance_def)
qed

lemma commit_balances:
  assumes "balances_ok d" "CreateCommission g c d = Inr d1" "GetResellerAccountByID g (cm_ResellerID c) d = Inr a"
  shows "balances_ok (UpdateResellerBalance g (cm_ResellerID c) (ra_Balance a + cm_Amount c) d1)"
proof -
  obtain t where d1: "d1 = d\<lparr>rd_commissions := rd_commissions d @ [commission_to_row t c]\<rparr>"
    using CreateCommission_ok [OF assms(2)] by blast
  obtain r where r: "select_by ar_id (cm_ResellerID c) (account_rows g d) = Some r" "ra_Balance a = ar_balance r"
    using assms(3) by (auto simp: GetResellerAccountByID_def resellerAccountRowToDomain_def)
  then have m: "r \<in> set (rd_accounts d)" "ar_id r = cm_ResellerID c" "rls_visible g (Some (ar_tenant_id r))"
    using select_by_Some [OF r(1)] by (auto simp: account_rows_def)
  have f: "cr_reseller_id (commission_to_row t c) = ar_id r" "cr_amount (commission_to_row t c) = cm_Amount c"
    using m(2) by (simp_all add: commission_to_row_def)
  have "d1 = d\<lparr>rd_commissions := rd_commissions d @ [commission_to_row t c], rd_outbox := rd_outbox d\<rparr>"
    by (simp add: d1)
  with balances_Record [OF assms(1) m(1,3) f(1), of "rd_outbox d"] m(2) r(2) f(2) show ?thesis by simp
qed

lemma sale_ok_other:
  assumes "sale_ok s j x"
    and "sl_locks s (sx_account x) = Some j \<Longrightarrow> sl_locks t (sx_account x) = Some j
      \<and> GetResellerAccountByID (sx_Scope x) (sx_account x) (sl_db t) = GetResellerAccountByID (sx_Scope x) (sx_account x) (sl_db s)"
  shows "sale_ok t j x"
  using assms by (cases "sx_Stage x") (auto simp: sale_ok_def)

lemma sale_ok_locks:
  "sale_ok s j x \<Longrightarrow> j \<noteq> i \<Longrightarrow> may_lock i k s \<Longrightarrow> sale_ok (s\<lparr>sl_locks := (sl_locks s)(k \<mapsto> i)\<rparr>) j x"
  "sale_ok s j x \<Longrightarrow> j \<noteq> i \<Longrightarrow> sale_ok (s\<lparr>sl_locks := release i (sl_locks s)\<rparr>) j x"
  by (erule sale_ok_other, auto simp: may_lock_def release_def)+

lemma sales_ok_enters:
  assumes "sales_ok s" "sl_sales t = sl_sales s" "balances_ok (sl_db t)"
    and "\<And>j. j < length (sl_sales s) \<Longrightarrow> j \<noteq> i \<Longrightarrow> sale_ok s j (sl_sales s ! j) \<Longrightarrow> sale_ok t j (sl_sales s ! j)"
    and "sale_ok t i ((sl_sales s ! i)\<lparr>sx_Stage := st\<rparr>)"
  shows "sales_ok (enters i st t)"
proof -
  have "sale_ok (enters i st t) = sale_ok t" by (intro ext) (simp add: sale_ok_def split: sale_stage.split)
  then show ?thesis using assms by (auto simp: sales_ok_def enters_sale)
qed

lemma sales_ok_step: "sale_step LockingRead s s' \<Longrightarrow> sales_ok s \<Longrightarrow> sales_ok s'"
proof (induction rule: sale_step.induct)
  case (step_insert i s x d)
  then show ?case by (intro sales_ok_enters [of s s]) (simp_all add: sales_ok_def sale_ok_def)
next
  case (step_read i s x a)
  then show ?case by simp
next
  case (step_read_locking i s x a)
  then show ?case
    by (intro sales_ok_enters [of s]) (auto simp: sales_ok_def sale_ok_def [of _ i] intro: sale_ok_locks)
next
  case (step_write i s x b)
  then have "sale_ok s i x" by (simp add: sales_ok_def)
  with step_write show ?case
    by (intro sales_ok_enters [of s]) (auto simp: sales_ok_def sale_ok_def [of _ i] intro: sale_ok_locks)
next
  case (step_commit i s x b d)
  let ?d = "UpdateResellerBalance (sx_Scope x) (sx_account x) b d"
  from step_commit have ok: "sale_ok s i x" "balances_ok (sl_db s)" by (auto simp: sales_ok_def)
  then obtain a where a: "GetResellerAccountByID (sx_Scope x) (sx_account x) (sl_db s) = Inr a"
    "b = ra_Balance a + cm_Amount (sx_Commission x)" and lock: "sl_locks s (sx_account x) = Some i"
    using step_commit.hyps(3) by (auto simp: sale_ok_def)
  have bal: "balances_ok ?d" using commit_balances [OF ok(2) step_commit.hyps(4) a(1)] a(2) by simp
  have same: "GetResellerAccountByID g k ?d = GetResellerAccountByID g k (sl_db s)" if "k \<noteq> sx_account x" for g k
    using CreateCommission_accounts [OF step_commit.hyps(4), of g k] GetResellerAccountByID_other [OF that, of g "sx_Scope x" b d]
    by simp
  show ?case
  proof (rule sales_ok_enters [OF step_commit.prems])
    fix j assume j: "j \<noteq> i" "sale_ok s j (sl_sales s ! j)"
    have "sx_account (sl_sales s ! j) \<noteq> sx_account x" if "sl_locks s (sx_account (sl_sales s ! j)) = Some j"
      using that lock j(1) by auto
    with same show "sale_ok (s\<lparr>sl_db := ?d, sl_locks := release i (sl_locks s)\<rparr>) j (sl_sales s ! j)"
      by (intro sale_ok_other [OF j(2)]) (simp add: release_def j(1))
  qed (simp_all add: bal sale_ok_def)
next
  case (step_rollback i s)
  then show ?case
    by (intro sales_ok_enters [of s]) (auto simp: sales_ok_def sale_ok_def [of _ i] intro: sale_ok_locks)
qed

lemma locked_sales_keep_balances:
  assumes "sale_runs LockingRead (beginning d xs) s'" "balances_ok d"
  shows "balances_ok (sl_db s')"
proof -
  have "sales_ok (beginning d xs)" using assms(2) by (auto simp: sales_ok_def sale_ok_def beginning_def split: prod.split)
  with assms(1) have "sales_ok s'" by (induction rule: rtranclp_induct) (auto intro: sales_ok_step)
  then show ?thesis by (simp add: sales_ok_def)
qed

section \<open>With a plain read one amount is lost\<close>

text \<open>Both transactions insert and read; then one writes and commits, and then the other.\<close>

lemma plain_reads_lose:
  assumes b1: "record_body e1 c1 rid d = Inr (u1, d1)" and b2: "record_body e2 c2 rid d1 = Inr (u2, d2)"
    and ids: "cm_ResellerID c1 = rid" "cm_ResellerID c2 = rid"
    and scope: "re_scope e1 = g" "re_scope e2 = g"
  obtains s' x1 x2 a where "sale_runs PlainRead (beginning d [(g, c1), (g, c2)]) s'"
    "map sx_Stage (sl_sales s') = [Committed, Committed]" "GetResellerAccountByID g rid d = Inr a"
    "CreateCommission g c1 d = Inr x1" "CreateCommission g c2 (UpdateResellerBalance g rid (ra_Balance a + cm_Amount c1) x1) = Inr x2"
    "sl_db s' = UpdateResellerBalance g rid (ra_Balance a + cm_Amount c2) x2"
proof -
  obtain x1 a where p1: "CreateCommission g c1 d = Inr x1" "GetResellerAccountByID g rid d = Inr a"
    "d1 = UpdateResellerBalance g rid (ra_Balance a + cm_Amount c1) x1"
    by (rule record_body_parts [OF b1, unfolded scope]) blast
  obtain x2 where p2: "CreateCommission g c2 d1 = Inr x2" by (rule record_body_parts [OF b2, unfolded scope]) blast
  have "\<exists>y. CreateCommission g c2 d = Inr y"
  proof -
    have ids': "map ar_id (rd_accounts (UpdateResellerBalance g rid b t)) = map ar_id (rd_accounts t)" for b t
      by (auto simp: UpdateResellerBalance_def)
    from CreateCommission_ok [OF p1(1)] have x1: "rd_accounts x1 = rd_accounts d" "set (rd_commissions d) \<subseteq> set (rd_commissions x1)" by auto
    have "ar_id ` set (rd_accounts d1) = ar_id ` set (rd_accounts d)"
      unfolding p1(3) using ids' [of "ra_Balance a + cm_Amount c1" x1] x1(1) by (metis list.set_map)
    moreover have "set (rd_commissions d) \<subseteq> set (rd_commissions d1)" using x1(2) by (simp add: p1(3) UpdateResellerBalance_def)
    ultimately have "cm_ID c2 \<notin> cr_id ` set (rd_commissions d)" "cm_ResellerID c2 \<in> ar_id ` set (rd_accounts d)" "rls_stamp g \<noteq> None"
      using CreateCommission_ok [OF p2] by auto
    then show ?thesis by (auto simp: CreateCommission_def insert_unique_def)
  qed
  then obtain y where p3: "CreateCommission g c2 d = Inr y" ..
  let ?at = "\<lambda>c st. \<lparr>sx_Scope = g, sx_Commission = c, sx_Stage = st\<rparr>"
  let ?s = "\<lambda>d l st st'. \<lparr>sl_db = d, sl_locks = l, sl_sales = [?at c1 st, ?at c2 st']\<rparr>"
  let ?r = "HasRead (ra_Balance a)" and ?w = "\<lambda>c. HasWritten (ra_Balance a + cm_Amount c)"
  let ?l1 = "[rid \<mapsto> 0 :: nat]" and ?l2 = "[rid \<mapsto> 1 :: nat]"
  let ?d2 = "UpdateResellerBalance g rid (ra_Balance a + cm_Amount c2) x2"
  note st = enters_def may_lock_def ids p1(1,2) p1(3) [symmetric] p2 p3
  note nx = converse_rtranclp_into_rtranclp
  have 1: "sale_step PlainRead (?s d Map.empty Begun Begun) (?s d Map.empty Inserted Begun)"
    using sale_step.step_insert [of 0 "?s d Map.empty Begun Begun", OF _ refl] by (simp add: st)
  have 2: "sale_step PlainRead (?s d Map.empty Inserted Begun) (?s d Map.empty Inserted Inserted)"
    using sale_step.step_insert [of 1 "?s d Map.empty Inserted Begun", OF _ refl] by (simp add: st)
  have 3: "sale_step PlainRead (?s d Map.empty Inserted Inserted) (?s d Map.empty ?r Inserted)"
    using sale_step.step_read [of 0 "?s d Map.empty Inserted Inserted", OF _ refl] by (simp add: st)
  have 4: "sale_step PlainRead (?s d Map.empty ?r Inserted) (?s d Map.empty ?r ?r)"
    using sale_step.step_read [of 1 "?s d Map.empty ?r Inserted", OF _ refl] by (simp add: st)
  have 5: "sale_step PlainRead (?s d Map.empty ?r ?r) (?s d ?l1 (?w c1) ?r)"
    using sale_step.step_write [of 0 "?s d Map.empty ?r ?r", OF _ refl] by (simp add: st)
  have 6: "sale_step PlainRead (?s d ?l1 (?w c1) ?r) (?s d1 Map.empty Committed ?r)"
    using sale_step.step_commit [of 0 "?s d ?l1 (?w c1) ?r" _ "ra_Balance a + cm_Amount c1" x1, OF _ refl] by (simp add: st)
  have 7: "sale_step PlainRead (?s d1 Map.empty Committed ?r) (?s d1 ?l2 Committed (?w c2))"
    using sale_step.step_write [of 1 "?s d1 Map.empty Committed ?r", OF _ refl] by (simp add: st)
  have 8: "sale_step PlainRead (?s d1 ?l2 Committed (?w c2)) (?s ?d2 Map.empty Committed Committed)"
    using sale_step.step_commit [of 1 "?s d1 ?l2 Committed (?w c2)", OF _ refl] by (simp add: st)
  have "sale_runs PlainRead (?s d Map.empty Begun Begun) (?s ?d2 Map.empty Committed Committed)"
    by (rule nx, rule 1, rule nx, rule 2, rule nx, rule 3, rule nx, rule 4, rule nx, rule 5, rule nx, rule 6, rule nx, rule 7,
        rule r_into_rtranclp, rule 8)
  then have "sale_runs PlainRead (beginning d [(g, c1), (g, c2)]) (?s ?d2 Map.empty Committed Committed)"
    by (simp add: beginning_def)
  from that [OF this _ p1(2,1) p2 [unfolded p1(3)]] show thesis by simp
qed

end
