(* ===== verification/ResellerProps.thy ===== *)
theory ResellerProps
  imports ResellerLocks
begin

text \<open>
  The properties of the reseller context, on top of \<open>ResellerSpec\<close>, with their witnesses.
\<close>

section \<open>The body of a recording\<close>

text \<open>The statements of \<open>record_body\<close> up to the read of the account, and the write that follows.\<close>

definition record_head :: "reseller_env \<Rightarrow> commission \<Rightarrow> string \<Rightarrow> (resellers, reseller_error, reseller_account) tx" where
  "record_head e c resellerID =
     tx_bind (re_call e ''create commission'' (tx_write (CreateCommission (re_scope e) c))) (\<lambda>_.
     re_call e ''find account'' (tx_read (GetResellerAccountByID (re_scope e) resellerID)))"

definition record_tail :: "reseller_env \<Rightarrow> commission \<Rightarrow> string \<Rightarrow> reseller_account \<Rightarrow> (resellers, reseller_error, unit) tx" where
  "record_tail e c resellerID a =
     re_call e ''update balance'' (tx_write (\<lambda>d.
       Inr (UpdateResellerBalance (re_scope e) resellerID (ra_Balance a + cm_Amount c) d)))"

lemma record_body_split: "record_body e c rid = tx_bind (record_head e c rid) (record_tail e c rid)"
  by (rule ext) (simp add: record_body_def record_head_def record_tail_def tx_bind_def rbind_assoc split_def)

lemma record_head_ok:
  assumes "record_head e c rid s = Inr (a, s')"
  obtains t r where "s' = s\<lparr>rd_commissions := rd_commissions s @ [commission_to_row t c]\<rparr>"
    "select_by ar_id rid (account_rows (re_scope e) s) = Some r" "ra_Balance a = ar_balance r"
  using assms
  by (auto simp: record_head_def GetResellerAccountByID_def resellerAccountRowToDomain_def account_rows_def
      dest!: CreateCommission_ok)

lemma record_tail_ok:
  "record_tail e c rid a s = Inr (u, s') \<Longrightarrow> s' = UpdateResellerBalance (re_scope e) rid (ra_Balance a + cm_Amount c) s"
  by (auto simp: record_tail_def)

lemma account_of_visible:
  assumes d: "distinct (map ar_id (rd_accounts s))" and r: "select_by ar_id rid (account_rows guc s) = Some r"
  shows "select_by ar_id rid (rd_accounts s) = Some r"
    and "select_by ar_id rid (rd_accounts (UpdateResellerBalance guc rid b s)) = Some (r\<lparr>ar_balance := b\<rparr>)"
proof -
  have m: "r \<in> set (rd_accounts s)" "ar_id r = rid" "rls_visible guc (Some (ar_tenant_id r))"
    using select_by_Some [OF r] by (auto simp: account_rows_def)
  show one: "select_by ar_id rid (rd_accounts s) = Some r"
    using distinct_select [OF d m(1)] m(2) by simp
  let ?f = "\<lambda>x. if rls_visible guc (Some (ar_tenant_id x)) \<and> ar_id x = rid then x\<lparr>ar_balance := b\<rparr> else x"
  have sel: "select_by ar_id rid (map ?f t) = map_option ?f (select_by ar_id rid t)" for t
    by (induction t) (auto simp: select_by_Cons)
  show "select_by ar_id rid (rd_accounts (UpdateResellerBalance guc rid b s)) = Some (r\<lparr>ar_balance := b\<rparr>)"
    unfolding UpdateResellerBalance_def using m sel [of "rd_accounts s"] one by simp
qed

lemma NewCommission_eq:
  "NewCommission cid eid rid sale amount rate cur now =
     map_sum id (\<lambda>a. RecordEvent (NewTyped reseller_event_type eid (CommissionCreated cid rid a) now cid)
        \<lparr>rec_events = [], rec_flushed = False, cm_ID = cid, cm_ResellerID = rid, cm_SaleID = sale, cm_Amount = a,
         cm_Currency = cur, cm_Status = CommissionPending, cm_CreatedAt = now, cm_PaidAt = None\<rparr>)
       (safeCommissionAmount amount rate)"
  by (cases "safeCommissionAmount amount rate") (simp_all add: NewCommission_def)

lemma bots_okD:
  "bots_ok b s \<Longrightarrow> r \<in> set (rd_shop_bots s) \<Longrightarrow>
     \<exists>x. bx_Open b (sb_token_enc r) = Some x \<and> sb_token_hash r = Some (bx_HMAC b x)"
  by (auto simp: bots_ok_def list_all_iff split: option.splits dest!: bspec)

text \<open>What is stored for a tenant is what a scope that sees the tenant reads.\<close>

lemma select_by_visible: "(\<And>r. key r = k \<Longrightarrow> P r) \<Longrightarrow> select_by key k (filter P t) = select_by key k t"
  by (induction t) (auto simp: select_by_Cons)

lemma bot_row_roundtrip: "bot_of_row (bt_Token cfg) (bot_to_row t enc h cfg) = cfg"
  by (simp add: bot_of_row_def bot_to_row_def)

lemma Upsert_read:
  assumes law: "\<And>x enc. bx_Seal b x = Some enc \<Longrightarrow> bx_Open b enc = Some x"
    and up: "bot_Upsert (Some b) guc t cfg s = Inr s'" and vis: "rls_visible g (Some t)"
  shows "bot_GetByTenant (Some b) g t s' = Inr cfg"
proof -
  from up obtain enc where enc: "bx_Seal b (bt_Token cfg) = Some enc"
    and s': "s' = (let r = bot_to_row t enc (bx_HMAC b (bt_Token cfg)) cfg
                   in if t \<in> sb_tenant_id ` set (rd_shop_bots s)
                      then s\<lparr>rd_shop_bots := update_by sb_tenant_id t (\<lambda>_. r) (rd_shop_bots s)\<rparr>
                      else s\<lparr>rd_shop_bots := rd_shop_bots s @ [r]\<rparr>)"
    by (auto simp: bot_Upsert_def Let_def split: option.splits if_splits)
  let ?r = "bot_to_row t enc (bx_HMAC b (bt_Token cfg)) cfg"
  have r: "sb_tenant_id ?r = t" "sb_token_enc ?r = enc" by (simp_all add: bot_to_row_def)
  have upd: "t \<in> sb_tenant_id ` set rs \<Longrightarrow> select_by sb_tenant_id t (update_by sb_tenant_id t (\<lambda>_. ?r) rs) = Some ?r" for rs
    by (induction rs) (auto simp: update_by_def select_by_Cons r)
  have "select_by sb_tenant_id t (rd_shop_bots s') = Some ?r"
  proof (cases "t \<in> sb_tenant_id ` set (rd_shop_bots s)")
    case True
    then show ?thesis using upd by (simp add: s')
  next
    case False
    then have "rd_shop_bots s' = rd_shop_bots s @ [?r]" by (simp add: s')
    moreover have "select_by sb_tenant_id t (rd_shop_bots s) = None" using False by (simp add: select_by_None)
    ultimately show ?thesis using r by (simp add: select_by_append select_by_Cons)
  qed
  then have "select_by sb_tenant_id t (bot_rows g s') = Some ?r"
    unfolding bot_rows_def using vis by (subst select_by_visible) auto
  then show ?thesis using law [OF enc] r by (simp add: bot_GetByTenant_def bot_row_roundtrip)
qed

lemma Upsert_visible: "bot_Upsert box guc t cfg s = Inr s' \<Longrightarrow> rls_visible guc (Some t)"
  by (auto simp: bot_Upsert_def Let_def split: option.splits if_splits)

text \<open>The two branches of \<open>SetShopBot\<close>, when it succeeds.\<close>

lemma SetShopBot_token:
  assumes "SetShopBot e t i s = (Inr (), s')" "bi_BotToken i \<noteq> []" "re_rand e = Some bytes"
  shows "botTokenRe (bi_BotToken i) \<and> bot_Upsert (re_box e) (re_scope e) t
      \<lparr>bt_Token = bi_BotToken i, bt_WebhookSecret = hex_encode bytes, bt_CabinetURL = bi_CabinetURL i,
       bt_BotUsername = [], bt_Enabled = bi_Enabled i, bt_BotPluginSlug = bi_BotPlugin i\<rparr> s = Inr s'"
  using assms by (auto simp: SetShopBot_def generateWebhookSecret_def RunInTx_ok_iff
      split: if_splits sum.splits bool.splits)

lemma SetShopBot_keep:
  assumes "SetShopBot e t i s = (Inr (), s')" "bi_BotToken i = []"
  shows "\<exists>old. bot_GetByTenant (re_box e) (re_scope e) t s = Inr old \<and> bot_Upsert (re_box e) (re_scope e) t
      \<lparr>bt_Token = bt_Token old, bt_WebhookSecret = bt_WebhookSecret old, bt_CabinetURL = bi_CabinetURL i,
       bt_BotUsername = [], bt_Enabled = bi_Enabled i, bt_BotPluginSlug = bi_BotPlugin i\<rparr> s = Inr s'"
  using assms by (auto simp: SetShopBot_def RunInTx_ok_iff split: if_splits sum.splits bool.splits)

section \<open>Samples\<close>

definition sample_box :: secret_box where
  "sample_box = \<lparr>bx_Seal = (\<lambda>x. Some (x @ ''!'')), bx_Open = (\<lambda>x. if x = [] then None else Some (butlast x)),
                 bx_HMAC = (\<lambda>x. x)\<rparr>"

definition shop_env :: "string \<Rightarrow> string \<Rightarrow> reseller_env" where
  "shop_env scope prefix =
     \<lparr>env_now = 5, env_dbnow = 6, env_uuid = (\<lambda>k. prefix @ (if k = 0 then ''0'' else ''1'')), env_trace = [],
      env_fault = (\<lambda>_. False), re_ctx = scope, re_pool = [], re_rand = Some (replicate 32 (0 :: byte)),
      re_sha256 = (\<lambda>_. replicate 32 (1 :: byte)), re_box = Some sample_box,
      re_IsValidBotPlugin = (\<lambda>_. Inr True)\<rparr>"

definition sample_resellers :: resellers where
  "sample_resellers =
     \<lparr>rd_tenants = [\<lparr>tr_id = ''t'', tr_name = ''shop'', tr_domain = None, tr_owner_user_id = None,
        tr_branding_config = no_branding, tr_api_key_hash = None, tr_is_active = True,
        tr_created_at = 1, tr_updated_at = 1\<rparr>],
      rd_accounts = [\<lparr>ar_id = ''r'', ar_tenant_id = ''t'', ar_user_id = ''u'', ar_commission_rate = 10,
        ar_balance = 0, ar_created_at = 1\<rparr>],
      rd_commissions = [], rd_shop_bots = [], rd_users = [], rd_subs = [], rd_outbox = []\<rparr>"

definition sample_token :: string where
  "sample_token = ''7:'' @ replicate 35 (CHR ''a'')"

definition sample_bot :: "string \<Rightarrow> string \<Rightarrow> set_shop_bot_input" where
  "sample_bot token url = \<lparr>bi_BotToken = token, bi_CabinetURL = url, bi_Enabled = True, bi_BotPlugin = []\<rparr>"

definition sample_history :: "(reseller_env \<times> reseller_op) list" where
  "sample_history =
     [(shop_env ''t'' ''a'', OpRecord ''r'' ''sale'' 1000 10 ''usd''),
      (shop_env ''t'' ''b'', OpRecord ''r'' ''sale2'' 500 10 ''usd''),
      (shop_env ''t'' ''c'', OpMarkPaid ''a0''), (shop_env ''t'' ''d'', OpMarkPaid ''a0'')]"

lemmas sample_defs = sample_box_def shop_env_def sample_resellers_def sample_token_def sample_bot_def sample_history_def

lemma sample_resellers_ok: "balances_ok sample_resellers \<and> payments_ok sample_resellers \<and> bots_ok sample_box sample_resellers"
  by (simp add: balances_ok_def payments_ok_def bots_ok_def sample_resellers_def commissions_of_def paid_events_def
      List.map_filter_simps)

section \<open>Properties\<close>

text \<open>C29. For a sale that is not negative and a rate of 0 to 100 percent, a commission is created exactly
  when the product of amount and rate fits an int64; its amount is then the percentage of the sale,
  rounded down, between zero and the sale itself, and otherwise the overflow error comes back.\<close>

theorem commission_is_exact_or_refused:
  assumes "0 \<le>s sale" "0 \<le>s rate" "rate \<le>s MaxCommissionRate"
  shows "case NewCommission cid eid rid saleID sale rate cur now of
       Inl er \<Rightarrow> er = ErrCommissionOverflow \<and> \<not> in_int64 (sint sale * sint rate)
     | Inr c \<Rightarrow> in_int64 (sint sale * sint rate) \<and> sint (cm_Amount c) = sint sale * sint rate div 100
         \<and> 0 \<le> sint (cm_Amount c) \<and> sint (cm_Amount c) \<le> sint sale \<and> cm_Status c = CommissionPending"
proof -
  have s: "0 \<le> sint sale" and r: "0 \<le> sint rate" "sint rate \<le> 100"
    using assms by (simp_all add: word_sle_eq MaxCommissionRate_def)
  show ?thesis
  proof (cases "in_int64 (sint sale * sint rate)")
    case True
    then obtain a where a: "safeCommissionAmount sale rate = Inr a" "sint a = sint sale * sint rate div 100"
      using safeCommissionAmount_ok [OF assms(1,2)] by blast
    have "sint sale * sint rate \<le> sint sale * 100" using s r by (intro mult_left_mono) simp_all
    then have "sint sale * sint rate div 100 \<le> sint sale"
      using zdiv_mono1 [of "sint sale * sint rate" "sint sale * 100" 100] by simp
    then show ?thesis using a s r True by (simp add: NewCommission_eq RecordEvent_def pos_imp_zdiv_nonneg_iff)
  next
    case False
    then have z: "sale \<noteq> 0" "rate \<noteq> 0" by (auto simp: in_int64_def)
    have "0 <s rate" using assms(2) z(2) by (simp add: signed.less_le)
    then have "safeCommissionAmount sale rate = Inl ErrCommissionOverflow"
      using commission_guard [OF assms(1) \<open>0 <s rate\<close>] False z by (simp add: safeCommissionAmount_def)
    then show ?thesis using False by (simp add: NewCommission_eq)
  qed
qed

theorem commission_is_exact_or_refused_witness:
  "case NewCommission ''c'' ''e'' ''r'' ''s'' 199 10 ''usd'' 0 of
       Inl er \<Rightarrow> er = ErrCommissionOverflow \<and> \<not> in_int64 (sint (199 :: int64) * sint (10 :: int64))
     | Inr c \<Rightarrow> in_int64 (sint (199 :: int64) * sint (10 :: int64)) \<and> sint (cm_Amount c) = sint (199 :: int64) * sint (10 :: int64) div 100
         \<and> 0 \<le> sint (cm_Amount c) \<and> sint (cm_Amount c) \<le> sint (199 :: int64) \<and> cm_Status c = CommissionPending"
  by (rule commission_is_exact_or_refused) (simp_all add: word_sle_eq MaxCommissionRate_def CommissionPercentBase_def)

text \<open>C30. Whatever the service is asked to do, in any scope and with any failures of the database in
  between, the balance of every account is the sum of the commissions recorded for it, one transaction
  after another.\<close>

theorem balance_is_sum_of_commissions:
  assumes "balances_ok s"
  shows "balances_ok (reseller_history xs s)"
  by (rule history_keeps [where P = "\<lambda>_. True"]) (simp_all add: assms balances_step list_all_iff)

theorem balance_is_sum_of_commissions_witness:
  "balances_ok (reseller_history sample_history sample_resellers)
   \<and> map ar_balance (rd_accounts (reseller_history sample_history sample_resellers)) = [150]"
proof
  show "balances_ok (reseller_history sample_history sample_resellers)"
    by (rule balance_is_sum_of_commissions) (rule conjunct1 [OF sample_resellers_ok])
  show "map ar_balance (rd_accounts (reseller_history sample_history sample_resellers)) = [150]"
    by code_simp
qed

text \<open>C31. A commission is paid at most once: through any history the announced payments are exactly the
  commissions with status paid, each announced once, to its account and with its amount.\<close>

theorem commission_is_paid_once:
  assumes "payments_ok s"
  shows "payments_ok (reseller_history xs s)"
  by (rule history_keeps [where P = "\<lambda>_. True"]) (simp_all add: assms payments_step list_all_iff)

theorem commission_is_paid_once_witness:
  "payments_ok (reseller_history sample_history sample_resellers)
   \<and> paid_events (reseller_history sample_history sample_resellers) = [(''a0'', ''r'', 100)]"
proof
  show "payments_ok (reseller_history sample_history sample_resellers)"
    by (rule commission_is_paid_once) (rule conjunct1 [OF conjunct2 [OF sample_resellers_ok]])
  show "paid_events (reseller_history sample_history sample_resellers) = [(''a0'', ''r'', 100)]"
    by code_simp
qed

text \<open>C32. The account is read without a lock. When two sales of one reseller, each of which could be
  recorded after the other, are recorded at the same time, the statements of their transactions can
  interleave so that both transactions commit and both commissions are stored, but the balance has grown
  by the second amount only. With a locking read instead no interleaving of any number of recordings
  (nor any rollback) would ever lose an amount: in every state that is reached, every committed balance is
  the sum of the committed commissions.\<close>

theorem overlapping_sales_lose_a_commission:
  assumes ok: "balances_ok d"
    and b1: "record_body e1 c1 rid d = Inr (u1, d1)" and b2: "record_body e2 c2 rid d1 = Inr (u2, d2)"
    and ids: "cm_ResellerID c1 = rid" "cm_ResellerID c2 = rid" and scope: "re_scope e1 = g" "re_scope e2 = g"
  shows "(\<exists>s'. sale_runs record_read (beginning d [(g, c1), (g, c2)]) s'
        \<and> map sx_Stage (sl_sales s') = [Committed, Committed]
        \<and> (case select_by ar_id rid (rd_accounts d) of None \<Rightarrow> False
           | Some r \<Rightarrow> select_by ar_id rid (rd_accounts (sl_db s')) = Some (r\<lparr>ar_balance := ar_balance r + cm_Amount c2\<rparr>)
               \<and> commissions_of rid (rd_commissions (sl_db s')) = ar_balance r + cm_Amount c1 + cm_Amount c2))
    \<and> (\<forall>xs s'. sale_runs LockingRead (beginning d xs) s' \<longrightarrow> balances_ok (sl_db s'))"
proof (intro conjI allI impI)
  show "\<exists>s'. sale_runs record_read (beginning d [(g, c1), (g, c2)]) s'
        \<and> map sx_Stage (sl_sales s') = [Committed, Committed]
        \<and> (case select_by ar_id rid (rd_accounts d) of None \<Rightarrow> False
           | Some r \<Rightarrow> select_by ar_id rid (rd_accounts (sl_db s')) = Some (r\<lparr>ar_balance := ar_balance r + cm_Amount c2\<rparr>)
               \<and> commissions_of rid (rd_commissions (sl_db s')) = ar_balance r + cm_Amount c1 + cm_Amount c2)"
  proof (rule plain_reads_lose [OF b1 b2 ids scope])
    fix s' y1 y2 a
    assume s': "sale_runs PlainRead (beginning d [(g, c1), (g, c2)]) s'" "map sx_Stage (sl_sales s') = [Committed, Committed]"
      and a: "GetResellerAccountByID g rid d = Inr a" and y: "CreateCommission g c1 d = Inr y1"
        "CreateCommission g c2 (UpdateResellerBalance g rid (ra_Balance a + cm_Amount c1) y1) = Inr y2"
      and db: "sl_db s' = UpdateResellerBalance g rid (ra_Balance a + cm_Amount c2) y2"
    obtain r where r: "select_by ar_id rid (account_rows g d) = Some r" "ra_Balance a = ar_balance r"
      using a by (auto simp: GetResellerAccountByID_def resellerAccountRowToDomain_def)
    have dist: "distinct (map ar_id (rd_accounts d))" using ok by (simp add: balances_ok_def)
    note one = account_of_visible [OF dist r(1)]
    obtain t1 t2 where "y1 = d\<lparr>rd_commissions := rd_commissions d @ [commission_to_row t1 c1]\<rparr>"
      "y2 = (UpdateResellerBalance g rid (ra_Balance a + cm_Amount c1) y1)
          \<lparr>rd_commissions := rd_commissions y1 @ [commission_to_row t2 c2]\<rparr>"
      using CreateCommission_ok [OF y(1)] CreateCommission_ok [OF y(2)] by (auto simp: UpdateResellerBalance_def)
    then have "rd_accounts (sl_db s') = rd_accounts (UpdateResellerBalance g rid (ar_balance r + cm_Amount c2) d)"
      and c: "rd_commissions (sl_db s') = rd_commissions d @ [commission_to_row t1 c1, commission_to_row t2 c2]"
      using r(2) by (simp_all add: db UpdateResellerBalance_def)
    then have "select_by ar_id rid (rd_accounts (sl_db s')) = Some (r\<lparr>ar_balance := ar_balance r + cm_Amount c2\<rparr>)"
      using one(2) by simp
    moreover have "ar_balance r = commissions_of rid (rd_commissions d)"
      using ok select_by_Some [OF one(1)] by (auto simp: balances_ok_def list_all_iff)
    ultimately show ?thesis
      using s' one(1) ids c by (intro exI [of _ s']) (simp add: commissions_of_def record_read_def)
  qed
  show "balances_ok (sl_db s')" if "sale_runs LockingRead (beginning d xs) s'" for xs s'
    using that ok by (rule locked_sales_keep_balances)
qed

definition sample_commission :: "string \<Rightarrow> int64 \<Rightarrow> commission" where
  "sample_commission i a =
     \<lparr>rec_events = [], rec_flushed = False, cm_ID = i, cm_ResellerID = ''r'', cm_SaleID = [], cm_Amount = a,
      cm_Currency = ''usd'', cm_Status = CommissionPending, cm_CreatedAt = 0, cm_PaidAt = None\<rparr>"

theorem overlapping_sales_lose_a_commission_witness:
  "\<exists>s'. sale_runs record_read (beginning sample_resellers
        [(''t'', sample_commission ''1'' 100), (''t'', sample_commission ''2'' 50)]) s'
     \<and> map ar_balance (rd_accounts sample_resellers) = [0]
     \<and> map_option ar_balance (select_by ar_id ''r'' (rd_accounts (sl_db s'))) = Some 50
     \<and> commissions_of ''r'' (rd_commissions (sl_db s')) = 150"
proof -
  let ?e1 = "shop_env ''t'' ''a''" and ?e2 = "shop_env ''t'' ''b''"
  let ?c1 = "sample_commission ''1'' 100" and ?c2 = "sample_commission ''2'' 50"
  let ?b1 = "record_body ?e1 ?c1 ''r'' sample_resellers"
  have "is_ok ?b1" by code_simp
  then obtain u1 d1 where b1: "?b1 = Inr (u1, d1)" by (auto simp: is_ok_iff)
  have "is_ok (record_body ?e2 ?c2 ''r'' (snd (projr ?b1)))" by code_simp
  then obtain u2 d2 where b2: "record_body ?e2 ?c2 ''r'' d1 = Inr (u2, d2)" by (auto simp: is_ok_iff b1)
  have f: "cm_ResellerID ?c1 = ''r''" "cm_ResellerID ?c2 = ''r''" "re_scope ?e1 = ''t''" "re_scope ?e2 = ''t''"
    "cm_Amount ?c1 = 100" "cm_Amount ?c2 = 50"
    by (simp_all add: sample_commission_def re_scope_def shop_env_def tx_scope_def)
  have sel: "select_by ar_id ''r'' (rd_accounts sample_resellers) = Some (hd (rd_accounts sample_resellers))"
    "ar_balance (hd (rd_accounts sample_resellers)) = 0" "map ar_balance (rd_accounts sample_resellers) = [0]"
    by (simp_all add: sample_resellers_def select_by_Cons)
  let ?a = "hd (rd_accounts sample_resellers)"
  have "\<exists>s'. sale_runs record_read (beginning sample_resellers [(''t'', ?c1), (''t'', ?c2)]) s'
      \<and> map sx_Stage (sl_sales s') = [Committed, Committed]
      \<and> select_by ar_id ''r'' (rd_accounts (sl_db s')) = Some (?a\<lparr>ar_balance := ar_balance ?a + cm_Amount ?c2\<rparr>)
      \<and> commissions_of ''r'' (rd_commissions (sl_db s')) = ar_balance ?a + cm_Amount ?c1 + cm_Amount ?c2"
    using conjunct1 [OF overlapping_sales_lose_a_commission [OF conjunct1 [OF sample_resellers_ok] b1 b2 f(1-4)]]
    unfolding sel(1) option.case .
  then obtain s' where s': "sale_runs record_read (beginning sample_resellers [(''t'', ?c1), (''t'', ?c2)]) s'"
    "select_by ar_id ''r'' (rd_accounts (sl_db s')) = Some (?a\<lparr>ar_balance := 0 + 50\<rparr>)"
    "commissions_of ''r'' (rd_commissions (sl_db s')) = 0 + 100 + 50"
    unfolding sel(2) f(5,6) by blast
  have v: "map_option ar_balance (select_by ar_id ''r'' (rd_accounts (sl_db s'))) = Some 50"
    "commissions_of ''r'' (rd_commissions (sl_db s')) = 150"
    unfolding s'(2,3) by simp_all
  show ?thesis by (rule exI [of _ s']) (intro conjI s'(1) sel(3) v)
qed

text \<open>A commission recorded under the platform scope is stored without a tenant: it raises the balance,
  but it is in no shop's list of commissions and in no shop's pending sum.\<close>

theorem platform_commission_is_invisible:
  assumes ctx: "re_ctx e = PlatformScopeSentinel"
    and run: "RecordCommission e rid sale amount rate cur s = (Inr c, s')"
  shows "ListCommissionsByTenant g t rid s' = ListCommissionsByTenant g t rid s
    \<and> SumPendingCommissionByTenant g t s' = SumPendingCommissionByTenant g t s
    \<and> (case select_by ar_id rid (rd_accounts s) of None \<Rightarrow> False
       | Some a \<Rightarrow> distinct (map ar_id (rd_accounts s)) \<longrightarrow>
           map_option ar_balance (select_by ar_id rid (rd_accounts s')) = Some (ar_balance a + cm_Amount c))"
proof -
  have scope: "re_scope e = PlatformScopeSentinel" by (simp add: re_scope_def tx_scope_def ctx PlatformScopeSentinel_def)
  obtain c0 where c0: "NewCommission (env_uuid e 0) (env_uuid e 1) rid sale amount rate cur (env_now e) = Inr c0"
    using run by (cases "NewCommission (env_uuid e 0) (env_uuid e 1) rid sale amount rate cur (env_now e)")
      (simp_all add: RecordCommission_def)
  obtain s1 where tx: "re_tx e (record_body e c0 rid) s = (Inr (), s1)"
    using run c0 by (auto simp: RecordCommission_def split: prod.splits sum.splits)
  have s': "rd_commissions s' = rd_commissions s1 \<and> rd_accounts s' = rd_accounts s1 \<and> cm_Amount c = cm_Amount c0"
  proof (cases "re_publish e c0 s1")
    case (Inl er)
    then show ?thesis using run c0 tx by (auto simp: RecordCommission_def DomainEvents_def split: if_splits)
  next
    case (Inr p)
    then obtain c' s2 where p: "re_publish e c0 s1 = Inr (c', s2)" by (cases p) simp
    have "c' = snd (DomainEvents c0)"
      using PublishAll_ok [OF p [unfolded re_publish_def]] by (rule conjunct1)
    then show ?thesis using run c0 tx p re_publish_ok [OF p]
      by (auto simp: RecordCommission_def DomainEvents_def split: if_splits)
  qed
  from tx have "record_body e c0 rid s = Inr ((), s1)" by (simp add: RunInTx_ok_iff)
  then obtain a sh where h: "record_head e c0 rid s = Inr (a, sh)" and t: "record_tail e c0 rid a sh = Inr ((), s1)"
    by (auto simp: record_body_split)
  from h have "CreateCommission PlatformScopeSentinel c0 s = Inr sh"
    by (auto simp: record_head_def scope)
  then have sh: "sh = s\<lparr>rd_commissions := rd_commissions s @ [commission_to_row None c0]\<rparr>"
    by (auto simp: rls_stamp_def PlatformScopeSentinel_def dest!: CreateCommission_ok)
  from record_head_ok [OF h] obtain r where r: "select_by ar_id rid (account_rows PlatformScopeSentinel s) = Some r"
    "ra_Balance a = ar_balance r" unfolding scope by metis
  have s1: "s1 = UpdateResellerBalance PlatformScopeSentinel rid (ar_balance r + cm_Amount c0) sh"
    using record_tail_ok [OF t] r(2) scope by simp
  have rows: "rd_commissions s' = rd_commissions s @ [commission_to_row None c0]"
    using s' by (simp add: s1 sh UpdateResellerBalance_def)
  have all: "account_rows PlatformScopeSentinel s = rd_accounts s" by (simp add: account_rows_def)
  have bal: "distinct (map ar_id (rd_accounts s)) \<longrightarrow>
      map_option ar_balance (select_by ar_id rid (rd_accounts s')) = Some (ar_balance r + cm_Amount c)"
    using account_of_visible(2) [of sh rid PlatformScopeSentinel r] r(1) s'
    by (auto simp: s1 sh account_rows_def)
  show ?thesis
    using r(1) bal unfolding all
    by (simp add: ListCommissionsByTenant_def SumPendingCommissionByTenant_def commission_rows_def rows)
qed

definition sample_platform_sale :: "(reseller_error + commission) \<times> resellers" where
  "sample_platform_sale = RecordCommission (shop_env ''*'' ''a'') ''r'' ''sale'' 1000 10 ''usd'' sample_resellers"

theorem platform_commission_is_invisible_witness:
  "case sample_platform_sale of (Inl _, _) \<Rightarrow> False
   | (Inr c, s') \<Rightarrow> ListCommissionsByTenant ''t'' ''t'' ''r'' s' = ListCommissionsByTenant ''t'' ''t'' ''r'' sample_resellers"
proof -
  have "\<not> isl (fst sample_platform_sale)" by code_simp
  then obtain c where "fst sample_platform_sale = Inr c" by (metis sum.collapse(2))
  then obtain s' where run: "sample_platform_sale = (Inr c, s')" by (metis surjective_pairing)
  have "ListCommissionsByTenant ''t'' ''t'' ''r'' s' = ListCommissionsByTenant ''t'' ''t'' ''r'' sample_resellers"
    by (rule conjunct1 [OF platform_commission_is_invisible [OF _ run [unfolded sample_platform_sale_def]]])
      (simp add: shop_env_def PlatformScopeSentinel_def)
  then show ?thesis by (simp add: run)
qed

text \<open>Under an encryption box whose \<open>Open\<close> undoes its \<open>Seal\<close>, no history of the service lets two
  shops have the same bot token, whatever their scopes: rows with the same decrypted token are of one tenant.\<close>

theorem shops_never_share_a_token:
  assumes law: "\<And>x enc. bx_Seal b x = Some enc \<Longrightarrow> bx_Open b enc = Some x"
    and envs: "list_all (\<lambda>(e, x). re_box e = Some b) xs" and init: "bots_ok b s"
    and q: "q \<in> set (rd_shop_bots (reseller_history xs s))" and r: "r \<in> set (rd_shop_bots (reseller_history xs s))"
    and same: "bx_Open b (sb_token_enc q) = bx_Open b (sb_token_enc r)"
  shows "sb_tenant_id q = sb_tenant_id r"
proof -
  have ok: "bots_ok b (reseller_history xs s)"
    using history_keeps [of "\<lambda>e. re_box e = Some b" "bots_ok b" xs s] bots_step [OF law] envs init by blast
  have same_hash: "sb_token_hash q = sb_token_hash r"
    using bots_okD [OF ok q] bots_okD [OF ok r] same by auto
  have "inj_on sb_token_hash (set (rd_shop_bots (reseller_history xs s)))"
    using ok by (simp add: bots_ok_def distinct_map)
  then have "q = r" by (rule inj_onD [OF _ same_hash q r])
  then show ?thesis by simp
qed

lemma sample_box_law: "bx_Seal sample_box x = Some enc \<Longrightarrow> bx_Open sample_box enc = Some x"
  by (auto simp: sample_box_def)

theorem shops_never_share_a_token_witness:
  "sb_tenant_id (hd (rd_shop_bots (reseller_history
      [(shop_env ''t'' ''a'', OpSetBot ''t'' (sample_bot sample_token ''https://x''))] sample_resellers))) = ''t''"
proof -
  let ?h = "[(shop_env ''t'' ''a'', OpSetBot ''t'' (sample_bot sample_token ''https://x''))]"
  have ne: "rd_shop_bots (reseller_history ?h sample_resellers) \<noteq> []" by code_simp
  have h: "hd (rd_shop_bots (reseller_history ?h sample_resellers)) \<in> set (rd_shop_bots (reseller_history ?h sample_resellers))"
    and l: "last (rd_shop_bots (reseller_history ?h sample_resellers)) \<in> set (rd_shop_bots (reseller_history ?h sample_resellers))"
    using ne by simp_all
  have "bx_Open sample_box (sb_token_enc (hd (rd_shop_bots (reseller_history ?h sample_resellers))))
      = bx_Open sample_box (sb_token_enc (last (rd_shop_bots (reseller_history ?h sample_resellers))))" by code_simp
  then have "sb_tenant_id (hd (rd_shop_bots (reseller_history ?h sample_resellers)))
      = sb_tenant_id (last (rd_shop_bots (reseller_history ?h sample_resellers)))"
    by (intro shops_never_share_a_token [OF sample_box_law _ _ h l])
      (simp_all add: shop_env_def conjunct2 [OF conjunct2 [OF sample_resellers_ok]])
  also have "\<dots> = ''t''" by code_simp
  finally show ?thesis .
qed

text \<open>C33. The API key that creating a tenant returns opens that tenant: the resolver finds it by the hash of
  the key, whatever the other headers say, as long as no other tenant has the same hash.\<close>

theorem new_api_key_resolves_its_tenant:
  assumes run: "re_CreateTenant e name domain ow s = (Inr (t, key), s')"
    and rand: "re_rand e = Some keyBytes" "length keyBytes = APIKeyLen"
    and sha: "length (re_sha256 e key) = 32" "re_sha256 e' = re_sha256 e"
    and fresh: "Some (HashAPIKey (re_sha256 e) key) \<notin> tr_api_key_hash ` set (rd_tenants s)"
    and up: "\<not> env_fault e' ''get tenant by key''"
  shows "TenantResolver e' key origin host s' = Inr (Some (t\<lparr>rec_flushed := False\<rparr>))
    \<and> tn_IsActive t \<and> tn_Name t = name \<and> length key = 64"
proof -
  let ?t = "(NewTenant (env_uuid e 0) (env_uuid e 1) name domain ow (env_now e))
    \<lparr>tn_APIKeyHash := HashAPIKey (re_sha256 e) (hex_encode keyBytes), tn_UpdatedAt := env_now e\<rparr>"
  have tx: "re_tx e (tx_bind (re_call e ''create tenant'' (tx_write (CreateTenantRow ?t))) (\<lambda>_.
      tx_bind (re_publish e ?t) (\<lambda>t'. tx_return (t', hex_encode keyBytes)))) s = (Inr (t, key), s')"
    using run by (simp add: re_CreateTenant_def GenerateAPIKey_def rand Let_def)
  then obtain s1 where row: "CreateTenantRow ?t s = Inr s1" and pub: "re_publish e ?t s1 = Inr (t, s')"
    and key: "key = hex_encode keyBytes"
    by (auto simp: RunInTx_ok_iff)
  have hash: "tr_api_key_hash (tenant_to_row ?t) = Some (HashAPIKey (re_sha256 e) key)"
    using sha(1) length_hex_encode [of "re_sha256 e key"]
    by (auto simp: tenant_to_row_def StrPtrOrNil_def HashAPIKey_def key)
  have rows: "rd_tenants s' = rd_tenants s @ [tenant_to_row ?t]"
    using CreateTenantRow_ok [OF row] re_publish_ok [OF pub] by auto
  have sel: "select_by tr_api_key_hash (Some (HashAPIKey (re_sha256 e) key)) (rd_tenants s') = Some (tenant_to_row ?t)"
    using fresh hash unfolding rows by (simp add: select_by_append select_by_None [symmetric] select_by_Cons)
  have t: "t = snd (DomainEvents ?t)"
    using PublishAll_ok [OF pub [unfolded re_publish_def]] by (rule conjunct1)
  have dom: "tenantRowToDomain (tenant_to_row ?t) = t\<lparr>rec_flushed := False\<rparr>"
    by (simp add: t tenantRowToDomain_def tenant_to_row_def DomainEvents_def NewTenant_def RecordEvent_def)
  have act: "tn_IsActive t" "tn_Name t = name"
    by (simp_all add: t DomainEvents_def NewTenant_def RecordEvent_def)
  have len: "length key = 64" by (simp add: key length_hex_encode rand APIKeyLen_def)
  then have "key \<noteq> []" by auto
  then show ?thesis
    using up sel dom act len
    by (simp add: TenantResolver_def ValidateAPIKey_def GetTenantByAPIKeyHash_def sha(2) tx_call_def tx_read_def)
qed

definition sample_new_tenant :: "(reseller_error + (tenant \<times> string)) \<times> resellers" where
  "sample_new_tenant = re_CreateTenant (shop_env ''*'' ''n'') ''shop'' ''shop.example'' None sample_resellers"

theorem new_api_key_resolves_its_tenant_witness:
  "case sample_new_tenant of (Inl _, _) \<Rightarrow> False
   | (Inr (t, key), s') \<Rightarrow> TenantResolver (shop_env ''*'' ''m'') key [] [] s' = Inr (Some (t\<lparr>rec_flushed := False\<rparr>))"
proof -
  have "\<not> isl (fst sample_new_tenant)" by code_simp
  then obtain p where "fst sample_new_tenant = Inr p" by (metis sum.collapse(2))
  then obtain t key s' where run: "sample_new_tenant = (Inr (t, key), s')" by (metis surjective_pairing)
  have "TenantResolver (shop_env ''*'' ''m'') key [] [] s' = Inr (Some (t\<lparr>rec_flushed := False\<rparr>))"
    by (rule conjunct1 [OF new_api_key_resolves_its_tenant [OF run [unfolded sample_new_tenant_def],
          where keyBytes = "replicate 32 0"]])
      (simp_all add: shop_env_def sample_resellers_def APIKeyLen_def HashAPIKey_def)
  then show ?thesis by (simp add: run)
qed

text \<open>Saving a bot's settings with an empty token keeps the stored token and its webhook secret and
  takes every other field from the request.\<close>

theorem empty_token_keeps_the_stored_one:
  assumes law: "\<And>x enc. bx_Seal b x = Some enc \<Longrightarrow> bx_Open b enc = Some x"
    and box: "re_box e1 = Some b" "re_box e2 = Some b" "re_box e3 = Some b"
    and set1: "SetShopBot e1 t i1 s = (Inr (), s1)" "bi_BotToken i1 \<noteq> []" "re_rand e1 = Some bytes"
    and set2: "SetShopBot e2 t i2 s1 = (Inr (), s2)" "bi_BotToken i2 = []"
    and read: "rls_visible (re_scope e3) (Some t)" "env_fault e3 = (\<lambda>_. False)"
  shows "GetShopBot e3 t s2 = Inr \<lparr>bt_Token = bi_BotToken i1, bt_WebhookSecret = hex_encode bytes,
       bt_CabinetURL = bi_CabinetURL i2, bt_BotUsername = [], bt_Enabled = bi_Enabled i2,
       bt_BotPluginSlug = bi_BotPlugin i2\<rparr>"
proof -
  let ?c = "\<lparr>bt_Token = bi_BotToken i1, bt_WebhookSecret = hex_encode bytes, bt_CabinetURL = bi_CabinetURL i1,
       bt_BotUsername = [], bt_Enabled = bi_Enabled i1, bt_BotPluginSlug = bi_BotPlugin i1\<rparr>"
  have up1: "bot_Upsert (Some b) (re_scope e1) t ?c s = Inr s1"
    using SetShopBot_token [OF set1] box(1) by simp
  obtain old where old: "bot_GetByTenant (Some b) (re_scope e2) t s1 = Inr old"
    and up2: "bot_Upsert (Some b) (re_scope e2) t \<lparr>bt_Token = bt_Token old, bt_WebhookSecret = bt_WebhookSecret old,
       bt_CabinetURL = bi_CabinetURL i2, bt_BotUsername = [], bt_Enabled = bi_Enabled i2,
       bt_BotPluginSlug = bi_BotPlugin i2\<rparr> s1 = Inr s2"
    using SetShopBot_keep [OF set2] box(2) by auto
  have "old = ?c" using Upsert_read [OF law up1 Upsert_visible [OF up2]] old by simp
  then show ?thesis
    using Upsert_read [OF law up2 read(1)] by (simp add: GetShopBot_def box(3) RunInTx_def tx_call_def tx_read_def read(2))
qed

theorem empty_token_keeps_the_stored_one_witness:
  "GetShopBot (shop_env ''t'' ''c'') ''t''
     (reseller_history [(shop_env ''t'' ''a'', OpSetBot ''t'' (sample_bot sample_token ''https://x'')),
                        (shop_env ''t'' ''b'', OpSetBot ''t'' (sample_bot [] ''https://y''))] sample_resellers)
   = Inr \<lparr>bt_Token = sample_token, bt_WebhookSecret = hex_encode (replicate 32 0), bt_CabinetURL = ''https://y'',
          bt_BotUsername = [], bt_Enabled = True, bt_BotPluginSlug = []\<rparr>"
proof -
  let ?one = "SetShopBot (shop_env ''t'' ''a'') ''t'' (sample_bot sample_token ''https://x'') sample_resellers"
  let ?two = "SetShopBot (shop_env ''t'' ''b'') ''t'' (sample_bot [] ''https://y'') (snd ?one)"
  have "fst ?one = Inr ()" by code_simp
  then have one: "?one = (Inr (), snd ?one)" by (metis surjective_pairing)
  have "fst ?two = Inr ()" by code_simp
  then have two: "?two = (Inr (), snd ?two)" by (metis surjective_pairing)
  have "GetShopBot (shop_env ''t'' ''c'') ''t'' (snd ?two)
   = Inr \<lparr>bt_Token = bi_BotToken (sample_bot sample_token ''https://x''), bt_WebhookSecret = hex_encode (replicate 32 0),
       bt_CabinetURL = bi_CabinetURL (sample_bot [] ''https://y''), bt_BotUsername = [],
       bt_Enabled = bi_Enabled (sample_bot [] ''https://y''), bt_BotPluginSlug = bi_BotPlugin (sample_bot [] ''https://y'')\<rparr>"
    by (rule empty_token_keeps_the_stored_one [OF sample_box_law _ _ _ one _ _ two])
      (simp_all add: shop_env_def sample_bot_def sample_token_def re_scope_def tx_scope_def rls_visible_def)
  then show ?thesis by (simp add: sample_bot_def)
qed

end
