(* ===== verification/Collections.thy ===== *)
theory Collections
  imports Scope
begin

text \<open>
  The document store of the plugins: \<open>pkg/pluginstore\<close> and \<open>adapter/postgres/collections_repo.go\<close>
  over the table \<open>plugins.collections\<close> with its policy (migrations 041 and 044). A document is read
  as the Go struct its collection holds; a JSON text that is not of that struct is \<open>None\<close>. Every method
  is a transaction of its own, so a sequence of calls keeps what the earlier ones wrote. Lemmas: what
  a call changes, and what a sequence of calls keeps.
\<close>

section \<open>Sequences of calls\<close>

text \<open>Unlike a transaction body, a sequence that stops with an error keeps its state.\<close>

type_synonym ('s, 'e, 'a) io = "'s \<Rightarrow> ('e + 'a) \<times> 's"

definition io_return :: "'a \<Rightarrow> ('s, 'e, 'a) io" where
  "io_return a s = (Inr a, s)"

definition io_fail :: "'e \<Rightarrow> ('s, 'e, 'a) io" where
  "io_fail e s = (Inl e, s)"

definition io_bind :: "('s, 'e, 'a) io \<Rightarrow> ('a \<Rightarrow> ('s, 'e, 'b) io) \<Rightarrow> ('s, 'e, 'b) io" where
  "io_bind m f s = (case m s of (Inl e, s') \<Rightarrow> (Inl e, s') | (Inr a, s') \<Rightarrow> f a s')"

lemma io_simps [simp]:
  "io_return a s = (Inr a, s)" "io_fail e s = (Inl e, s)"
  by (simp_all add: io_return_def io_fail_def)

lemma io_bind_ok [simp]:
  "io_bind m f s = (Inr b, s') \<longleftrightarrow> (\<exists>a s1. m s = (Inr a, s1) \<and> f a s1 = (Inr b, s'))"
  by (auto simp: io_bind_def split: prod.split sum.split)

lemma io_bind_step: "m s = (Inr a, s1) \<Longrightarrow> io_bind m f s = f a s1"
  by (simp add: io_bind_def)

lemma io_bind_stop: "m s = (Inl e, s1) \<Longrightarrow> io_bind m f s = (Inl e, s1)"
  by (simp add: io_bind_def)

text \<open>What every step keeps, the sequence keeps, wherever it stops.\<close>

lemma io_bind_keeps:
  assumes "I (snd (m s))" "\<And>a s1. m s = (Inr a, s1) \<Longrightarrow> I (snd (f a s1))"
  shows "I (snd (io_bind m f s))"
  using assms by (auto simp: io_bind_def split: prod.split sum.split)

text \<open>A loop over a slice.\<close>

fun io_each :: "('a \<Rightarrow> ('s, 'e, unit) io) \<Rightarrow> 'a list \<Rightarrow> ('s, 'e, unit) io" where
  "io_each f [] = io_return ()"
| "io_each f (x # xs) = io_bind (f x) (\<lambda>_. io_each f xs)"

section \<open>Documents\<close>

record 'd document =
  doc_ID :: string
  doc_Data :: "'d option"
  doc_TenantID :: "string option"
  doc_CreatedAt :: time
  doc_UpdatedAt :: time

datatype store_error = ErrDocumentNotFound | ErrStoreFailed string

text \<open>
  The environment of a call: \<open>se_ctx\<close> is the scope of the context, \<open>se_pool\<close> that of the pooled
  connection, \<open>env_uuid\<close> the identifiers the database draws, \<open>env_dbnow\<close> its clock.
\<close>

record store_env = tx_env +
  se_ctx :: string
  se_pool :: string

definition se_scope :: "('z store_env_scheme) \<Rightarrow> string" where
  "se_scope e = tx_scope (se_pool e) (se_ctx e)"

definition doc_visible :: "('z store_env_scheme) \<Rightarrow> 'd document \<Rightarrow> bool" where
  "doc_visible e d \<longleftrightarrow> rls_visible (se_scope e) (doc_TenantID d)"

text \<open>Newest first.\<close>

definition ListDocuments :: "('z store_env_scheme) \<Rightarrow> string \<Rightarrow> 'd document list \<Rightarrow> store_error + 'd document list" where
  "ListDocuments e l t =
     (if env_fault e l then Inl (ErrStoreFailed l)
      else Inr (sort_key (\<lambda>d. - doc_CreatedAt d) (filter (doc_visible e) t)))"

definition GetDocument :: "('z store_env_scheme) \<Rightarrow> string \<Rightarrow> string \<Rightarrow> 'd document list \<Rightarrow> store_error + 'd document" where
  "GetDocument e l i t =
     (if env_fault e l then Inl (ErrStoreFailed l)
      else MapErr ErrDocumentNotFound (select_by doc_ID i (filter (doc_visible e) t)))"

text \<open>The tenant of a new document is the scope's; the identifier is the \<open>k\<close>-th the database draws.\<close>

definition InsertDocument ::
    "('z store_env_scheme) \<Rightarrow> string \<Rightarrow> nat \<Rightarrow> 'd \<Rightarrow> 'd document list \<Rightarrow> store_error + ('d document \<times> 'd document list)" where
  "InsertDocument e l k x t =
     (case rls_stamp (se_scope e) of
        None \<Rightarrow> Inl (ErrStoreFailed l)
      | Some tenant \<Rightarrow>
          (let d = \<lparr>doc_ID = env_uuid e k, doc_Data = Some x, doc_TenantID = tenant,
                    doc_CreatedAt = env_dbnow e, doc_UpdatedAt = env_dbnow e\<rparr>
           in if env_fault e l then Inl (ErrStoreFailed l)
              else rbind (insert_unique doc_ID (ErrStoreFailed l) d t) (\<lambda>t'. Inr (d, t'))))"

definition UpdateDocument ::
    "('z store_env_scheme) \<Rightarrow> string \<Rightarrow> string \<Rightarrow> 'd \<Rightarrow> 'd document list \<Rightarrow> store_error + 'd document list" where
  "UpdateDocument e l i x t =
     (if env_fault e l then Inl (ErrStoreFailed l)
      else if list_ex (\<lambda>d. doc_visible e d \<and> doc_ID d = i) t
      then Inr (map (\<lambda>d. if doc_visible e d \<and> doc_ID d = i
                         then d\<lparr>doc_Data := Some x, doc_UpdatedAt := env_dbnow e\<rparr> else d) t)
      else Inl ErrDocumentNotFound)"

definition DeleteDocument :: "('z store_env_scheme) \<Rightarrow> string \<Rightarrow> string \<Rightarrow> 'd document list \<Rightarrow> store_error + 'd document list" where
  "DeleteDocument e l i t =
     (if env_fault e l then Inl (ErrStoreFailed l)
      else if list_ex (\<lambda>d. doc_visible e d \<and> doc_ID d = i) t
      then Inr (filter (\<lambda>d. \<not> (doc_visible e d \<and> doc_ID d = i)) t)
      else Inl ErrDocumentNotFound)"

definition DeleteCollection :: "('z store_env_scheme) \<Rightarrow> string \<Rightarrow> 'd document list \<Rightarrow> store_error + 'd document list" where
  "DeleteCollection e l t =
     (if env_fault e l then Inl (ErrStoreFailed l) else Inr (filter (\<lambda>d. \<not> doc_visible e d) t))"

section \<open>What a call does\<close>

lemma set_ListDocuments: "ListDocuments e l t = Inr ds \<Longrightarrow> set ds = {d \<in> set t. doc_visible e d}"
  by (auto simp: ListDocuments_def split: if_splits)

lemma mset_ListDocuments_length:
  "ListDocuments e l t = Inr ds \<Longrightarrow> length ds = length (filter (doc_visible e) t)"
  by (auto simp: ListDocuments_def split: if_splits)

lemma InsertDocument_ok:
  assumes "InsertDocument e l k x t = Inr (d, t')"
  shows "t' = t @ [d]" "doc_Data d = Some x" "doc_ID d = env_uuid e k" "doc_ID d \<notin> doc_ID ` set t" "doc_visible e d"
  using assms by (auto simp: InsertDocument_def Let_def insert_unique_def doc_visible_def rls_stamp_visible
      split: option.splits if_splits)

lemma UpdateDocument_ok:
  "UpdateDocument e l i x t = Inr t' \<Longrightarrow>
     t' = map (\<lambda>d. if doc_visible e d \<and> doc_ID d = i
                   then d\<lparr>doc_Data := Some x, doc_UpdatedAt := env_dbnow e\<rparr> else d) t"
  by (auto simp: UpdateDocument_def split: if_splits)

lemma UpdateDocument_ids: "UpdateDocument e l i x t = Inr t' \<Longrightarrow> map doc_ID t' = map doc_ID t"
  by (auto dest!: UpdateDocument_ok)

end
