(* ===== verification/Balance.thy ===== *)
theory Balance
  imports Collections
begin

text \<open>
  The balance plugin, \<open>internal/builtin/balance\<close>: two wallets per user (money and bonus) with an
  append-only ledger and top-up requests, all three in the document store. \<open>service.go\<close> is the
  ledger, \<open>payment_handler.go\<close>, \<open>cashback_handler.go\<close> and \<open>expiry_worker.go\<close> use it, \<open>handler.go\<close> and
  \<open>admin.go\<close> are the endpoints. Nothing here is one transaction: a failure between two calls leaves
  the first one's effect. Amounts are \<open>int64\<close> and wrap.
\<close>

section \<open>Types (types.go)\<close>

datatype wallet_kind = WalletMoney | WalletBonus

datatype entry_kind =
    EntryTopUp | EntryConsumption | EntryCashback | EntryRefund | EntryExpire | EntryAdjust
  | EntryTransfer | EntryHold | EntryRelease

datatype topup_status = TopUpPending | TopUpProcessing | TopUpCompleted | TopUpFailed | TopUpCancelled

record ledger_entry =
  le_ID :: string
  le_UserID :: string
  le_Wallet :: wallet_kind
  le_AmountCents :: int64
  le_Currency :: string
  le_Kind :: entry_kind
  le_SourceType :: string
  le_SourceID :: string
  le_ReferenceID :: string
  le_BalanceAfter :: int64
  le_ExpiresAt :: "time option"
  le_CreatedAt :: time
  le_CreatedBy :: string

record wallet =
  wa_UserID :: string
  wa_Kind :: wallet_kind
  wa_Currency :: string
  wa_BalanceCents :: int64
  wa_HoldCents :: int64
  wa_AvailableCents :: int64
  wa_UpdatedAt :: time

record topup =
  tu_ID :: string
  tu_UserID :: string
  tu_AmountCents :: int64
  tu_Currency :: string
  tu_Status :: topup_status
  tu_PaymentMethod :: string
  tu_CreatedAt :: time
  tu_CompletedAt :: "time option"

record balances =
  bs_wallets :: "wallet document list"
  bs_ledger :: "ledger_entry document list"
  bs_topups :: "topup document list"

datatype balance_error =
    ErrAmountZero | ErrReferenceRequired | ErrInsufficientBalance int64 int64
  | ErrWalletMissing | ErrStore store_error

section \<open>Store calls on the state\<close>

definition on_wallets :: "(wallet document list \<Rightarrow> store_error + ('a \<times> wallet document list)) \<Rightarrow> (balances, balance_error, 'a) io" where
  "on_wallets f s = (case f (bs_wallets s) of Inl er \<Rightarrow> (Inl (ErrStore er), s) | Inr (a, t) \<Rightarrow> (Inr a, s\<lparr>bs_wallets := t\<rparr>))"

definition on_ledger :: "(ledger_entry document list \<Rightarrow> store_error + ('a \<times> ledger_entry document list)) \<Rightarrow> (balances, balance_error, 'a) io" where
  "on_ledger f s = (case f (bs_ledger s) of Inl er \<Rightarrow> (Inl (ErrStore er), s) | Inr (a, t) \<Rightarrow> (Inr a, s\<lparr>bs_ledger := t\<rparr>))"

definition on_topups :: "(topup document list \<Rightarrow> store_error + ('a \<times> topup document list)) \<Rightarrow> (balances, balance_error, 'a) io" where
  "on_topups f s = (case f (bs_topups s) of Inl er \<Rightarrow> (Inl (ErrStore er), s) | Inr (a, t) \<Rightarrow> (Inr a, s\<lparr>bs_topups := t\<rparr>))"

definition reading :: "('t \<Rightarrow> store_error + 'a) \<Rightarrow> 't \<Rightarrow> store_error + ('a \<times> 't)" where
  "reading f t = rbind (f t) (\<lambda>a. Inr (a, t))"

definition writing :: "('t \<Rightarrow> store_error + 't) \<Rightarrow> 't \<Rightarrow> store_error + (unit \<times> 't)" where
  "writing f t = rbind (f t) (\<lambda>t'. Inr ((), t'))"

section \<open>The service (service.go)\<close>

text \<open>The documents of a list that decode.\<close>

definition decoded :: "'d document list \<Rightarrow> (string \<times> 'd) list" where
  "decoded ds = List.map_filter (\<lambda>d. map_option (\<lambda>x. (doc_ID d, x)) (doc_Data d)) ds"

definition GetWallets :: "('z store_env_scheme) \<Rightarrow> string \<Rightarrow> string \<Rightarrow> (balances, balance_error, wallet list) io" where
  "GetWallets e l userID =
     io_bind (on_wallets (reading (ListDocuments e l))) (\<lambda>docs.
       io_return (map (\<lambda>(_, w). w\<lparr>wa_AvailableCents := wa_BalanceCents w - wa_HoldCents w\<rparr>)
         (filter (\<lambda>(_, w). wa_UserID w = userID) (decoded docs))))"

definition GetAvailableBalance ::
    "('z store_env_scheme) \<Rightarrow> string \<Rightarrow> string \<Rightarrow> wallet_kind \<Rightarrow> (balances, balance_error, int64) io" where
  "GetAvailableBalance e l userID kind =
     io_bind (GetWallets e l userID) (\<lambda>ws.
       io_return (case find (\<lambda>w. wa_Kind w = kind) ws of None \<Rightarrow> 0 | Some w \<Rightarrow> wa_AvailableCents w))"

definition same_wallet :: "string \<Rightarrow> wallet_kind \<Rightarrow> string \<times> wallet \<Rightarrow> bool" where
  "same_wallet userID kind p \<longleftrightarrow> wa_UserID (snd p) = userID \<and> wa_Kind (snd p) = kind"

text \<open>The first matching document is updated; without one a wallet is created.\<close>

definition updateWalletBalance ::
    "('z store_env_scheme) \<Rightarrow> string \<Rightarrow> wallet_kind \<Rightarrow> int64 \<Rightarrow> string \<Rightarrow> (balances, balance_error, unit) io" where
  "updateWalletBalance e userID kind deltaCents currency =
     io_bind (on_wallets (reading (ListDocuments e ''list wallets''))) (\<lambda>docs.
       case find (same_wallet userID kind) (decoded docs) of
         Some (i, w) \<Rightarrow>
           (let b = wa_BalanceCents w + deltaCents in
            on_wallets (writing (UpdateDocument e ''update wallet'' i
              (w\<lparr>wa_BalanceCents := b, wa_AvailableCents := b - wa_HoldCents w, wa_UpdatedAt := env_now e\<rparr>))))
       | None \<Rightarrow>
           io_bind (on_wallets (InsertDocument e ''insert wallet'' 1
             \<lparr>wa_UserID = userID, wa_Kind = kind, wa_Currency = currency, wa_BalanceCents = deltaCents,
              wa_HoldCents = 0, wa_AvailableCents = deltaCents, wa_UpdatedAt = env_now e\<rparr>)) (\<lambda>_.
           io_return ()))"

definition updateWalletHold ::
    "('z store_env_scheme) \<Rightarrow> string \<Rightarrow> wallet_kind \<Rightarrow> int64 \<Rightarrow> (balances, balance_error, unit) io" where
  "updateWalletHold e userID kind deltaCents =
     io_bind (on_wallets (reading (ListDocuments e ''list wallets for hold''))) (\<lambda>docs.
       case find (same_wallet userID kind) (decoded docs) of
         Some (i, w) \<Rightarrow>
           (let h0 = wa_HoldCents w + deltaCents; h = (if h0 <s 0 then 0 else h0) in
            on_wallets (writing (UpdateDocument e ''update hold'' i
              (w\<lparr>wa_HoldCents := h, wa_AvailableCents := wa_BalanceCents w - h, wa_UpdatedAt := env_now e\<rparr>))))
       | None \<Rightarrow> io_fail ErrWalletMissing)"

definition same_entry :: "ledger_entry \<Rightarrow> string \<times> ledger_entry \<Rightarrow> bool" where
  "same_entry entry p \<longleftrightarrow>
     le_UserID (snd p) = le_UserID entry \<and> le_Wallet (snd p) = le_Wallet entry
     \<and> le_SourceType (snd p) = le_SourceType entry \<and> le_ReferenceID (snd p) = le_ReferenceID entry"

text \<open>
  An entry with the same reference is returned as it was stored, and nothing else happens. The final
  read of the balance ignores its error.
\<close>

definition CreateEntry :: "('z store_env_scheme) \<Rightarrow> ledger_entry \<Rightarrow> (balances, balance_error, ledger_entry) io" where
  "CreateEntry e entry =
     (if le_AmountCents entry = 0 then io_fail ErrAmountZero
      else if le_ReferenceID entry = [] then io_fail ErrReferenceRequired
      else io_bind (on_ledger (reading (ListDocuments e ''list ledger''))) (\<lambda>docs.
        case find (same_entry entry) (decoded docs) of
          Some (_, existing) \<Rightarrow> io_return existing
        | None \<Rightarrow>
            io_bind (if le_AmountCents entry <s 0
                     then io_bind (GetAvailableBalance e ''read balance'' (le_UserID entry) (le_Wallet entry)) (\<lambda>available.
                       if available + le_AmountCents entry <s 0
                       then io_fail (ErrInsufficientBalance available (- le_AmountCents entry)) else io_return ())
                     else io_return ()) (\<lambda>_.
            let entry1 = entry\<lparr>le_CreatedAt := (if le_CreatedAt entry = zero_time then env_now e else le_CreatedAt entry),
                               le_CreatedBy := (if le_CreatedBy entry = [] then ''system'' else le_CreatedBy entry)\<rparr> in
            io_bind (on_ledger (InsertDocument e ''insert entry'' 0 entry1)) (\<lambda>doc.
            io_bind (updateWalletBalance e (le_UserID entry1) (le_Wallet entry1) (le_AmountCents entry1) (le_Currency entry1)) (\<lambda>_.
            \<lambda>s. (case GetAvailableBalance e ''read balance after'' (le_UserID entry1) (le_Wallet entry1) s of
                   (Inl _, s') \<Rightarrow> (Inr (entry1\<lparr>le_ID := doc_ID doc, le_BalanceAfter := 0\<rparr>), s')
                 | (Inr available, s') \<Rightarrow> (Inr (entry1\<lparr>le_ID := doc_ID doc, le_BalanceAfter := available\<rparr>), s')))))))"

definition new_entry ::
    "string \<Rightarrow> wallet_kind \<Rightarrow> int64 \<Rightarrow> string \<Rightarrow> entry_kind \<Rightarrow> string \<Rightarrow> string \<Rightarrow> string \<Rightarrow> ledger_entry" where
  "new_entry userID kind amount currency k sourceType sourceID referenceID =
     \<lparr>le_ID = [], le_UserID = userID, le_Wallet = kind, le_AmountCents = amount, le_Currency = currency,
      le_Kind = k, le_SourceType = sourceType, le_SourceID = sourceID, le_ReferenceID = referenceID,
      le_BalanceAfter = 0, le_ExpiresAt = None, le_CreatedAt = zero_time, le_CreatedBy = []\<rparr>"

definition Spend ::
    "('z store_env_scheme) \<Rightarrow> string \<Rightarrow> wallet_kind \<Rightarrow> int64 \<Rightarrow> string \<Rightarrow> string \<Rightarrow> (balances, balance_error, ledger_entry) io" where
  "Spend e userID kind amountCents currency invoiceID =
     CreateEntry e (new_entry userID kind (- amountCents) currency EntryConsumption ''invoice'' invoiceID
       (''consumption_'' @ invoiceID))"

definition Hold ::
    "('z store_env_scheme) \<Rightarrow> string \<Rightarrow> wallet_kind \<Rightarrow> int64 \<Rightarrow> string \<Rightarrow> string \<Rightarrow> (balances, balance_error, ledger_entry) io" where
  "Hold e userID kind amountCents currency referenceID =
     io_bind (GetAvailableBalance e ''read balance for hold'' userID kind) (\<lambda>available.
       if available <s amountCents then io_fail (ErrInsufficientBalance available amountCents)
       else io_bind (updateWalletHold e userID kind amountCents) (\<lambda>_.
         CreateEntry e (new_entry userID kind (- amountCents) currency EntryHold ''hold'' [] (''hold_'' @ referenceID))))"

definition ReleaseHold ::
    "('z store_env_scheme) \<Rightarrow> string \<Rightarrow> wallet_kind \<Rightarrow> int64 \<Rightarrow> string \<Rightarrow> string \<Rightarrow> (balances, balance_error, ledger_entry) io" where
  "ReleaseHold e userID kind amountCents currency referenceID =
     io_bind (updateWalletHold e userID kind (- amountCents)) (\<lambda>_.
       CreateEntry e (new_entry userID kind amountCents currency EntryRelease ''hold'' [] (''release_'' @ referenceID)))"

section \<open>Payments, cashback and expiry\<close>

text \<open>\<open>payment_handler.go\<close>: a method that is no balance method is left to other plugins.\<close>

record payment_charge_request =
  pq_InvoiceID :: string
  pq_Amount :: int64
  pq_Currency :: string
  pq_UserID :: string
  pq_PaymentMethod :: string

record payment_charge_result =
  pz_Provider :: string
  pz_ExternalID :: string
  pz_Status :: string

definition resolveWalletKind :: "string \<Rightarrow> wallet_kind option" where
  "resolveWalletKind m =
     (if m = ''balance'' \<or> m = ''balance_money'' then Some WalletMoney
      else if m = ''balance_bonus'' then Some WalletBonus else None)"

definition HandleCreateCharge ::
    "('z store_env_scheme) \<Rightarrow> payment_charge_request \<Rightarrow> (balances, balance_error, payment_charge_result option) io" where
  "HandleCreateCharge e req =
     (case resolveWalletKind (pq_PaymentMethod req) of
        None \<Rightarrow> io_return None
      | Some kind \<Rightarrow>
          io_bind (Spend e (pq_UserID req) kind (pq_Amount req) (pq_Currency req) (pq_InvoiceID req)) (\<lambda>entry.
            io_return (Some \<lparr>pz_Provider = ''balance'', pz_ExternalID = le_ID entry, pz_Status = ''completed''\<rparr>)))"

text \<open>\<open>cashback_handler.go\<close>: basis points of the paid amount, rounded towards zero, into the bonus wallet.\<close>

record cashback_config =
  cf_Enabled :: bool
  cf_PercentBP :: int64
  cf_MinInvoiceCents :: int64
  cf_ExcludedPlanIDs :: "string list"
  cf_BonusExpiryDays :: int

record invoice_paid_payload =
  ip_InvoiceID :: string
  ip_UserID :: string
  ip_AmountCents :: int64
  ip_Currency :: string
  ip_PlanID :: string

text \<open>\<open>strings.EqualFold\<close> on ASCII text.\<close>

definition ascii_lower :: "char \<Rightarrow> char" where
  "ascii_lower c = (let n = of_char c :: nat in if 65 \<le> n \<and> n \<le> 90 then char_of (n + 32) else c)"

definition isExcludedPlan :: "cashback_config \<Rightarrow> string \<Rightarrow> bool" where
  "isExcludedPlan cf planID = list_ex (\<lambda>x. map ascii_lower x = map ascii_lower planID) (cf_ExcludedPlanIDs cf)"

definition BasisPoints :: int64 where "BasisPoints = 10000"

definition cashback_cents :: "cashback_config \<Rightarrow> int64 \<Rightarrow> int64" where
  "cashback_cents cf amount = go_div (amount * cf_PercentBP cf) BasisPoints"

definition OnInvoicePaid ::
    "cashback_config \<Rightarrow> ('z store_env_scheme) \<Rightarrow> invoice_paid_payload \<Rightarrow> (balances, balance_error, unit) io" where
  "OnInvoicePaid cf e v =
     (if \<not> cf_Enabled cf \<or> ip_AmountCents v <s cf_MinInvoiceCents cf \<or> isExcludedPlan cf (ip_PlanID v)
         \<or> cashback_cents cf (ip_AmountCents v) \<le>s 0
      then io_return ()
      else io_bind (CreateEntry e
             ((new_entry (ip_UserID v) WalletBonus (cashback_cents cf (ip_AmountCents v)) (ip_Currency v) EntryCashback
                 ''invoice'' (ip_InvoiceID v) (''cashback_'' @ ip_InvoiceID v))
              \<lparr>le_ExpiresAt := (if 0 < cf_BonusExpiryDays cf
                  then Some (env_now e + cf_BonusExpiryDays cf * 24 * ns_per_hour) else None)\<rparr>)) (\<lambda>_. io_return ()))"

text \<open>
  \<open>expiry_worker.go\<close>: the ledger is listed once; an entry whose compensation fails is skipped. The
  environment of the \<open>k\<close>-th compensation is \<open>envs k\<close>, as each draws identifiers of its own.
\<close>

definition expires_now :: "time \<Rightarrow> string set \<Rightarrow> string \<times> ledger_entry \<Rightarrow> bool" where
  "expires_now now refs p \<longleftrightarrow>
     le_Wallet (snd p) = WalletBonus
     \<and> (case le_ExpiresAt (snd p) of None \<Rightarrow> False | Some t \<Rightarrow> \<not> After t now)
     \<and> 0 <s le_AmountCents (snd p) \<and> (''expire_'' @ fst p) \<notin> refs"

definition compensating :: "string \<times> ledger_entry \<Rightarrow> ledger_entry" where
  "compensating p =
     new_entry (le_UserID (snd p)) WalletBonus (- le_AmountCents (snd p)) (le_Currency (snd p)) EntryExpire
       ''expire'' (fst p) (''expire_'' @ fst p)"

fun expire_each :: "(nat \<Rightarrow> store_env) \<Rightarrow> nat \<Rightarrow> (string \<times> ledger_entry) list \<Rightarrow> balances \<Rightarrow> nat \<times> balances" where
  "expire_each envs k [] s = (0, s)"
| "expire_each envs k (p # ps) s =
     (case CreateEntry (envs k) (compensating p) s of
        (Inl _, s') \<Rightarrow> expire_each envs (Suc k) ps s'
      | (Inr _, s') \<Rightarrow> (let (n, s'') = expire_each envs (Suc k) ps s' in (Suc n, s'')))"

definition ExpiryRun :: "store_env \<Rightarrow> (nat \<Rightarrow> store_env) \<Rightarrow> balances \<Rightarrow> (balance_error + nat) \<times> balances" where
  "ExpiryRun e envs s =
     (case on_ledger (reading (ListDocuments e ''list ledger entries'')) s of
        (Inl er, s') \<Rightarrow> (Inl er, s')
      | (Inr docs, s') \<Rightarrow>
          (let es = decoded docs;
               refs = set (map (\<lambda>p. le_ReferenceID (snd p)) (filter (\<lambda>p. le_Kind (snd p) = EntryExpire) es));
               (n, s'') = expire_each envs 0 (filter (expires_now (env_now e) refs) es) s'
           in (Inr n, s'')))"

section \<open>Configuration values (handler.go)\<close>

definition digit_val :: "char \<Rightarrow> nat option" where
  "digit_val c = (let n = of_char c :: nat in if 48 \<le> n \<and> n \<le> 57 then Some (n - 48) else None)"

fun digits_val :: "nat \<Rightarrow> string \<Rightarrow> nat option" where
  "digits_val acc [] = Some acc"
| "digits_val acc (c # cs) = (case digit_val c of None \<Rightarrow> None | Some d \<Rightarrow> digits_val (10 * acc + d) cs)"

text \<open>\<open>strconv.ParseInt(s, 10, 64)\<close>: a sign, then digits, within the range.\<close>

definition ParseInt :: "string \<Rightarrow> int64 option" where
  "ParseInt s =
     (let (neg, ds) = (case s of [] \<Rightarrow> (False, []) | c # cs \<Rightarrow>
            if c = CHR ''-'' then (True, cs) else if c = CHR ''+'' then (False, cs) else (False, s))
      in if ds = [] then None
         else case digits_val 0 ds of
           None \<Rightarrow> None
         | Some n \<Rightarrow> (let i = (if neg then - int n else int n) in if in_int64 i then Some (word_of_int i) else None))"

definition configInt64 :: "(string \<rightharpoonup> string) \<Rightarrow> string \<Rightarrow> int64 \<Rightarrow> int64" where
  "configInt64 cfg key fallback =
     (case cfg key of None \<Rightarrow> fallback
      | Some raw \<Rightarrow> if raw = [] then fallback else (case ParseInt raw of None \<Rightarrow> fallback | Some v \<Rightarrow> v))"

definition configString :: "(string \<rightharpoonup> string) \<Rightarrow> string \<Rightarrow> string \<Rightarrow> string" where
  "configString cfg key fallback = (case cfg key of None \<Rightarrow> fallback | Some v \<Rightarrow> if v = [] then fallback else v)"

text \<open>\<open>strings.Split\<close> at commas and \<open>strings.TrimSpace\<close> of ASCII white space.\<close>

fun split_commas :: "string \<Rightarrow> string \<Rightarrow> string list" where
  "split_commas acc [] = [rev acc]"
| "split_commas acc (c # cs) = (if c = CHR '','' then rev acc # split_commas [] cs else split_commas (c # acc) cs)"

definition is_space :: "char \<Rightarrow> bool" where
  "is_space c \<longleftrightarrow> (of_char c :: nat) \<in> {9, 10, 11, 12, 13, 32}"

definition TrimSpace :: "string \<Rightarrow> string" where
  "TrimSpace s = rev (dropWhile is_space (rev (dropWhile is_space s)))"

definition configStringSlice :: "(string \<rightharpoonup> string) \<Rightarrow> string \<Rightarrow> string list" where
  "configStringSlice cfg key =
     (case cfg key of None \<Rightarrow> []
      | Some raw \<Rightarrow> if raw = [] then [] else filter (\<lambda>p. p \<noteq> []) (map TrimSpace (split_commas [] raw)))"

definition configInt64Slice :: "(string \<rightharpoonup> string) \<Rightarrow> string \<Rightarrow> int64 list" where
  "configInt64Slice cfg key =
     (case cfg key of None \<Rightarrow> []
      | Some raw \<Rightarrow> if raw = [] then [] else List.map_filter (\<lambda>p. ParseInt (TrimSpace p)) (split_commas [] raw))"

definition defaultLimit :: nat where "defaultLimit = 50"
definition maxLimit :: nat where "maxLimit = 200"

definition parseLimit :: "string \<Rightarrow> nat" where
  "parseLimit raw =
     (if raw = [] then defaultLimit
      else case ParseInt raw of
        None \<Rightarrow> defaultLimit
      | Some v \<Rightarrow> if v \<le>s 0 then defaultLimit else if word_of_nat maxLimit <s v then maxLimit else unat v)"

section \<open>User endpoints (handler.go)\<close>

text \<open>An endpoint answers \<open>Inl\<close> the HTTP status of an error or \<open>Inr\<close> the body of a success.\<close>

definition store_status :: "balance_error \<Rightarrow> nat" where
  "store_status er = (if er = ErrStore ErrDocumentNotFound then 404 else 500)"

definition io_status :: "(balance_error \<Rightarrow> nat) \<Rightarrow> (balances, balance_error, 'a) io \<Rightarrow> (balances, nat, 'a) io" where
  "io_status f m s = (case m s of (Inl er, s') \<Rightarrow> (Inl (f er), s') | (Inr a, s') \<Rightarrow> (Inr a, s'))"

record wallet_info =
  wi_Kind :: wallet_kind
  wi_BalanceCents :: int64
  wi_HoldCents :: int64
  wi_AvailableCents :: int64

definition has_kind :: "wallet_kind \<Rightarrow> wallet_info list \<Rightarrow> bool" where
  "has_kind k ws = list_ex (\<lambda>w. wi_Kind w = k) ws"

definition add_missing :: "wallet_kind \<Rightarrow> wallet_info list \<Rightarrow> wallet_info list" where
  "add_missing k ws =
     (if has_kind k ws then ws
      else ws @ [\<lparr>wi_Kind = k, wi_BalanceCents = 0, wi_HoldCents = 0, wi_AvailableCents = 0\<rparr>])"

record balance_response =
  br_Currency :: string
  br_Wallets :: "wallet_info list"
  br_TopUpPresets :: "int64 list"
  br_TopUpProviders :: "string list"
  br_CanTopUp :: bool

definition GetMyBalance ::
    "('z store_env_scheme) \<Rightarrow> (string \<rightharpoonup> string) \<Rightarrow> string \<Rightarrow> (balances, nat, balance_response) io" where
  "GetMyBalance e cfg uid =
     (if uid = [] then io_fail 422
      else io_bind (io_status (\<lambda>_. 500) (on_wallets (reading (ListDocuments e ''list wallets'')))) (\<lambda>docs.
        let own = map (\<lambda>(_, w). \<lparr>wi_Kind = wa_Kind w, wi_BalanceCents = wa_BalanceCents w,
                                 wi_HoldCents = wa_HoldCents w, wi_AvailableCents = wa_AvailableCents w\<rparr>)
                    (filter (\<lambda>(_, w). wa_UserID w = uid) (decoded docs));
            providers = configStringSlice cfg ''topup_providers''
        in io_return \<lparr>br_Currency = configString cfg ''default_currency'' ''USD'',
             br_Wallets = add_missing WalletBonus (add_missing WalletMoney own),
             br_TopUpPresets = configInt64Slice cfg ''topup_presets_cents'', br_TopUpProviders = providers,
             br_CanTopUp = (providers \<noteq> [])\<rparr>))"

text \<open>The documents behind the cursor; an unknown cursor leaves none.\<close>

fun past_cursor :: "string \<Rightarrow> 'd document list \<Rightarrow> 'd document list" where
  "past_cursor cursor [] = []"
| "past_cursor cursor (d # ds) = (if doc_ID d = cursor then ds else past_cursor cursor ds)"

definition ListMyTransactions ::
    "('z store_env_scheme) \<Rightarrow> string \<Rightarrow> string \<Rightarrow> string \<Rightarrow> (balances, nat, ledger_entry list \<times> string) io" where
  "ListMyTransactions e uid rawLimit cursor =
     (if uid = [] then io_fail 422
      else io_bind (io_status (\<lambda>_. 500) (on_ledger (reading (ListDocuments e ''list ledger'')))) (\<lambda>docs.
        let limit = parseLimit rawLimit;
            behind = (if cursor = [] then docs else past_cursor cursor docs);
            entries = take limit (map (\<lambda>(i, x). x\<lparr>le_ID := i\<rparr>)
              (filter (\<lambda>(_, x). le_UserID x = uid) (decoded behind)))
        in io_return (entries, if length entries = limit then le_ID (last entries) else [])))"

record topup_request =
  tq_AmountCents :: int64
  tq_PaymentMethod :: string

definition CreateTopUp ::
    "('z store_env_scheme) \<Rightarrow> (string \<rightharpoonup> string) \<Rightarrow> string \<Rightarrow> topup_request \<Rightarrow> (balances, nat, topup) io" where
  "CreateTopUp e cfg uid req =
     (if uid = [] then io_fail 422
      else if tq_AmountCents req <s configInt64 cfg ''money_min_topup_cents'' 100 then io_fail 422
      else if configInt64 cfg ''money_max_topup_cents'' 1000000 <s tq_AmountCents req then io_fail 422
      else if tq_PaymentMethod req = [] then io_fail 422
      else let t = \<lparr>tu_ID = env_uuid e 1, tu_UserID = uid, tu_AmountCents = tq_AmountCents req,
                    tu_Currency = configString cfg ''default_currency'' ''USD'', tu_Status = TopUpPending,
                    tu_PaymentMethod = tq_PaymentMethod req, tu_CreatedAt = env_now e, tu_CompletedAt = None\<rparr>
           in io_bind (io_status (\<lambda>_. 500) (on_topups (InsertDocument e ''insert topup'' 0 t))) (\<lambda>doc.
                io_return (t\<lparr>tu_ID := doc_ID doc\<rparr>)))"

definition not_owner :: "string \<Rightarrow> topup \<Rightarrow> bool" where
  "not_owner uid t \<longleftrightarrow> uid \<noteq> [] \<and> tu_UserID t \<noteq> [] \<and> tu_UserID t \<noteq> uid"

text \<open>Reading a top-up document and decoding it.\<close>

definition load_topup :: "('z store_env_scheme) \<Rightarrow> string \<Rightarrow> (balances, nat, topup) io" where
  "load_topup e topupID =
     (if topupID = [] then io_fail 422
      else io_bind (io_status store_status (on_topups (reading (GetDocument e ''get topup'' topupID)))) (\<lambda>doc.
        case doc_Data doc of None \<Rightarrow> io_fail 500 | Some t \<Rightarrow> io_return t))"

definition save_topup :: "('z store_env_scheme) \<Rightarrow> string \<Rightarrow> topup \<Rightarrow> (balances, nat, unit) io" where
  "save_topup e topupID t = io_status (\<lambda>_. 500) (on_topups (writing (UpdateDocument e ''update topup'' topupID t)))"

definition GetTopUp :: "('z store_env_scheme) \<Rightarrow> string \<Rightarrow> string \<Rightarrow> (balances, nat, topup) io" where
  "GetTopUp e uid topupID =
     io_bind (load_topup e topupID) (\<lambda>t.
       if not_owner uid t then io_fail 404 else io_return (t\<lparr>tu_ID := topupID\<rparr>))"

definition CancelTopUp :: "('z store_env_scheme) \<Rightarrow> string \<Rightarrow> string \<Rightarrow> (balances, nat, topup) io" where
  "CancelTopUp e uid topupID =
     io_bind (load_topup e topupID) (\<lambda>t.
       if not_owner uid t then io_fail 404
       else if tu_Status t \<noteq> TopUpPending then io_fail 422
       else let t' = t\<lparr>tu_Status := TopUpCancelled\<rparr> in
            io_bind (save_topup e topupID t') (\<lambda>_. io_return (t'\<lparr>tu_ID := topupID\<rparr>)))"

section \<open>Administration (admin.go)\<close>

definition compact_timestamp :: "time \<Rightarrow> string" where
  "compact_timestamp t =
     pad_digits 4 (civil_year t) @ pad_digits 2 (civil_month t) @ pad_digits 2 (civil_day t)
     @ pad_digits 2 (t div ns_per_hour mod 24) @ pad_digits 2 (t div (60 * 10 ^ 9) mod 60)
     @ pad_digits 2 (t div 10 ^ 9 mod 60)"

definition wallet_kind_of :: "string \<Rightarrow> wallet_kind option" where
  "wallet_kind_of s = (if s = ''money'' then Some WalletMoney else if s = ''bonus'' then Some WalletBonus else None)"

definition insert_entry :: "('z store_env_scheme) \<Rightarrow> string \<Rightarrow> nat \<Rightarrow> ledger_entry \<Rightarrow> (balances, nat, string) io" where
  "insert_entry e l k x =
     io_bind (io_status (\<lambda>_. 500) (on_ledger (InsertDocument e l k x))) (\<lambda>doc. io_return (doc_ID doc))"

record adjust_request =
  aq_WalletKind :: string
  aq_AmountCents :: int64

definition AdminAdjust :: "('z store_env_scheme) \<Rightarrow> string \<Rightarrow> adjust_request \<Rightarrow> (balances, nat, string) io" where
  "AdminAdjust e userID req =
     (if userID = [] \<or> aq_AmountCents req = 0 then io_fail 422
      else case wallet_kind_of (aq_WalletKind req) of
        None \<Rightarrow> io_fail 422
      | Some kind \<Rightarrow>
          insert_entry e ''insert adjustment'' 0
            ((new_entry userID kind (aq_AmountCents req) [] EntryAdjust ''admin_adjust'' []
                (''adjust_'' @ compact_timestamp (env_now e)))
             \<lparr>le_CreatedAt := env_now e, le_CreatedBy := ''admin''\<rparr>))"

record transfer_request =
  xq_FromWallet :: string
  xq_ToWallet :: string
  xq_AmountCents :: int64

definition AdminTransfer :: "('z store_env_scheme) \<Rightarrow> string \<Rightarrow> transfer_request \<Rightarrow> (balances, nat, int64) io" where
  "AdminTransfer e userID req =
     (if userID = [] \<or> xq_AmountCents req \<le>s 0 then io_fail 422
      else case (wallet_kind_of (xq_FromWallet req), wallet_kind_of (xq_ToWallet req)) of
        (Some from_kind, Some to_kind) \<Rightarrow>
          if from_kind = to_kind then io_fail 422
          else let r = ''transfer_'' @ compact_timestamp (env_now e) in
            io_bind (insert_entry e ''insert debit'' 0
              ((new_entry userID from_kind (- xq_AmountCents req) [] EntryTransfer ''transfer'' [] (r @ ''_debit''))
               \<lparr>le_CreatedAt := env_now e, le_CreatedBy := ''admin''\<rparr>)) (\<lambda>_.
            io_bind (insert_entry e ''insert credit'' 1
              ((new_entry userID to_kind (xq_AmountCents req) [] EntryTransfer ''transfer'' [] (r @ ''_credit''))
               \<lparr>le_CreatedAt := env_now e, le_CreatedBy := ''admin''\<rparr>)) (\<lambda>_.
            io_return (xq_AmountCents req)))
      | _ \<Rightarrow> io_fail 422)"

definition AdminApproveTopUp :: "('z store_env_scheme) \<Rightarrow> string \<Rightarrow> (balances, nat, int64) io" where
  "AdminApproveTopUp e topupID =
     io_bind (load_topup e topupID) (\<lambda>t.
       if tu_Status t \<noteq> TopUpPending \<and> tu_Status t \<noteq> TopUpProcessing then io_fail 422
       else io_bind (insert_entry e ''insert credit'' 0
              ((new_entry (tu_UserID t) WalletMoney (tu_AmountCents t) (tu_Currency t) EntryTopUp ''topup'' topupID
                  (''topup_'' @ topupID))
               \<lparr>le_CreatedAt := env_now e, le_CreatedBy := ''admin''\<rparr>)) (\<lambda>_.
            io_bind (save_topup e topupID (t\<lparr>tu_Status := TopUpCompleted, tu_CompletedAt := Some (env_now e)\<rparr>)) (\<lambda>_.
            io_return (tu_AmountCents t))))"

definition AdminRejectTopUp :: "('z store_env_scheme) \<Rightarrow> string \<Rightarrow> (balances, nat, unit) io" where
  "AdminRejectTopUp e topupID =
     io_bind (load_topup e topupID) (\<lambda>t. save_topup e topupID (t\<lparr>tu_Status := TopUpFailed\<rparr>))"

definition AdminGetUserBalance :: "('z store_env_scheme) \<Rightarrow> string \<Rightarrow> (balances, nat, wallet list) io" where
  "AdminGetUserBalance e userID =
     (if userID = [] then io_fail 422
      else io_bind (io_status (\<lambda>_. 500) (on_wallets (reading (ListDocuments e ''list wallets'')))) (\<lambda>docs.
        io_return (filter (\<lambda>w. wa_UserID w = userID) (map snd (decoded docs)))))"

definition AdminUserLedger :: "('z store_env_scheme) \<Rightarrow> string \<Rightarrow> (balances, nat, ledger_entry list) io" where
  "AdminUserLedger e userID =
     io_bind (io_status (\<lambda>_. 500) (on_ledger (reading (ListDocuments e ''list ledger'')))) (\<lambda>docs.
       io_return (filter (\<lambda>x. le_UserID x = userID) (map snd (decoded docs))))"

end
