(* ===== verification/BalanceSpec.thy ===== *)
theory BalanceSpec
  imports Balance "HOL-Library.Multiset"
begin

text \<open>
  The wallets against the ledger. In one scope \<open>g\<close> a wallet's balance is the sum of the ledger entries
  of its user and kind that the service wrote (\<open>ledger_ok\<close>); every operation of the plugin keeps that as
  long as no call that updates a wallet's balance fails. Lemmas: the listing order does not matter, the
  three outcomes of \<open>CreateEntry\<close>, the endpoints that write the ledger without the service, histories.
\<close>

section \<open>Lists with at most one match\<close>

lemma find_filter: "find P xs = (case filter P xs of [] \<Rightarrow> None | x # _ \<Rightarrow> Some x)"
  by (induction xs) auto

lemma find_mset:
  assumes "mset xs = mset ys" "length (filter P ys) \<le> 1"
  shows "find P xs = find P ys"
proof -
  have "mset (filter P xs) = mset (filter P ys)" using assms(1) by (simp add: mset_filter)
  moreover from this have "length (filter P xs) = length (filter P ys)" by (metis size_mset)
  ultimately have "filter P xs = filter P ys"
    using assms(2) by (cases "filter P ys"; cases "filter P xs") auto
  then show ?thesis by (simp add: find_filter)
qed

lemma find_map_same:
  "(\<And>p. p \<in> set xs \<Longrightarrow> P (h p) = P p) \<Longrightarrow> find P (map h xs) = map_option h (find P xs)"
  by (induction xs) auto

section \<open>Decoded documents\<close>

lemma decoded_simps [simp]:
  "decoded [] = []"
  "decoded (d # ds) = (case doc_Data d of None \<Rightarrow> decoded ds | Some x \<Rightarrow> (doc_ID d, x) # decoded ds)"
  by (auto simp: decoded_def List.map_filter_simps split: option.split)

lemma decoded_append: "decoded (ds @ es) = decoded ds @ decoded es"
  by (induction ds) (auto split: option.split)

lemma mset_decoded: "mset ds = mset es \<Longrightarrow> mset (decoded ds) = mset (decoded es)"
  unfolding decoded_def List.map_filter_def by (simp add: mset_filter)

lemma set_decoded: "(i, x) \<in> set (decoded ds) \<longleftrightarrow> (\<exists>d \<in> set ds. doc_ID d = i \<and> doc_Data d = Some x)"
  by (induction ds) (auto split: option.split)

lemma decoded_ids: "distinct (map doc_ID ds) \<Longrightarrow> distinct (map fst (decoded ds))"
proof (induction ds)
  case (Cons d ds)
  have "fst ` set (decoded ds) \<subseteq> doc_ID ` set ds" by (auto simp: set_decoded)
  then have "doc_ID d \<notin> fst ` set (decoded ds)" using Cons.prems by auto
  then show ?case using Cons by (auto split: option.split)
qed simp

lemma decoded_update:
  assumes "\<And>d. d \<in> set t \<Longrightarrow> P d \<Longrightarrow> doc_ID d = i \<Longrightarrow> doc_Data d \<noteq> None"
    and "\<And>d. P (d\<lparr>doc_Data := Some x, doc_UpdatedAt := n\<rparr>) = P d"
  shows "decoded (filter P (map (\<lambda>d. if P d \<and> doc_ID d = i then d\<lparr>doc_Data := Some x, doc_UpdatedAt := n\<rparr> else d) t))
    = map (\<lambda>p. if fst p = i then (i, x) else p) (decoded (filter P t))"
  using assms
proof (induction t)
  case (Cons d t)
  have ih: "decoded (filter P (map (\<lambda>d. if P d \<and> doc_ID d = i then d\<lparr>doc_Data := Some x, doc_UpdatedAt := n\<rparr> else d) t))
    = map (\<lambda>p. if fst p = i then (i, x) else p) (decoded (filter P t))"
    by (rule Cons.IH) (simp_all add: Cons.prems)
  show ?case
  proof (cases "P d \<and> doc_ID d = i")
    case True
    then obtain y where "doc_Data d = Some y" using Cons.prems(1) [of d] by auto
    with True ih show ?thesis by (simp add: Cons.prems(2))
  next
    case False
    with ih show ?thesis by (auto split: option.split)
  qed
qed simp

section \<open>What a scope sees\<close>

definition vis :: "string \<Rightarrow> 'd document list \<Rightarrow> 'd document list" where
  "vis g t = filter (\<lambda>d. rls_visible g (doc_TenantID d)) t"

definition wallets_of :: "string \<Rightarrow> balances \<Rightarrow> (string \<times> wallet) list" where
  "wallets_of g s = decoded (vis g (bs_wallets s))"

definition entries_of :: "string \<Rightarrow> balances \<Rightarrow> (string \<times> ledger_entry) list" where
  "entries_of g s = decoded (vis g (bs_ledger s))"

definition wallet_at :: "string \<Rightarrow> balances \<Rightarrow> string \<Rightarrow> wallet_kind \<Rightarrow> (string \<times> wallet) option" where
  "wallet_at g s u k = find (same_wallet u k) (wallets_of g s)"

definition balance_at :: "string \<Rightarrow> balances \<Rightarrow> string \<Rightarrow> wallet_kind \<Rightarrow> int64" where
  "balance_at g s u k = (case wallet_at g s u k of None \<Rightarrow> 0 | Some p \<Rightarrow> wa_BalanceCents (snd p))"

definition available_at :: "string \<Rightarrow> balances \<Rightarrow> string \<Rightarrow> wallet_kind \<Rightarrow> int64" where
  "available_at g s u k = (case wallet_at g s u k of None \<Rightarrow> 0 | Some p \<Rightarrow> wa_BalanceCents (snd p) - wa_HoldCents (snd p))"

definition ledger_sum :: "string \<Rightarrow> balances \<Rightarrow> string \<Rightarrow> wallet_kind \<Rightarrow> int64" where
  "ledger_sum g s u k =
     sum_list (map (\<lambda>p. le_AmountCents (snd p))
       (filter (\<lambda>p. le_UserID (snd p) = u \<and> le_Wallet (snd p) = k) (entries_of g s)))"

text \<open>
  The sum of the entries that the administration did not write itself: \<open>admin.go\<close> inserts its entries
  into the ledger without the service and marks them as created by \<open>admin\<close>.
\<close>

definition by_service :: "ledger_entry \<Rightarrow> bool" where
  "by_service x \<longleftrightarrow> le_CreatedBy x \<noteq> ''admin''"

definition service_sum :: "string \<Rightarrow> balances \<Rightarrow> string \<Rightarrow> wallet_kind \<Rightarrow> int64" where
  "service_sum g s u k =
     sum_list (map (\<lambda>p. le_AmountCents (snd p))
       (filter (\<lambda>p. le_UserID (snd p) = u \<and> le_Wallet (snd p) = k) (filter (\<lambda>p. by_service (snd p)) (entries_of g s))))"

text \<open>Identifiers are unique, and a user has at most one wallet of a kind.\<close>

definition wallets_wf :: "string \<Rightarrow> balances \<Rightarrow> bool" where
  "wallets_wf g s \<longleftrightarrow> distinct (map doc_ID (bs_wallets s)) \<and> distinct (map (\<lambda>p. (wa_UserID (snd p), wa_Kind (snd p))) (wallets_of g s))"

definition ledger_ok :: "string \<Rightarrow> balances \<Rightarrow> bool" where
  "ledger_ok g s \<longleftrightarrow> wallets_wf g s \<and> (\<forall>u k. balance_at g s u k = service_sum g s u k)"

lemma ledger_ok_frame:
  assumes "ledger_ok g s" "bs_wallets s' = bs_wallets s"
    and "filter (\<lambda>p. by_service (snd p)) (entries_of g s') = filter (\<lambda>p. by_service (snd p)) (entries_of g s)"
  shows "ledger_ok g s'"
  using assms
  by (simp add: ledger_ok_def wallets_wf_def wallets_of_def balance_at_def wallet_at_def service_sum_def)

lemma doc_visible_vis: "se_scope e = g \<Longrightarrow> filter (doc_visible e) t = vis g t"
  by (simp add: vis_def doc_visible_def [abs_def])

lemma one_wallet:
  assumes "wallets_wf g s"
  shows "length (filter (same_wallet u k) (wallets_of g s)) \<le> 1"
proof -
  let ?key = "\<lambda>p. (wa_UserID (snd p), wa_Kind (snd p))"
  have "distinct (map ?key xs) \<Longrightarrow> length (filter (same_wallet u k) xs) \<le> 1" for xs :: "(string \<times> wallet) list"
  proof (induction xs)
    case (Cons a xs)
    show ?case
    proof (cases "same_wallet u k a")
      case True
      have "\<not> same_wallet u k p" if "p \<in> set xs" for p
      proof
        assume "same_wallet u k p"
        with True have "?key a = ?key p" by (simp add: same_wallet_def)
        with that have "?key a \<in> ?key ` set xs" by (metis (no_types, lifting) image_eqI)
        then show False using Cons.prems by simp
      qed
      then have "filter (same_wallet u k) xs = []" by (simp add: filter_empty_conv)
      then show ?thesis by simp
    next
      case False
      then show ?thesis using Cons by simp
    qed
  qed simp
  then show ?thesis using assms by (simp add: wallets_wf_def)
qed

lemma find_listed:
  assumes "wallets_wf g s" "se_scope e = g" "ListDocuments e l (bs_wallets s) = Inr docs"
  shows "find (same_wallet u k) (decoded docs) = wallet_at g s u k"
proof -
  have "mset docs = mset (vis g (bs_wallets s))"
    using assms(2,3) by (auto simp: ListDocuments_def doc_visible_vis split: if_splits)
  then show ?thesis
    unfolding wallet_at_def wallets_of_def
    by (intro find_mset mset_decoded one_wallet [OF assms(1), unfolded wallets_of_def])
qed

lemma GetAvailable_ok:
  assumes "wallets_wf g s" "se_scope e = g"
  shows "GetAvailableBalance e l u k s =
    (if env_fault e l then (Inl (ErrStore (ErrStoreFailed l)), s) else (Inr (available_at g s u k), s))"
proof (cases "env_fault e l")
  case True
  then show ?thesis
    by (simp add: GetAvailableBalance_def GetWallets_def io_bind_def on_wallets_def reading_def ListDocuments_def)
next
  case False
  then obtain docs where docs: "ListDocuments e l (bs_wallets s) = Inr docs" by (simp add: ListDocuments_def)
  have "find (\<lambda>w. wa_Kind w = k) (map (\<lambda>(_, w). w\<lparr>wa_AvailableCents := wa_BalanceCents w - wa_HoldCents w\<rparr>)
        (filter (\<lambda>(_, w). wa_UserID w = u) xs))
    = map_option (\<lambda>(_, w). w\<lparr>wa_AvailableCents := wa_BalanceCents w - wa_HoldCents w\<rparr>) (find (same_wallet u k) xs)"
    for xs :: "(string \<times> wallet) list"
    by (induction xs) (auto simp: same_wallet_def)
  then show ?thesis
    using False docs find_listed [OF assms docs, of u k]
    by (simp add: GetAvailableBalance_def GetWallets_def io_bind_def on_wallets_def reading_def available_at_def
        split: option.split prod.split)
qed

section \<open>The wallet update\<close>

text \<open>Nothing that the update of a wallet calls fails, and the identifier of a new wallet is new.\<close>

definition wallet_clean :: "('z store_env_scheme) \<Rightarrow> balances \<Rightarrow> bool" where
  "wallet_clean e s \<longleftrightarrow> \<not> env_fault e ''list wallets'' \<and> \<not> env_fault e ''update wallet''
     \<and> \<not> env_fault e ''insert wallet'' \<and> env_uuid e 1 \<notin> doc_ID ` set (bs_wallets s) \<and> se_scope e \<noteq> []"

lemma update_doc_state:
  assumes wf: "wallets_wf g s" and p: "(i, w) \<in> set (wallets_of g s)"
    and w': "wa_UserID w' = wa_UserID w" "wa_Kind w' = wa_Kind w" and e: "se_scope e = g" "\<not> env_fault e l"
  shows "\<exists>t. UpdateDocument e l i w' (bs_wallets s) = Inr t
    \<and> wallets_of g (s\<lparr>bs_wallets := t\<rparr>) = map (\<lambda>p. if fst p = i then (i, w') else p) (wallets_of g s)
    \<and> wallets_wf g (s\<lparr>bs_wallets := t\<rparr>)"
proof -
  from p obtain d where d: "d \<in> set (bs_wallets s)" "doc_visible e d" "doc_ID d = i" "doc_Data d = Some w"
    using e(1) by (auto simp: wallets_of_def set_decoded vis_def doc_visible_def)
  let ?f = "\<lambda>d. if doc_visible e d \<and> doc_ID d = i then d\<lparr>doc_Data := Some w', doc_UpdatedAt := env_dbnow e\<rparr> else d"
  have up: "UpdateDocument e l i w' (bs_wallets s) = Inr (map ?f (bs_wallets s))"
    using d e(2) by (auto simp: UpdateDocument_def list_ex_iff)
  have ids: "map doc_ID (map ?f (bs_wallets s)) = map doc_ID (bs_wallets s)" by simp
  have dist: "distinct (map doc_ID (bs_wallets s))" using wf by (simp add: wallets_wf_def)
  have "doc_Data d' \<noteq> None" if "d' \<in> set (bs_wallets s)" "doc_ID d' = i" for d'
    using dist d(1,3,4) that by (metis distinct_map inj_onD option.distinct(1))
  then have ws: "wallets_of g (s\<lparr>bs_wallets := map ?f (bs_wallets s)\<rparr>)
      = map (\<lambda>p. if fst p = i then (i, w') else p) (wallets_of g s)"
    unfolding wallets_of_def vis_def using e(1)
    by (simp add: doc_visible_def [abs_def] decoded_update [where P = "\<lambda>d. rls_visible g (doc_TenantID d)"])
  have fsts: "distinct (map fst (wallets_of g s))"
    using dist unfolding wallets_of_def vis_def by (intro decoded_ids) (simp add: distinct_map_filter)
  have "q = (i, w)" if "q \<in> set (wallets_of g s)" "fst q = i" for q
    using fsts p that by (metis distinct_map fst_conv inj_onD)
  then have "map (\<lambda>p. (wa_UserID (snd p), wa_Kind (snd p))) (map (\<lambda>p. if fst p = i then (i, w') else p) (wallets_of g s))
      = map (\<lambda>p. (wa_UserID (snd p), wa_Kind (snd p))) (wallets_of g s)"
    using w' by auto
  then have "wallets_wf g (s\<lparr>bs_wallets := map ?f (bs_wallets s)\<rparr>)"
    using wf ids unfolding wallets_wf_def by (simp add: ws del: map_map)
  then show ?thesis using up ws by blast
qed

lemma wallet_at_update:
  assumes wf: "wallets_wf g s" and p: "(i, w) \<in> set (wallets_of g s)"
    and w': "wa_UserID w' = wa_UserID w" "wa_Kind w' = wa_Kind w"
    and ws: "wallets_of g s' = map (\<lambda>p. if fst p = i then (i, w') else p) (wallets_of g s)"
  shows "wallet_at g s' u k = (if same_wallet u k (i, w) then Some (i, w') else wallet_at g s u k)"
proof -
  have dist: "distinct (map doc_ID (bs_wallets s))" using wf by (simp add: wallets_wf_def)
  have fsts: "distinct (map fst (wallets_of g s))"
    using dist unfolding wallets_of_def vis_def by (intro decoded_ids) (simp add: distinct_map_filter)
  have only: "q = (i, w)" if "q \<in> set (wallets_of g s)" "fst q = i" for q
    using fsts p that by (metis distinct_map fst_conv inj_onD)
  have mapped: "wallet_at g s' u k = map_option (\<lambda>p. if fst p = i then (i, w') else p) (wallet_at g s u k)"
    unfolding wallet_at_def ws by (rule find_map_same) (use only w' in \<open>auto simp: same_wallet_def\<close>)
  have found: "q \<in> set (wallets_of g s) \<and> same_wallet u k q" if "wallet_at g s u k = Some q" for q
    using that by (auto simp: wallet_at_def find_Some_iff)
  show ?thesis
  proof (cases "same_wallet u k (i, w)")
    case True
    then have "wallet_at g s u k \<noteq> None" using p by (auto simp: wallet_at_def find_None_iff)
    then obtain q where q: "wallet_at g s u k = Some q" by blast
    note m = found [OF q]
    have inj: "inj_on (\<lambda>p. (wa_UserID (snd p), wa_Kind (snd p))) (set (wallets_of g s))"
      using wf by (simp add: wallets_wf_def distinct_map)
    have "q = (i, w)" using m True p by (intro inj_onD [OF inj]) (simp_all add: same_wallet_def)
    then show ?thesis using q mapped True by simp
  next
    case False
    have "fst q \<noteq> i" if "wallet_at g s u k = Some q" for q
    proof
      assume "fst q = i"
      then have "q = (i, w)" using found [OF that] by (intro only) simp_all
      then show False using found [OF that] False by simp
    qed
    then show ?thesis using mapped False by (cases "wallet_at g s u k") simp_all
  qed
qed


lemma updateWalletBalance_ok:
  assumes wf: "wallets_wf g s" and e: "se_scope e = g" and clean: "wallet_clean e s"
  shows "\<exists>s'. updateWalletBalance e u k delta cur s = (Inr (), s') \<and> wallets_wf g s'
    \<and> bs_ledger s' = bs_ledger s \<and> bs_topups s' = bs_topups s
    \<and> (\<forall>v q. balance_at g s' v q = balance_at g s v q + (if v = u \<and> q = k then delta else 0)
             \<and> available_at g s' v q = available_at g s v q + (if v = u \<and> q = k then delta else 0))"
proof -
  obtain docs where docs: "ListDocuments e ''list wallets'' (bs_wallets s) = Inr docs"
    using clean by (simp add: wallet_clean_def ListDocuments_def)
  note listed = find_listed [OF wf e docs, of u k]
  show ?thesis
  proof (cases "wallet_at g s u k")
    case (Some p)
    obtain i w where pw: "p = (i, w)" by (cases p)
    have m: "(i, w) \<in> set (wallets_of g s)" "same_wallet u k (i, w)"
      using Some pw by (auto simp: wallet_at_def find_Some_iff)
    let ?w = "w\<lparr>wa_BalanceCents := wa_BalanceCents w + delta,
        wa_AvailableCents := wa_BalanceCents w + delta - wa_HoldCents w, wa_UpdatedAt := env_now e\<rparr>"
    obtain t where t: "UpdateDocument e ''update wallet'' i ?w (bs_wallets s) = Inr t"
      and ws: "wallets_of g (s\<lparr>bs_wallets := t\<rparr>) = map (\<lambda>p. if fst p = i then (i, ?w) else p) (wallets_of g s)"
      and wf': "wallets_wf g (s\<lparr>bs_wallets := t\<rparr>)"
      using update_doc_state [OF wf m(1) _ _ e, of ?w "''update wallet''"] clean by (auto simp: wallet_clean_def)
    have "updateWalletBalance e u k delta cur s = (Inr (), s\<lparr>bs_wallets := t\<rparr>)"
      using docs listed Some pw t
      by (simp add: updateWalletBalance_def io_bind_def on_wallets_def reading_def writing_def Let_def)
    moreover have "wallet_at g (s\<lparr>bs_wallets := t\<rparr>) v q
        = (if same_wallet v q (i, w) then Some (i, ?w) else wallet_at g s v q)" for v q
      by (rule wallet_at_update [OF wf m(1) _ _ ws]) simp_all
    moreover have "same_wallet v q (i, w) \<longleftrightarrow> v = u \<and> q = k" for v q
      using m(2) by (auto simp: same_wallet_def)
    ultimately show ?thesis using wf' Some pw by (auto simp: balance_at_def available_at_def)
  next
    case None
    let ?w = "\<lparr>wa_UserID = u, wa_Kind = k, wa_Currency = cur, wa_BalanceCents = delta,
        wa_HoldCents = 0, wa_AvailableCents = delta, wa_UpdatedAt = env_now e\<rparr>"
    obtain tn where tn: "rls_stamp g = Some tn" using clean e by (auto simp: wallet_clean_def rls_stamp_def)
    let ?d = "\<lparr>doc_ID = env_uuid e 1, doc_Data = Some ?w, doc_TenantID = tn, doc_CreatedAt = env_dbnow e,
        doc_UpdatedAt = env_dbnow e\<rparr>"
    have ins: "InsertDocument e ''insert wallet'' 1 ?w (bs_wallets s) = Inr (?d, bs_wallets s @ [?d])"
      using clean e tn by (auto simp: InsertDocument_def wallet_clean_def insert_unique_def Let_def)
    have run: "updateWalletBalance e u k delta cur s = (Inr (), s\<lparr>bs_wallets := bs_wallets s @ [?d]\<rparr>)"
      using docs listed None ins
      by (simp add: updateWalletBalance_def io_bind_def on_wallets_def reading_def)
    have ws: "wallets_of g (s\<lparr>bs_wallets := bs_wallets s @ [?d]\<rparr>) = wallets_of g s @ [(env_uuid e 1, ?w)]"
      using rls_stamp_visible [OF tn] by (simp add: wallets_of_def vis_def decoded_append)
    have none: "p \<in> set (wallets_of g s) \<Longrightarrow> \<not> same_wallet u k p" for p
      using None unfolding wallet_at_def find_None_iff by blast
    have "(u, k) \<notin> (\<lambda>p. (wa_UserID (snd p), wa_Kind (snd p))) ` set (wallets_of g s)"
      using none by (auto simp: same_wallet_def)
    then have wf': "wallets_wf g (s\<lparr>bs_wallets := bs_wallets s @ [?d]\<rparr>)"
      using wf clean unfolding wallets_wf_def ws by (simp add: wallet_clean_def)
    have find_app: "find P (xs @ ys) = (case find P xs of None \<Rightarrow> find P ys | Some x \<Rightarrow> Some x)"
      for P and xs ys :: "(string \<times> wallet) list"
      by (induction xs) auto
    have "wallet_at g (s\<lparr>bs_wallets := bs_wallets s @ [?d]\<rparr>) v q
        = (if v = u \<and> q = k then Some (env_uuid e 1, ?w) else wallet_at g s v q)" for v q
      using None unfolding wallet_at_def ws find_app by (auto simp: same_wallet_def split: option.split)
    then show ?thesis using run wf' None by (auto simp: balance_at_def available_at_def)
  qed
qed


section \<open>The outcomes of CreateEntry\<close>

lemma find_entry_listed:
  assumes e: "se_scope e = g" and docs: "ListDocuments e l (bs_ledger s) = Inr docs"
  shows "find P (decoded docs) = None \<longleftrightarrow> find P (entries_of g s) = None"
    and "find P (decoded docs) = Some p \<Longrightarrow> p \<in> set (entries_of g s) \<and> P p"
proof -
  have "mset docs = mset (vis g (bs_ledger s))"
    using e docs by (auto simp: ListDocuments_def doc_visible_vis split: if_splits)
  then have set_eq: "set (decoded docs) = set (entries_of g s)"
    unfolding entries_of_def by (metis mset_decoded set_mset_mset)
  then show "find P (decoded docs) = None \<longleftrightarrow> find P (entries_of g s) = None"
    unfolding find_None_iff by blast
  show "find P (decoded docs) = Some p \<Longrightarrow> p \<in> set (entries_of g s) \<and> P p"
    using set_eq by (auto simp: find_Some_iff)
qed

text \<open>The entry as it is stored.\<close>

definition stamped :: "('z store_env_scheme) \<Rightarrow> ledger_entry \<Rightarrow> ledger_entry" where
  "stamped e x = x\<lparr>le_CreatedAt := (if le_CreatedAt x = zero_time then env_now e else le_CreatedAt x),
                   le_CreatedBy := (if le_CreatedBy x = [] then ''system'' else le_CreatedBy x)\<rparr>"

text \<open>
  An entry is refused, or found to exist, or written, and then both the ledger and the wallet have it:
  a debit only when the wallet covers it.
\<close>

definition store_clean :: "('z store_env_scheme) \<Rightarrow> balances \<Rightarrow> bool" where
  "store_clean e s \<longleftrightarrow> wallet_clean e s \<and> env_fault e = (\<lambda>_. False) \<and> env_uuid e 0 \<notin> doc_ID ` set (bs_ledger s)"

definition uncovered :: "string \<Rightarrow> balances \<Rightarrow> ledger_entry \<Rightarrow> bool" where
  "uncovered g s x \<longleftrightarrow> le_AmountCents x <s 0 \<and> available_at g s (le_UserID x) (le_Wallet x) + le_AmountCents x <s 0"

lemma CreateEntry_cases:
  assumes wf: "wallets_wf g s" and e: "se_scope e = g" and clean: "wallet_clean e s"
  shows "(\<exists>er. CreateEntry e x s = (Inl er, s) \<and> (store_clean e s \<longrightarrow> le_AmountCents x = 0 \<or> le_ReferenceID x = []
         \<or> (uncovered g s x \<and> er = ErrInsufficientBalance (available_at g s (le_UserID x) (le_Wallet x)) (- le_AmountCents x))))
    \<or> (\<exists>p \<in> set (entries_of g s). same_entry x p \<and> CreateEntry e x s = (Inr (snd p), s))
    \<or> (\<exists>y s'. CreateEntry e x s = (Inr y, s') \<and> find (same_entry x) (entries_of g s) = None
         \<and> le_AmountCents x \<noteq> 0 \<and> le_ReferenceID x \<noteq> []
         \<and> (le_AmountCents x <s 0 \<longrightarrow> 0 \<le>s available_at g s (le_UserID x) (le_Wallet x) + le_AmountCents x)
         \<and> wallets_wf g s' \<and> entries_of g s' = entries_of g s @ [(env_uuid e 0, stamped e x)]
         \<and> le_ID y = env_uuid e 0 \<and> bs_topups s' = bs_topups s
         \<and> (\<forall>v q. balance_at g s' v q = balance_at g s v q + (if v = le_UserID x \<and> q = le_Wallet x then le_AmountCents x else 0)
             \<and> available_at g s' v q = available_at g s v q + (if v = le_UserID x \<and> q = le_Wallet x then le_AmountCents x else 0)))"
    (is "?refused \<or> ?exists \<or> ?written")
proof -
  consider (bad) "le_AmountCents x = 0 \<or> le_ReferenceID x = []" | (fault) "env_fault e ''list ledger''" "le_AmountCents x \<noteq> 0" "le_ReferenceID x \<noteq> []"
    | (go) docs where "ListDocuments e ''list ledger'' (bs_ledger s) = Inr docs" "le_AmountCents x \<noteq> 0" "le_ReferenceID x \<noteq> []"
    by (cases "env_fault e ''list ledger''") (auto simp: ListDocuments_def)
  then show ?thesis
  proof cases
    case bad
    then have ?refused by (auto simp: CreateEntry_def)
    then show ?thesis ..
  next
    case fault
    moreover from fault(1) have "\<not> store_clean e s" by (auto simp: store_clean_def fun_eq_iff)
    ultimately have ?refused
      by (simp add: CreateEntry_def io_bind_def on_ledger_def reading_def ListDocuments_def)
    then show ?thesis ..
  next
    case go
    note listed = find_entry_listed [OF e go(1)]
    show ?thesis
    proof (cases "find (same_entry x) (decoded docs)")
      case (Some p)
      then have "CreateEntry e x s = (Inr (snd p), s)"
        using go by (cases p) (simp add: CreateEntry_def io_bind_def on_ledger_def reading_def)
      then have ?exists using listed(2) [OF Some] by blast
      then show ?thesis by simp
    next
      case None
      then have none: "find (same_entry x) (entries_of g s) = None" using listed(1) by simp
      show ?thesis
      proof (cases "le_AmountCents x <s 0 \<and> (env_fault e ''read balance''
          \<or> available_at g s (le_UserID x) (le_Wallet x) + le_AmountCents x <s 0)")
        case True
        then have ?refused
          using go None
          by (auto simp: CreateEntry_def io_bind_def on_ledger_def reading_def GetAvailable_ok [OF wf e] store_clean_def uncovered_def)
        then show ?thesis ..
      next
        case False
        then have guard: "(if le_AmountCents x <s 0
            then io_bind (GetAvailableBalance e ''read balance'' (le_UserID x) (le_Wallet x)) (\<lambda>available.
                 if available + le_AmountCents x <s 0
                 then io_fail (ErrInsufficientBalance available (- le_AmountCents x)) else io_return ())
            else io_return ()) s = (Inr (), s)"
          by (auto simp: io_bind_def GetAvailable_ok [OF wf e])
        have cover: "le_AmountCents x <s 0 \<longrightarrow> 0 \<le>s available_at g s (le_UserID x) (le_Wallet x) + le_AmountCents x"
          using False by (auto simp: word_sle_eq word_sless_alt)
        show ?thesis
        proof (cases "InsertDocument e ''insert entry'' 0 (stamped e x) (bs_ledger s)")
          case (Inl er)
          moreover have "rls_stamp (se_scope e) \<noteq> None" using clean by (simp add: wallet_clean_def rls_stamp_def)
          ultimately have "\<not> store_clean e s"
            by (auto simp: InsertDocument_def store_clean_def insert_unique_def Let_def split: if_splits)
          then have ?refused
            using go None guard Inl
            by (simp add: CreateEntry_def io_bind_def on_ledger_def reading_def stamped_def Let_def)
          then show ?thesis ..
        next
          case (Inr r)
          obtain d t where r: "r = (d, t)" by (cases r)
          note ins = InsertDocument_ok [OF Inr [unfolded r]]
          let ?s1 = "s\<lparr>bs_ledger := t\<rparr>"
          have wf1: "wallets_wf g ?s1" and clean1: "wallet_clean e ?s1"
            using wf clean by (simp_all add: wallets_wf_def wallets_of_def wallet_clean_def)
          have same: "balance_at g ?s1 = balance_at g s" "available_at g ?s1 = available_at g s"
            by (simp_all add: balance_at_def available_at_def wallet_at_def wallets_of_def fun_eq_iff)
          obtain s2 where up: "updateWalletBalance e (le_UserID x) (le_Wallet x) (le_AmountCents x) (le_Currency x) ?s1 = (Inr (), s2)"
            and wf2: "wallets_wf g s2" and l2: "bs_ledger s2 = t" "bs_topups s2 = bs_topups s"
            and bal: "\<forall>v q. balance_at g s2 v q = balance_at g s v q + (if v = le_UserID x \<and> q = le_Wallet x then le_AmountCents x else 0)
             \<and> available_at g s2 v q = available_at g s v q + (if v = le_UserID x \<and> q = le_Wallet x then le_AmountCents x else 0)"
            using updateWalletBalance_ok [OF wf1 e clean1, of "le_UserID x" "le_Wallet x" "le_AmountCents x" "le_Currency x"]
            unfolding same by auto
          have "\<exists>y. CreateEntry e x s = (Inr y, s2) \<and> le_ID y = env_uuid e 0"
            using go None guard Inr r up ins(3)
            by (simp add: CreateEntry_def io_bind_def on_ledger_def reading_def stamped_def Let_def
                GetAvailable_ok [OF wf2 e])
          moreover have "entries_of g s2 = entries_of g s @ [(env_uuid e 0, stamped e x)]"
            using ins e by (simp add: entries_of_def vis_def l2 decoded_append doc_visible_def)
          ultimately have ?written using none go(2,3) cover wf2 l2(2) bal by blast
          then show ?thesis by simp
        qed
      qed
    qed
  qed
qed


section \<open>Holds\<close>

lemma updateWalletHold_cases:
  assumes wf: "wallets_wf g s" and e: "se_scope e = g"
  shows "(\<exists>er. updateWalletHold e u k delta s = (Inl er, s) \<and> (wallet_at g s u k = None \<or> Ex (env_fault e)))
    \<or> (\<exists>s'. updateWalletHold e u k delta s = (Inr (), s') \<and> wallets_wf g s' \<and> bs_ledger s' = bs_ledger s
         \<and> map doc_ID (bs_wallets s') = map doc_ID (bs_wallets s)
         \<and> balance_at g s' = balance_at g s \<and> wallet_at g s' u k \<noteq> None
         \<and> (case wallet_at g s u k of None \<Rightarrow> False
            | Some p \<Rightarrow> (let h = wa_HoldCents (snd p) + delta in
                available_at g s' u k = wa_BalanceCents (snd p) - (if h <s 0 then 0 else h))))"
    (is "?failed \<or> ?held")
proof (cases "env_fault e ''list wallets for hold''")
  case True
  then have ?failed by (auto simp: updateWalletHold_def io_bind_def on_wallets_def reading_def ListDocuments_def)
  then show ?thesis ..
next
  case False
  then obtain docs where docs: "ListDocuments e ''list wallets for hold'' (bs_wallets s) = Inr docs"
    by (simp add: ListDocuments_def)
  note listed = find_listed [OF wf e docs, of u k]
  show ?thesis
  proof (cases "wallet_at g s u k")
    case None
    then have ?failed using docs listed by (simp add: updateWalletHold_def io_bind_def on_wallets_def reading_def)
    then show ?thesis ..
  next
    case (Some p)
    obtain i w where pw: "p = (i, w)" by (cases p)
    have m: "(i, w) \<in> set (wallets_of g s)" "same_wallet u k (i, w)"
      using Some pw by (auto simp: wallet_at_def find_Some_iff)
    define h where "h = (if wa_HoldCents w + delta <s 0 then 0 else wa_HoldCents w + delta)"
    let ?w = "w\<lparr>wa_HoldCents := h, wa_AvailableCents := wa_BalanceCents w - h, wa_UpdatedAt := env_now e\<rparr>"
    show ?thesis
    proof (cases "env_fault e ''update hold''")
      case True
      then have ?failed using docs listed Some pw
        by (auto simp: updateWalletHold_def io_bind_def on_wallets_def reading_def writing_def UpdateDocument_def Let_def)
      then show ?thesis ..
    next
      case False
      obtain t where t: "UpdateDocument e ''update hold'' i ?w (bs_wallets s) = Inr t"
        and ws: "wallets_of g (s\<lparr>bs_wallets := t\<rparr>) = map (\<lambda>p. if fst p = i then (i, ?w) else p) (wallets_of g s)"
        and wf': "wallets_wf g (s\<lparr>bs_wallets := t\<rparr>)"
        using update_doc_state [OF wf m(1) _ _ e False, of ?w] by auto
      have run: "updateWalletHold e u k delta s = (Inr (), s\<lparr>bs_wallets := t\<rparr>)"
        using docs listed Some pw t
        by (simp add: updateWalletHold_def io_bind_def on_wallets_def reading_def writing_def Let_def h_def)
      have at': "wallet_at g (s\<lparr>bs_wallets := t\<rparr>) v q
          = (if same_wallet v q (i, w) then Some (i, ?w) else wallet_at g s v q)" for v q
        by (rule wallet_at_update [OF wf m(1) _ _ ws]) simp_all
      have "wallet_at g s v q = Some (i, w)" if "same_wallet v q (i, w)" for v q
        using that m(2) Some pw by (simp add: same_wallet_def)
      then have "balance_at g (s\<lparr>bs_wallets := t\<rparr>) = balance_at g s"
        using at' by (simp add: balance_at_def fun_eq_iff)
      then have ?held
        using run wf' UpdateDocument_ids [OF t] Some pw at' m(2)
        by (auto simp: available_at_def h_def Let_def)
      then show ?thesis ..
    qed
  qed
qed

section \<open>The endpoints that write without the service\<close>

lemma load_topup_ok:
  "load_topup e i s = (Inr t, s1) \<Longrightarrow> s1 = s \<and> (\<exists>d \<in> set (bs_topups s). doc_Data d = Some t \<and> doc_ID d = i)"
  by (auto simp: load_topup_def io_status_def on_topups_def reading_def GetDocument_def MapErr_def
      dest!: select_by_Some split: if_splits sum.splits prod.splits option.splits)

lemma load_topup_state: "snd (load_topup e i s) = s"
  by (auto simp: load_topup_def io_bind_def io_status_def on_topups_def reading_def GetDocument_def MapErr_def
      split: sum.splits prod.splits option.splits)

lemma save_topup_frame:
  "bs_wallets (snd (save_topup e i t s)) = bs_wallets s" "bs_ledger (snd (save_topup e i t s)) = bs_ledger s"
  by (auto simp: save_topup_def io_status_def on_topups_def split: sum.splits prod.splits)

lemma insert_entry_ok:
  assumes "insert_entry e l k y s = (Inr j, s')" "se_scope e = g"
  shows "bs_wallets s' = bs_wallets s" "bs_topups s' = bs_topups s" "entries_of g s' = entries_of g s @ [(j, y)]"
proof -
  obtain d t where ins: "InsertDocument e l k y (bs_ledger s) = Inr (d, t)" and s': "s' = s\<lparr>bs_ledger := t\<rparr>" "j = doc_ID d"
    using assms(1) by (auto simp: insert_entry_def io_status_def on_ledger_def split: sum.splits prod.splits)
  show "bs_wallets s' = bs_wallets s" "bs_topups s' = bs_topups s" using s' by simp_all
  show "entries_of g s' = entries_of g s @ [(j, y)]"
    using InsertDocument_ok [OF ins] s' assms(2) by (simp add: entries_of_def vis_def decoded_append doc_visible_def)
qed

lemma insert_entry_fails: "insert_entry e l k y s = (Inl er, s') \<Longrightarrow> s' = s"
  by (auto simp: insert_entry_def io_bind_def io_status_def on_ledger_def split: sum.splits prod.splits)

lemma insert_entry_keeps:
  assumes ok: "ledger_ok g s" and e: "se_scope e = g" and y: "le_CreatedBy y = ''admin''"
  shows "ledger_ok g (snd (insert_entry e l k y s))"
proof (cases "insert_entry e l k y s")
  case (Pair r s')
  show ?thesis
  proof (cases r)
    case (Inl er)
    then show ?thesis using Pair insert_entry_fails ok by (metis snd_conv)
  next
    case (Inr j)
    note w = insert_entry_ok [OF Pair [unfolded Inr] e]
    show ?thesis unfolding Pair snd_conv
      by (rule ledger_ok_frame [OF ok w(1)]) (simp add: w(3) y by_service_def)
  qed
qed

lemma topups_keep:
  assumes "ledger_ok g s" "bs_wallets s' = bs_wallets s" "bs_ledger s' = bs_ledger s"
  shows "ledger_ok g s'"
  using assms by (intro ledger_ok_frame [OF assms(1,2)]) (simp add: entries_of_def)

lemma save_topup_keeps: "ledger_ok g s \<Longrightarrow> ledger_ok g (snd (save_topup e i t s))"
  by (rule topups_keep) (simp_all add: save_topup_frame)

section \<open>Histories of the plugin\<close>

datatype balance_op =
    BSpend string wallet_kind int64 string string
  | BHold string wallet_kind int64 string string
  | BRelease string wallet_kind int64 string string
  | BCharge payment_charge_request
  | BCashback cashback_config invoice_paid_payload
  | BEntry ledger_entry
  | BExpiry "nat \<Rightarrow> store_env"
  | BTopUp "string \<rightharpoonup> string" string topup_request
  | BCancelTopUp string string
  | BApproveTopUp string
  | BRejectTopUp string
  | BAdjust string adjust_request
  | BTransfer string transfer_request

fun balance_step :: "store_env \<Rightarrow> balance_op \<Rightarrow> balances \<Rightarrow> balances" where
  "balance_step e (BSpend u k a c i) s = snd (Spend e u k a c i s)"
| "balance_step e (BHold u k a c i) s = snd (Hold e u k a c i s)"
| "balance_step e (BRelease u k a c i) s = snd (ReleaseHold e u k a c i s)"
| "balance_step e (BCharge req) s = snd (HandleCreateCharge e req s)"
| "balance_step e (BCashback cf v) s = snd (OnInvoicePaid cf e v s)"
| "balance_step e (BEntry x) s = snd (CreateEntry e x s)"
| "balance_step e (BExpiry envs) s = snd (ExpiryRun e envs s)"
| "balance_step e (BTopUp cfg u req) s = snd (CreateTopUp e cfg u req s)"
| "balance_step e (BCancelTopUp u i) s = snd (CancelTopUp e u i s)"
| "balance_step e (BApproveTopUp i) s = snd (AdminApproveTopUp e i s)"
| "balance_step e (BRejectTopUp i) s = snd (AdminRejectTopUp e i s)"
| "balance_step e (BAdjust u req) s = snd (AdminAdjust e u req s)"
| "balance_step e (BTransfer u req) s = snd (AdminTransfer e u req s)"

fun balance_history :: "(store_env \<times> balance_op) list \<Rightarrow> balances \<Rightarrow> balances" where
  "balance_history [] s = s"
| "balance_history ((e, x) # xs) s = balance_history xs (balance_step e x s)"

text \<open>The entries a run of the expiry worker compensates.\<close>

definition expiring :: "store_env \<Rightarrow> balances \<Rightarrow> (string \<times> ledger_entry) list" where
  "expiring e s =
     (case ListDocuments e ''list ledger entries'' (bs_ledger s) of
        Inl _ \<Rightarrow> []
      | Inr docs \<Rightarrow>
          filter (expires_now (env_now e)
              (set (map (\<lambda>p. le_ReferenceID (snd p)) (filter (\<lambda>p. le_Kind (snd p) = EntryExpire) (decoded docs)))))
            (decoded docs))"

text \<open>
  A history in one scope in which no call that an update of a wallet's balance makes fails and the
  identifiers of new wallets are new, in each compensation of an expiry run too. Every other call may
  fail; what the endpoints of \<open>admin.go\<close> and the top-ups call may fail without restriction. An entry
  that a caller passes to the service does not claim to be the administration's.
\<close>

fun expiry_clean :: "string \<Rightarrow> (nat \<Rightarrow> store_env) \<Rightarrow> nat \<Rightarrow> (string \<times> ledger_entry) list \<Rightarrow> balances \<Rightarrow> bool" where
  "expiry_clean g envs k [] s \<longleftrightarrow> True"
| "expiry_clean g envs k (p # ps) s \<longleftrightarrow>
     se_scope (envs k) = g \<and> wallet_clean (envs k) s
     \<and> expiry_clean g envs (Suc k) ps (snd (CreateEntry (envs k) (compensating p) s))"

fun op_clean :: "string \<Rightarrow> store_env \<Rightarrow> balance_op \<Rightarrow> balances \<Rightarrow> bool" where
  "op_clean g e (BSpend u k a c i) s \<longleftrightarrow> wallet_clean e s"
| "op_clean g e (BHold u k a c i) s \<longleftrightarrow> wallet_clean e s"
| "op_clean g e (BRelease u k a c i) s \<longleftrightarrow> wallet_clean e s"
| "op_clean g e (BCharge req) s \<longleftrightarrow> wallet_clean e s"
| "op_clean g e (BCashback cf v) s \<longleftrightarrow> wallet_clean e s"
| "op_clean g e (BEntry x) s \<longleftrightarrow> wallet_clean e s \<and> by_service x"
| "op_clean g e (BExpiry envs) s \<longleftrightarrow> expiry_clean g envs 0 (expiring e s) s"
| "op_clean g e (BTopUp cfg u req) s \<longleftrightarrow> True"
| "op_clean g e (BCancelTopUp u i) s \<longleftrightarrow> True"
| "op_clean g e (BApproveTopUp i) s \<longleftrightarrow> True"
| "op_clean g e (BRejectTopUp i) s \<longleftrightarrow> True"
| "op_clean g e (BAdjust u req) s \<longleftrightarrow> True"
| "op_clean g e (BTransfer u req) s \<longleftrightarrow> True"

fun clean_history :: "string \<Rightarrow> (store_env \<times> balance_op) list \<Rightarrow> balances \<Rightarrow> bool" where
  "clean_history g [] s \<longleftrightarrow> True"
| "clean_history g ((e, x) # xs) s \<longleftrightarrow>
     se_scope e = g \<and> op_clean g e x s \<and> clean_history g xs (balance_step e x s)"

lemma ledger_sum_snoc:
  "entries_of g s' = entries_of g s @ [(i, y)] \<Longrightarrow>
     ledger_sum g s' u k = ledger_sum g s u k + (if le_UserID y = u \<and> le_Wallet y = k then le_AmountCents y else 0)"
  by (simp add: ledger_sum_def)

lemma service_sum_snoc:
  "entries_of g s' = entries_of g s @ [(i, y)] \<Longrightarrow> by_service y \<Longrightarrow>
     service_sum g s' u k = service_sum g s u k + (if le_UserID y = u \<and> le_Wallet y = k then le_AmountCents y else 0)"
  by (simp add: service_sum_def)

lemma stamped_fields [simp]:
  "le_UserID (stamped e x) = le_UserID x" "le_Wallet (stamped e x) = le_Wallet x"
  "le_AmountCents (stamped e x) = le_AmountCents x"
  by (simp_all add: stamped_def)

lemma stamped_service [simp]: "by_service (stamped e x) = by_service x"
  by (simp add: stamped_def by_service_def)

lemma new_entry_service [simp]:
  "by_service (new_entry u k a c kd st si r)" "by_service ((new_entry u k a c kd st si r)\<lparr>le_ExpiresAt := t\<rparr>)"
  by (simp_all add: new_entry_def by_service_def)

lemma ledger_ok_write:
  assumes x: "by_service x" and ok: "ledger_ok g s" and wf: "wallets_wf g s'"
    and en: "entries_of g s' = entries_of g s @ [(i, stamped e x)]"
    and bal: "\<forall>v q. balance_at g s' v q = balance_at g s v q + (if v = le_UserID x \<and> q = le_Wallet x then le_AmountCents x else 0)
             \<and> available_at g s' v q = available_at g s v q + (if v = le_UserID x \<and> q = le_Wallet x then le_AmountCents x else 0)"
  shows "ledger_ok g s'"
  unfolding ledger_ok_def
proof (intro conjI allI)
  fix u k
  have "balance_at g s' u k = balance_at g s u k + (if u = le_UserID x \<and> k = le_Wallet x then le_AmountCents x else 0)"
    using bal by blast
  moreover have "balance_at g s u k = service_sum g s u k" using ok by (simp add: ledger_ok_def)
  ultimately show "balance_at g s' u k = service_sum g s' u k"
    unfolding service_sum_snoc [OF en, unfolded stamped_service, OF x] stamped_fields by (cases "u = le_UserID x \<and> k = le_Wallet x") auto
qed (rule wf)

lemma CreateEntry_keeps:
  assumes ok: "ledger_ok g s" and e: "se_scope e = g" and clean: "wallet_clean e s" and x: "by_service x"
  shows "ledger_ok g (snd (CreateEntry e x s))"
proof -
  have wf: "wallets_wf g s" using ok by (simp add: ledger_ok_def)
  from CreateEntry_cases [OF wf e clean, of x] show ?thesis
  proof (elim disjE exE bexE conjE)
    fix y s'
    assume run: "CreateEntry e x s = (Inr y, s')" and wf': "wallets_wf g s'"
      and en: "entries_of g s' = entries_of g s @ [(env_uuid e 0, stamped e x)]"
      and bal: "\<forall>v q. balance_at g s' v q = balance_at g s v q + (if v = le_UserID x \<and> q = le_Wallet x then le_AmountCents x else 0)
             \<and> available_at g s' v q = available_at g s v q + (if v = le_UserID x \<and> q = le_Wallet x then le_AmountCents x else 0)"
    show ?thesis unfolding run snd_conv by (rule ledger_ok_write [OF x ok wf' en bal])
  qed (use ok in simp_all)
qed

lemma held_keeps:
  assumes ok: "ledger_ok g s" and e: "se_scope e = g" and clean: "wallet_clean e s"
  shows "ledger_ok g (snd (updateWalletHold e u k d s)) \<and> wallet_clean e (snd (updateWalletHold e u k d s))"
proof -
  have wf: "wallets_wf g s" using ok by (simp add: ledger_ok_def)
  from updateWalletHold_cases [OF wf e, of u k d] show ?thesis
  proof (elim disjE exE conjE)
    fix s'
    assume "updateWalletHold e u k d s = (Inr (), s')" "wallets_wf g s'" "bs_ledger s' = bs_ledger s"
      "map doc_ID (bs_wallets s') = map doc_ID (bs_wallets s)" "balance_at g s' = balance_at g s"
    moreover from this have "doc_ID ` set (bs_wallets s') = doc_ID ` set (bs_wallets s)" by (metis list.set_map)
    ultimately show ?thesis using ok clean
      by (simp add: ledger_ok_def service_sum_def entries_of_def wallet_clean_def)
  qed (use ok clean in simp_all)
qed

text \<open>Moving a hold and then writing an entry.\<close>

lemma hold_then_entry_keeps:
  assumes ok: "ledger_ok g s" and e: "se_scope e = g" and clean: "wallet_clean e s" and x: "by_service x"
  shows "ledger_ok g (snd (io_bind (updateWalletHold e u k d) (\<lambda>_. CreateEntry e x) s))"
proof (rule io_bind_keeps)
  show "ledger_ok g (snd (updateWalletHold e u k d s))" by (rule conjunct1 [OF held_keeps [OF ok e clean]])
  fix a s1
  assume r: "updateWalletHold e u k d s = (Inr a, s1)"
  have "ledger_ok g s1 \<and> wallet_clean e s1" using held_keeps [OF ok e clean, of u k d] unfolding r snd_conv .
  then show "ledger_ok g (snd (CreateEntry e x s1))" by (simp only: CreateEntry_keeps [OF _ e _ x])
qed

lemma io_bind_read_keeps:
  assumes "snd (m s) = s" "I s" "\<And>a. I (snd (f a s))"
  shows "I (snd (io_bind m f s))"
proof (rule io_bind_keeps)
  fix a s1
  assume "m s = (Inr a, s1)"
  with assms(1) have "s1 = s" by simp
  then show "I (snd (f a s1))" using assms(3) by simp
qed (simp only: assms)

lemma io_bind_pure_keeps:
  assumes "I (snd (m s))" "\<And>a s1. snd (f a s1) = s1"
  shows "I (snd (io_bind m f s))"
proof (rule io_bind_keeps [where I = I])
  fix a s1
  assume "m s = (Inr a, s1)"
  with assms(1) show "I (snd (f a s1))" by (simp add: assms(2))
qed (rule assms(1))

lemma entry_then_return:
  assumes ok: "ledger_ok g s" and e: "se_scope e = g" and clean: "wallet_clean e s" and y: "by_service y"
  shows "ledger_ok g (snd (io_bind (CreateEntry e y) (\<lambda>a. io_return (h a)) s))"
  by (rule io_bind_pure_keeps [where I = "ledger_ok g"], rule CreateEntry_keeps [OF ok e clean y]) simp

text \<open>The administration and the top-ups.\<close>

lemma admin_keeps:
  assumes ok: "ledger_ok g s" and e: "se_scope e = g"
  shows "ledger_ok g (snd (AdminAdjust e u q s))" "ledger_ok g (snd (AdminTransfer e u x s))"
    "ledger_ok g (snd (AdminApproveTopUp e i s))" "ledger_ok g (snd (AdminRejectTopUp e i s))"
    "ledger_ok g (snd (CreateTopUp e cfg u req s))" "ledger_ok g (snd (CancelTopUp e u i s))"
proof -
  note ins = insert_entry_keeps [OF _ e]
  show "ledger_ok g (snd (AdminAdjust e u q s))"
    using ok by (auto simp: AdminAdjust_def intro!: ins split: option.split)
  have two: "ledger_ok g (snd (io_bind (insert_entry e l k y) (\<lambda>_. io_bind (insert_entry e l' k' y') (\<lambda>_. io_return z)) s))"
    if "le_CreatedBy y = ''admin''" "le_CreatedBy y' = ''admin''" for l k y l' k' y' and z :: int64
  proof (rule io_bind_keeps [where I = "ledger_ok g"], rule ins [OF ok that(1)])
    fix a s1
    assume "insert_entry e l k y s = (Inr a, s1)"
    then have "ledger_ok g s1" using ins [OF ok that(1)] by (metis snd_conv)
    then show "ledger_ok g (snd (io_bind (insert_entry e l' k' y') (\<lambda>_. io_return z) s1))"
      by (intro io_bind_pure_keeps [where I = "ledger_ok g"] ins that(2)) simp_all
  qed
  show "ledger_ok g (snd (AdminTransfer e u x s))"
    using ok by (auto simp: AdminTransfer_def Let_def intro!: two split: option.split)
  have load: "ledger_ok g (snd (io_bind (load_topup e i) f s))" if "\<And>t. ledger_ok g (snd (f t s))"
    for f :: "topup \<Rightarrow> (balances, nat, 'b) io"
    by (rule io_bind_read_keeps [where I = "ledger_ok g"]) (simp_all add: load_topup_state ok that)
  show "ledger_ok g (snd (AdminRejectTopUp e i s))"
    unfolding AdminRejectTopUp_def by (rule load) (rule save_topup_keeps [OF ok])
  show "ledger_ok g (snd (CancelTopUp e u i s))"
    unfolding CancelTopUp_def
    by (rule load) (auto simp: ok Let_def intro!: io_bind_pure_keeps [where I = "ledger_ok g"] save_topup_keeps)
  have saved: "ledger_ok g (snd (io_bind (insert_entry e l k y) (\<lambda>_. io_bind (save_topup e i t) (\<lambda>_. io_return z)) s))"
    if "le_CreatedBy y = ''admin''" for l k y t and z :: int64
  proof (rule io_bind_keeps [where I = "ledger_ok g"], rule ins [OF ok that(1)])
    fix a s1
    assume "insert_entry e l k y s = (Inr a, s1)"
    then have "ledger_ok g s1" using ins [OF ok that(1)] by (metis snd_conv)
    then show "ledger_ok g (snd (io_bind (save_topup e i t) (\<lambda>_. io_return z) s1))"
      by (intro io_bind_pure_keeps [where I = "ledger_ok g"] save_topup_keeps) simp_all
  qed
  show "ledger_ok g (snd (AdminApproveTopUp e i s))"
    unfolding AdminApproveTopUp_def by (rule load) (auto simp: ok intro!: saved)
  have frame: "bs_wallets (snd (CreateTopUp e cfg u req s)) = bs_wallets s \<and> bs_ledger (snd (CreateTopUp e cfg u req s)) = bs_ledger s"
    by (auto simp: CreateTopUp_def Let_def io_bind_def io_status_def on_topups_def split: sum.splits prod.splits)
  show "ledger_ok g (snd (CreateTopUp e cfg u req s))"
    by (rule topups_keep [OF ok]) (simp_all only: frame)
qed

text \<open>The expiry worker.\<close>

lemma expire_each_keeps:
  "ledger_ok g s \<Longrightarrow> expiry_clean g envs k ps s \<Longrightarrow> ledger_ok g (snd (expire_each envs k ps s))"
proof (induction ps arbitrary: k s)
  case (Cons p ps)
  have c: "se_scope (envs k) = g" "wallet_clean (envs k) s"
    "expiry_clean g envs (Suc k) ps (snd (CreateEntry (envs k) (compensating p) s))"
    using Cons.prems(2) by simp_all
  have "ledger_ok g (snd (CreateEntry (envs k) (compensating p) s))"
    by (rule CreateEntry_keeps [OF Cons.prems(1) c(1,2)]) (simp add: compensating_def)
  note ih = Cons.IH [OF this c(3)]
  show ?case
    using ih by (cases "CreateEntry (envs k) (compensating p) s") (auto split: sum.split prod.splits)
qed simp

lemma ExpiryRun_state: "snd (ExpiryRun e envs s) = snd (expire_each envs 0 (expiring e s) s)"
  by (auto simp: ExpiryRun_def expiring_def on_ledger_def reading_def Let_def split: sum.splits prod.splits)

lemma balance_step_keeps:
  assumes ok: "ledger_ok g s" and e: "se_scope e = g" and op: "op_clean g e x s"
  shows "ledger_ok g (balance_step e x s)"
proof (cases x)
  case (BHold u k a c i)
  have clean: "wallet_clean e s" using op BHold by simp
  have wf: "wallets_wf g s" using ok by (simp add: ledger_ok_def)
  have r: "snd (GetAvailableBalance e l u k s) = s" for l
    by (simp add: GetAvailable_ok [OF wf e])
  show ?thesis
    unfolding BHold balance_step.simps Hold_def
  proof (rule io_bind_read_keeps [where I = "ledger_ok g"], rule r, rule ok)
    fix b
    show "ledger_ok g (snd ((if b <s a then io_fail (ErrInsufficientBalance b a)
       else io_bind (updateWalletHold e u k a) (\<lambda>_. CreateEntry e (new_entry u k (- a) c EntryHold ''hold'' [] (''hold_'' @ i)))) s))"
      by (cases "b <s a") (simp_all only: if_True if_False io_simps snd_conv ok hold_then_entry_keeps [OF ok e clean new_entry_service(1)])
  qed
next
  case (BRelease u k a c i)
  then have "wallet_clean e s" using op by simp
  then show ?thesis
    unfolding BRelease balance_step.simps ReleaseHold_def by (intro hold_then_entry_keeps ok e new_entry_service)
next
  case (BCharge req)
  then have clean: "wallet_clean e s" using op by simp
  show ?thesis
    unfolding BCharge balance_step.simps HandleCreateCharge_def Spend_def
    by (cases "resolveWalletKind (pq_PaymentMethod req)")
      (simp_all add: ok entry_then_return [OF ok e clean new_entry_service(1)])
next
  case (BCashback cf v)
  then have clean: "wallet_clean e s" using op by simp
  show ?thesis
    unfolding BCashback balance_step.simps OnInvoicePaid_def
    by (simp add: ok entry_then_return [OF ok e clean new_entry_service(2)])
next
  case (BSpend u k a c i)
  then have clean: "wallet_clean e s" using op by simp
  show ?thesis
    unfolding BSpend balance_step.simps Spend_def by (rule CreateEntry_keeps [OF ok e clean new_entry_service(1)])
next
  case (BEntry y)
  then have "wallet_clean e s" "by_service y" using op by simp_all
  then show ?thesis unfolding BEntry balance_step.simps by (intro CreateEntry_keeps ok e)
next
  case (BExpiry envs)
  then show ?thesis using op ok by (simp add: ExpiryRun_state expire_each_keeps)
qed (simp_all add: admin_keeps [OF ok e])

lemma balance_history_keeps: "ledger_ok g s \<Longrightarrow> clean_history g xs s \<Longrightarrow> ledger_ok g (balance_history xs s)"
proof (induction xs arbitrary: s)
  case (Cons p xs)
  obtain e x where p: "p = (e, x)" by (cases p)
  have c: "se_scope e = g" "op_clean g e x s" "clean_history g xs (balance_step e x s)"
    using Cons.prems(2) unfolding p by simp_all
  show ?case unfolding p balance_history.simps
    by (rule Cons.IH [OF balance_step_keeps [OF Cons.prems(1) c(1,2)] c(3)])
qed simp

section \<open>One call in a sound store\<close>

lemma CreateEntry_writes:
  assumes wf: "wallets_wf g s" and e: "se_scope e = g" and clean: "store_clean e s"
    and new: "find (same_entry x) (entries_of g s) = None"
    and x: "le_AmountCents x \<noteq> 0" "le_ReferenceID x \<noteq> []" "\<not> uncovered g s x"
  obtains y s' where "CreateEntry e x s = (Inr y, s')" "wallets_wf g s'" "le_ID y = env_uuid e 0"
    "entries_of g s' = entries_of g s @ [(env_uuid e 0, stamped e x)]"
    "\<And>v q. balance_at g s' v q = balance_at g s v q + (if v = le_UserID x \<and> q = le_Wallet x then le_AmountCents x else 0)"
    "\<And>v q. available_at g s' v q = available_at g s v q + (if v = le_UserID x \<and> q = le_Wallet x then le_AmountCents x else 0)"
proof -
  have wc: "wallet_clean e s" using clean by (simp add: store_clean_def)
  from CreateEntry_cases [OF wf e wc, of x] show ?thesis
  proof (elim disjE exE bexE conjE)
    fix er assume "store_clean e s \<longrightarrow> le_AmountCents x = 0 \<or> le_ReferenceID x = []
       \<or> uncovered g s x \<and> er = ErrInsufficientBalance (available_at g s (le_UserID x) (le_Wallet x)) (- le_AmountCents x)"
    then show ?thesis using clean x by blast
  next
    fix p assume "p \<in> set (entries_of g s)" "same_entry x p"
    then show ?thesis using new unfolding find_None_iff by blast
  qed (use that in blast)
qed

lemma CreateEntry_uncovered:
  assumes wf: "wallets_wf g s" and e: "se_scope e = g" and clean: "store_clean e s"
    and new: "find (same_entry x) (entries_of g s) = None"
    and x: "le_AmountCents x \<noteq> 0" "le_ReferenceID x \<noteq> []" "uncovered g s x"
  shows "CreateEntry e x s
    = (Inl (ErrInsufficientBalance (available_at g s (le_UserID x) (le_Wallet x)) (- le_AmountCents x)), s)"
proof -
  have wc: "wallet_clean e s" using clean by (simp add: store_clean_def)
  from CreateEntry_cases [OF wf e wc, of x] show ?thesis
  proof (elim disjE exE bexE conjE)
    fix er assume "CreateEntry e x s = (Inl er, s)" "store_clean e s \<longrightarrow> le_AmountCents x = 0 \<or> le_ReferenceID x = []
       \<or> uncovered g s x \<and> er = ErrInsufficientBalance (available_at g s (le_UserID x) (le_Wallet x)) (- le_AmountCents x)"
    then show ?thesis using clean x by blast
  next
    fix p assume "p \<in> set (entries_of g s)" "same_entry x p"
    then show ?thesis using new unfolding find_None_iff by blast
  next
    assume "le_AmountCents x <s 0 \<longrightarrow> 0 \<le>s available_at g s (le_UserID x) (le_Wallet x) + le_AmountCents x"
    then show ?thesis using x(3) by (auto simp: uncovered_def word_sle_eq word_sless_alt)
  qed
qed

text \<open>The entry that was written is the one a repetition finds.\<close>

lemma CreateEntry_again:
  assumes e: "se_scope e = g" "\<not> env_fault e ''list ledger''"
    and new: "find (same_entry x) old = None" and now: "entries_of g s = old @ [p]" and p: "same_entry x p"
    and x: "le_AmountCents x \<noteq> 0" "le_ReferenceID x \<noteq> []"
  shows "CreateEntry e x s = (Inr (snd p), s)"
proof -
  obtain docs where docs: "ListDocuments e ''list ledger'' (bs_ledger s) = Inr docs"
    using e(2) by (simp add: ListDocuments_def)
  note listed = find_entry_listed [OF e(1) docs, of "same_entry x"]
  have "find (same_entry x) (entries_of g s) \<noteq> None" unfolding now find_None_iff using p by (cases p) auto
  then obtain q where q: "find (same_entry x) (decoded docs) = Some q" using listed(1) by (cases "find (same_entry x) (decoded docs)") auto
  have m: "q \<in> set (old @ [p])" "same_entry x q" using listed(2) [OF q] unfolding now by blast+
  have "q \<notin> set old" using new m(2) unfolding find_None_iff by blast
  then have "q = p" using m(1) unfolding set_append by simp
  then show ?thesis using q docs x
    by (cases p) (simp add: CreateEntry_def io_bind_def on_ledger_def reading_def)
qed

text \<open>Freezing or releasing part of a wallet.\<close>

definition hold_at :: "string \<Rightarrow> balances \<Rightarrow> string \<Rightarrow> wallet_kind \<Rightarrow> int64" where
  "hold_at g s u k = (case wallet_at g s u k of None \<Rightarrow> 0 | Some p \<Rightarrow> wa_HoldCents (snd p))"

lemma available_hold: "available_at g s u k = balance_at g s u k - hold_at g s u k"
  by (simp add: available_at_def balance_at_def hold_at_def split: option.split)

lemma updateWalletHold_moves:
  assumes wf: "wallets_wf g s" and e: "se_scope e = g" and clean: "env_fault e = (\<lambda>_. False)"
    and w: "wallet_at g s u k \<noteq> None" and h: "0 \<le>s hold_at g s u k + d"
  obtains s' where "updateWalletHold e u k d s = (Inr (), s')" "wallets_wf g s'" "bs_ledger s' = bs_ledger s"
    "map doc_ID (bs_wallets s') = map doc_ID (bs_wallets s)" "balance_at g s' = balance_at g s"
    "wallet_at g s' u k \<noteq> None" "hold_at g s' u k = hold_at g s u k + d"
    "available_at g s' u k = available_at g s u k - d"
proof -
  obtain p where p: "wallet_at g s u k = Some p" using w by blast
  from updateWalletHold_cases [OF wf e, of u k d] obtain s' where
    run: "updateWalletHold e u k d s = (Inr (), s')" and s': "wallets_wf g s'" "bs_ledger s' = bs_ledger s"
      "map doc_ID (bs_wallets s') = map doc_ID (bs_wallets s)" "balance_at g s' = balance_at g s"
      "wallet_at g s' u k \<noteq> None"
    and av: "available_at g s' u k = wa_BalanceCents (snd p) - (if wa_HoldCents (snd p) + d <s 0 then 0 else wa_HoldCents (snd p) + d)"
    using clean p by (auto simp: Let_def)
  have "\<not> wa_HoldCents (snd p) + d <s 0" using h p by (simp add: hold_at_def word_sle_eq word_sless_alt)
  then have "available_at g s' u k = balance_at g s u k - (hold_at g s u k + d)"
    using av p by (simp add: balance_at_def hold_at_def)
  then have "hold_at g s' u k = hold_at g s u k + d" "available_at g s' u k = available_at g s u k - d"
    using s'(4) unfolding available_hold by (simp_all add: algebra_simps)
  then show ?thesis using that run s' by blast
qed

end
