(* ===== verification/BalanceProps.thy ===== *)
theory BalanceProps
  imports BalanceSpec
begin

text \<open>
  The properties of the balance plugin, on top of \<open>BalanceSpec\<close>, with their witnesses: the wallets are the
  ledger's sums as long as nothing fails in between, charges are idempotent and covered, and the places
  where wallets and ledger part.
\<close>

section \<open>Samples\<close>

definition shop_store :: "string \<Rightarrow> string set \<Rightarrow> store_env" where
  "shop_store prefix faults =
     \<lparr>env_now = 5, env_dbnow = 6, env_uuid = (\<lambda>k. prefix @ (if k = 0 then ''0'' else ''1'')), env_trace = [],
      env_fault = (\<lambda>l. l \<in> faults), se_ctx = ''t'', se_pool = []\<rparr>"

definition sample_topup :: topup where
  "sample_topup = \<lparr>tu_ID = ''x'', tu_UserID = ''u'', tu_AmountCents = 300, tu_Currency = ''USD'', tu_Status = TopUpPending,
     tu_PaymentMethod = ''card'', tu_CreatedAt = 1, tu_CompletedAt = None\<rparr>"

definition no_balances :: balances where
  "no_balances = \<lparr>bs_wallets = [], bs_ledger = [], bs_topups = [\<lparr>doc_ID = ''x'', doc_Data = Some sample_topup,
     doc_TenantID = Some ''t'', doc_CreatedAt = 1, doc_UpdatedAt = 1\<rparr>]\<rparr>"

definition sample_credit :: ledger_entry where
  "sample_credit = new_entry ''u'' WalletMoney 1000 ''USD'' EntryTopUp ''topup'' ''x'' ''topup_x''"

text \<open>A user with 1000 cents.\<close>

definition sample_balances :: balances where
  "sample_balances = balance_step (shop_store ''a'' {}) (BEntry sample_credit) no_balances"

lemma no_balances_ok: "ledger_ok ''t'' no_balances"
  by (simp add: ledger_ok_def wallets_wf_def wallets_of_def balance_at_def wallet_at_def service_sum_def entries_of_def
      vis_def no_balances_def)

lemma sample_balances_ok: "ledger_ok ''t'' sample_balances"
  unfolding sample_balances_def
  by (rule balance_step_keeps [OF no_balances_ok])
    (simp_all add: se_scope_def tx_scope_def wallet_clean_def shop_store_def no_balances_def sample_credit_def new_entry_def
      by_service_def)

lemma sample_balances_wf: "wallets_wf ''t'' sample_balances"
  using sample_balances_ok by (simp add: ledger_ok_def)

lemma sample_scope: "se_scope (shop_store p fs) = ''t''"
  by (simp add: se_scope_def tx_scope_def shop_store_def)

lemma sample_balances_value:
  "map doc_ID (bs_wallets sample_balances) = [''a1'']" "map doc_ID (bs_ledger sample_balances) = [''a0'']"
  "available_at ''t'' sample_balances ''u'' WalletMoney = 1000" "balance_at ''t'' sample_balances ''u'' WalletMoney = 1000"
  "map (\<lambda>p. le_ReferenceID (snd p)) (entries_of ''t'' sample_balances) = [''topup_x'']"
  by code_simp+

lemma sample_store_clean: "p @ ''1'' \<noteq> ''a1'' \<Longrightarrow> p @ ''0'' \<noteq> ''a0'' \<Longrightarrow> store_clean (shop_store p {}) sample_balances"
  using sample_balances_value(1,2)
  by (simp add: store_clean_def wallet_clean_def sample_scope) (auto simp: shop_store_def map_eq_Cons_conv)

section \<open>The ledger and the wallets\<close>

text \<open>C34. In one tenant's scope, one call after another: as long as no listing, update or insert that an
  update of a wallet's balance makes fails, and whatever else fails or is refused, the balance of every
  wallet is the sum of the ledger entries of its user and kind that the service wrote, which are those
  \<open>admin.go\<close> did not. That holds through any sequence of spends, holds, releases, charges, cashback, plain
  entries, expiry runs, top-ups with their approval and rejection, adjustments and transfers, each with
  an environment of its own, from any state in which it holds.\<close>

theorem ledger_matches_wallets:
  assumes "ledger_ok g s" "clean_history g xs s"
  shows "balance_at g (balance_history xs s) u k = service_sum g (balance_history xs s) u k"
  using balance_history_keeps [OF assms] by (simp add: ledger_ok_def)

definition sample_ops :: "(store_env \<times> balance_op) list" where
  "sample_ops = [(shop_store ''b'' {}, BSpend ''u'' WalletMoney 300 ''USD'' ''i''),
     (shop_store ''c'' {''list ledger''}, BSpend ''u'' WalletMoney 300 ''USD'' ''j''),
     (shop_store ''d'' {}, BHold ''u'' WalletMoney 200 ''USD'' ''h''), (shop_store ''e'' {}, BRelease ''u'' WalletMoney 200 ''USD'' ''h'')]"

definition sample_bonus :: ledger_entry where
  "sample_bonus = (new_entry ''u'' WalletBonus 50 ''USD'' EntryCashback ''invoice'' ''i'' ''cashback_i'')\<lparr>le_ExpiresAt := Some 3\<rparr>"

definition sample_mixed :: "(store_env \<times> balance_op) list" where
  "sample_mixed = sample_ops @ [(shop_store ''f'' {}, BApproveTopUp ''x''), (shop_store ''g'' {}, BAdjust ''u'' \<lparr>aq_WalletKind = ''money'', aq_AmountCents = 7\<rparr>),
     (shop_store ''h'' {}, BEntry sample_bonus), (shop_store ''i'' {}, BExpiry (\<lambda>k. shop_store ''j'' {}))]"

theorem ledger_matches_wallets_witness:
  "balance_at ''t'' (balance_history sample_mixed sample_balances) ''u'' WalletMoney
     = service_sum ''t'' (balance_history sample_mixed sample_balances) ''u'' WalletMoney
   \<and> balance_at ''t'' (balance_history sample_mixed sample_balances) ''u'' WalletMoney = 700
   \<and> ledger_sum ''t'' (balance_history sample_mixed sample_balances) ''u'' WalletMoney = 1007"
proof (intro conjI)
  have "clean_history ''t'' sample_mixed sample_balances" by code_simp
  then show "balance_at ''t'' (balance_history sample_mixed sample_balances) ''u'' WalletMoney
     = service_sum ''t'' (balance_history sample_mixed sample_balances) ''u'' WalletMoney"
    by (rule ledger_matches_wallets [OF sample_balances_ok])
  show "balance_at ''t'' (balance_history sample_mixed sample_balances) ''u'' WalletMoney = 700"
    "ledger_sum ''t'' (balance_history sample_mixed sample_balances) ''u'' WalletMoney = 1007" by code_simp+
qed

section \<open>Spending\<close>

definition fresh_entry :: "string \<Rightarrow> balances \<Rightarrow> ledger_entry \<Rightarrow> bool" where
  "fresh_entry g s x \<longleftrightarrow> find (same_entry x) (entries_of g s) = None"

lemma new_entry_fields [simp]:
  "le_ID (new_entry u k a c kd st si r) = []"
  "le_UserID (new_entry u k a c kd st si r) = u" "le_Wallet (new_entry u k a c kd st si r) = k"
  "le_AmountCents (new_entry u k a c kd st si r) = a" "le_SourceType (new_entry u k a c kd st si r) = st"
  "le_ReferenceID (new_entry u k a c kd st si r) = r"
  by (simp_all add: new_entry_def)

lemma stamped_id [simp]: "le_ID (stamped e x) = le_ID x" "le_ReferenceID (stamped e x) = le_ReferenceID x" "same_entry y (i, stamped e x) = same_entry y (j, x)"
  by (simp_all add: stamped_def same_entry_def)

text \<open>A debit \<open>- a\<close> of a positive \<open>a\<close> from an available amount that is not negative.\<close>

lemma debit_cover:
  assumes "0 <s a" "0 \<le>s (v :: int64)"
  shows "- a <s 0" "v + - a <s 0 \<longleftrightarrow> sint v < sint a" "sint (v + - a) = sint v - sint a"
proof -
  have a: "0 < sint a" "0 \<le> sint v" using assms by (simp_all add: word_sless_alt word_sle_eq)
  have m: "sint (- a) = - sint a"
    using a sint64_upper [of a] by (intro sint_minus64) (simp add: in_int64_def)
  then show "- a <s 0" using a by (simp add: word_sless_alt)
  have "in_int64 (sint v + sint (- a))"
    using a m sint64_upper [of a] sint64_upper [of v] by (simp add: in_int64_def)
  then show s: "sint (v + - a) = sint v - sint a" using m by (simp add: sint_add64 del: add_uminus_conv_diff)
  then show "v + - a <s 0 \<longleftrightarrow> sint v < sint a" by (simp add: word_sless_alt)
qed

text \<open>C35. In a store where nothing fails, spending a positive amount for an invoice that has no ledger entry yet,
  from a wallet that is not overdrawn, does one of two things: if the available amount covers it, exactly
  that much less is available and no other wallet changes; if it does not, the error names both amounts
  and nothing is written.\<close>

theorem spend_is_exact_or_refused:
  assumes wf: "wallets_wf g s" and e: "se_scope e = g" "store_clean e s"
    and new: "fresh_entry g s (new_entry u k (- a) c EntryConsumption ''invoice'' i (''consumption_'' @ i))"
    and a: "0 <s a" "0 \<le>s available_at g s u k"
  shows "if sint a \<le> sint (available_at g s u k)
    then (\<exists>y s'. Spend e u k a c i s = (Inr y, s')
      \<and> sint (available_at g s' u k) = sint (available_at g s u k) - sint a
      \<and> (\<forall>v q. (v, q) \<noteq> (u, k) \<longrightarrow> available_at g s' v q = available_at g s v q \<and> balance_at g s' v q = balance_at g s v q))
    else Spend e u k a c i s = (Inl (ErrInsufficientBalance (available_at g s u k) a), s)"
proof -
  let ?x = "new_entry u k (- a) c EntryConsumption ''invoice'' i (''consumption_'' @ i)"
  note cover = debit_cover [OF a]
  have x: "le_AmountCents ?x \<noteq> 0" "le_ReferenceID ?x \<noteq> []" using a(1) by auto
  have unc: "uncovered g s ?x \<longleftrightarrow> sint (available_at g s u k) < sint a"
    using cover(1,2) by (simp add: uncovered_def del: add_uminus_conv_diff)
  show ?thesis
  proof (cases "sint a \<le> sint (available_at g s u k)")
    case True
    then obtain y s' where "CreateEntry e ?x s = (Inr y, s')"
      "\<And>v q. balance_at g s' v q = balance_at g s v q + (if v = le_UserID ?x \<and> q = le_Wallet ?x then le_AmountCents ?x else 0)"
      "\<And>v q. available_at g s' v q = available_at g s v q + (if v = le_UserID ?x \<and> q = le_Wallet ?x then le_AmountCents ?x else 0)"
      using CreateEntry_writes [OF wf e new [unfolded fresh_entry_def] x] unc by (metis not_le)
    then show ?thesis using True cover(3) by (auto simp: Spend_def simp del: add_uminus_conv_diff)
  next
    case False
    then show ?thesis
      using CreateEntry_uncovered [OF wf e new [unfolded fresh_entry_def] x] unc by (simp add: Spend_def)
  qed
qed

theorem spend_is_exact_or_refused_witness:
  "Spend (shop_store ''b'' {}) ''u'' WalletMoney 1001 ''USD'' ''i'' sample_balances
     = (Inl (ErrInsufficientBalance 1000 1001), sample_balances)"
proof -
  have "if sint (1001 :: int64) \<le> sint (available_at ''t'' sample_balances ''u'' WalletMoney)
    then (\<exists>y s'. Spend (shop_store ''b'' {}) ''u'' WalletMoney 1001 ''USD'' ''i'' sample_balances = (Inr y, s')
      \<and> sint (available_at ''t'' s' ''u'' WalletMoney) = sint (available_at ''t'' sample_balances ''u'' WalletMoney) - sint (1001 :: int64)
      \<and> (\<forall>v q. (v, q) \<noteq> (''u'', WalletMoney) \<longrightarrow> available_at ''t'' s' v q = available_at ''t'' sample_balances v q
             \<and> balance_at ''t'' s' v q = balance_at ''t'' sample_balances v q))
    else Spend (shop_store ''b'' {}) ''u'' WalletMoney 1001 ''USD'' ''i'' sample_balances
      = (Inl (ErrInsufficientBalance (available_at ''t'' sample_balances ''u'' WalletMoney) 1001), sample_balances)"
  proof (rule spend_is_exact_or_refused [OF sample_balances_wf sample_scope])
    show "fresh_entry ''t'' sample_balances (new_entry ''u'' WalletMoney (- 1001) ''USD'' EntryConsumption ''invoice'' ''i'' (''consumption_'' @ ''i''))"
      by code_simp
  qed (simp_all add: sample_store_clean sample_balances_value word_sle_eq word_sless_alt)
  then show ?thesis by (simp add: sample_balances_value)
qed

section \<open>Retries\<close>

text \<open>C36. A charge that is retried debits nothing, whatever amount the retry names: it is answered from the
  stored entry. The stored entry was written before it had its identifier, so the retry is answered
  \<open>completed\<close> with an empty external identifier where the first answer had the entry's.\<close>

theorem retried_charge_loses_its_id:
  assumes wf: "wallets_wf g s" and e: "se_scope e = g" "wallet_clean e s" and e': "se_scope e' = g" "\<not> env_fault e' ''list ledger''"
    and k: "resolveWalletKind (pq_PaymentMethod req) = Some k"
    and new: "fresh_entry g s (new_entry (pq_UserID req) k (- pq_Amount req) (pq_Currency req) EntryConsumption ''invoice''
      (pq_InvoiceID req) (''consumption_'' @ pq_InvoiceID req))"
    and run: "HandleCreateCharge e req s = (Inr (Some r), s')" and b: "b \<noteq> 0"
  shows "pz_ExternalID r = env_uuid e 0 \<and> HandleCreateCharge e' (req\<lparr>pq_Amount := b\<rparr>) s'
    = (Inr (Some \<lparr>pz_Provider = ''balance'', pz_ExternalID = [], pz_Status = ''completed''\<rparr>), s')"
proof -
  let ?x = "\<lambda>a. new_entry (pq_UserID req) k (- a) (pq_Currency req) EntryConsumption ''invoice'' (pq_InvoiceID req)
    (''consumption_'' @ pq_InvoiceID req)"
  obtain y where y: "CreateEntry e (?x (pq_Amount req)) s = (Inr y, s')" and r: "pz_ExternalID r = le_ID y"
    using run k by (auto simp: HandleCreateCharge_def Spend_def)
  from CreateEntry_cases [OF wf e, of "?x (pq_Amount req)"]
  have w: "entries_of g s' = entries_of g s @ [(env_uuid e 0, stamped e (?x (pq_Amount req)))]" "le_ID y = env_uuid e 0"
    using y new by (auto simp: fresh_entry_def find_None_iff)
  have "find (same_entry (?x b)) (entries_of g s) = None"
    using new by (simp add: fresh_entry_def same_entry_def [abs_def])
  from CreateEntry_again [OF e' this w(1)]
  have "CreateEntry e' (?x b) s' = (Inr (stamped e (?x (pq_Amount req))), s')"
    using b by (simp add: same_entry_def stamped_def)
  then show ?thesis using k r w(2) by (simp add: HandleCreateCharge_def Spend_def io_bind_def)
qed

definition sample_balance_charge :: payment_charge_request where
  "sample_balance_charge = \<lparr>pq_InvoiceID = ''i'', pq_Amount = 300, pq_Currency = ''USD'', pq_UserID = ''u'', pq_PaymentMethod = ''balance''\<rparr>"

theorem retried_charge_loses_its_id_witness:
  "HandleCreateCharge (shop_store ''c'' {}) (sample_balance_charge\<lparr>pq_Amount := 900\<rparr>)
       (snd (HandleCreateCharge (shop_store ''b'' {}) sample_balance_charge sample_balances))
     = (Inr (Some \<lparr>pz_Provider = ''balance'', pz_ExternalID = [], pz_Status = ''completed''\<rparr>),
        snd (HandleCreateCharge (shop_store ''b'' {}) sample_balance_charge sample_balances))"
proof -
  let ?r = "\<lparr>pz_Provider = ''balance'', pz_ExternalID = ''b0'', pz_Status = ''completed''\<rparr>"
  have "fst (HandleCreateCharge (shop_store ''b'' {}) sample_balance_charge sample_balances) = Inr (Some ?r)" by code_simp
  then have run: "HandleCreateCharge (shop_store ''b'' {}) sample_balance_charge sample_balances
      = (Inr (Some ?r), snd (HandleCreateCharge (shop_store ''b'' {}) sample_balance_charge sample_balances))"
    by (metis surjective_pairing)
  have new: "fresh_entry ''t'' sample_balances (new_entry (pq_UserID sample_balance_charge) WalletMoney (- pq_Amount sample_balance_charge)
      (pq_Currency sample_balance_charge) EntryConsumption ''invoice'' (pq_InvoiceID sample_balance_charge) (''consumption_'' @ pq_InvoiceID sample_balance_charge))"
    by code_simp
  have clean: "wallet_clean (shop_store ''b'' {}) sample_balances"
    using sample_store_clean [of "''b''"] by (simp add: store_clean_def)
  show ?thesis
    by (rule conjunct2 [OF retried_charge_loses_its_id [OF sample_balances_wf sample_scope clean sample_scope _ _ new run]])
      (simp_all add: shop_store_def sample_balance_charge_def resolveWalletKind_def)
qed

text \<open>A wallet update that fails, at the listing, the update or the insert, leaves everything as it was.\<close>

lemma updateWalletBalance_fails:
  "updateWalletBalance e u k delta cur s = (Inl er, s') \<Longrightarrow> s' = s"
  by (auto simp: updateWalletBalance_def io_bind_def on_wallets_def reading_def writing_def Let_def
      split: sum.splits prod.splits option.splits)

text \<open>C37. The entry of a credit, of a positive amount and with a new reference, is stored before its wallet is
  updated. When that update then fails, wherever it fails, the caller gets its error, the ledger has the
  entry and the wallet is as it was. A retry finds the entry, answers success and writes nothing, and so
  does every further one, so the credit never arrives.\<close>

theorem lost_wallet_update_is_permanent:
  assumes e: "se_scope e = g" "\<not> env_fault e ''list ledger''"
    and x: "0 <s le_AmountCents x" "le_ReferenceID x \<noteq> []" "fresh_entry g s x"
    and ins: "InsertDocument e ''insert entry'' 0 (stamped e x) (bs_ledger s) = Inr (d, t)"
    and up: "fst (updateWalletBalance e (le_UserID x) (le_Wallet x) (le_AmountCents x) (le_Currency x) (s\<lparr>bs_ledger := t\<rparr>)) = Inl er"
    and e': "se_scope e' = g" "\<not> env_fault e' ''list ledger''"
  shows "\<exists>s'. CreateEntry e x s = (Inl er, s')
    \<and> ledger_sum g s' (le_UserID x) (le_Wallet x) = ledger_sum g s (le_UserID x) (le_Wallet x) + le_AmountCents x
    \<and> bs_wallets s' = bs_wallets s \<and> CreateEntry e' x s' = (Inr (stamped e x), s')"
proof -
  obtain docs where docs: "ListDocuments e ''list ledger'' (bs_ledger s) = Inr docs"
    using e(2) by (simp add: ListDocuments_def)
  have none: "find (same_entry x) (decoded docs) = None"
    using find_entry_listed(1) [OF e(1) docs] x(3) by (simp add: fresh_entry_def)
  note d = InsertDocument_ok [OF ins]
  let ?s = "s\<lparr>bs_ledger := t\<rparr>"
  have pos: "le_AmountCents x \<noteq> 0" "\<not> le_AmountCents x <s 0" using x(1) by (auto simp: word_sless_alt)
  have failed: "updateWalletBalance e (le_UserID x) (le_Wallet x) (le_AmountCents x) (le_Currency x) ?s = (Inl er, ?s)"
    using up updateWalletBalance_fails by (metis fst_conv surj_pair)
  have run: "CreateEntry e x s = (Inl er, ?s)"
    using docs none pos x(2) ins failed
    by (simp add: CreateEntry_def io_bind_def on_ledger_def reading_def stamped_def Let_def)
  have en: "entries_of g ?s = entries_of g s @ [(env_uuid e 0, stamped e x)]"
    using d e(1) by (simp add: entries_of_def vis_def decoded_append doc_visible_def)
  have again: "CreateEntry e' x ?s = (Inr (stamped e x), ?s)"
    using CreateEntry_again [OF e' x(3) [unfolded fresh_entry_def] en _ pos(1) x(2)] by (simp add: same_entry_def stamped_def)
  show ?thesis using run again by (auto simp: ledger_sum_snoc [OF en])
qed

text \<open>The user's first wallet cannot be inserted: the credit of 1000 cents is in the ledger only.\<close>

theorem lost_wallet_update_is_permanent_witness:
  "\<exists>s'. CreateEntry (shop_store ''a'' {''insert wallet''}) sample_credit no_balances
       = (Inl (ErrStore (ErrStoreFailed ''insert wallet'')), s')
     \<and> ledger_sum ''t'' s' ''u'' WalletMoney = 1000 \<and> bs_wallets s' = []
     \<and> CreateEntry (shop_store ''b'' {}) sample_credit s' = (Inr (stamped (shop_store ''a'' {''insert wallet''}) sample_credit), s')"
proof -
  let ?e = "shop_store ''a'' {''insert wallet''}"
  let ?d = "\<lparr>doc_ID = ''a0'', doc_Data = Some (stamped ?e sample_credit), doc_TenantID = Some ''t'', doc_CreatedAt = 6, doc_UpdatedAt = 6\<rparr>"
  have ins: "InsertDocument ?e ''insert entry'' 0 (stamped ?e sample_credit) (bs_ledger no_balances) = Inr (?d, [?d])"
    by code_simp
  have new: "fresh_entry ''t'' no_balances sample_credit" by code_simp
  have up: "fst (updateWalletBalance ?e (le_UserID sample_credit) (le_Wallet sample_credit) (le_AmountCents sample_credit)
      (le_Currency sample_credit) (no_balances\<lparr>bs_ledger := [?d]\<rparr>)) = Inl (ErrStore (ErrStoreFailed ''insert wallet''))"
    by code_simp
  have z: "ledger_sum ''t'' no_balances ''u'' WalletMoney = 0" "bs_wallets no_balances = []" by code_simp+
  have c: "0 <s le_AmountCents sample_credit" "le_ReferenceID sample_credit \<noteq> []" "\<not> env_fault ?e ''list ledger''"
    "\<not> env_fault (shop_store ''b'' {}) ''list ledger''" "le_UserID sample_credit = ''u''" "le_Wallet sample_credit = WalletMoney"
    "le_AmountCents sample_credit = 1000"
    by (simp_all add: sample_credit_def shop_store_def word_sless_alt)
  show ?thesis
    using lost_wallet_update_is_permanent [OF sample_scope c(3,1,2) new ins up sample_scope c(4)] unfolding c(5-7) z by simp
qed

section \<open>Holds and top-ups\<close>

text \<open>An entry whose reference is new stays new when an entry of another reference is written.\<close>

lemma fresh_after:
  assumes "fresh_entry g s x" "entries_of g s' = entries_of g s @ [(i, y)]" "le_ReferenceID y \<noteq> le_ReferenceID x"
  shows "fresh_entry g s' x"
  using assms by (auto simp: fresh_entry_def find_None_iff same_entry_def)

text \<open>Releasing \<open>a\<close> gives it back twice: from the hold and as a credit.\<close>

lemma ReleaseHold_credits:
  assumes wf: "wallets_wf g s" and e: "se_scope e = g" "store_clean e s"
    and w: "wallet_at g s u k \<noteq> None" and h: "0 \<le>s hold_at g s u k - a" and a: "0 <s a"
    and new: "fresh_entry g s (new_entry u k a c EntryRelease ''hold'' [] (''release_'' @ r))"
  obtains y s' where "ReleaseHold e u k a c r s = (Inr y, s')" "balance_at g s' u k = balance_at g s u k + a"
    "available_at g s' u k = available_at g s u k + 2 * a"
proof -
  let ?x = "new_entry u k a c EntryRelease ''hold'' [] (''release_'' @ r)"
  obtain s1 where s1: "updateWalletHold e u k (- a) s = (Inr (), s1)" "wallets_wf g s1" "bs_ledger s1 = bs_ledger s"
    "map doc_ID (bs_wallets s1) = map doc_ID (bs_wallets s)" "balance_at g s1 = balance_at g s"
    "available_at g s1 u k = available_at g s u k - - a"
    using updateWalletHold_moves [OF wf e(1) _ w, of "- a"] e(2) h by (auto simp: store_clean_def)
  have ids: "doc_ID ` set (bs_wallets s1) = doc_ID ` set (bs_wallets s)" using s1(4) by (metis list.set_map)
  have clean: "store_clean e s1" using e(2) s1(3) ids by (simp add: store_clean_def wallet_clean_def)
  have none: "find (same_entry ?x) (entries_of g s1) = None" using new s1(3) by (simp add: fresh_entry_def entries_of_def)
  have x: "le_AmountCents ?x \<noteq> 0" "le_ReferenceID ?x \<noteq> []" "\<not> uncovered g s1 ?x"
    using a by (auto simp: uncovered_def word_sless_alt)
  show ?thesis
  proof (rule CreateEntry_writes [OF s1(2) e(1) clean none x])
    fix y s2
    assume run: "CreateEntry e ?x s1 = (Inr y, s2)"
      and b: "\<And>v q. balance_at g s2 v q = balance_at g s1 v q + (if v = le_UserID ?x \<and> q = le_Wallet ?x then le_AmountCents ?x else 0)"
      and av: "\<And>v q. available_at g s2 v q = available_at g s1 v q + (if v = le_UserID ?x \<and> q = le_Wallet ?x then le_AmountCents ?x else 0)"
    have "ReleaseHold e u k a c r s = (Inr y, s2)"
      unfolding ReleaseHold_def io_bind_step [where m = "updateWalletHold e u k (- a)", OF s1(1)] by (rule run)
    moreover have "balance_at g s2 u k = balance_at g s u k + a" using b [of u k] s1(5) by simp
    moreover have "available_at g s2 u k = available_at g s u k + 2 * a"
      using av [of u k] s1(6) by (simp add: algebra_simps)
    ultimately show thesis by (rule that)
  qed
qed

text \<open>C38. A hold takes its amount twice, once frozen and once debited, so it needs twice the amount. When the
  wallet covers the amount but not twice, the hold fails and the amount stays frozen. The release gives
  back twice: it restores the wallet after a hold that succeeded, and after a hold that failed it leaves
  the wallet richer by the amount.\<close>

theorem release_of_a_failed_hold_creates_money:
  assumes wf: "wallets_wf g s" and e: "se_scope e = g" "store_clean e s" and w: "wallet_at g s u k \<noteq> None"
    and e': "se_scope e' = g" "store_clean e' (snd (Hold e u k a c r s))"
    and new: "fresh_entry g s (new_entry u k (- a) c EntryHold ''hold'' [] (''hold_'' @ r))"
      "fresh_entry g s (new_entry u k a c EntryRelease ''hold'' [] (''release_'' @ r))"
    and a: "0 <s a" "sint a \<le> sint (available_at g s u k)"
    and h: "0 \<le>s hold_at g s u k" "in_int64 (sint (hold_at g s u k) + sint a)"
  shows "let (x, s1) = Hold e u k a c r s; (y, s2) = ReleaseHold e' u k a c r s1 in
    if 2 * sint a \<le> sint (available_at g s u k)
    then \<not> isl x \<and> available_at g s1 u k = available_at g s u k - 2 * a
      \<and> balance_at g s2 u k = balance_at g s u k \<and> available_at g s2 u k = available_at g s u k
    else isl x \<and> available_at g s1 u k = available_at g s u k - a
      \<and> \<not> isl y \<and> balance_at g s2 u k = balance_at g s u k + a \<and> available_at g s2 u k = available_at g s u k + a"
proof -
  let ?x = "new_entry u k (- a) c EntryHold ''hold'' [] (''hold_'' @ r)"
  let ?r = "new_entry u k a c EntryRelease ''hold'' [] (''release_'' @ r)"
  let ?v = "available_at g s u k"
  have pos: "0 < sint a" "0 \<le> sint (hold_at g s u k)" using a h by (simp_all add: word_sless_alt word_sle_eq)
  have h1: "sint (hold_at g s u k + a) = sint (hold_at g s u k) + sint a" using h(2) by (rule sint_add64)
  have "0 \<le>s hold_at g s u k + a" using h1 pos by (simp add: word_sle_eq)
  then obtain s1 where s1: "updateWalletHold e u k a s = (Inr (), s1)" "wallets_wf g s1" "bs_ledger s1 = bs_ledger s"
    "map doc_ID (bs_wallets s1) = map doc_ID (bs_wallets s)" "balance_at g s1 = balance_at g s"
    "wallet_at g s1 u k \<noteq> None" "hold_at g s1 u k = hold_at g s u k + a" "available_at g s1 u k = ?v - a"
    using updateWalletHold_moves [OF wf e(1) _ w, of a] e(2) by (auto simp: store_clean_def)
  have read: "GetAvailableBalance e ''read balance for hold'' u k s = (Inr ?v, s)"
    using e(2) by (simp add: GetAvailable_ok [OF wf e(1)] store_clean_def)
  have run: "Hold e u k a c r s = CreateEntry e ?x s1"
    using read s1(1) a(2) by (simp add: Hold_def io_bind_def word_sless_alt)
  have ids: "doc_ID ` set (bs_wallets s1) = doc_ID ` set (bs_wallets s)" using s1(4) by (metis list.set_map)
  have clean: "store_clean e s1" using e(2) s1(3) ids by (simp add: store_clean_def wallet_clean_def)
  have ent: "entries_of g s1 = entries_of g s" using s1(3) by (simp add: entries_of_def)
  have none: "find (same_entry ?x) (entries_of g s1) = None" using new(1) ent by (simp add: fresh_entry_def)
  have x: "le_AmountCents ?x \<noteq> 0" "le_ReferenceID ?x \<noteq> []" using a(1) by auto
  have v1: "sint (?v - a) = sint ?v - sint a"
    using a pos sint64_upper [of ?v] by (intro sint_sub64) (simp add: in_int64_def)
  then have v1p: "0 \<le>s ?v - a" using a(2) by (simp add: word_sle_eq)
  note cover = debit_cover [OF a(1) v1p]
  have unc: "uncovered g s1 ?x \<longleftrightarrow> sint ?v < 2 * sint a"
    using cover(1,2) v1 by (simp add: uncovered_def s1(8) del: add_uminus_conv_diff)
  have hs1: "0 \<le>s hold_at g s1 u k - a" using h(1) by (simp add: s1(7))
  show ?thesis
  proof (cases "2 * sint a \<le> sint ?v")
    case True
    then obtain y s2 where s2: "CreateEntry e ?x s1 = (Inr y, s2)" "wallets_wf g s2"
      "entries_of g s2 = entries_of g s1 @ [(env_uuid e 0, stamped e ?x)]"
      and b2: "\<And>v q. balance_at g s2 v q = balance_at g s1 v q + (if v = u \<and> q = k then - a else 0)"
      and a2: "\<And>v q. available_at g s2 v q = available_at g s1 v q + (if v = u \<and> q = k then - a else 0)"
      using CreateEntry_writes [OF s1(2) e(1) clean none x] unc by (metis not_le new_entry_fields(2-4))
    have new2: "fresh_entry g s2 ?r"
      by (rule fresh_after [OF _ s2(3)]) (use new(2) ent in \<open>simp_all add: fresh_entry_def\<close>)
    have "balance_at g s2 u k - available_at g s2 u k = hold_at g s1 u k" using a2 b2 by (simp add: available_hold)
    then have h2: "0 \<le>s hold_at g s2 u k - a" using hs1 unfolding available_hold by simp
    have "wallet_at g s2 u k \<noteq> None"
    proof
      assume "wallet_at g s2 u k = None"
      then have "hold_at g s2 u k = 0" by (simp add: hold_at_def)
      moreover have "hold_at g s2 u k = hold_at g s u k + a"
        using \<open>balance_at g s2 u k - available_at g s2 u k = hold_at g s1 u k\<close> s1(7) by (simp add: available_hold)
      ultimately have "sint (hold_at g s u k + a) = 0" by simp
      then show False using h1 pos by linarith
    qed
    from ReleaseHold_credits [OF s2(2) e'(1) _ this h2 a(1) new2] obtain y' s3 where
      "ReleaseHold e' u k a c r s2 = (Inr y', s3)" "balance_at g s3 u k = balance_at g s2 u k + a"
      "available_at g s3 u k = available_at g s2 u k + 2 * a"
      using e'(2) run s2(1) by (metis snd_conv)
    then show ?thesis using True run s2(1) b2 a2 s1 by (simp add: algebra_simps)
  next
    case False
    then have r1: "Hold e u k a c r s = (Inl (ErrInsufficientBalance (?v - a) a), s1)"
      using CreateEntry_uncovered [OF s1(2) e(1) clean none x] unc run by (simp add: s1(8))
    have new1: "fresh_entry g s1 ?r" using new(2) ent by (simp add: fresh_entry_def)
    from ReleaseHold_credits [OF s1(2) e'(1) _ s1(6) hs1 a(1) new1] obtain y' s3 where
      "ReleaseHold e' u k a c r s1 = (Inr y', s3)" "balance_at g s3 u k = balance_at g s1 u k + a"
      "available_at g s3 u k = available_at g s1 u k + 2 * a"
      using e'(2) r1 by (metis snd_conv)
    then show ?thesis using False r1 s1 by (simp add: algebra_simps)
  qed
qed

definition held_balances :: balances where
  "held_balances = snd (Hold (shop_store ''b'' {}) ''u'' WalletMoney 600 ''USD'' ''h'' sample_balances)"

theorem release_of_a_failed_hold_creates_money_witness:
  "isl (fst (Hold (shop_store ''b'' {}) ''u'' WalletMoney 600 ''USD'' ''h'' sample_balances))
   \<and> available_at ''t'' (snd (ReleaseHold (shop_store ''c'' {}) ''u'' WalletMoney 600 ''USD'' ''h'' held_balances)) ''u'' WalletMoney = 1600"
proof -
  have new: "fresh_entry ''t'' sample_balances (new_entry ''u'' WalletMoney (- 600) ''USD'' EntryHold ''hold'' [] (''hold_'' @ ''h''))"
    "fresh_entry ''t'' sample_balances (new_entry ''u'' WalletMoney 600 ''USD'' EntryRelease ''hold'' [] (''release_'' @ ''h''))"
    by code_simp+
  have w: "wallet_at ''t'' sample_balances ''u'' WalletMoney \<noteq> None" by code_simp
  have h: "hold_at ''t'' sample_balances ''u'' WalletMoney = 0" by code_simp
  have "map doc_ID (bs_wallets held_balances) = [''a1'']" "map doc_ID (bs_ledger held_balances) = [''a0'']" by code_simp+
  then have clean: "store_clean (shop_store ''c'' {}) held_balances"
    by (simp add: store_clean_def wallet_clean_def sample_scope) (auto simp: shop_store_def map_eq_Cons_conv)
  show ?thesis
    using release_of_a_failed_hold_creates_money [OF sample_balances_wf sample_scope sample_store_clean w sample_scope
        clean [unfolded held_balances_def] new]
    by (simp add: h sample_balances_value held_balances_def word_sless_alt word_sle_eq in_int64_def split: prod.splits)
qed

lemma approval_effect:
  assumes e: "se_scope e = g" and run: "AdminApproveTopUp e i s = (Inr a, s1)"
  shows "bs_wallets s1 = bs_wallets s
     \<and> (\<exists>d \<in> set (bs_topups s). \<exists>t j y. doc_Data d = Some t \<and> doc_ID d = i \<and> tu_AmountCents t = a
        \<and> entries_of g s1 = entries_of g s @ [(j, y)] \<and> le_UserID y = tu_UserID t \<and> le_Wallet y = WalletMoney \<and> le_AmountCents y = a
        \<and> bs_topups s1 = map (\<lambda>d. if doc_visible e d \<and> doc_ID d = i
            then d\<lparr>doc_Data := Some (t\<lparr>tu_Status := TopUpCompleted, tu_CompletedAt := Some (env_now e)\<rparr>), doc_UpdatedAt := env_dbnow e\<rparr>
            else d) (bs_topups s)
        \<and> (a \<noteq> 0 \<and> balance_at g s (tu_UserID t) WalletMoney = ledger_sum g s (tu_UserID t) WalletMoney
            \<longrightarrow> balance_at g s1 (tu_UserID t) WalletMoney \<noteq> ledger_sum g s1 (tu_UserID t) WalletMoney))"
proof -
  obtain t s0 where load: "load_topup e i s = (Inr t, s0)" using run by (auto simp: AdminApproveTopUp_def)
  then have s0: "s0 = s" and d: "\<exists>d \<in> set (bs_topups s). doc_Data d = Some t \<and> doc_ID d = i"
    using load_topup_ok by blast+
  define y where "y = (new_entry (tu_UserID t) WalletMoney (tu_AmountCents t) (tu_Currency t) EntryTopUp ''topup'' i (''topup_'' @ i))
         \<lparr>le_CreatedAt := env_now e, le_CreatedBy := ''admin''\<rparr>"
  obtain j s2 where ins: "insert_entry e ''insert credit'' 0 y s = (Inr j, s2)"
    and save: "save_topup e i (t\<lparr>tu_Status := TopUpCompleted, tu_CompletedAt := Some (env_now e)\<rparr>) s2 = (Inr (), s1)"
    and ta: "tu_AmountCents t = a"
    using run load s0 by (auto simp: AdminApproveTopUp_def y_def split: if_splits)
  have y: "le_UserID y = tu_UserID t" "le_Wallet y = WalletMoney" "le_AmountCents y = a" by (simp_all add: y_def ta)
  note w = insert_entry_ok [OF ins e]
  have frame: "bs_wallets s1 = bs_wallets s" "bs_ledger s1 = bs_ledger s2"
    using save_topup_frame [of e i "t\<lparr>tu_Status := TopUpCompleted, tu_CompletedAt := Some (env_now e)\<rparr>" s2] w(1) unfolding save by simp_all
  have en: "entries_of g s1 = entries_of g s @ [(j, y)]" using w(3) frame(2) by (simp add: entries_of_def)
  have top: "bs_topups s1 = map (\<lambda>d. if doc_visible e d \<and> doc_ID d = i
            then d\<lparr>doc_Data := Some (t\<lparr>tu_Status := TopUpCompleted, tu_CompletedAt := Some (env_now e)\<rparr>), doc_UpdatedAt := env_dbnow e\<rparr>
            else d) (bs_topups s)"
    using save unfolding w(2) [symmetric]
    by (auto simp: save_topup_def io_status_def on_topups_def writing_def dest!: UpdateDocument_ok split: sum.splits prod.splits)
  have bal: "balance_at g s1 = balance_at g s" using frame(1) by (simp add: balance_at_def wallet_at_def wallets_of_def fun_eq_iff)
  have "ledger_sum g s1 (tu_UserID t) WalletMoney = ledger_sum g s (tu_UserID t) WalletMoney + a"
    by (simp add: ledger_sum_snoc [OF en] y)
  then have "a \<noteq> 0 \<and> balance_at g s (tu_UserID t) WalletMoney = ledger_sum g s (tu_UserID t) WalletMoney
            \<longrightarrow> balance_at g s1 (tu_UserID t) WalletMoney \<noteq> ledger_sum g s1 (tu_UserID t) WalletMoney"
    unfolding bal by auto
  with frame(1) d ta en y top show ?thesis by blast
qed

lemma transfer_effect:
  assumes e: "se_scope e = g" and run: "AdminTransfer e u x s = (Inr b, s3)"
  shows "bs_wallets s3 = bs_wallets s \<and> bs_topups s3 = bs_topups s
     \<and> (\<exists>m y n z. entries_of g s3 = entries_of g s @ [(m, y), (n, z)]
        \<and> le_UserID y = u \<and> wallet_kind_of (xq_FromWallet x) = Some (le_Wallet y) \<and> le_AmountCents y = - xq_AmountCents x
        \<and> le_UserID z = u \<and> wallet_kind_of (xq_ToWallet x) = Some (le_Wallet z) \<and> le_AmountCents z = xq_AmountCents x
        \<and> le_Wallet y \<noteq> le_Wallet z)"
proof -
  obtain y z m n s2 where
    ins: "insert_entry e ''insert debit'' 0 y s = (Inr m, s2)" "insert_entry e ''insert credit'' 1 z s2 = (Inr n, s3)"
    and y: "le_UserID y = u" "wallet_kind_of (xq_FromWallet x) = Some (le_Wallet y)" "le_AmountCents y = - xq_AmountCents x"
    and z: "le_UserID z = u" "wallet_kind_of (xq_ToWallet x) = Some (le_Wallet z)" "le_AmountCents z = xq_AmountCents x"
    and yz: "le_Wallet y \<noteq> le_Wallet z"
    using run by (auto simp: AdminTransfer_def Let_def split: if_splits option.splits)
  note w = insert_entry_ok [OF ins(1) e] insert_entry_ok [OF ins(2) e]
  have "entries_of g s3 = entries_of g s @ [(m, y), (n, z)]" using w by simp
  with w y z yz show ?thesis by auto
qed

text \<open>C39. The administration writes the ledger without the service, so nothing it grants or takes reaches a
  wallet. An approved top-up completes its document and puts its amount into the ledger; an adjustment
  adds exactly one entry of its amount, a transfer exactly two, of the amount taken from the one wallet
  and given to the other; and the wallets are what they were. Where a wallet agreed with the sum of its
  ledger, it no longer does after the approval of an amount other than zero.\<close>

theorem approved_topup_reaches_no_wallet:
  assumes e: "se_scope e = g"
  shows "(AdminApproveTopUp e i s = (Inr a, s1) \<longrightarrow>
       bs_wallets s1 = bs_wallets s
     \<and> (\<exists>d \<in> set (bs_topups s). \<exists>t j y. doc_Data d = Some t \<and> doc_ID d = i \<and> tu_AmountCents t = a
        \<and> entries_of g s1 = entries_of g s @ [(j, y)] \<and> le_UserID y = tu_UserID t \<and> le_Wallet y = WalletMoney \<and> le_AmountCents y = a
        \<and> bs_topups s1 = map (\<lambda>d. if doc_visible e d \<and> doc_ID d = i
            then d\<lparr>doc_Data := Some (t\<lparr>tu_Status := TopUpCompleted, tu_CompletedAt := Some (env_now e)\<rparr>), doc_UpdatedAt := env_dbnow e\<rparr>
            else d) (bs_topups s)
        \<and> (a \<noteq> 0 \<and> balance_at g s (tu_UserID t) WalletMoney = ledger_sum g s (tu_UserID t) WalletMoney
            \<longrightarrow> balance_at g s1 (tu_UserID t) WalletMoney \<noteq> ledger_sum g s1 (tu_UserID t) WalletMoney)))
    \<and> (AdminAdjust e u q s = (Inr l, s2) \<longrightarrow>
       bs_wallets s2 = bs_wallets s \<and> bs_topups s2 = bs_topups s
     \<and> (\<exists>y. entries_of g s2 = entries_of g s @ [(l, y)] \<and> le_UserID y = u \<and> wallet_kind_of (aq_WalletKind q) = Some (le_Wallet y)
        \<and> le_AmountCents y = aq_AmountCents q))
    \<and> (AdminTransfer e u x s = (Inr b, s3) \<longrightarrow>
       bs_wallets s3 = bs_wallets s \<and> bs_topups s3 = bs_topups s
     \<and> (\<exists>m y n z. entries_of g s3 = entries_of g s @ [(m, y), (n, z)]
        \<and> le_UserID y = u \<and> wallet_kind_of (xq_FromWallet x) = Some (le_Wallet y) \<and> le_AmountCents y = - xq_AmountCents x
        \<and> le_UserID z = u \<and> wallet_kind_of (xq_ToWallet x) = Some (le_Wallet z) \<and> le_AmountCents z = xq_AmountCents x
        \<and> le_Wallet y \<noteq> le_Wallet z))"
proof (intro conjI impI)
  note ok = insert_entry_ok [OF _ e]
  { assume run: "AdminApproveTopUp e i s = (Inr a, s1)"
    show "bs_wallets s1 = bs_wallets s" "\<exists>d \<in> set (bs_topups s). \<exists>t j y. doc_Data d = Some t \<and> doc_ID d = i \<and> tu_AmountCents t = a
        \<and> entries_of g s1 = entries_of g s @ [(j, y)] \<and> le_UserID y = tu_UserID t \<and> le_Wallet y = WalletMoney \<and> le_AmountCents y = a
        \<and> bs_topups s1 = map (\<lambda>d. if doc_visible e d \<and> doc_ID d = i
            then d\<lparr>doc_Data := Some (t\<lparr>tu_Status := TopUpCompleted, tu_CompletedAt := Some (env_now e)\<rparr>), doc_UpdatedAt := env_dbnow e\<rparr>
            else d) (bs_topups s)
        \<and> (a \<noteq> 0 \<and> balance_at g s (tu_UserID t) WalletMoney = ledger_sum g s (tu_UserID t) WalletMoney
            \<longrightarrow> balance_at g s1 (tu_UserID t) WalletMoney \<noteq> ledger_sum g s1 (tu_UserID t) WalletMoney)"
      using approval_effect [OF e run] by blast+ }
  { assume run: "AdminAdjust e u q s = (Inr l, s2)"
    then obtain y where "insert_entry e ''insert adjustment'' 0 y s = (Inr l, s2)" "le_UserID y = u"
      "wallet_kind_of (aq_WalletKind q) = Some (le_Wallet y)" "le_AmountCents y = aq_AmountCents q"
      by (auto simp: AdminAdjust_def split: if_splits option.splits)
    with ok [OF this(1)] show "bs_wallets s2 = bs_wallets s" "bs_topups s2 = bs_topups s"
      "\<exists>y. entries_of g s2 = entries_of g s @ [(l, y)] \<and> le_UserID y = u \<and> wallet_kind_of (aq_WalletKind q) = Some (le_Wallet y)
        \<and> le_AmountCents y = aq_AmountCents q" by blast+ }
  { assume run: "AdminTransfer e u x s = (Inr b, s3)"
    show "bs_wallets s3 = bs_wallets s" "bs_topups s3 = bs_topups s" "\<exists>m y n z. entries_of g s3 = entries_of g s @ [(m, y), (n, z)]
        \<and> le_UserID y = u \<and> wallet_kind_of (xq_FromWallet x) = Some (le_Wallet y) \<and> le_AmountCents y = - xq_AmountCents x
        \<and> le_UserID z = u \<and> wallet_kind_of (xq_ToWallet x) = Some (le_Wallet z) \<and> le_AmountCents z = xq_AmountCents x
        \<and> le_Wallet y \<noteq> le_Wallet z"
      using transfer_effect [OF e run] by blast+ }
qed

definition approved_balances :: balances where
  "approved_balances = snd (AdminApproveTopUp (shop_store ''b'' {}) ''x'' sample_balances)"

theorem approved_topup_reaches_no_wallet_witness:
  "bs_wallets approved_balances = bs_wallets sample_balances
   \<and> balance_at ''t'' approved_balances ''u'' WalletMoney \<noteq> ledger_sum ''t'' approved_balances ''u'' WalletMoney"
proof -
  have "fst (AdminApproveTopUp (shop_store ''b'' {}) ''x'' sample_balances) = Inr 300" by code_simp
  then have run: "AdminApproveTopUp (shop_store ''b'' {}) ''x'' sample_balances = (Inr 300, approved_balances)"
    unfolding approved_balances_def by (metis surjective_pairing)
  have docs: "bs_topups sample_balances = [\<lparr>doc_ID = ''x'', doc_Data = Some sample_topup,
     doc_TenantID = Some ''t'', doc_CreatedAt = 1, doc_UpdatedAt = 1\<rparr>]" "tu_UserID sample_topup = ''u''" by code_simp+
  have same: "balance_at ''t'' sample_balances ''u'' WalletMoney = ledger_sum ''t'' sample_balances ''u'' WalletMoney" by code_simp
  note eff = conjunct1 [OF approved_topup_reaches_no_wallet [OF sample_scope]]
  show ?thesis using mp [OF eff run] same unfolding docs(1) by (auto simp: docs(2))
qed

section \<open>Paging through the transactions\<close>

text \<open>A client that follows the cursors until there is none, for at most \<open>n\<close> pages.\<close>

fun all_pages :: "nat \<Rightarrow> store_env \<Rightarrow> string \<Rightarrow> string \<Rightarrow> string \<Rightarrow> balances \<Rightarrow> ledger_entry list option" where
  "all_pages 0 e uid raw cursor s = None"
| "all_pages (Suc n) e uid raw cursor s =
     (case fst (ListMyTransactions e uid raw cursor s) of
        Inl _ \<Rightarrow> None
      | Inr (es, cursor') \<Rightarrow> if cursor' = [] then Some es else map_option (\<lambda>rest. es @ rest) (all_pages n e uid raw cursor' s))"

text \<open>The entries of a user among documents, with their identifiers.\<close>

definition own_entries :: "string \<Rightarrow> ledger_entry document list \<Rightarrow> ledger_entry list" where
  "own_entries uid ds = map (\<lambda>(i, x). x\<lparr>le_ID := i\<rparr>) (filter (\<lambda>(_, x). le_UserID x = uid) (decoded ds))"

lemma own_entries_simps [simp]:
  "own_entries uid [] = []"
  "own_entries uid (d # ds) = (case doc_Data d of None \<Rightarrow> own_entries uid ds
     | Some x \<Rightarrow> if le_UserID x = uid then x\<lparr>le_ID := doc_ID d\<rparr> # own_entries uid ds else own_entries uid ds)"
  by (auto simp: own_entries_def split: option.split)

lemma own_entries_ids: "x \<in> set (own_entries uid ds) \<Longrightarrow> le_ID x \<in> doc_ID ` set ds"
  by (induction ds) (auto split: option.splits if_splits)

lemma past_cursor_drops:
  assumes "distinct (map doc_ID ds)" "n < length (own_entries uid ds)"
  shows "own_entries uid (past_cursor (le_ID (own_entries uid ds ! n)) ds) = drop (Suc n) (own_entries uid ds)"
  using assms
proof (induction ds arbitrary: n)
  case (Cons d ds)
  have other: "le_ID (own_entries uid ds ! m) \<noteq> doc_ID d" if "m < length (own_entries uid ds)" for m
    using own_entries_ids [OF nth_mem [OF that]] Cons.prems(1) by auto
  show ?case
  proof (cases "\<exists>x. doc_Data d = Some x \<and> le_UserID x = uid")
    case True
    then obtain x where x: "doc_Data d = Some x" "le_UserID x = uid" by blast
    show ?thesis
    proof (cases n)
      case (Suc m)
      then show ?thesis using Cons x other [of m] by simp
    qed (use x in simp)
  next
    case False
    then have "own_entries uid (d # ds) = own_entries uid ds" by (auto split: option.split)
    then show ?thesis using Cons other [of n] by simp
  qed
qed simp

lemma past_cursor_ids: "set (past_cursor c ds) \<subseteq> set ds"
  by (induction ds) auto

lemma past_cursor_distinct: "distinct (map doc_ID ds) \<Longrightarrow> distinct (map doc_ID (past_cursor c ds))"
  by (induction ds) auto

lemma past_cursor_twice:
  "distinct (map doc_ID ds) \<Longrightarrow> c' \<in> doc_ID ` set (past_cursor c ds) \<Longrightarrow> past_cursor c' (past_cursor c ds) = past_cursor c' ds"
proof (induction ds)
  case (Cons d ds)
  have d: "doc_ID d \<notin> doc_ID ` set ds" using Cons.prems(1) by simp
  show ?case
  proof (cases "doc_ID d = c")
    case True
    then have "c' \<in> doc_ID ` set ds" using Cons.prems(2) by simp
    then have "c' \<noteq> doc_ID d" using d by metis
    then show ?thesis using True by simp
  next
    case False
    then have c: "c' \<in> doc_ID ` set (past_cursor c ds)" using Cons.prems(2) by simp
    then have "c' \<in> doc_ID ` set ds" using past_cursor_ids by blast
    then have "c' \<noteq> doc_ID d" using d by metis
    then show ?thesis using False Cons.IH [OF _ c] Cons.prems(1) by simp
  qed
qed simp

lemma parseLimit_pos: "0 < parseLimit raw"
proof -
  have "0 < unat v" if "\<not> v \<le>s 0" for v :: int64
    using that by (metis gr0I order.refl unat_eq_zero word_sle_eq)
  then show ?thesis by (auto simp: parseLimit_def defaultLimit_def maxLimit_def split: option.split)
qed

lemma ListMyTransactions_page:
  assumes "uid \<noteq> []" "ListDocuments e ''list ledger'' (bs_ledger s) = Inr docs"
  shows "fst (ListMyTransactions e uid raw c s)
    = (let es = take (parseLimit raw) (own_entries uid (if c = [] then docs else past_cursor c docs))
       in Inr (es, if length es = parseLimit raw then le_ID (last es) else []))"
  using assms
  by (simp add: ListMyTransactions_def io_bind_def io_status_def on_ledger_def reading_def own_entries_def Let_def)

lemma pages_from:
  assumes uid: "uid \<noteq> []" and docs: "ListDocuments e ''list ledger'' (bs_ledger s) = Inr docs"
    and ids: "distinct (map doc_ID docs)" "[] \<notin> doc_ID ` set docs"
    and n: "length (own_entries uid (if c = [] then docs else past_cursor c docs)) < n"
  shows "all_pages n e uid raw c s = Some (own_entries uid (if c = [] then docs else past_cursor c docs))"
  using n
proof (induction n arbitrary: c)
  case (Suc n)
  define behind where "behind = (if c = [] then docs else past_cursor c docs)"
  let ?l = "parseLimit raw" and ?es = "own_entries uid behind"
  have sub: "set behind \<subseteq> set docs" "distinct (map doc_ID behind)"
    using past_cursor_ids past_cursor_distinct [OF ids(1)] ids(1) by (auto simp: behind_def)
  have page: "fst (ListMyTransactions e uid raw c s)
      = Inr (take ?l ?es, if ?l \<le> length ?es then le_ID (last (take ?l ?es)) else [])"
    using ListMyTransactions_page [OF uid docs, of raw c] by (simp add: behind_def Let_def min_def)
  show ?case
  proof (cases "?l \<le> length ?es")
    case False
    then show ?thesis using page by (simp add: behind_def)
  next
    case True
    have l: "?l - 1 < length ?es" "Suc (?l - 1) = ?l" using True parseLimit_pos [of raw] by auto
    have last: "last (take ?l ?es) = ?es ! (?l - 1)"
      using True parseLimit_pos [of raw] last_conv_nth [of "take ?l ?es"] by (cases ?es) (auto simp: min_def)
    let ?c = "le_ID (?es ! (?l - 1))"
    have c: "?c \<in> doc_ID ` set behind" by (rule own_entries_ids [OF nth_mem [OF l(1)]])
    then have ne: "?c \<noteq> []" using sub(1) ids(2) by auto
    have "past_cursor ?c docs = past_cursor ?c behind"
      using past_cursor_twice [OF ids(1)] c by (auto simp: behind_def)
    then have rest: "own_entries uid (past_cursor ?c docs) = drop ?l ?es"
      using past_cursor_drops [OF sub(2) l(1)] l(2) by simp
    have "all_pages n e uid raw ?c s = Some (drop ?l ?es)"
      using Suc.IH [of ?c] Suc.prems rest ne parseLimit_pos [of raw] True by (auto simp: behind_def)
    then show ?thesis using page True last ne by (simp add: behind_def)
  qed
qed simp

text \<open>C40. Following the cursors of a user's transactions comes to an end, whatever page size the client asks
  for, readable or not: after at most one more page than the user has entries it has received every entry
  of the user that decodes, once and newest first. The ledger does not change between the pages, and the
  database lists entries of the same creation time in the same order every time: the query orders by the
  creation time only.\<close>

theorem transaction_pages_end:
  assumes "uid \<noteq> []" "ListDocuments e ''list ledger'' (bs_ledger s) = Inr docs"
    and "distinct (map doc_ID docs)" "[] \<notin> doc_ID ` set docs" "length (own_entries uid docs) < n"
  shows "all_pages n e uid raw [] s = Some (own_entries uid docs)"
  using pages_from [OF assms(1-4), of "[]" n raw] assms(5) by simp

definition sample_docs :: "ledger_entry document list" where
  "sample_docs = sort_key (\<lambda>d. - doc_CreatedAt d)
     (filter (doc_visible (shop_store ''z'' {})) (bs_ledger (balance_history sample_ops sample_balances)))"

theorem transaction_pages_end_witness:
  "all_pages 5 (shop_store ''z'' {}) ''u'' ''2'' [] (balance_history sample_ops sample_balances)
     = Some (own_entries ''u'' sample_docs)
   \<and> map le_AmountCents (own_entries ''u'' sample_docs) = [1000, - 300, - 200, 200]"
proof
  show m: "map le_AmountCents (own_entries ''u'' sample_docs) = [1000, - 300, - 200, 200]" by code_simp
  have "ListDocuments (shop_store ''z'' {}) ''list ledger'' (bs_ledger (balance_history sample_ops sample_balances)) = Inr sample_docs"
    by (simp add: ListDocuments_def sample_docs_def) (simp add: shop_store_def)
  moreover have "distinct (map doc_ID sample_docs)" "[] \<notin> doc_ID ` set sample_docs" by code_simp+
  moreover have "length (own_entries ''u'' sample_docs) < 5" using arg_cong [OF m, of length] by simp
  ultimately show "all_pages 5 (shop_store ''z'' {}) ''u'' ''2'' [] (balance_history sample_ops sample_balances)
     = Some (own_entries ''u'' sample_docs)"
    by (intro transaction_pages_end) simp_all
qed

end
