(* ===== verification/Spec2Isabelle.thy ===== *)
theory Spec2Isabelle
  imports BillingValues MultiSubSpec PaymentSpec ConsumerSpec DeliverySpec ResellerProps BalanceProps
begin

text \<open>
  RemnaCore is a platform that sells VPN subscriptions: a Go monolith of domain contexts
  (\<open>internal/domain\<close>: billing, multisub, identity, payment, reseller, settings) over PostgreSQL
  repositories and a transactional outbox (\<open>internal/adapter\<close>), extended by plugins. A command changes
  aggregates and writes their events to the outbox in one transaction; the relay forwards the outbox to
  the broker; consumers turn the events of one context into commands of another (a paid invoice
  activates a subscription, an active subscription is to be provisioned on the VPN panel). This development
  models the contexts billing, multisub, payment and reseller whole, from the arithmetic of \<open>pkg/money\<close> to
  their services, with the repositories and transactions they run on; the path of an event from the outbox
  through the relay to the consumer, its dead letters and their replay; and, of the built-in plugins, the
  balance plugin on the plugins' document store.

  \<^bold>\<open>The theories\<close>, in the order of the code's layers. The base:

  \<^item> \<open>Prelude\<close>: Go results \<open>(T, error)\<close> as sums, \<open>int64\<close> as 64-bit words, slice idioms.
  \<^item> \<open>Money\<close> (\<open>pkg/money\<close>): checked arithmetic, percentages, printing. Lemmas: an operation
    succeeds exactly when the exact result fits, and then returns it.
  \<^item> \<open>GoTime\<close>: the part of Go's \<open>time\<close> package that the program uses: instants in nanoseconds, the
    proleptic Gregorian calendar, \<open>AddDate\<close> with its normalisation of overflowing days, and
    \<open>Duration.Hours()\<close> in floating point, reproduced with its rounding.
  \<^item> \<open>DomainEvent\<close> (\<open>pkg/domainevent\<close>): the event recorder. It also declares the two contracts of
    an aggregate, \<open>status_machine\<close> and \<open>event_source\<close>, joined in \<open>aggregate_root\<close>, whose lemmas speak
    of every history of attempted operations.
  \<^item> \<open>Tx\<close> (\<open>adapter/postgres/txmanager.go\<close>, \<open>pkg/pgutil\<close>): transaction bodies, \<open>RunInTx\<close>, rules for what
    a body keeps, tables as lists of rows, and the contract \<open>repository\<close> of a table of aggregates.
  \<^item> \<open>Scope\<close> (\<open>pkg/tenantctx\<close>, the tenant variable): row-level security of the tables that force it.

  Billing (\<open>internal/domain/billing\<close>):

  \<^item> \<open>BillingVO\<close> (\<open>vo\<close>, \<open>errors.go\<close>, \<open>aggregate/event_types.go\<close>), \<open>Plan\<close>, \<open>Invoice\<close>, \<open>Subscription\<close>, \<open>Family\<close>
    (\<open>aggregate\<close>): one record per aggregate, one definition per method with its guards in the order of the
    code. Each aggregate interprets \<open>aggregate_root\<close> on its own operations and proves its invariant.
  \<^item> \<open>BillingStore\<close> (the \<open>*_repo.go\<close> files, \<open>queries/billing.sql\<close>): rows, their conversions, reads and writes,
    keyset pagination; \<open>repository\<close> is interpreted on subscriptions and invoices.
  \<^item> \<open>BillingService\<close> (\<open>service\<close>): every command as a function from the database to a result, the database
    afterwards and the hooks dispatched. \<open>Checkout\<close>: checkout and scheduler.
  \<^item> \<open>BillingInvariant\<close>: all commands as one type with its interpreter \<open>exec\<close>; the invariant of the
    database, the effect on stored subscriptions, the growth of the outbox. \<open>BillingSpec\<close>, \<open>BillingValues\<close>:
    what the commands and the values do.

  Multisub (\<open>internal/domain/multisub\<close>): \<open>Binding\<close> (aggregate, calculator, usernames), \<open>BindingStore\<close>
  (\<open>multisub_repo.go\<close>, \<open>saga_repo.go\<close>), \<open>MultiSub\<close> (the sagas, the lifecycle, the orchestrator, sync and
  reconciler), \<open>MultiSubInv\<close> (every operation moves every binding along its status machine), \<open>MultiSubSpec\<close>.

  Payment (\<open>internal/domain/payment\<close>): \<open>Payment\<close> (record, webhook log), \<open>PaymentFacade\<close> (\<open>facade.go\<close>,
  \<open>payment_repo.go\<close>, the webhook endpoint), \<open>PaymentSpec\<close>.

  Reseller (\<open>internal/domain/reseller\<close>): \<open>Reseller\<close> (tenants, accounts, commissions, branding, bots),
  \<open>ResellerService\<close> (\<open>reseller_service.go\<close>, \<open>reseller_repo.go\<close>, \<open>shop_bot_repo.go\<close>, the tenant resolver),
  \<open>ResellerSpec\<close> (histories: balances and announced payments), \<open>ResellerLocks\<close> (several recordings of a
  commission at once, as a step relation with row locks), \<open>ResellerProps\<close>.

  Balance (\<open>internal/builtin/balance\<close>): \<open>Collections\<close> (the plugins' document store, \<open>collections_repo.go\<close>),
  \<open>Balance\<close> (wallets, ledger, top-ups; \<open>service.go\<close>, the payment, cashback and expiry handlers, \<open>handler.go\<close>,
  \<open>admin.go\<close>), \<open>BalanceSpec\<close> (the outcomes of an entry; histories of the plugin), \<open>BalanceProps\<close>.

  Event delivery (\<open>internal/adapter/nats\<close>, \<open>postgres/outbox_*.go\<close>):

  \<^item> \<open>Wire\<close>: JSON values of events, decoding, the schema registry. \<open>Catalog\<close>: the event catalogue entry by entry
    and the streams. \<open>Outbox\<close>: rows, queries, partitions and their manager. \<open>Relay\<close>: the pass, the worker,
    the replay of dead letters. \<open>RelaySpec\<close>: what a pass does to every row; \<open>RelayProps\<close>: histories.
  \<^item> \<open>Consumer\<close>: idempotency keys (contract \<open>key_store\<close>, interpreted on the table), retries, dead letters and
    the handlers that call multisub and billing; \<open>Panel\<close>: the panel's webhooks. \<open>ConsumerSpec\<close>,
    \<open>DeliverySpec\<close>: deliveries and their composition with relay and broker.
  \<^item> \<open>Samples\<close> and the sample environments of the other theories: concrete inputs for the witnesses.

  \<^bold>\<open>Reading of the code\<close>. A wrapped error is the sentinel it wraps. A command reads its clock, draws
  identifiers and calls plugin hooks through an environment; \<open>env_fault\<close> decides for each
  database call whether it fails, so that every theorem about commands covers every placement of
  infrastructure errors, and the constraints of the schema other than the unique keys (exclusion,
  foreign keys, checks) are among those failures, except where a command always meets one: the arrays of a
  binding (\<open>NOT NULL\<close>) and the reseller tables. A transaction runs alone, as its row locks
  make it; where the code reads without a lock and that matters, the interleaving is modelled
  (\<open>ResellerLocks\<close>), while the read-modify-write of two calls of the balance service at once is not. A
  commit that returns an error counts as rolled back. A \<open>RunInTx\<close> inside a transaction is its body. Row-level security is modelled where the schema
  forces it and the code depends on it (bindings, sagas, payments, the reseller tables, documents); the billing tables hold the rows one
  tenant sees. Third-party code is a parameter: the panel, the payment plugin, the broker client and the
  circuit breaker, with what is assumed of them named in each theorem. Identifiers are canonical UUID text,
  times are exact and in UTC, and rows that an \<open>ORDER BY\<close> leaves unordered come in insertion order, the
  same every time.

  \<^bold>\<open>What the theorems show\<close>. Billing (C1 to C9): commands are atomic and keep the aggregates' invariants
  through any history; payment, creation, renewal under any hook and upgrade do what they say, with two
  defects (C6: the plan of an upgrade is never stored; C9: any failed renewal expires the subscription); on
  stored subscriptions every command is an operation of the aggregate (C8). Multisub (C10 to C13): histories of
  bindings, what a cancellation achieves, and that the \<open>INSERT\<close> of every binding is refused (C11), so that
  every activation is dead-lettered (C13). Money (C14). Payments (C15 to C17): histories, completion by webhook,
  the first webhook decides. Consumer (C18 to C22): every message is settled, at most once, a completed
  payment settles its invoice, and a handler that outlives its deadline loses its event. Relay and outbox (C23
  to C27): what is marked published was sent, rows never disappear unsent, a healthy relay drains the
  outbox in order, an outage of ten passes dead-letters the oldest events, workers share the outbox without
  overlap. Catalogue (C28). Reseller (C29 to C33): commissions are exact, balances are sums of commissions,
  payments are announced once, a new key finds its tenant, and two overlapping sales lose a commission
  for want of a row lock (C32). Balance (C34 to C40): wallets are the sums of what the service wrote, spending
  is exact, paging ends; and the defects: a retried charge loses its identifier, a failed wallet update is
  permanent, the release of a failed hold creates money, and what the administration writes reaches
  no wallet. Further theorems without a number state the lesser facts and defects of each part.

  \<^bold>\<open>Bounds\<close>. Amounts and quantities keep their width; no claim assumes that they do not overflow
  except where it says so. The only fuels are the page counts of \<open>keyset_scan\<close> (the number of rows plus one is
  enough) and of \<open>all_pages\<close> (one more than the entries of the user is enough, C40). The lists of deliveries,
  ticks, jobs, commands and recordings of the histories are arbitrary.

  \<^bold>\<open>Not modelled\<close>: identity and settings; the plugin runtime and the other built-in plugins; HTTP routing,
  Telegram and the web front ends; logging, metrics and tracing; offset pagination and the plan writer;
  JSON text (an event is its JSON value, a document the struct it decodes to; the decoding of a hook's
  payload is left out); goroutines, tickers and entity locks (a pass or a delivery is one step).
\<close>

section \<open>Billing commands\<close>

text \<open>
  C1. A billing command that returns an error leaves the database exactly as it was and
  dispatches no asynchronous notification, whatever call failed and wherever in its transaction. The
  plugins that are asked synchronously before or within the transaction (the trial, renewal and upgrade
  hooks) may have been called by then. Of the database this assumes that a commit that returns an error
  was rolled back, which a connection lost during the commit can violate.
\<close>

theorem commands_are_atomic:
  assumes "\<not> is_ok (fst (exec env c d))"
  shows "exec env c d = (fst (exec env c d), d, [])"
  using assms by (cases "exec env c d", cases "fst (exec env c d)") (auto dest: exec_error)

lemma commands_are_atomic_witness:
  "exec (sample_env 1 1) (CmdPay ''zz'') created_db = (fst (exec (sample_env 1 1) (CmdPay ''zz'') created_db), created_db, [])"
proof -
  have "\<not> is_ok (fst (exec (sample_env 1 1) (CmdPay ''zz'') created_db))" by code_simp
  then show ?thesis by (rule commands_are_atomic)
qed

text \<open>
  C2. Through every history of billing commands, each in its own environment with its own faults
  and hook answers, the stored subscriptions and invoices satisfy the invariants of their
  aggregates, identifiers stay unique and no line item is orphaned.
\<close>

theorem stored_aggregates_stay_valid:
  assumes "db_inv d"
  shows "db_inv (exec_all cs d)"
  using assms by (rule exec_all_db_inv)

lemma stored_aggregates_stay_valid_witness:
  "db_inv (exec_all [(sample_env 0 0, CmdCreate sample_cmd), (sample_env 1 1, CmdPay ''aC'')] empty_db)"
  by (rule stored_aggregates_stay_valid [OF empty_db_inv])

text \<open>
  C3. Paying an invoice: it was a draft or pending, it is stored as paid with the payment time
  and its amount unchanged, and its subscription is active afterwards if it was in trial or past
  due (and keeps its status otherwise).
\<close>

theorem payment_settles_and_activates:
  assumes "is_ok (fst (PayInvoice env i d))"
  shows "\<exists>iv iv' s s'. inv_GetByID i d = Inr iv \<and> inv_Status iv \<in> {InvoiceDraft, InvoicePending}
    \<and> inv_GetByID i (db_after (PayInvoice env i d)) = Inr iv' \<and> inv_Status iv' = InvoicePaid
    \<and> inv_PaidAt iv' = Some (env_now env) \<and> Amount (inv_Total iv') = Amount (inv_Total iv)
    \<and> sub_GetByID (inv_SubscriptionID iv) d = Inr s
    \<and> sub_GetByID (inv_SubscriptionID iv) (db_after (PayInvoice env i d)) = Inr s'
    \<and> sub_Status s' = (if sub_Status s \<in> {StatusTrial, StatusPastDue} then StatusActive else sub_Status s)"
proof -
  obtain d' ns where "PayInvoice env i d = (Inr (), d', ns)"
    using assms by (cases "PayInvoice env i d") (auto simp: is_ok_iff)
  from PayInvoice_spec [OF this] this show ?thesis by (simp add: db_after_def)
qed

lemma payment_settles_and_activates_witness:
  "let env = sample_env 1 1; i = ''aC''; d = created_db in
   \<exists>iv iv' s s'. inv_GetByID i d = Inr iv \<and> inv_Status iv \<in> {InvoiceDraft, InvoicePending}
    \<and> inv_GetByID i (db_after (PayInvoice env i d)) = Inr iv' \<and> inv_Status iv' = InvoicePaid
    \<and> inv_PaidAt iv' = Some (env_now env) \<and> Amount (inv_Total iv') = Amount (inv_Total iv)
    \<and> sub_GetByID (inv_SubscriptionID iv) d = Inr s
    \<and> sub_GetByID (inv_SubscriptionID iv) (db_after (PayInvoice env i d)) = Inr s'
    \<and> sub_Status s' = (if sub_Status s \<in> {StatusTrial, StatusPastDue} then StatusActive else sub_Status s)"
  unfolding Let_def by (rule payment_settles_and_activates) code_simp

text \<open>
  Paying an invoice that is paid already is refused and changes nothing.
\<close>

theorem payment_is_not_repeated:
  assumes "inv_GetByID i d = Inr iv" "inv_Status iv = InvoicePaid" "\<And>l. \<not> env_fault env l"
  shows "PayInvoice env i d = (Inl ErrInvoiceAlreadyPaid, d, [])"
  using assms by (intro PayInvoice_again)

lemma payment_is_not_repeated_witness:
  "PayInvoice (sample_env 2 2) ''aC'' paid_db = (Inl ErrInvoiceAlreadyPaid, paid_db, [])"
proof -
  have "is_ok (inv_GetByID ''aC'' paid_db) \<and> inv_Status (projr (inv_GetByID ''aC'' paid_db)) = InvoicePaid"
    by code_simp
  then obtain iv where "inv_GetByID ''aC'' paid_db = Inr iv" "inv_Status iv = InvoicePaid"
    by (auto simp: is_ok_iff)
  then show ?thesis by (rule payment_is_not_repeated) simp
qed

text \<open>
  C4. A renewal that succeeds, with whatever the renewal hook answers: the subscription was active with
  an elapsed period, its period becomes the adjacent one, a pending plan change is consumed, and a draft
  invoice is stored. Its subtotal is the price of the plan in force (the pending one if there was one)
  with the subscription's addons, and its total is this subtotal, or the price the hook gives
  instead, less the discount the hook grants on the subtotal, and never negative.
\<close>

theorem renewal_moves_on_and_bills:
  assumes "db_inv d" "is_ok (fst (RenewSubscription env i d))"
  shows "\<exists>s s' p iv subtotal. sub_GetByID i d = Inr s \<and> sub_Status s = StatusActive
    \<and> bp_End (sub_Period s) \<le> env_now env
    \<and> sub_GetByID i (db_after (RenewSubscription env i d)) = Inr s' \<and> sub_Status s' = StatusActive
    \<and> sub_Period s' = Next (sub_Period s) \<and> pc_IsZero (sub_PendingChange s')
    \<and> plan_GetByID (if pc_IsZero (sub_PendingChange s) then sub_PlanID s
                    else pc_PlanID (sub_PendingChange s)) d = Inr p
    \<and> inv_GetByID (env_uuid env 1) (db_after (RenewSubscription env i d)) = Inr iv
    \<and> inv_Status iv = InvoiceDraft \<and> inv_SubscriptionID iv = i \<and> inv_UserID iv = sub_UserID s
    \<and> sint subtotal = selection_price p (sub_AddonIDs s)
    \<and> Amount (inv_Total iv) = renewal_total (renew_hook env s) subtotal"
proof -
  obtain d' ns where "RenewSubscription env i d = (Inr (), d', ns)"
    using assms(2) by (cases "RenewSubscription env i d") (auto simp: is_ok_iff)
  from RenewSubscription_spec [OF this assms(1)] this show ?thesis by (simp add: db_after_def)
qed

text \<open>A renewal hook that grants ten percent, as a built-in plugin may.\<close>

definition hooked_env :: billing_env where
  "hooked_env = (sample_env 2 month1)\<lparr>be_renewHook := Some (\<lambda>_. Some \<lparr>rr_PriceOverride = None, rr_DiscountPercent = Some 1000\<rparr>)\<rparr>"

lemma renewal_moves_on_and_bills_witness:
  "let env = hooked_env; i = ''aA''; d = paid_db in
   \<exists>s s' p iv subtotal. sub_GetByID i d = Inr s \<and> sub_Status s = StatusActive
    \<and> bp_End (sub_Period s) \<le> env_now env
    \<and> sub_GetByID i (db_after (RenewSubscription env i d)) = Inr s' \<and> sub_Status s' = StatusActive
    \<and> sub_Period s' = Next (sub_Period s) \<and> pc_IsZero (sub_PendingChange s')
    \<and> plan_GetByID (if pc_IsZero (sub_PendingChange s) then sub_PlanID s
                    else pc_PlanID (sub_PendingChange s)) d = Inr p
    \<and> inv_GetByID (env_uuid env 1) (db_after (RenewSubscription env i d)) = Inr iv
    \<and> inv_Status iv = InvoiceDraft \<and> inv_SubscriptionID iv = i \<and> inv_UserID iv = sub_UserID s
    \<and> sint subtotal = selection_price p (sub_AddonIDs s)
    \<and> Amount (inv_Total iv) = renewal_total (renew_hook env s) subtotal"
proof -
  have "is_ok (fst (RenewSubscription hooked_env ''aA'' paid_db))" by code_simp
  then show ?thesis
    unfolding Let_def by (rule renewal_moves_on_and_bills [OF paid_db_inv])
qed

text \<open>
  C5. Creating a subscription: the plan is active, has a positive price and serves the user's
  country, the user had no trial or active subscription, and afterwards a trial subscription for
  the plan's interval and a draft invoice for the plan and every requested addon are stored.
\<close>

theorem creation_stores_trial_and_invoice:
  assumes "db_inv d" "fst (CreateSubscription env x d) = Inr (s, iv)"
  shows "\<exists>p s' iv'. plan_GetByID (cc_PlanID x) d = Inr p \<and> plan_IsActive p
    \<and> 0 < sint (Amount (plan_BasePrice p))
    \<and> GetActiveByUserID (cc_UserID x) d = []
    \<and> (plan_AllowedCountries p = [] \<or> cc_UserCountry x \<in> set (plan_AllowedCountries p))
    \<and> sub_GetByID (sub_ID s) (snd (CreateSubscription env x d)) = Inr s' \<and> sub_Status s' = StatusTrial
    \<and> sub_UserID s' = cc_UserID x \<and> sub_PlanID s' = cc_PlanID x
    \<and> sub_AddonIDs s' = clean_ids {} (cc_AddonIDs x)
    \<and> sub_Period s' = NewBillingPeriod (env_now env) (plan_Interval p)
    \<and> inv_GetByID (inv_ID iv) (snd (CreateSubscription env x d)) = Inr iv' \<and> inv_Status iv' = InvoiceDraft
    \<and> inv_SubscriptionID iv' = sub_ID s \<and> inv_Total iv' = inv_Total iv
    \<and> sint (Amount (inv_Total iv)) = max 0 (selection_price p (cc_AddonIDs x))"
proof -
  obtain d' where "CreateSubscription env x d = (Inr (s, iv), d')"
    using assms(2) by (cases "CreateSubscription env x d") auto
  from CreateSubscription_spec [OF this assms(1)] this show ?thesis by simp
qed

lemma creation_stores_trial_and_invoice_witness:
  "\<exists>s iv p. fst (CreateSubscription (sample_env 0 0) sample_cmd empty_db) = Inr (s, iv)
     \<and> plan_GetByID ''p'' empty_db = Inr p
     \<and> sint (Amount (inv_Total iv)) = max 0 (selection_price p [''x''])"
proof -
  have "is_ok (fst (CreateSubscription (sample_env 0 0) sample_cmd empty_db))" by code_simp
  then obtain s iv where c: "fst (CreateSubscription (sample_env 0 0) sample_cmd empty_db) = Inr (s, iv)"
    by (auto simp: is_ok_iff)
  from creation_stores_trial_and_invoice [OF empty_db_inv this] c show ?thesis
    by (auto simp: sample_cmd_def)
qed

text \<open>
  C6. An upgrade that succeeds moves the period and announces the new plan in the outbox, while
  the stored subscription keeps its old plan: the plan column is not part of the update.
\<close>

theorem upgrade_is_announced_but_plan_not_stored:
  assumes "is_ok (fst (UpgradeSubscription env i np d))"
  shows "\<exists>s s' pl. sub_GetByID i d = Inr s \<and> sub_Status s = StatusActive \<and> sub_PlanID s \<noteq> np
    \<and> plan_GetByID np d = Inr pl \<and> plan_IsActive pl
    \<and> sub_GetByID i (db_after (UpgradeSubscription env i np d)) = Inr s' \<and> sub_PlanID s' = sub_PlanID s
    \<and> sub_Period s' = NewBillingPeriod (env_now env) (plan_Interval pl)
    \<and> (\<exists>e \<in> set (db_outbox (db_after (UpgradeSubscription env i np d))).
         ev_Data e = SubUpgraded i (sub_UserID s) (sub_PlanID s) np)"
proof -
  obtain d' ns where "UpgradeSubscription env i np d = (Inr (), d', ns)"
    using assms by (cases "UpgradeSubscription env i np d") (auto simp: is_ok_iff)
  from UpgradeSubscription_spec [OF this] this show ?thesis by (simp add: db_after_def)
qed

lemma upgrade_is_announced_but_plan_not_stored_witness:
  "let env = sample_env 2 5; i = ''aA''; np = ''q''; d = paid_db in
   \<exists>s s' pl. sub_GetByID i d = Inr s \<and> sub_Status s = StatusActive \<and> sub_PlanID s \<noteq> np
    \<and> plan_GetByID np d = Inr pl \<and> plan_IsActive pl
    \<and> sub_GetByID i (db_after (UpgradeSubscription env i np d)) = Inr s' \<and> sub_PlanID s' = sub_PlanID s
    \<and> sub_Period s' = NewBillingPeriod (env_now env) (plan_Interval pl)
    \<and> (\<exists>e \<in> set (db_outbox (db_after (UpgradeSubscription env i np d))).
         ev_Data e = SubUpgraded i (sub_UserID s) (sub_PlanID s) np)"
  unfolding Let_def by (rule upgrade_is_announced_but_plan_not_stored) code_simp

text \<open>
  C7. Through every history of commands a stored subscription stays stored, belongs to the same
  user and keeps its plan column; and once cancelled or expired it stays so.
\<close>

theorem stored_subscription_history:
  assumes "db_inv d" "sub_GetByID k d = Inr s"
  shows "\<exists>s'. sub_GetByID k (exec_all cs d) = Inr s' \<and> sub_UserID s' = sub_UserID s \<and> sub_PlanID s' = sub_PlanID s
    \<and> (sub_Status s \<in> {StatusCancelled, StatusExpired} \<longrightarrow> sub_Status s' = sub_Status s)"
proof -
  from exec_all_tracked [OF assms, of cs] obtain s' where "sub_GetByID k (exec_all cs d) = Inr s'"
    "sub_UserID s' = sub_UserID s" "sub_PlanID s' = sub_PlanID s" "sub_root.reach (sub_Status s) (sub_Status s')"
    by (auto simp: tracked_def)
  then show ?thesis by (auto dest: reach_terminal)
qed

lemma stored_subscription_history_witness:
  "\<exists>s s'. sub_GetByID ''aA'' paid_db = Inr s \<and>
     sub_GetByID ''aA'' (exec_all [(sample_env 2 5, CmdUpgrade ''aA'' ''q''), (sample_env 3 6, CmdCancel ''aA'' None)] paid_db) = Inr s'
     \<and> sub_PlanID s' = sub_PlanID s"
proof -
  have "is_ok (sub_GetByID ''aA'' paid_db)" by code_simp
  then obtain s where s: "sub_GetByID ''aA'' paid_db = Inr s" by (auto simp: is_ok_iff)
  from stored_subscription_history [OF paid_db_inv s, of "[(sample_env 2 5, CmdUpgrade ''aA'' ''q''), (sample_env 3 6, CmdCancel ''aA'' None)]"] s
  show ?thesis by blast
qed

text \<open>
  Events are never lost or reordered: every command leaves the outbox as it was or appends
  to it.
\<close>

theorem outbox_is_append_only: "\<exists>es. db_outbox (db_after (exec env c d)) = db_outbox d @ es"
  using exec_outbox by (simp add: db_after_def)

text \<open>
  C8. Every command is a refinement of the aggregate: on the stored subscriptions it does
  nothing, or writes back the result of one operation of one of them, or adds a new one.
\<close>

theorem commands_refine_aggregate_steps: "sub_effect d (db_after (exec env c d))"
  using exec_sub_effect by (simp add: db_after_def)

section \<open>Scheduler and checkout\<close>

text \<open>
  One tick of the scheduler takes at most 100 subscriptions, all active with an elapsed
  period. Each of them ends the tick renewed into the adjacent period, expired, or exactly as it
  was; every other subscription is untouched.
\<close>

theorem scheduler_tick:
  assumes "db_inv d"
  shows "length (GetExpiredActive (env_now env) SchedulerBatchSize d) \<le> 100
    \<and> (\<forall>s \<in> set (GetExpiredActive (env_now env) SchedulerBatchSize d).
         sub_Status s = StatusActive \<and> bp_End (sub_Period s) < env_now env
         \<and> (\<exists>s'. sub_GetByID (sub_ID s) (fst (processDueSubscriptions env renv eenv d)) = Inr s'
              \<and> (sub_Status s' = StatusActive \<and> sub_Period s' = Next (sub_Period s)
                 \<or> sub_Status s' = StatusExpired \<or> s' = s)))
    \<and> (\<forall>k. k \<notin> sub_ID ` set (GetExpiredActive (env_now env) SchedulerBatchSize d) \<longrightarrow>
         sub_GetByID k (fst (processDueSubscriptions env renv eenv d)) = sub_GetByID k d)"
proof (intro conjI ballI allI impI)
  note wf = db_invD(1) [OF assms]
  let ?due = "GetExpiredActive (env_now env) SchedulerBatchSize d"
  show "length ?due \<le> 100"
    using GetExpiredActive_length [of "env_now env" SchedulerBatchSize d] by (simp add: SchedulerBatchSize_def)
  fix s assume s: "s \<in> set ?due"
  show "sub_Status s = StatusActive" "bp_End (sub_Period s) < env_now env"
    using GetExpiredActive_due [OF s] by simp_all
  have st: "sub_GetByID (sub_ID s) d = Inr s" by (rule GetExpiredActive_stored [OF wf s])
  have "sub_ID s \<in> set (map sub_ID ?due)" using s by simp
  from process_each_member [OF GetExpiredActive_ids [OF wf] this st] st
  show "\<exists>s'. sub_GetByID (sub_ID s) (fst (processDueSubscriptions env renv eenv d)) = Inr s'
      \<and> (sub_Status s' = StatusActive \<and> sub_Period s' = Next (sub_Period s)
         \<or> sub_Status s' = StatusExpired \<or> s' = s)"
    by (simp add: processDueSubscriptions_def)
next
  fix k assume "k \<notin> sub_ID ` set (GetExpiredActive (env_now env) SchedulerBatchSize d)"
  then show "sub_GetByID k (fst (processDueSubscriptions env renv eenv d)) = sub_GetByID k d"
    by (simp add: processDueSubscriptions_def process_each_other)
qed

lemma scheduler_tick_witness:
  "let env = sample_env 2 (month1 + 1); d = paid_db; due = GetExpiredActive (env_now env) SchedulerBatchSize d;
       d' = fst (processDueSubscriptions env (\<lambda>j. sample_env (3 + j) (month1 + 1)) (\<lambda>j. env) d) in
   (\<exists>s. s \<in> set due) \<and> (\<forall>s \<in> set due. sub_Status s = StatusActive
      \<and> (\<exists>s'. sub_GetByID (sub_ID s) d' = Inr s'
           \<and> (sub_Status s' = StatusActive \<and> sub_Period s' = Next (sub_Period s)
              \<or> sub_Status s' = StatusExpired \<or> s' = s)))"
proof -
  have "length (GetExpiredActive (month1 + 1) SchedulerBatchSize paid_db) = 1" by code_simp
  then have "\<exists>s. s \<in> set (GetExpiredActive (month1 + 1) SchedulerBatchSize paid_db)"
    by (cases "GetExpiredActive (month1 + 1) SchedulerBatchSize paid_db") auto
  with scheduler_tick [OF paid_db_inv, of "sample_env 2 (month1 + 1)" "\<lambda>j. sample_env (3 + j) (month1 + 1)"
      "\<lambda>j. sample_env 2 (month1 + 1)"]
  show ?thesis by (auto simp: Let_def)
qed



text \<open>
  A checkout whose charge is refused by the payment gateway reports the payment error but
  leaves the trial subscription it has created: every further attempt of the same user for an
  active, priced plan is refused as already subscribed.
\<close>

theorem failed_charge_blocks_retry:
  assumes "db_inv d" "StartCheckout ce req d = (Inl (ErrPayment e), d')" "d' \<noteq> d"
    and "cc_UserID x = rq_UserID req" "plan_GetByID (cc_PlanID x) d' = Inr p" "plan_IsActive p"
      "IsPositive (plan_BasePrice p)" "\<And>l. \<not> env_fault env l"
  shows "CreateSubscription env x d' = (Inl ErrAlreadySubscribed, d')"
proof -
  obtain y s iv where y: "cc_UserID y = rq_UserID req" "CreateSubscription (ck_billing ce) y d = (Inr (s, iv), d')"
    using StartCheckout_created [OF assms(2,3)] by blast
  obtain s' where s': "sub_GetByID (sub_ID s) d' = Inr s'" "sub_Status s' = StatusTrial" "sub_UserID s' = cc_UserID y"
    using CreateSubscription_spec [OF y(2) assms(1)] by blast
  show ?thesis
    using s' y(1) assms(4-8) by (intro second_create_refused [of "sub_ID s" d' s' x p env]) simp_all
qed

definition sample_checkout :: checkout_env where
  "sample_checkout = \<lparr>ck_billing = sample_env 0 0, ck_allow = (\<lambda>_. Inr True), ck_validating = None, ck_creating = None,
     ck_pricing = None, ck_payment = (\<lambda>_. Inl ''declined''), ck_asyncHook = False\<rparr>"

definition sample_request :: checkout_request where
  "sample_request = \<lparr>rq_UserID = ''u'', rq_UserEmail = [], rq_PlanID = ''p'', rq_AddonIDs = [], rq_ReturnURL = [],
     rq_CancelURL = [], rq_UserCountry = []\<rparr>"

lemma failed_charge_blocks_retry_witness:
  "\<exists>d'. StartCheckout sample_checkout sample_request empty_db = (Inl (ErrPayment ''declined''), d')
     \<and> CreateSubscription (sample_env 1 1) sample_cmd d' = (Inl ErrAlreadySubscribed, d')"
proof -
  define d' where "d' = snd (StartCheckout sample_checkout sample_request empty_db)"
  have r: "StartCheckout sample_checkout sample_request empty_db = (Inl (ErrPayment ''declined''), d')"
  proof -
    have "fst (StartCheckout sample_checkout sample_request empty_db) = Inl (ErrPayment ''declined'')" by code_simp
    then show ?thesis by (metis d'_def prod.collapse)
  qed
  have ne: "d' \<noteq> empty_db"
  proof -
    have "length (db_subs (snd (StartCheckout sample_checkout sample_request empty_db))) = 1" by code_simp
    then show ?thesis by (auto simp: d'_def empty_db_def)
  qed
  have "is_ok (plan_GetByID ''p'' d') \<and> plan_IsActive (projr (plan_GetByID ''p'' d'))
      \<and> IsPositive (plan_BasePrice (projr (plan_GetByID ''p'' d')))"
    unfolding d'_def by code_simp
  then obtain p where p: "plan_GetByID ''p'' d' = Inr p" "plan_IsActive p" "IsPositive (plan_BasePrice p)"
    by (auto simp: is_ok_iff)
  have "CreateSubscription (sample_env 1 1) sample_cmd d' = (Inl ErrAlreadySubscribed, d')"
    by (rule failed_charge_blocks_retry [OF empty_db_inv r ne _ _ p(2,3)])
       (simp_all add: sample_cmd_def sample_request_def p(1))
  with r show ?thesis by blast
qed

lemma StartCheckout_ok:
  assumes "StartCheckout ce req d = (Inr res, d')"
  shows "\<exists>x s iv. CreateSubscription (ck_billing ce) x d = (Inr (s, iv), d') \<and> cc_UserID x = rq_UserID req
    \<and> is_ok (ck_payment ce (charge_for req s (checkout_pricing ce iv req)))
    \<and> cr_InvoiceID res = inv_ID (checkout_pricing ce iv req) \<and> cr_SubscriptionID res = sub_ID s"
proof -
  let ?x = "\<lparr>cc_UserID = rq_UserID req, cc_PlanID = rq_PlanID req,
    cc_AddonIDs = dispatchSubscriptionCreating ce req (rq_AddonIDs req), cc_UserCountry = rq_UserCountry req\<rparr>"
  from assms show ?thesis
    by (intro exI [of _ ?x])
       (auto simp: StartCheckout_def Let_def is_ok_iff split: if_splits option.splits sum.splits prod.splits)
qed

lemma checkout_pricing_fields:
  "inv_ID (checkout_pricing ce iv req) = inv_ID iv"
  "ck_pricing ce = None \<Longrightarrow> checkout_pricing ce iv req = iv"
  by (auto simp: checkout_pricing_def ApplyPricingModification_def Let_def split: option.splits sum.splits if_splits)

text \<open>
  What a successful checkout asks the payment gateway for: the charge carries the total of
  the in-memory invoice after the pricing modifier, while the stored invoice keeps the total it
  was created with. The two agree when no modifier is configured.
\<close>

theorem checkout_charges_the_modified_total:
  assumes "db_inv d" "StartCheckout ce req d = (Inr res, d')"
  shows "\<exists>s iv iv'. inv_GetByID (cr_InvoiceID res) d' = Inr iv' \<and> inv_Total iv' = inv_Total iv
    \<and> inv_Status iv' = InvoiceDraft \<and> inv_SubscriptionID iv' = cr_SubscriptionID res
    \<and> is_ok (ck_payment ce (charge_for req s (checkout_pricing ce iv req)))
    \<and> ch_Amount (charge_for req s (checkout_pricing ce iv req)) = Amount (inv_Total (checkout_pricing ce iv req))
    \<and> (ck_pricing ce = None \<longrightarrow>
         ch_Amount (charge_for req s (checkout_pricing ce iv req)) = Amount (inv_Total iv'))"
proof -
  obtain x s iv where c: "CreateSubscription (ck_billing ce) x d = (Inr (s, iv), d')"
    and r: "is_ok (ck_payment ce (charge_for req s (checkout_pricing ce iv req)))"
      "cr_InvoiceID res = inv_ID (checkout_pricing ce iv req)" "cr_SubscriptionID res = sub_ID s"
    using StartCheckout_ok [OF assms(2)] by blast
  obtain iv' where "inv_GetByID (inv_ID iv) d' = Inr iv'" "inv_Status iv' = InvoiceDraft"
    "inv_SubscriptionID iv' = sub_ID s" "inv_Total iv' = inv_Total iv"
    using CreateSubscription_spec [OF c assms(1)] by blast
  with r show ?thesis
    by (intro exI [of _ s] exI [of _ iv] exI [of _ iv']) (simp add: charge_for_def checkout_pricing_fields)
qed

definition discounted_checkout :: checkout_env where
  "discounted_checkout = sample_checkout\<lparr>ck_pricing := Some (\<lambda>_ _ _ _ _. Inr (Some \<lparr>pm_Subtotal = None, pm_Discount = Some 300, pm_Reason = ''promo''\<rparr>)),
     ck_payment := (\<lambda>c. if ch_Amount c = 200 then Inr \<lparr>cg_Provider = ''p'', cg_ExternalID = ''x'', cg_CheckoutURL = [], cg_Status = []\<rparr>
                          else Inl ''unexpected amount'')\<rparr>"

text \<open>Here 200 is charged for an invoice that is stored with a total of 500.\<close>

lemma checkout_charges_the_modified_total_witness:
  "\<exists>res d' iv'. StartCheckout discounted_checkout sample_request empty_db = (Inr res, d')
     \<and> inv_GetByID (cr_InvoiceID res) d' = Inr iv' \<and> Amount (inv_Total iv') = 500 \<and> inv_Status iv' = InvoiceDraft"
proof -
  have "is_ok (fst (StartCheckout discounted_checkout sample_request empty_db))
      \<and> Amount (inv_Total (projr (inv_GetByID (cr_InvoiceID (projr (fst (StartCheckout discounted_checkout sample_request empty_db))))
          (snd (StartCheckout discounted_checkout sample_request empty_db))))) = 500"
    by code_simp
  then obtain res d' where r: "StartCheckout discounted_checkout sample_request empty_db = (Inr res, d')"
    and t: "Amount (inv_Total (projr (inv_GetByID (cr_InvoiceID res) d'))) = 500"
    by (cases "StartCheckout discounted_checkout sample_request empty_db") (auto simp: is_ok_iff)
  from checkout_charges_the_modified_total [OF empty_db_inv r] t r show ?thesis by auto
qed

end
